(* ===== verification/Roles.thy ===== *)
theory Roles
  imports Prelude
begin

text \<open>
  The role model of \<open>internal/roles/roles.go\<close>: a role is a name with a permission map, the
  registry maps names to permission maps and starts from the five shipped roles, and a renderer
  turns a role into the permission map a provider's token request carries. What the mint path
  relies on of a renderer is the locale \<open>permission_renderer\<close>.
\<close>

type_synonym permission = string

abbreviation read_perm :: permission where "read_perm \<equiv> ''read''"
abbreviation write_perm :: permission where "write_perm \<equiv> ''write''"

type_synonym perms = "string \<rightharpoonup> permission"

record role =
  role_name :: string
  role_permissions :: perms

definition reference :: "string \<rightharpoonup> perms" where
  "reference =
     [''builder'' \<mapsto> [''contents'' \<mapsto> write_perm, ''pull_requests'' \<mapsto> write_perm, ''issues'' \<mapsto> write_perm,
                     ''workflows'' \<mapsto> write_perm],
      ''reviewer'' \<mapsto> [''pull_requests'' \<mapsto> write_perm, ''contents'' \<mapsto> read_perm],
      ''merger'' \<mapsto> [''contents'' \<mapsto> write_perm, ''pull_requests'' \<mapsto> write_perm],
      ''security'' \<mapsto> [''pull_requests'' \<mapsto> write_perm, ''contents'' \<mapsto> read_perm, ''issues'' \<mapsto> read_perm],
      ''reader'' \<mapsto> [''contents'' \<mapsto> read_perm, ''pull_requests'' \<mapsto> read_perm, ''issues'' \<mapsto> read_perm]]"

definition is_reference :: "string \<Rightarrow> bool" where
  "is_reference name \<longleftrightarrow> reference name \<noteq> None"

type_synonym role_registry = "string \<rightharpoonup> perms"

definition new_registry :: role_registry where
  "new_registry = reference"

definition registry_add :: "role_registry \<Rightarrow> string \<Rightarrow> perms \<Rightarrow> role_registry" where
  "registry_add r name ps = r(name \<mapsto> ps)"

datatype role_error = UnknownRole string

definition resolve_role :: "role_registry \<Rightarrow> string \<Rightarrow> role_error + role" where
  "resolve_role r name =
     (case r name of
        None \<Rightarrow> Inl (UnknownRole name)
      | Some ps \<Rightarrow> Inr \<lparr>role_name = name, role_permissions = ps\<rparr>)"

text \<open>\<open>githubRenderer.RenderPermissions\<close> copies the map entry by entry.\<close>

definition github_render :: "role \<Rightarrow> (string \<rightharpoonup> string)" where
  "github_render ro = (\<lambda>k. case role_permissions ro k of None \<Rightarrow> None | Some v \<Rightarrow> Some v)"

definition github_permissions :: "role \<Rightarrow> (string \<rightharpoonup> string)" where
  "github_permissions ro = github_render ro"

subsection \<open>Lemmas\<close>

lemma resolve_role_iff:
  "resolve_role r name = Inr ro \<longleftrightarrow> r name = Some (role_permissions ro) \<and> role_name ro = name"
  by (cases ro) (auto simp: resolve_role_def split: option.splits)

lemma resolve_role_name: "resolve_role r name = Inr ro \<Longrightarrow> role_name ro = name"
  by (simp add: resolve_role_iff)

lemma resolve_add_same:
  "resolve_role (registry_add r name ps) name = Inr \<lparr>role_name = name, role_permissions = ps\<rparr>"
  by (simp add: resolve_role_def registry_add_def)

lemma resolve_add_other:
  "name' \<noteq> name \<Longrightarrow> resolve_role (registry_add r name ps) name' = resolve_role r name'"
  by (simp add: resolve_role_def registry_add_def)

text \<open>Reads the configured roles into the registry one by one, as the wiring does.\<close>

lemma resolve_fold_add:
  "distinct (map fst cs) \<Longrightarrow> (name, ps) \<in> set cs \<Longrightarrow>
   resolve_role (fold (\<lambda>(n, p) r. registry_add r n p) cs r) name =
     Inr \<lparr>role_name = name, role_permissions = ps\<rparr>"
proof (induction cs arbitrary: r)
  case (Cons c cs)
  obtain n p where c: "c = (n, p)" by (cases c)
  have keep: "name \<notin> fst ` set ds \<Longrightarrow>
      resolve_role (fold (\<lambda>(n, p) r. registry_add r n p) ds q) name = resolve_role q name" for ds q
    by (induction ds arbitrary: q) (auto simp: resolve_add_other)
  show ?case using Cons c keep [of cs] by (auto simp: resolve_add_same)
qed simp

subsection \<open>The interface of a renderer\<close>

text \<open>
  The mint service hands a resolved role to a renderer and requests exactly what comes back. What
  it relies on is that rendering adds nothing to the role and drops nothing from it.
\<close>

locale permission_renderer =
  fixes render :: "role \<Rightarrow> (string \<rightharpoonup> string)"
  assumes adds_nothing: "render ro k = Some v \<Longrightarrow> role_permissions ro k = Some v"
    and drops_nothing: "role_permissions ro k = Some v \<Longrightarrow> render ro k = Some v"
begin

lemma render_eq: "render ro = role_permissions ro"
proof
  fix k
  show "render ro k = role_permissions ro k"
    using adds_nothing [of ro k] drops_nothing [of ro k]
    by (cases "role_permissions ro k"; cases "render ro k") auto
qed

lemma never_writes_unlisted:
  "role_permissions ro k \<noteq> Some write_perm \<Longrightarrow> render ro k \<noteq> Some write_perm"
  using adds_nothing by blast

lemma resolved_render:
  "resolve_role r name = Inr ro \<Longrightarrow> Some (render ro) = r name"
  by (simp add: resolve_role_iff render_eq)

end

interpretation github: permission_renderer github_render
  by unfold_locales (auto simp: github_render_def split: option.splits)

subsection \<open>The shipped roles\<close>

definition shipped :: "string set" where
  "shipped = {''builder'', ''reviewer'', ''merger'', ''security'', ''reader''}"

lemma reference_dom: "reference name = Some ps \<Longrightarrow> name \<in> shipped"
  by (auto simp: reference_def shipped_def split: if_splits)

lemma is_reference_iff: "is_reference name \<longleftrightarrow> name \<in> shipped"
  by (auto simp: is_reference_def reference_def shipped_def)

text \<open>Of the shipped roles, resolved from a fresh registry and rendered for GitHub, exactly
  builder and merger carry write permission on repository contents, and reader carries no write
  permission on anything; any name outside the five is refused.\<close>
theorem reference_roles_push:
  "(case resolve_role new_registry name of
      Inl e \<Rightarrow> e = UnknownRole name \<and> \<not> is_reference name
    | Inr ro \<Rightarrow> is_reference name
        \<and> (github_permissions ro ''contents'' = Some write_perm) = (name \<in> {''builder'', ''merger''})
        \<and> (write_perm \<in> ran (github_permissions ro)) = (name \<noteq> ''reader''))"
proof (cases "reference name")
  case None
  then show ?thesis by (simp add: resolve_role_def new_registry_def is_reference_def)
next
  case (Some ps)
  with reference_dom [OF this] show ?thesis
    unfolding shipped_def github_permissions_def github.render_eq
    by (elim insertE; simp add: resolve_role_def new_registry_def is_reference_def reference_def)
       (auto simp: ran_def split: if_splits)
qed

end
