(* ===== verification/A2aPolicy.thy ===== *)
theory A2aPolicy
  imports Prelude
begin

text \<open>
  The entitlement gate of \<open>internal/a2apolicy/a2apolicy.go\<close>: a map from attested identities
  to a caller role and the audiences that role may request. A nil \<open>*Policy\<close> is \<open>None\<close>, the
  zero policy has a nil map.
\<close>

record entitlement =
  ent_role :: string
  ent_audiences :: "string list"

fun has_audience :: "string list \<Rightarrow> string \<Rightarrow> bool" where
  "has_audience [] audience = False"
| "has_audience (a # as) audience = (if a = audience then True else has_audience as audience)"

type_synonym policy = "string \<rightharpoonup> entitlement"

definition new_policy :: "(string \<rightharpoonup> entitlement) \<Rightarrow> policy" where
  "new_policy m = m"

text \<open>The configured entries are any type with a role and a list of audiences.\<close>

definition policy_from_entries ::
    "('e \<Rightarrow> string) \<Rightarrow> ('e \<Rightarrow> string list) \<Rightarrow> (string \<times> 'e) list \<Rightarrow> policy" where
  "policy_from_entries role auds entries =
     (if entries = [] then new_policy Map.empty
      else new_policy (fold (\<lambda>(i, e) m. m(i \<mapsto> \<lparr>ent_role = role e, ent_audiences = auds e\<rparr>)) entries Map.empty))"

record denied =
  denied_identity :: string
  denied_audience :: string
  denied_role :: string

definition policy_check :: "policy option \<Rightarrow> string \<Rightarrow> string \<Rightarrow> denied + string" where
  "policy_check p ident audience =
     (case p of
        None \<Rightarrow> Inl \<lparr>denied_identity = ident, denied_audience = audience, denied_role = []\<rparr>
      | Some ents \<Rightarrow>
          (case ents ident of
             None \<Rightarrow> Inl \<lparr>denied_identity = ident, denied_audience = audience, denied_role = []\<rparr>
           | Some ent \<Rightarrow>
               if \<not> has_audience (ent_audiences ent) audience
               then Inl \<lparr>denied_identity = ident, denied_audience = audience, denied_role = ent_role ent\<rparr>
               else Inr (ent_role ent)))"

lemma has_audience_iff: "has_audience as a \<longleftrightarrow> a \<in> set as"
  by (induction as) auto

lemma policy_check_Inr:
  "policy_check p i a = Inr r \<longleftrightarrow>
     (\<exists>ents ent. p = Some ents \<and> ents i = Some ent \<and> a \<in> set (ent_audiences ent) \<and> r = ent_role ent)"
  by (auto simp: policy_check_def has_audience_iff split: option.splits)

lemma policy_check_denied_names:
  "policy_check p i a = Inl d \<Longrightarrow> denied_identity d = i \<and> denied_audience d = a"
  by (auto simp: policy_check_def split: option.splits if_splits)

lemma policy_check_empty: "policy_check (Some (new_policy Map.empty)) i a =
    Inl \<lparr>denied_identity = i, denied_audience = a, denied_role = []\<rparr>"
  by (simp add: policy_check_def new_policy_def)

lemma policy_entries_distinct:
  "distinct (map fst es) \<Longrightarrow>
   policy_from_entries role auds es i =
     map_option (\<lambda>e. \<lparr>ent_role = role e, ent_audiences = auds e\<rparr>) (map_of es i)"
proof -
  have "distinct (map fst es) \<Longrightarrow>
     fold (\<lambda>(i, e) m. m(i \<mapsto> \<lparr>ent_role = role e, ent_audiences = auds e\<rparr>)) es m i =
       (case map_of es i of None \<Rightarrow> m i | Some e \<Rightarrow> Some \<lparr>ent_role = role e, ent_audiences = auds e\<rparr>)" for m
  proof (induction es arbitrary: m)
    case (Cons x es)
    then show ?case by (cases x) (auto simp: image_iff split: option.splits dest: map_of_SomeD)
  qed simp
  then show "distinct (map fst es) \<Longrightarrow> ?thesis"
    by (auto simp: policy_from_entries_def new_policy_def split: option.splits)
qed

text \<open>The gate built from configured entries (one per identity) grants a role exactly when the
  identity has an entry that lists the requested audience, and then grants that entry's role.\<close>
theorem policy_grants_exactly_configured:
  assumes "distinct (map fst es)"
  shows "policy_check (Some (policy_from_entries role auds es)) i a = Inr r \<longleftrightarrow>
     (\<exists>e. (i, e) \<in> set es \<and> a \<in> set (auds e) \<and> r = role e)"
  using assms by (auto simp: policy_check_Inr policy_entries_distinct map_of_eq_Some_iff)

theorem policy_grants_exactly_configured_witness:
  "policy_check (Some (policy_from_entries fst snd
      [(''a'', (''peer'', [''x'', ''y''])), (''b'', (''lead'', []))])) ''a'' ''y'' = Inr ''peer''"
  by (subst policy_grants_exactly_configured) simp_all

end
