(* ===== verification/Json.thy ===== *)
theory Json
  imports Prelude
begin

text \<open>
  The part of Go's \<open>encoding/json\<close> the program uses: reading one JSON document into a generic
  value with numbers kept as their literal (\<open>UseNumber\<close>), the integer reading of such a
  literal (\<open>json.Number.Int64\<close>), member lookup, and \<open>json.Marshal\<close> of the values the
  program builds. A document is first cut into tokens and the tokens are then parsed; the parser's
  fuel is a bound on its call depth that \<open>parse_tokens_enough\<close> proves sufficient.
\<close>

datatype json =
    JNull | JBool bool | JNum string | JStr string | JArr "json list" | JObj "(string \<times> json) list"

subsection \<open>UTF-8\<close>

text \<open>The length of the valid encoding of one code point at the head of a string, else 0.\<close>

definition byte_in :: "nat \<Rightarrow> nat \<Rightarrow> nat \<Rightarrow> string \<Rightarrow> bool" where
  "byte_in i lo hi s = (case drop i s of [] \<Rightarrow> False | c # r \<Rightarrow> lo \<le> code c \<and> code c \<le> hi)"

definition rune_len :: "string \<Rightarrow> nat" where
  "rune_len s =
     (case s of
        [] \<Rightarrow> 0
      | c # q \<Rightarrow>
          (let a = code c
           in if a < 128 then 1
              else if 194 \<le> a \<and> a \<le> 223 then (if byte_in 0 128 191 q then 2 else 0)
              else if 224 \<le> a \<and> a \<le> 239 then
                (if byte_in 0 (if a = 224 then 160 else 128) (if a = 237 then 159 else 191) q
                    \<and> byte_in 1 128 191 q
                 then 3 else 0)
              else if 240 \<le> a \<and> a \<le> 244 then
                (if byte_in 0 (if a = 240 then 144 else 128) (if a = 244 then 143 else 191) q
                    \<and> byte_in 1 128 191 q \<and> byte_in 2 128 191 q
                 then 4 else 0)
              else 0))"

definition utf8_of :: "nat \<Rightarrow> string" where
  "utf8_of r =
     (if r < 0x80 then [char_of r]
      else if r < 0x800 then [char_of (0xC0 + r div 64), char_of (0x80 + r mod 64)]
      else if r < 0x10000 then
        [char_of (0xE0 + r div 4096), char_of (0x80 + r div 64 mod 64), char_of (0x80 + r mod 64)]
      else [char_of (0xF0 + r div 262144), char_of (0x80 + r div 4096 mod 64),
            char_of (0x80 + r div 64 mod 64), char_of (0x80 + r mod 64)])"

definition rune_error :: string where
  "rune_error = utf8_of 0xFFFD"

subsection \<open>String literals\<close>

definition hex_val :: "char \<Rightarrow> nat option" where
  "hex_val c =
     (if is_digit c then Some (code c - 48)
      else if 97 \<le> code c \<and> code c \<le> 102 then Some (code c - 87)
      else if 65 \<le> code c \<and> code c \<le> 70 then Some (code c - 55) else None)"

definition hex4 :: "string \<Rightarrow> nat option" where
  "hex4 s =
     (case map hex_val (take 4 s) of
        [Some a, Some b, Some c, Some d] \<Rightarrow> Some (a * 4096 + b * 256 + c * 16 + d)
      | _ \<Rightarrow> None)"

text \<open>
  The code point of a \<open>\u\<close> escape and how many further bytes it takes after the four digits:
  a high surrogate takes a following low surrogate escape, a lone surrogate is the replacement
  character.
\<close>

definition u_escape :: "nat \<Rightarrow> string \<Rightarrow> nat \<times> nat" where
  "u_escape r rest =
     (if r < 0xD800 \<or> 0xE000 \<le> r then (r, 0)
      else case (if has_prefix rest (CHR 0x5C # ''u'') then hex4 (drop 2 rest) else None) of
             Some r2 \<Rightarrow>
               if r < 0xDC00 \<and> 0xDC00 \<le> r2 \<and> r2 < 0xE000
               then (0x10000 + (r - 0xD800) * 1024 + (r2 - 0xDC00), 6) else (0xFFFD, 0)
           | None \<Rightarrow> (0xFFFD, 0))"

definition simple_escape :: "char \<Rightarrow> char option" where
  "simple_escape e =
     map_of [(CHR 0x22, CHR 0x22), (CHR 0x5C, CHR 0x5C), (CHR ''/'', CHR ''/''), (CHR ''b'', CHR 0x08),
       (CHR ''f'', CHR 0x0C), (CHR ''n'', CHR 0x0A), (CHR ''r'', CHR 0x0D), (CHR ''t'', CHR 0x09)] e"

text \<open>Reads a literal after its opening quote: the decoded text and what follows the closing quote.\<close>

function scan_string :: "string \<Rightarrow> (string \<times> string) option" where
  "scan_string [] = None"
| "scan_string (c # s) =
     (if c = CHR 0x22 then Some ([], s)
      else if c = CHR 0x5C then
        (case s of
           [] \<Rightarrow> None
         | e # r \<Rightarrow>
             (if e = CHR ''u'' then
                (case hex4 r of
                   None \<Rightarrow> None
                 | Some n \<Rightarrow> (let (cp, k) = u_escape n (drop 4 r)
                     in map_option (apfst ((@) (utf8_of cp))) (scan_string (drop (4 + k) r))))
              else case simple_escape e of
                     None \<Rightarrow> None
                   | Some d \<Rightarrow> map_option (apfst ((#) d)) (scan_string r)))
      else if code c < 32 then None
      else if rune_len (c # s) = 0 then map_option (apfst ((@) rune_error)) (scan_string s)
      else map_option (apfst ((@) (take (rune_len (c # s)) (c # s))))
             (scan_string (drop (rune_len (c # s) - 1) s)))"
  by pat_completeness auto
termination
  by (relation "measure length") auto

declare scan_string.simps [simp del]

lemma scan_string_quote: "scan_string (CHR 0x22 # s) = Some ([], s)"
  by (simp add: scan_string.simps)

lemma scan_string_u:
  "scan_string (CHR 0x5C # CHR ''u'' # r) =
     (case hex4 r of None \<Rightarrow> None
      | Some n \<Rightarrow> map_option (apfst ((@) (utf8_of (fst (u_escape n (drop 4 r))))))
          (scan_string (drop (4 + snd (u_escape n (drop 4 r))) r)))"
  by (auto simp: scan_string.simps split: option.split prod.split)

lemma scan_string_esc:
  "e \<noteq> CHR ''u'' \<Longrightarrow> scan_string (CHR 0x5C # e # r) =
     (case simple_escape e of None \<Rightarrow> None | Some d \<Rightarrow> map_option (apfst ((#) d)) (scan_string r))"
  by (simp add: scan_string.simps)

lemma scan_string_raw:
  "c \<noteq> CHR 0x22 \<Longrightarrow> c \<noteq> CHR 0x5C \<Longrightarrow> scan_string (c # s) =
     (if code c < 32 then None
      else if rune_len (c # s) = 0 then map_option (apfst ((@) rune_error)) (scan_string s)
      else map_option (apfst ((@) (take (rune_len (c # s)) (c # s))))
             (scan_string (drop (rune_len (c # s) - 1) s)))"
  by (subst scan_string.simps) simp

lemma scan_string_shorter: "scan_string s = Some (t, r) \<Longrightarrow> length r < length s"
proof (induction s arbitrary: t r rule: length_induct)
  case (1 s)
  have IH: "scan_string u = Some (t', r') \<Longrightarrow> length u < length s \<Longrightarrow> length r' < length s" for u t' r'
    using 1(1) by (meson less_trans)
  show ?case
  proof (cases s)
    case Nil
    with 1(2) show ?thesis by (simp add: scan_string.simps)
  next
    case (Cons c s')
    consider (quote) "c = CHR 0x22" | (u) r0 where "c = CHR 0x5C" "s' = CHR ''u'' # r0"
      | (esc) e r0 where "c = CHR 0x5C" "s' = e # r0" "e \<noteq> CHR ''u''" | (bad) "c = CHR 0x5C" "s' = []"
      | (raw) "c \<noteq> CHR 0x22" "c \<noteq> CHR 0x5C"
      by (cases s') auto
    then show ?thesis
    proof cases
      case quote
      with 1(2) Cons show ?thesis by (simp add: scan_string_quote)
    next
      case u
      with 1(2) Cons show ?thesis by (auto simp: scan_string_u split: option.splits dest!: IH)
    next
      case esc
      with 1(2) Cons show ?thesis by (auto simp: scan_string_esc split: option.splits dest!: IH)
    next
      case bad
      with 1(2) Cons show ?thesis by (simp add: scan_string.simps)
    next
      case raw
      with 1(2) Cons show ?thesis by (auto simp: scan_string_raw split: if_splits dest!: IH)
    qed
  qed
qed

subsection \<open>Number literals\<close>

definition scan_digits :: "string \<Rightarrow> string \<times> string" where
  "scan_digits s = (takeWhile is_digit s, dropWhile is_digit s)"

definition scan_frac :: "string \<Rightarrow> (string \<times> string) option" where
  "scan_frac s =
     (case s of
        c # r \<Rightarrow>
          if c = CHR ''.'' then
            (let (ds, r') = scan_digits r in if ds = [] then None else Some (c # ds, r'))
          else Some ([], s)
      | [] \<Rightarrow> Some ([], s))"

definition scan_exp :: "string \<Rightarrow> (string \<times> string) option" where
  "scan_exp s =
     (case s of
        c # r \<Rightarrow>
          if c = CHR ''e'' \<or> c = CHR ''E'' then
            (let (sg, r1) = (case r of d # r2 \<Rightarrow> if d = CHR ''+'' \<or> d = CHR ''-'' then ([d], r2) else ([], r)
                             | [] \<Rightarrow> ([], r));
                 (ds, r') = scan_digits r1
             in if ds = [] then None else Some (c # sg @ ds, r'))
          else Some ([], s)
      | [] \<Rightarrow> Some ([], s))"

definition scan_number :: "string \<Rightarrow> (string \<times> string) option" where
  "scan_number s =
     (let (sg, s1) = (case s of c # r \<Rightarrow> if c = CHR ''-'' then ([c], r) else ([], s) | [] \<Rightarrow> ([], s))
      in case s1 of
           [] \<Rightarrow> None
         | c # r \<Rightarrow>
             if \<not> is_digit c then None
             else let (ds, s2) = (if c = CHR ''0'' then ([c], r) else scan_digits s1)
               in (case scan_frac s2 of None \<Rightarrow> None
                   | Some (f, s3) \<Rightarrow> (case scan_exp s3 of None \<Rightarrow> None
                       | Some (e, s4) \<Rightarrow> Some (sg @ ds @ f @ e, s4))))"

lemma scan_digits_le: "scan_digits s = (d, r) \<Longrightarrow> length r \<le> length s"
  by (auto simp: scan_digits_def length_dropWhile_le)

lemma scan_frac_le: "scan_frac s = Some (d, r) \<Longrightarrow> length r \<le> length s"
  by (auto simp: scan_frac_def split: list.splits if_splits prod.splits dest: scan_digits_le)

lemma scan_exp_le: "scan_exp s = Some (d, r) \<Longrightarrow> length r \<le> length s"
  by (auto simp: scan_exp_def split: list.splits if_splits prod.splits dest!: scan_digits_le)

lemma scan_number_shorter: "scan_number s = Some (d, r) \<Longrightarrow> length r < length s"
proof -
  have dg: "is_digit c \<Longrightarrow> scan_digits (c # s) = (d, r) \<Longrightarrow> length r \<le> length s" for c s d r
    by (auto simp: scan_digits_def length_dropWhile_le)
  show "scan_number s = Some (d, r) \<Longrightarrow> length r < length s"
    by (auto simp: scan_number_def Let_def split: list.splits if_splits prod.splits option.splits
          dest!: scan_frac_le scan_exp_le dg)
qed

subsection \<open>Tokens\<close>

datatype token =
    TLBrace | TRBrace | TLBrack | TRBrack | TColon | TComma | TTrue | TFalse | TNull
  | TNum string | TStr string

definition punct :: "char \<Rightarrow> token option" where
  "punct c = map_of [(CHR 0x7B, TLBrace), (CHR 0x7D, TRBrace), (CHR 0x5B, TLBrack), (CHR 0x5D, TRBrack),
     (CHR '':'', TColon), (CHR '','', TComma)] c"

definition json_space :: "char \<Rightarrow> bool" where
  "json_space c \<longleftrightarrow> c = CHR 0x20 \<or> c = CHR 0x09 \<or> c = CHR 0x0A \<or> c = CHR 0x0D"

text \<open>One token at the head of a string that does not start with white space.\<close>

definition token_at :: "string \<Rightarrow> (token \<times> string) option" where
  "token_at s =
     (case s of
        [] \<Rightarrow> None
      | c # r \<Rightarrow>
          (case punct c of
             Some t \<Rightarrow> Some (t, r)
           | None \<Rightarrow>
               if c = CHR 0x22 then map_option (apfst TStr) (scan_string r)
               else if has_prefix s ''true'' then Some (TTrue, drop 4 s)
               else if has_prefix s ''false'' then Some (TFalse, drop 5 s)
               else if has_prefix s ''null'' then Some (TNull, drop 4 s)
               else map_option (apfst TNum) (scan_number s)))"

lemma token_at_shorter: "token_at s = Some (t, r) \<Longrightarrow> length r < length s"
  by (auto simp: token_at_def split: list.splits option.splits if_splits
        dest!: scan_string_shorter dest: scan_number_shorter)

function tokens :: "string \<Rightarrow> token list option" where
  "tokens [] = Some []"
| "tokens (c # s) =
     (if json_space c then tokens s
      else case token_at (c # s) of
             None \<Rightarrow> None
           | Some (t, r) \<Rightarrow> map_option ((#) t) (tokens r))"
  by pat_completeness auto
termination
  by (relation "measure length") (auto dest: token_at_shorter)

declare tokens.simps(2) [simp del]

subsection \<open>Documents\<close>

definition max_depth :: nat where
  "max_depth = 10000"

definition next_is :: "token \<Rightarrow> token list \<Rightarrow> bool" where
  "next_is t ts \<longleftrightarrow> take 1 ts = [t]"

fun key_at :: "token list \<Rightarrow> (string \<times> token list) option" where
  "key_at (TStr k # TColon # r) = Some (k, r)"
| "key_at ts = None"

definition scalar :: "token \<Rightarrow> json option" where
  "scalar t =
     (case t of TNull \<Rightarrow> Some JNull | TTrue \<Rightarrow> Some (JBool True) | TFalse \<Rightarrow> Some (JBool False)
      | TNum s \<Rightarrow> Some (JNum s) | TStr s \<Rightarrow> Some (JStr s) | _ \<Rightarrow> None)"

fun p_val :: "nat \<Rightarrow> nat \<Rightarrow> token list \<Rightarrow> (json \<times> token list) option"
  and p_arr :: "nat \<Rightarrow> nat \<Rightarrow> token list \<Rightarrow> (json list \<times> token list) option"
  and p_obj :: "nat \<Rightarrow> nat \<Rightarrow> token list \<Rightarrow> ((string \<times> json) list \<times> token list) option"
where
  "p_val 0 d ts = None"
| "p_val (Suc n) d [] = None"
| "p_val (Suc n) d (t # r) =
     (if t = TLBrack then
        (if max_depth \<le> d then None
         else if next_is TRBrack r then Some (JArr [], tl r)
         else map_option (apfst JArr) (p_arr n (Suc d) r))
      else if t = TLBrace then
        (if max_depth \<le> d then None
         else if next_is TRBrace r then Some (JObj [], tl r)
         else map_option (apfst JObj) (p_obj n (Suc d) r))
      else map_option (\<lambda>v. (v, r)) (scalar t))"
| "p_arr 0 d ts = None"
| "p_arr (Suc n) d ts =
     (case p_val n d ts of
        None \<Rightarrow> None
      | Some (v, r) \<Rightarrow>
          if next_is TRBrack r then Some ([v], tl r)
          else if next_is TComma r then map_option (apfst ((#) v)) (p_arr n d (tl r))
          else None)"
| "p_obj 0 d ts = None"
| "p_obj (Suc n) d ts =
     (case key_at ts of
        None \<Rightarrow> None
      | Some (k, r0) \<Rightarrow>
          (case p_val n d r0 of
             None \<Rightarrow> None
           | Some (v, r) \<Rightarrow>
               if next_is TRBrace r then Some ([(k, v)], tl r)
               else if next_is TComma r then map_option (apfst ((#) (k, v))) (p_obj n d (tl r))
               else None))"

definition parse_tokens :: "token list \<Rightarrow> json option" where
  "parse_tokens ts =
     (case p_val (2 * length ts + 1) 0 ts of Some (v, []) \<Rightarrow> Some v | _ \<Rightarrow> None)"

text \<open>Exactly one JSON value, white space around it allowed.\<close>

definition json_parse :: "string \<Rightarrow> json option" where
  "json_parse s = (case tokens s of None \<Rightarrow> None | Some ts \<Rightarrow> parse_tokens ts)"

subsection \<open>The parser's fuel is enough\<close>

lemma p_step:
  "p_val n d ts = Some z \<Longrightarrow> p_val (Suc n) d ts = Some z"
  "p_arr n d ts = Some z1 \<Longrightarrow> p_arr (Suc n) d ts = Some z1"
  "p_obj n d ts = Some z2 \<Longrightarrow> p_obj (Suc n) d ts = Some z2"
proof (induction n d ts and n d ts and n d ts arbitrary: z and z1 and z2
    rule: p_val_p_arr_p_obj.induct)
  case (3 n d t r)
  then show ?case by (auto split: if_splits simp del: p_arr.simps p_obj.simps)
next
  case (5 n d ts)
  then show ?case
    by (subst p_arr.simps) (fastforce split: option.splits if_splits simp del: p_arr.simps p_val.simps
      simp: p_arr.simps(2) [of n])
next
  case (7 n d ts)
  then show ?case
    by (subst p_obj.simps) (fastforce split: option.splits if_splits simp del: p_obj.simps p_val.simps
      simp: p_obj.simps(2) [of n])
qed auto

lemma next_isD: "next_is t r \<Longrightarrow> \<exists>r'. r = t # r'"
  by (cases r) (auto simp: next_is_def)

lemma key_at_shorter: "key_at ts = Some (k, r) \<Longrightarrow> length ts = length r + 2"
  by (induction ts rule: key_at.induct) auto

lemma p_val_mono: "p_val n d ts = Some z \<Longrightarrow> n \<le> m \<Longrightarrow> p_val m d ts = Some z"
  by (induction m) (auto simp: le_Suc_eq simp del: p_val.simps intro: p_step)
lemma p_arr_mono: "p_arr n d ts = Some z \<Longrightarrow> n \<le> m \<Longrightarrow> p_arr m d ts = Some z"
  by (induction m) (auto simp: le_Suc_eq simp del: p_arr.simps intro: p_step)
lemma p_obj_mono: "p_obj n d ts = Some z \<Longrightarrow> n \<le> m \<Longrightarrow> p_obj m d ts = Some z"
  by (induction m) (auto simp: le_Suc_eq simp del: p_obj.simps intro: p_step)

text \<open>A value of \<open>k\<close> tokens needs fuel \<open>2 * k - 1\<close>, a member list \<open>2 * k\<close>.\<close>

lemma p_arr_Suc_D:
  assumes "p_arr (Suc n) d ts = Some (vs, r1)"
  obtains v where "p_val n d ts = Some (v, TRBrack # r1)" "vs = [v]"
  | v r ws where "p_val n d ts = Some (v, TComma # r)" "p_arr n d r = Some (ws, r1)" "vs = v # ws"
  using assms by (auto split: option.splits if_splits dest!: next_isD)

lemma p_obj_Suc_D:
  assumes "p_obj (Suc n) d ts = Some (ms, r1)"
  obtains k r0 v where "key_at ts = Some (k, r0)" "p_val n d r0 = Some (v, TRBrace # r1)" "ms = [(k, v)]"
  | k r0 v r ws where "key_at ts = Some (k, r0)" "p_val n d r0 = Some (v, TComma # r)"
      "p_obj n d r = Some (ws, r1)" "ms = (k, v) # ws"
  using assms by (auto split: option.splits if_splits dest!: next_isD)

lemma p_val_Suc_D:
  assumes "p_val (Suc n) d ts = Some (v, r)"
  obtains t where "ts = t # r" "t \<noteq> TLBrack" "t \<noteq> TLBrace" "scalar t = Some v"
  | "ts = TLBrack # TRBrack # r" "v = JArr []" "d < max_depth"
  | "ts = TLBrace # TRBrace # r" "v = JObj []" "d < max_depth"
  | q vs where "ts = TLBrack # q" "p_arr n (Suc d) q = Some (vs, r)" "v = JArr vs" "d < max_depth" "\<not> next_is TRBrack q"
  | q ms where "ts = TLBrace # q" "p_obj n (Suc d) q = Some (ms, r)" "v = JObj ms" "d < max_depth" "\<not> next_is TRBrace q"
  using assms by (cases ts) (auto split: if_splits dest!: next_isD)

lemma p_enough:
  "p_val n d ts = Some (v, r) \<Longrightarrow> length r < length ts \<and>
     p_val (2 * (length ts - length r) - 1) d ts = Some (v, r)"
  "p_arr n d ts = Some (vs, r1) \<Longrightarrow> length r1 < length ts \<and>
     p_arr (2 * (length ts - length r1)) d ts = Some (vs, r1)"
  "p_obj n d ts = Some (ms, r2) \<Longrightarrow> length r2 < length ts \<and>
     p_obj (2 * (length ts - length r2)) d ts = Some (ms, r2)"
proof (induction n arbitrary: d ts v r vs r1 ms r2)
  case 0
  { case 1 then show ?case by simp next case 2 then show ?case by simp next case 3 then show ?case by simp }
next
  case (Suc n)
  {
    case 1
    then show ?case
    proof (cases rule: p_val_Suc_D)
      case (4 q vs)
      from Suc.IH(2) [OF 4(2)] have a: "length r < length q"
        and b: "p_arr (2 * (length q - length r)) (Suc d) q = Some (vs, r)" by auto
      have "2 * (length ts - length r) - 1 = Suc (2 * (length q - length r))" using 4(1) a by auto
      then show ?thesis using a b 4 by (simp only: p_val.simps) simp
    next
      case (5 q ms)
      from Suc.IH(3) [OF 5(2)] have a: "length r < length q"
        and b: "p_obj (2 * (length q - length r)) (Suc d) q = Some (ms, r)" by auto
      have "2 * (length ts - length r) - 1 = Suc (2 * (length q - length r))" using 5(1) a by auto
      then show ?thesis using a b 5 by (simp only: p_val.simps) simp
    qed (simp_all add: next_is_def Suc_diff_le numeral_3_eq_3)
  next
    case 2
    then show ?case
    proof (cases rule: p_arr_Suc_D)
      case (1 v)
      from Suc.IH(1) [OF 1(1)] have a: "length r1 + 2 \<le> length ts"
        and b: "p_val (2 * (length ts - length (TRBrack # r1)) - 1) d ts = Some (v, TRBrack # r1)" by auto
      obtain m where m: "2 * (length ts - length r1) = Suc m" using a by (cases "2 * (length ts - length r1)") auto
      have "p_val m d ts = Some (v, TRBrack # r1)"
        using b by (rule p_val_mono) (use m in auto)
      with 1 m a show ?thesis by (auto simp: next_is_def)
    next
      case (2 v r ws)
      from Suc.IH(1) [OF 2(1)] Suc.IH(2) [OF 2(2)] have a: "length r + 2 \<le> length ts" "length r1 < length r"
        and b: "p_val (2 * (length ts - length (TComma # r)) - 1) d ts = Some (v, TComma # r)"
        and c: "p_arr (2 * (length r - length r1)) d r = Some (ws, r1)" by auto
      obtain m where m: "2 * (length ts - length r1) = Suc m" using a by (cases "2 * (length ts - length r1)") auto
      have "p_val m d ts = Some (v, TComma # r)" using b by (rule p_val_mono) (use m a in auto)
      moreover have "p_arr m d r = Some (ws, r1)" using c by (rule p_arr_mono) (use m a in auto)
      ultimately show ?thesis using 2 m a by (auto simp: next_is_def)
    qed
  next
    case 3
    then show ?case
    proof (cases rule: p_obj_Suc_D)
      case (1 k r0 v)
      from Suc.IH(1) [OF 1(2)] key_at_shorter [OF 1(1)] have a: "length r2 + 4 \<le> length ts"
        and b: "p_val (2 * (length r0 - length (TRBrace # r2)) - 1) d r0 = Some (v, TRBrace # r2)"
        and l: "length ts = length r0 + 2" by auto
      obtain m where m: "2 * (length ts - length r2) = Suc m" using a by (cases "2 * (length ts - length r2)") auto
      have "p_val m d r0 = Some (v, TRBrace # r2)" using b by (rule p_val_mono) (use m l a in auto)
      with 1 m a show ?thesis by (auto simp: next_is_def)
    next
      case (2 k r0 v r ws)
      from Suc.IH(1) [OF 2(2)] Suc.IH(3) [OF 2(3)] key_at_shorter [OF 2(1)]
      have a: "length r + 4 \<le> length ts" "length r2 < length r"
        and b: "p_val (2 * (length r0 - length (TComma # r)) - 1) d r0 = Some (v, TComma # r)"
        and c: "p_obj (2 * (length r - length r2)) d r = Some (ws, r2)"
        and l: "length ts = length r0 + 2" by auto
      obtain m where m: "2 * (length ts - length r2) = Suc m" using a by (cases "2 * (length ts - length r2)") auto
      have "p_val m d r0 = Some (v, TComma # r)" using b by (rule p_val_mono) (use m a l in auto)
      moreover have "p_obj m d r = Some (ws, r2)" using c by (rule p_obj_mono) (use m a in auto)
      ultimately show ?thesis using 2 m a by (auto simp: next_is_def)
    qed
  }
qed

lemma parse_tokens_enough:
  "p_val n 0 ts = Some (v, []) \<Longrightarrow> parse_tokens ts = Some v"
  using p_enough(1) [of n 0 ts v "[]"] p_val_mono [of "2 * length ts - 1" 0 ts "(v, [])" "2 * length ts + 1"]
  by (auto simp: parse_tokens_def)

subsection \<open>Integers\<close>

definition digit_char :: "nat \<Rightarrow> char" where
  "digit_char n = char_of (48 + n)"

fun show_nat :: "nat \<Rightarrow> string" where
  "show_nat n = (if n < 10 then [digit_char n] else show_nat (n div 10) @ [digit_char (n mod 10)])"

definition show_int :: "int \<Rightarrow> string" where
  "show_int i = (if i < 0 then CHR ''-'' # show_nat (nat (- i)) else show_nat (nat i))"

definition digits_val :: "string \<Rightarrow> nat" where
  "digits_val s = foldl (\<lambda>a c. 10 * a + (code c - 48)) 0 s"

text \<open>\<open>strconv.ParseInt\<close> in base 10 and 64 bits, which \<open>json.Number.Int64\<close> is.\<close>

definition int64_range :: "int \<Rightarrow> bool" where
  "int64_range i \<longleftrightarrow> - (2 ^ 63) \<le> i \<and> i < 2 ^ 63"

definition parse_int64 :: "string \<Rightarrow> int option" where
  "parse_int64 s =
     (let (neg, ds) =
        (case s of c # r \<Rightarrow> if c = CHR ''-'' then (True, r) else if c = CHR ''+'' then (False, r) else (False, s)
         | [] \<Rightarrow> (False, []));
          v = (if neg then - int (digits_val ds) else int (digits_val ds))
      in if ds \<noteq> [] \<and> list_all is_digit ds \<and> int64_range v then Some v else None)"

declare show_nat.simps [simp del]

lemma code_digit_char [simp]: "n < 10 \<Longrightarrow> code (digit_char n) = 48 + n"
  by (simp add: digit_char_def code_def)

lemma is_digit_digit_char [simp]: "n < 10 \<Longrightarrow> is_digit (digit_char n)"
  by (simp add: is_digit_def)

lemma show_nat_digits: "list_all is_digit (show_nat n) \<and> show_nat n \<noteq> []"
  by (induction n rule: show_nat.induct) (subst (1 2) show_nat.simps, auto)

lemma digits_val_show_nat: "digits_val (show_nat n) = n"
proof (induction n rule: show_nat.induct)
  case (1 n)
  then show ?case by (subst show_nat.simps) (auto simp: digits_val_def)
qed

lemma show_nat_inj: "show_nat m = show_nat n \<Longrightarrow> m = n"
  by (metis digits_val_show_nat)

lemma show_nat_zero: "hd (show_nat n) = CHR ''0'' \<Longrightarrow> n = 0"
proof (induction n rule: show_nat.induct)
  case (1 n)
  show ?case
  proof (cases "n < 10")
    case True
    with 1(2) have "code (digit_char n) = 48"
      by (subst (asm) show_nat.simps) (simp add: code_def)
    with True show ?thesis by simp
  next
    case False
    then have "hd (show_nat n) = hd (show_nat (n div 10))"
      using show_nat_digits by (subst show_nat.simps) simp
    with 1 False show ?thesis by auto
  qed
qed

lemma parse_show_int: "int64_range i \<Longrightarrow> parse_int64 (show_int i) = Some i"
proof -
  assume i: "int64_range i"
  have d: "list_all is_digit (show_nat n)" "show_nat n \<noteq> []" for n using show_nat_digits by auto
  show ?thesis
  proof (cases "i < 0")
    case True
    with i d show ?thesis by (simp add: parse_int64_def show_int_def digits_val_show_nat)
  next
    case False
    obtain c r where c: "show_nat (nat i) = c # r" using d(2) by (cases "show_nat (nat i)") auto
    then have "is_digit c" and "list_all is_digit (c # r)" using d(1) [of "nat i"] by auto
    moreover from this(1) have "c \<noteq> CHR ''-''" "c \<noteq> CHR ''+''" by (auto simp: char_class_defs)
    ultimately show ?thesis using False i c digits_val_show_nat [of "nat i"]
      by (auto simp: parse_int64_def show_int_def)
  qed
qed

subsection \<open>Encoding\<close>

definition hex_digit :: "nat \<Rightarrow> char" where
  "hex_digit n = (if n < 10 then char_of (48 + n) else char_of (87 + n))"

definition short_escape :: "char \<Rightarrow> char option" where
  "short_escape c =
     map_of [(CHR 0x22, CHR 0x22), (CHR 0x5C, CHR 0x5C), (CHR 0x08, CHR ''b''),
       (CHR 0x0C, CHR ''f''), (CHR 0x0A, CHR ''n''), (CHR 0x0D, CHR ''r''), (CHR 0x09, CHR ''t'')] c"

text \<open>\<open>json.Marshal\<close> of one ASCII byte of a string, HTML escaping included.\<close>

definition enc_ascii :: "char \<Rightarrow> string" where
  "enc_ascii c =
     (case short_escape c of
        Some e \<Rightarrow> [CHR 0x5C, e]
      | None \<Rightarrow>
          if code c < 32 \<or> c = CHR ''<'' \<or> c = CHR ''>'' \<or> c = CHR ''&''
          then CHR 0x5C # ''u00'' @ [hex_digit (code c div 16), hex_digit (code c mod 16)] else [c])"

function enc_body :: "string \<Rightarrow> string" where
  "enc_body [] = []"
| "enc_body (c # s) =
     (if code c < 128 then enc_ascii c @ enc_body s
      else if rune_len (c # s) = 0 then CHR 0x5C # ''ufffd'' @ enc_body s
      else (if take (rune_len (c # s)) (c # s) = utf8_of 0x2028 then CHR 0x5C # ''u2028''
            else if take (rune_len (c # s)) (c # s) = utf8_of 0x2029 then CHR 0x5C # ''u2029''
            else take (rune_len (c # s)) (c # s))
           @ enc_body (drop (rune_len (c # s) - 1) s))"
  by pat_completeness auto
termination
  by (relation "measure length") auto

declare enc_body.simps(2) [simp del]

definition enc_string :: "string \<Rightarrow> string" where
  "enc_string s = CHR 0x22 # enc_body s @ [CHR 0x22]"

function utf8_valid :: "string \<Rightarrow> bool" where
  "utf8_valid [] = True"
| "utf8_valid (c # s) =
     (rune_len (c # s) \<noteq> 0 \<and> utf8_valid (drop (rune_len (c # s) - 1) s))"
  by pat_completeness auto
termination
  by (relation "measure length") auto

declare utf8_valid.simps(2) [simp del]

fun json_encode :: "json \<Rightarrow> string" where
  "json_encode JNull = ''null''"
| "json_encode (JBool b) = (if b then ''true'' else ''false'')"
| "json_encode (JNum s) = s"
| "json_encode (JStr s) = enc_string s"
| "json_encode (JArr vs) = CHR 0x5B # join_with '','' (map json_encode vs) @ [CHR 0x5D]"
| "json_encode (JObj ms) =
     CHR 0x7B # join_with '','' (map (\<lambda>(k, v). enc_string k @ CHR '':'' # json_encode v) ms) @ [CHR 0x7D]"


subsection \<open>What is encoded is read back\<close>


lemma hex_val_digit [simp]: "n < 16 \<Longrightarrow> hex_val (hex_digit n) = Some n"
  by (auto simp: hex_val_def hex_digit_def char_class_defs)

lemma enc_ascii_scan:
  assumes "code c < 128"
  shows "scan_string (enc_ascii c @ s) = map_option (apfst ((#) c)) (scan_string s)"
proof (cases "short_escape c")
  case (Some e)
  then have "e \<noteq> CHR ''u''" and "simple_escape e = Some c"
    by (auto simp: short_escape_def simple_escape_def split: if_splits)
  with Some show ?thesis by (simp add: enc_ascii_def scan_string_esc)
next
  case None
  then have raw: "c \<noteq> CHR 0x22" "c \<noteq> CHR 0x5C" by (auto simp: short_escape_def)
  have u: "char_of (code c) = c" by (simp add: code_def)
  show ?thesis
  proof (cases "code c < 32 \<or> c = CHR ''<'' \<or> c = CHR ''>'' \<or> c = CHR ''&''")
    case True
    have z: "hex_val (CHR ''0'') = Some 0" by (simp add: hex_val_def char_class_defs)
    have "hex4 (CHR ''0'' # CHR ''0'' # hex_digit (code c div 16) # hex_digit (code c mod 16) # s) = Some (code c)"
      using assms by (simp add: hex4_def z)
    moreover have "utf8_of (code c) = [c]" using assms u by (simp add: utf8_of_def)
    moreover have "u_escape (code c) s = (code c, 0)" using assms by (simp add: u_escape_def)
    ultimately show ?thesis using None True
      by (simp add: enc_ascii_def scan_string_u)
        (cases "scan_string s"; simp add: apfst_def map_prod_def split: prod.split)
  next
    case False
    moreover from assms have "rune_len (c # s) = 1" by (simp add: rune_len_def)
    ultimately show ?thesis using None raw
      by (simp add: enc_ascii_def scan_string_raw)
        (cases "scan_string s"; simp add: apfst_def map_prod_def split: prod.split)
  qed
qed

lemma byte_in_take: "byte_in i lo hi s \<Longrightarrow> i < m \<Longrightarrow> byte_in i lo hi (take m s @ t)"
  by (cases "drop i s") (auto simp: byte_in_def drop_take take_Cons' split: list.splits)

lemma byte_in_length: "byte_in i lo hi s \<Longrightarrow> i < length s"
  by (auto simp: byte_in_def split: list.splits) (metis drop_all linorder_not_less list.distinct(1))

lemma rune_len_le: "rune_len s \<le> length s"
  by (auto simp: rune_len_def Let_def Suc_le_eq split: list.splits dest!: byte_in_length)

lemma rune_len_take:
  assumes "rune_len s = k" and "k \<noteq> 0"
  shows "rune_len (take k s @ t) = k"
proof -
  obtain a q where s: "s = a # q" using assms by (cases s) (auto simp: rune_len_def)
  obtain m where k: "k = Suc m" using assms by (cases k) auto
  have "m = 0 \<or> m = 1 \<or> m = 2 \<or> m = 3"
    using assms k s by (auto simp: rune_len_def Let_def split: if_splits)
  then show ?thesis
    using assms unfolding s k
    by (elim disjE) (auto simp: rune_len_def Let_def split: if_splits intro: byte_in_take simp del: take_append)
qed


lemma scan_multibyte:
  assumes "rune_len (c # s) = k" and "k \<noteq> 0" and "\<not> code c < 128"
  shows "scan_string (take k (c # s) @ t) = map_option (apfst ((@) (take k (c # s)))) (scan_string t)"
proof -
  obtain m where k: "k = Suc m" using assms(2) by (cases k) auto
  have "rune_len (c # take m s @ t) = Suc m" using rune_len_take [OF assms(1,2), of t] k by simp
  moreover have "c \<noteq> CHR 0x22" "c \<noteq> CHR 0x5C" "\<not> code c < 32" using assms(3) by (auto simp: code_def)
  moreover have "m \<le> length s" using rune_len_le [of "c # s"] assms(1) k by simp
  ultimately show ?thesis using k by (simp add: scan_string_raw)
qed

lemma scan_line_separator:
  "scan_string (CHR 0x5C # ''u2028'' @ t) = map_option (apfst ((@) (utf8_of 0x2028))) (scan_string t)"
  "scan_string (CHR 0x5C # ''u2029'' @ t) = map_option (apfst ((@) (utf8_of 0x2029))) (scan_string t)"
  by (simp_all add: scan_string_u hex4_def hex_val_def char_class_defs u_escape_def)

lemma scan_enc_body:
  "utf8_valid s \<Longrightarrow> scan_string (enc_body s @ CHR 0x22 # r) = Some (s, r)"
proof (induction s rule: enc_body.induct)
  case 1
  then show ?case by (simp add: scan_string_quote)
next
  case (2 c s)
  show ?case
  proof (cases "code c < 128")
    case True
    then have "rune_len (c # s) = 1" by (simp add: rune_len_def)
    with 2 True show ?thesis
      by (simp add: enc_body.simps(2) utf8_valid.simps(2) enc_ascii_scan)
  next
    case False
    define k where "k = rune_len (c # s)"
    have v: "k \<noteq> 0" "utf8_valid (drop (k - 1) s)"
      using 2(4) by (simp_all add: utf8_valid.simps(2) k_def)
    then have ih: "scan_string (enc_body (drop (k - 1) s) @ CHR 0x22 # r) = Some (drop (k - 1) s, r)"
      using 2(3) False unfolding k_def by simp
    have tk: "take k (c # s) @ drop (k - 1) s = c # s" using v(1) by (cases k) auto
    have enc: "enc_body (c # s) =
        (if take k (c # s) = utf8_of 0x2028 then CHR 0x5C # ''u2028''
         else if take k (c # s) = utf8_of 0x2029 then CHR 0x5C # ''u2029'' else take k (c # s))
        @ enc_body (drop (k - 1) s)"
      using False v(1) unfolding k_def by (subst enc_body.simps) simp
    show ?thesis
      using scan_multibyte [of c s k] scan_line_separator ih tk v(1) False
      unfolding enc by (auto simp flip: k_def simp del: take_Suc_Cons)
  qed
qed

lemma scan_enc_string: "utf8_valid s \<Longrightarrow> scan_string (tl (enc_string s @ r)) = Some (s, r)"
  by (simp add: enc_string_def scan_enc_body)

text \<open>Values whose numbers are decimal integers and whose strings are valid UTF-8.\<close>

fun encodable :: "json \<Rightarrow> bool" where
  "encodable (JNum s) = (\<exists>i. s = show_int i)"
| "encodable (JStr s) = utf8_valid s"
| "encodable (JArr vs) = (\<forall>v \<in> set vs. encodable v)"
| "encodable (JObj ms) = (\<forall>(k, v) \<in> set ms. utf8_valid k \<and> encodable v)"
| "encodable _ = True"

fun fits :: "nat \<Rightarrow> json \<Rightarrow> bool" where
  "fits d (JArr vs) = (d < max_depth \<and> (\<forall>v \<in> set vs. fits (Suc d) v))"
| "fits d (JObj ms) = (d < max_depth \<and> (\<forall>(k, v) \<in> set ms. fits (Suc d) v))"
| "fits d _ = True"

fun sep_toks :: "token list list \<Rightarrow> token list" where
  "sep_toks [] = []"
| "sep_toks [t] = t"
| "sep_toks (t # r) = t @ TComma # sep_toks r"

fun toks :: "json \<Rightarrow> token list" where
  "toks JNull = [TNull]"
| "toks (JBool b) = [if b then TTrue else TFalse]"
| "toks (JNum s) = [TNum s]"
| "toks (JStr s) = [TStr s]"
| "toks (JArr vs) = TLBrack # sep_toks (map toks vs) @ [TRBrack]"
| "toks (JObj ms) = TLBrace # sep_toks (map (\<lambda>(k, v). TStr k # TColon # toks v) ms) @ [TRBrace]"


definition stops :: "string \<Rightarrow> bool" where
  "stops r \<longleftrightarrow> (case r of [] \<Rightarrow> True | c # _ \<Rightarrow> c = CHR '','' \<or> c = CHR 0x5D \<or> c = CHR 0x7D)"

lemma scan_number_show_nat:
  assumes "stops r"
  shows "scan_number (show_nat n @ r) = Some (show_nat n, r)"
proof -
  obtain c w where c: "show_nat n = c # w" using show_nat_digits by (cases "show_nat n") auto
  then have d: "list_all is_digit (c # w)" using show_nat_digits [of n] by simp
  then have m: "c \<noteq> CHR ''-''" by (auto simp: char_class_defs)
  have r: "takeWhile is_digit r = [] \<and> dropWhile is_digit r = r \<and> scan_frac r = Some ([], r) \<and> scan_exp r = Some ([], r)"
    using assms by (cases r) (auto simp: stops_def scan_frac_def scan_exp_def char_class_defs)
  have tw: "takeWhile is_digit (w @ r) = w" "dropWhile is_digit (w @ r) = r"
    using d r by (simp_all add: takeWhile_append dropWhile_append list_all_iff)
  have z: "c = CHR ''0'' \<Longrightarrow> w = []"
    using show_nat_zero [of n] c by (auto simp: show_nat.simps)
  show ?thesis using c d m r tw z
    by (auto simp: scan_number_def Let_def scan_digits_def split: prod.splits)
qed

lemma scan_number_show_int: "stops r \<Longrightarrow> scan_number (show_int i @ r) = Some (show_int i, r)"
proof -
  assume r: "stops r"
  obtain c w where c: "show_nat (nat (- i)) = c # w" using show_nat_digits by (cases "show_nat (nat (- i))") auto
  then have "is_digit c" using show_nat_digits [of "nat (- i)"] by simp
  then have "c \<noteq> CHR ''-''" by (auto simp: char_class_defs)
  then show ?thesis
    using scan_number_show_nat [OF r, of "nat (- i)"] scan_number_show_nat [OF r, of "nat i"] c
    by (auto simp: show_int_def scan_number_def split: option.splits prod.splits if_splits)
qed

lemma tokens_punct:
  "tokens (CHR 0x5B # r) = map_option ((#) TLBrack) (tokens r)"
  "tokens (CHR 0x5D # r) = map_option ((#) TRBrack) (tokens r)"
  "tokens (CHR 0x7B # r) = map_option ((#) TLBrace) (tokens r)"
  "tokens (CHR 0x7D # r) = map_option ((#) TRBrace) (tokens r)"
  "tokens (CHR '','' # r) = map_option ((#) TComma) (tokens r)"
  "tokens (CHR '':'' # r) = map_option ((#) TColon) (tokens r)"
  by (simp_all add: tokens.simps(2) json_space_def token_at_def punct_def)

lemma tokens_enc_string:
  "utf8_valid s \<Longrightarrow> tokens (enc_string s @ r) = map_option ((#) (TStr s)) (tokens r)"
  by (simp add: enc_string_def tokens.simps(2) json_space_def token_at_def punct_def scan_enc_body)

lemma tokens_show_int:
  assumes "stops r"
  shows "tokens (show_int i @ r) = map_option ((#) (TNum (show_int i))) (tokens r)"
proof -
  obtain c w where c: "show_int i = c # w" "is_digit c \<or> c = CHR ''-''"
    using show_nat_digits [of "nat i"] show_nat_digits [of "nat (- i)"]
    by (cases "show_int i") (auto simp: show_int_def split: if_splits)
  from c(2) have "\<not> json_space c" "punct c = None" "c \<noteq> CHR 0x22" "c \<noteq> CHR ''t''" "c \<noteq> CHR ''f''" "c \<noteq> CHR ''n''"
    by (auto simp: char_class_defs json_space_def punct_def)
  with c(1) scan_number_show_int [OF assms, of i] show ?thesis
    by (simp add: tokens.simps(2) token_at_def)
qed

lemma tokens_words:
  "tokens (''null'' @ r) = map_option ((#) TNull) (tokens r)"
  "tokens (''true'' @ r) = map_option ((#) TTrue) (tokens r)"
  "tokens (''false'' @ r) = map_option ((#) TFalse) (tokens r)"
  by (simp_all add: tokens.simps(2) token_at_def json_space_def punct_def)

lemma tokens_separated:
  assumes "\<And>x r. x \<in> set xs \<Longrightarrow> stops r \<Longrightarrow> tokens (f x @ r) = map_option ((@) (g x)) (tokens r)"
    and "stops r"
  shows "tokens (join_with '','' (map f xs) @ r) = map_option ((@) (sep_toks (map g xs))) (tokens r)"
  using assms(1)
proof (induction xs)
  case Nil
  then show ?case by (cases "tokens r") auto
next
  case (Cons x xs)
  show ?case
  proof (cases xs)
    case Nil
    then show ?thesis using Cons.prems [of x r] assms(2) by simp
  next
    case (Cons y ys)
    have "tokens (f x @ CHR '','' # join_with '','' (map f xs) @ r) =
        map_option ((@) (g x)) (tokens (CHR '','' # join_with '','' (map f xs) @ r))"
      by (rule Cons.prems) (simp_all add: stops_def)
    then show ?thesis
      using Cons.IH Cons.prems Cons
      by (simp add: tokens_punct option.map_comp comp_def)
  qed
qed

lemma tokens_object:
  assumes "\<And>k v q. (k, v) \<in> set ms \<Longrightarrow> stops q \<Longrightarrow>
      utf8_valid k \<and> tokens (json_encode v @ q) = map_option ((@) (toks v)) (tokens q)"
  shows "tokens (json_encode (JObj ms) @ r) = map_option ((@) (toks (JObj ms))) (tokens r)"
proof -
  have "tokens (join_with '','' (map (\<lambda>(k, v). enc_string k @ CHR '':'' # json_encode v) ms) @ CHR 0x7D # r) =
      map_option ((@) (sep_toks (map (\<lambda>(k, v). TStr k # TColon # toks v) ms))) (tokens (CHR 0x7D # r))"
  proof (rule tokens_separated)
    fix x q
    assume x: "x \<in> set ms" and q: "stops q"
    obtain k v where "x = (k, v)" by (cases x)
    then show "tokens ((case x of (k, v) \<Rightarrow> enc_string k @ CHR '':'' # json_encode v) @ q) =
        map_option ((@) (case x of (k, v) \<Rightarrow> TStr k # TColon # toks v)) (tokens q)"
      using x q assms [of k v q]
      by (cases "tokens q") (auto simp: tokens_enc_string tokens_punct option.map_comp comp_def)
  qed (simp add: stops_def)
  then show ?thesis by (cases "tokens r") (simp_all add: tokens_punct option.map_comp comp_def)
qed

lemma tokens_json_encode:
  "encodable v \<Longrightarrow> stops r \<Longrightarrow> tokens (json_encode v @ r) = map_option ((@) (toks v)) (tokens r)"
proof (induction v arbitrary: r)
  case (JArr vs)
  have "tokens (join_with '','' (map json_encode vs) @ CHR 0x5D # r) =
      map_option ((@) (sep_toks (map toks vs))) (tokens (CHR 0x5D # r))"
    by (rule tokens_separated) (use JArr in \<open>auto simp: stops_def\<close>)
  then show ?case by (simp add: tokens_punct option.map_comp comp_def)
next
  case (JObj ms)
  show ?case
  proof (rule tokens_object)
    fix k v q
    assume "(k, v) \<in> set ms" "stops q"
    with JObj.IH [of "(k, v)" v q] bspec [OF JObj.prems(1) [unfolded encodable.simps], of "(k, v)"]
    show "utf8_valid k \<and> tokens (json_encode v @ q) = map_option ((@) (toks v)) (tokens q)" by auto
  qed
qed (auto simp: tokens_words [simplified] tokens_enc_string tokens_show_int
        intro!: option.map_cong)


subsection \<open>Parsing the tokens of a value\<close>

lemma toks_not_close: "toks v \<noteq> [] \<and> hd (toks v) \<noteq> TRBrack \<and> hd (toks v) \<noteq> TRBrace"
  by (cases v) auto

lemma p_arr_toks:
  assumes "\<And>v r. v \<in> set vs \<Longrightarrow> \<exists>n. p_val n d (toks v @ r) = Some (v, r)" and "vs \<noteq> []"
  shows "\<exists>n. p_arr n d (sep_toks (map toks vs) @ TRBrack # r) = Some (vs, r)"
  using assms
proof (induction vs)
  case (Cons v vs)
  show ?case
  proof (cases vs)
    case Nil
    from Cons.prems(1) [of v "TRBrack # r"] obtain n where "p_val n d (toks v @ TRBrack # r) = Some (v, TRBrack # r)"
      by auto
    with Nil have "p_arr (Suc n) d (sep_toks (map toks (v # vs)) @ TRBrack # r) = Some (v # vs, r)"
      by (simp add: next_is_def)
    then show ?thesis ..
  next
    case (Cons w ws)
    let ?r = "sep_toks (map toks vs) @ TRBrack # r"
    obtain n where n: "p_arr n d ?r = Some (vs, r)"
      using Cons.IH Cons.prems(1) Cons by auto
    obtain m where m: "p_val m d (toks v @ TComma # ?r) = Some (v, TComma # ?r)"
      using Cons.prems(1) [of v "TComma # ?r"] by auto
    have "p_arr (Suc (max n m)) d (toks v @ TComma # ?r) = Some (v # vs, r)"
      using p_arr_mono [OF n, of "max n m"] p_val_mono [OF m, of "max n m"] by (simp add: next_is_def)
    then have "p_arr (Suc (max n m)) d (sep_toks (map toks (v # vs)) @ TRBrack # r) = Some (v # vs, r)"
      using Cons by (simp del: p_arr.simps)
    then show ?thesis ..
  qed
qed simp

lemma p_obj_toks:
  assumes "\<And>k v r. (k, v) \<in> set ms \<Longrightarrow> \<exists>n. p_val n d (toks v @ r) = Some (v, r)" and "ms \<noteq> []"
  shows "\<exists>n. p_obj n d (sep_toks (map (\<lambda>(k, v). TStr k # TColon # toks v) ms) @ TRBrace # r) = Some (ms, r)"
  using assms
proof (induction ms)
  case (Cons x ms)
  obtain k v where x: "x = (k, v)" by (cases x)
  show ?case
  proof (cases ms)
    case Nil
    from Cons.prems(1) [of k v "TRBrace # r"] x obtain n
      where "p_val n d (toks v @ TRBrace # r) = Some (v, TRBrace # r)" by auto
    with Nil x have "p_obj (Suc n) d (sep_toks (map (\<lambda>(k, v). TStr k # TColon # toks v) (x # ms)) @ TRBrace # r)
        = Some (x # ms, r)"
      by (simp add: next_is_def)
    then show ?thesis ..
  next
    case (Cons w ws)
    let ?r = "sep_toks (map (\<lambda>(k, v). TStr k # TColon # toks v) ms) @ TRBrace # r"
    have "\<exists>n. p_obj n d ?r = Some (ms, r)"
      by (rule Cons.IH) (use Cons.prems(1) Cons in auto)
    then obtain n where n: "p_obj n d ?r = Some (ms, r)" ..
    obtain m where m: "p_val m d (toks v @ TComma # ?r) = Some (v, TComma # ?r)"
      using Cons.prems(1) [of k v "TComma # ?r"] x by auto
    have "p_obj (Suc (max n m)) d (TStr k # TColon # toks v @ TComma # ?r) = Some (x # ms, r)"
      using p_obj_mono [OF n, of "max n m"] p_val_mono [OF m, of "max n m"] x by (simp add: next_is_def)
    then have "p_obj (Suc (max n m)) d (sep_toks (map (\<lambda>(k, v). TStr k # TColon # toks v) (x # ms)) @ TRBrace # r)
        = Some (x # ms, r)"
      using Cons x by (simp del: p_obj.simps)
    then show ?thesis ..
  qed
qed simp

lemma sep_toks_hd:
  "ts \<noteq> [] \<Longrightarrow> hd ts \<noteq> [] \<Longrightarrow> sep_toks ts \<noteq> [] \<and> hd (sep_toks ts) = hd (hd ts)"
  by (induction ts rule: sep_toks.induct) auto

lemma next_is_append: "xs \<noteq> [] \<Longrightarrow> next_is t (xs @ r) = (hd xs = t)"
  by (cases xs) (auto simp: next_is_def)

lemma p_val_toks: "fits d v \<Longrightarrow> \<exists>n. p_val n d (toks v @ r) = Some (v, r)"
proof (induction v arbitrary: d r)
  case (JArr vs)
  show ?case
  proof (cases "vs = []")
    case True
    with JArr.prems have "p_val (Suc 0) d (toks (JArr vs) @ r) = Some (JArr vs, r)"
      by (simp add: next_is_def)
    then show ?thesis ..
  next
    case False
    have "\<exists>n. p_arr n (Suc d) (sep_toks (map toks vs) @ TRBrack # r) = Some (vs, r)"
      by (rule p_arr_toks) (use JArr False in auto)
    then obtain n where n: "p_arr n (Suc d) (sep_toks (map toks vs) @ TRBrack # r) = Some (vs, r)" ..
    obtain w ws where "vs = w # ws" using False by (cases vs) auto
    then have "\<not> next_is TRBrack (sep_toks (map toks vs) @ TRBrack # r)"
      using toks_not_close [of w] sep_toks_hd [of "map toks vs"] by (simp add: next_is_append)
    with n JArr.prems have "p_val (Suc n) d (toks (JArr vs) @ r) = Some (JArr vs, r)" by simp
    then show ?thesis ..
  qed
next
  case (JObj ms)
  show ?case
  proof (cases "ms = []")
    case True
    with JObj.prems have "p_val (Suc 0) d (toks (JObj ms) @ r) = Some (JObj ms, r)"
      by (simp add: next_is_def)
    then show ?thesis ..
  next
    case False
    let ?ts = "sep_toks (map (\<lambda>(k, v). TStr k # TColon # toks v) ms)"
    have "\<exists>n. p_obj n (Suc d) (?ts @ TRBrace # r) = Some (ms, r)"
      by (rule p_obj_toks) (use JObj False in fastforce)+
    then obtain n where n: "p_obj n (Suc d) (?ts @ TRBrace # r) = Some (ms, r)" ..
    obtain w ws where "ms = w # ws" using False by (cases ms) auto
    then have "\<not> next_is TRBrace (?ts @ TRBrace # r)"
      using sep_toks_hd [of "map (\<lambda>(k, v). TStr k # TColon # toks v) ms"]
      by (cases w) (simp add: next_is_append)
    with n JObj.prems have "p_val (Suc n) d (toks (JObj ms) @ r) = Some (JObj ms, r)" by simp
    then show ?thesis ..
  qed
qed (rule exI [of _ 1], simp add: scalar_def)+

lemma json_parse_encode:
  assumes "encodable v" and "fits 0 v"
  shows "json_parse (json_encode v) = Some v"
proof -
  have "tokens (json_encode v) = Some (toks v)"
    using tokens_json_encode [OF assms(1), of "[]"] by (simp add: stops_def)
  moreover obtain n where "p_val n 0 (toks v) = Some (v, [])"
    using p_val_toks [OF assms(2), of "[]"] by auto
  ultimately show ?thesis by (simp add: json_parse_def parse_tokens_enough)
qed

subsection \<open>The size of an encoding\<close>

text \<open>An object may be followed by anything that holds no token.\<close>

lemma json_parse_object_then:
  assumes "encodable (JObj ms)" and "fits 0 (JObj ms)" and "tokens r = Some []"
  shows "json_parse (json_encode (JObj ms) @ r) = Some (JObj ms)"
proof -
  have "tokens (json_encode (JObj ms) @ r) = map_option ((@) (toks (JObj ms))) (tokens r)"
    by (rule tokens_object) (use assms(1) tokens_json_encode in auto)
  moreover obtain n where "p_val n 0 (toks (JObj ms)) = Some (JObj ms, [])"
    using p_val_toks [OF assms(2), of "[]"] by auto
  ultimately show ?thesis
    using assms(3) by (simp add: json_parse_def parse_tokens_enough del: json_encode.simps)
qed

lemma enc_ascii_length: "length (enc_ascii c) \<le> 6"
  by (auto simp: enc_ascii_def split: option.splits)

lemma enc_body_length: "length (enc_body s) \<le> 6 * length s"
proof (induction s rule: enc_body.induct)
  case (2 c s)
  show ?case
  proof (cases "code c < 128")
    case True
    with 2(1) enc_ascii_length [of c] show ?thesis by (simp add: enc_body.simps(2))
  next
    case False
    show ?thesis
    proof (cases "rune_len (c # s) = 0")
      case True
      with False 2(2) show ?thesis by (simp add: enc_body.simps(2))
    next
      case nz: False
      have l: "rune_len (c # s) \<le> Suc (length s)" using rune_len_le [of "c # s"] by simp
      have "length (enc_body (drop (rune_len (c # s) - 1) s)) \<le> 6 * (length s - (rune_len (c # s) - 1))"
        using 2(3) [OF False nz] by simp
      with False nz l show ?thesis by (subst enc_body.simps) auto
    qed
  qed
qed simp

fun enc_bound :: "json \<Rightarrow> nat" where
  "enc_bound JNull = 4"
| "enc_bound (JBool b) = 5"
| "enc_bound (JNum s) = length s"
| "enc_bound (JStr s) = 6 * length s + 2"
| "enc_bound (JArr vs) = 2 + sum_list (map (\<lambda>v. enc_bound v + 1) vs)"
| "enc_bound (JObj ms) = 2 + sum_list (map (\<lambda>(k, v). 6 * length k + enc_bound v + 4) ms)"

lemma join_length: "length (join_with '','' ws) \<le> sum_list (map (\<lambda>w. length w + 1) ws)"
  by (induction "'',''" ws rule: join_with.induct) auto

lemma sum_list_le: "(\<And>x. x \<in> set xs \<Longrightarrow> f x \<le> (g x :: nat)) \<Longrightarrow> sum_list (map f xs) \<le> sum_list (map g xs)"
  by (rule sum_list_mono)

lemma json_encode_length: "length (json_encode v) \<le> enc_bound v"
proof (induction v)
  case (JStr s)
  then show ?case using enc_body_length [of s] by (simp add: enc_string_def)
next
  case (JArr vs)
  have "length (join_with '','' (map json_encode vs)) \<le> sum_list (map (\<lambda>w. length w + 1) (map json_encode vs))"
    by (rule join_length)
  also have "\<dots> \<le> sum_list (map (\<lambda>v. enc_bound v + 1) vs)"
    unfolding map_map by (rule sum_list_mono) (use JArr in auto)
  finally show ?case by simp
next
  case (JObj ms)
  let ?f = "\<lambda>(k, v). enc_string k @ CHR '':'' # json_encode v"
  have "length (join_with '','' (map ?f ms)) \<le> sum_list (map (\<lambda>w. length w + 1) (map ?f ms))"
    by (rule join_length)
  also have "\<dots> \<le> sum_list (map (\<lambda>(k, v). 6 * length k + enc_bound v + 4) ms)"
    unfolding map_map
  proof (rule sum_list_mono)
    fix x
    assume x: "x \<in> set ms"
    obtain k v where "x = (k, v)" by (cases x)
    with x JObj.IH [of x v] enc_body_length [of k]
    show "((\<lambda>w. length w + 1) \<circ> ?f) x \<le> (case x of (k, v) \<Rightarrow> 6 * length k + enc_bound v + 4)"
      by (auto simp: enc_string_def)
  qed
  finally show ?case by simp
qed auto

subsection \<open>Member lookup\<close>

text \<open>
  Unmarshalling into a map keeps the last member of a name. Unmarshalling into a struct also
  matches names that differ only by case folding, in document order, later members overwriting
  earlier ones.
\<close>

fun lookup :: "string \<Rightarrow> (string \<times> json) list \<Rightarrow> json option" where
  "lookup k ms = map_of (rev ms) k"

definition lower_char :: "char \<Rightarrow> char" where
  "lower_char c = (if is_upper c then char_of (code c + 32) else c)"

text \<open>\<open>foldName\<close>: ASCII case, the long s (U+017F) and the Kelvin sign (U+212A).\<close>

fun fold_key :: "string \<Rightarrow> string" where
  "fold_key (c # d # r) =
     (if code c = 0xC5 \<and> code d = 0xBF then CHR ''s'' # fold_key r
      else if code c = 0xE2 \<and> code d = 0x84 \<and> take 1 r = [char_of (0xAA::nat)] then CHR ''k'' # fold_key (tl r)
      else lower_char c # fold_key (d # r))"
| "fold_key s = map lower_char s"

lemma fold_key_lower: "list_all is_lower s \<Longrightarrow> fold_key s = s"
proof (induction s rule: fold_key.induct)
  case (1 c d r)
  then have "is_lower c" "\<not> code c = 0xC5" "\<not> code c = 0xE2" by (auto simp: char_class_defs)
  then show ?case using 1 by (auto simp: lower_char_def char_class_defs)
qed (auto simp: lower_char_def char_class_defs)

declare fold_key.simps [simp del] lookup.simps [simp del]

definition field_values :: "string \<Rightarrow> (string \<times> json) list \<Rightarrow> json list" where
  "field_values name ms = map snd (filter (\<lambda>(k, v). fold_key k = fold_key name) ms)"

text \<open>
  A string field decoded over its old value: every value given for it must be a string or null,
  a null leaves the field as it is, and the last string is what it holds.
\<close>

definition string_field :: "string \<Rightarrow> string \<Rightarrow> (string \<times> json) list \<Rightarrow> string option" where
  "string_field old name ms =
     (let vs = field_values name ms
      in if list_all (\<lambda>v. case v of JStr s \<Rightarrow> True | JNull \<Rightarrow> True | _ \<Rightarrow> False) vs
         then Some (fold (\<lambda>v acc. case v of JStr s \<Rightarrow> s | _ \<Rightarrow> acc) vs old) else None)"

end
