(* ===== verification/Host.thy ===== *)
theory Host
  imports Json
begin

text \<open>
  What a process sees of its host, as the program reads it: environment, files, the clock, its
  own user. Each field is a function of the request, so two reads of one path through different
  calls may disagree, as they may while another process changes the file system between them.
\<close>

datatype io_err = NotExist | SymLoop | NotDirectory | OtherIo string

datatype file_kind = RegularFile | Directory | SymLink | OtherKind

record file_info =
  fi_kind :: file_kind
  fi_perm :: nat
  fi_uid :: nat

definition mode_0700 :: nat where "mode_0700 = 7 * 64"

text \<open>The bits for group and other write, \<open>0o022\<close>.\<close>

definition group_or_other_write :: "nat \<Rightarrow> bool" where
  "group_or_other_write perm \<longleftrightarrow> perm div 16 mod 2 = 1 \<or> perm div 2 mod 2 = 1"

record host =
  h_env :: "string \<Rightarrow> string option"
  h_lstat :: "string \<Rightarrow> io_err + file_info"
  h_read :: "string \<Rightarrow> io_err + string"
  h_open_dir :: "string \<Rightarrow> io_err + (io_err + file_info)"
  h_openat :: "string \<Rightarrow> string \<Rightarrow> io_err + (io_err + file_info) \<times> (io_err + string)"
  h_open :: "string \<Rightarrow> io_err + (io_err + file_info) \<times> (io_err + string)"
  h_user :: "string option"
  h_euid :: nat
  h_now :: int

text \<open>\<open>os.Getenv\<close>: an unset variable reads as the empty string.\<close>

definition getenv :: "host \<Rightarrow> string \<Rightarrow> string" where
  "getenv h v = (case h_env h v of None \<Rightarrow> [] | Some s \<Rightarrow> s)"

end
