(* ===== verification/Attestation.thy ===== *)
theory Attestation
  imports Host
begin

text \<open>
  \<open>internal/attestation\<close>: the identity record, providers and the resolver that asks them in
  order (\<open>attestation.go\<close>), the env and file providers (\<open>configured.go\<close>), the operating
  system user (\<open>builtin.go\<close>) with its warning wrapper, and the per-domain policy
  (\<open>domain_policy.go\<close>). A provider is a function of the host that returns an identity or an
  error together with the identities it warned about.
\<close>

datatype assertion_code =
    CodeDirMissing | CodeDirUnsafe | CodeFileMissing | CodeFileSymlink | CodeMalformed
  | CodeAlgNotAllowed | CodeIssuerUntrusted | CodeKeyNotFound | CodeSignatureBad | CodeVersionNew
  | CodeExpired | CodeNotYetValid | CodeTTLExceeded | CodeClaimsInvalid | CodeAudUnexpected
  | CodeAudMismatch | CodeDirMismatch | CodeJWKSUnavailable

datatype sidecar_reason = NotParseable | FieldAbsent | FieldNotString | FieldEmpty

datatype att_error =
    NoIdentity
  | PerSpawnRequired
  | AssertionRefused assertion_code
  | AssertionPanic
  | ConfiguredRead string io_err
  | SidecarEscapes string
  | SidecarStat string io_err
  | SidecarNotRegular string
  | SidecarRead string io_err
  | MalformedSidecar string string sidecar_reason

record identity =
  id_subject :: string
  id_source :: string
  id_roles :: "string list"
  id_grade :: string
  id_issuer :: string
  id_parent_session :: string
  id_spawn :: string
  id_agent_type :: string
  id_spawned_at :: string

definition plain_identity :: "string \<Rightarrow> string \<Rightarrow> identity" where
  "plain_identity subject source =
     \<lparr>id_subject = subject, id_source = source, id_roles = [], id_grade = [], id_issuer = [],
      id_parent_session = [], id_spawn = [], id_agent_type = [], id_spawned_at = []\<rparr>"

abbreviation source_assertion :: string where "source_assertion \<equiv> ''assertion''"

type_synonym resolution = "(att_error + identity) \<times> identity list"
type_synonym provider = "host \<Rightarrow> resolution"

subsection \<open>The resolver\<close>

fun resolve :: "provider list \<Rightarrow> host \<Rightarrow> resolution" where
  "resolve [] h = (Inl NoIdentity, [])"
| "resolve (p # ps) h =
     (case p h of
        (Inr i, ws) \<Rightarrow> (Inr i, ws)
      | (Inl e, ws) \<Rightarrow>
          if e \<noteq> NoIdentity then (Inl e, ws)
          else (let (r, ws') = resolve ps h in (r, ws @ ws')))"

subsection \<open>The configured provider\<close>

record configured_config =
  cc_type :: string
  cc_source :: string

datatype chain_error = ConfiguredNeedsSource string | UnknownConfiguredType string

definition env_provider :: "string \<Rightarrow> provider" where
  "env_provider var h =
     (let v = trim_space (getenv h var)
      in if v = [] then (Inl NoIdentity, []) else (Inr (plain_identity v ''configured''), []))"

definition file_provider :: "string \<Rightarrow> provider" where
  "file_provider path h =
     (case h_read h path of
        Inl e \<Rightarrow> (Inl (if e = NotExist then NoIdentity else ConfiguredRead path e), [])
      | Inr data \<Rightarrow>
          (let v = trim_space data
           in if v = [] then (Inl NoIdentity, []) else (Inr (plain_identity v ''configured''), [])))"

definition new_configured_provider :: "configured_config \<Rightarrow> chain_error + provider option" where
  "new_configured_provider cfg =
     (if cc_type cfg = [] then Inr None
      else if cc_type cfg = ''env'' then
        (if cc_source cfg = [] then Inl (ConfiguredNeedsSource (cc_type cfg))
         else Inr (Some (env_provider (cc_source cfg))))
      else if cc_type cfg = ''file'' then
        (if cc_source cfg = [] then Inl (ConfiguredNeedsSource (cc_type cfg))
         else Inr (Some (file_provider (cc_source cfg))))
      else Inl (UnknownConfiguredType (cc_type cfg)))"

subsection \<open>The operating system user\<close>

definition builtin_provider :: provider where
  "builtin_provider h =
     (case h_user h of
        None \<Rightarrow> (Inl NoIdentity, [])
      | Some u \<Rightarrow> if u = [] then (Inl NoIdentity, []) else (Inr (plain_identity u ''builtin''), []))"

definition warn_provider :: "provider \<Rightarrow> provider" where
  "warn_provider inner h =
     (case inner h of (Inr i, ws) \<Rightarrow> (Inr i, ws @ [i]) | (Inl e, ws) \<Rightarrow> (Inl e, ws))"

subsection \<open>Mint domains\<close>

type_synonym domain = string

abbreviation domain_local :: domain where "domain_local \<equiv> ''local''"
abbreviation domain_local_subagent :: domain where "domain_local_subagent \<equiv> ''local-subagent''"
abbreviation domain_a2a :: domain where "domain_a2a \<equiv> ''a2a''"

definition requires_per_spawn :: "domain \<Rightarrow> bool" where
  "requires_per_spawn d \<longleftrightarrow> d = domain_a2a \<or> d = domain_local_subagent"

record domain_resolver =
  dr_chain :: "provider list"
  dr_per_spawn :: "provider list option"

definition domain_resolve :: "domain_resolver \<Rightarrow> host \<Rightarrow> domain \<Rightarrow> resolution" where
  "domain_resolve d h md =
     (if \<not> requires_per_spawn md then resolve (dr_chain d) h
      else case dr_per_spawn d of
             None \<Rightarrow> (Inl PerSpawnRequired, [])
           | Some ps \<Rightarrow>
               (case resolve ps h of
                  (Inl e, ws) \<Rightarrow> if e = NoIdentity then (Inl PerSpawnRequired, ws) else (Inl e, ws)
                | (Inr i, ws) \<Rightarrow> (Inr i, ws)))"


subsection \<open>What the resolver answers\<close>

text \<open>A provider declines when it reports that it has no identity.\<close>

definition declines :: "provider \<Rightarrow> host \<Rightarrow> bool" where
  "declines p h \<longleftrightarrow> fst (p h) = Inl NoIdentity"

lemma fst_resolve_Cons [simp]:
  "fst (resolve (p # ps) h) = (if declines p h then fst (resolve ps h) else fst (p h))"
  by (auto simp: resolve.simps(2) declines_def split: prod.splits sum.splits)

declare resolve.simps(2) [simp del]

lemma resolve_find:
  "fst (resolve ps h) =
     (case find (\<lambda>p. \<not> declines p h) ps of None \<Rightarrow> Inl NoIdentity | Some p \<Rightarrow> fst (p h))"
  by (induction ps) auto

lemma resolve_skip:
  "list_all (\<lambda>q. declines q h) qs \<Longrightarrow> fst (resolve (qs @ ps) h) = fst (resolve ps h)"
  by (induction qs) simp_all

lemma resolve_decided_by:
  "fst (resolve ps h) = Inr i \<Longrightarrow>
     \<exists>before p after. ps = before @ p # after \<and> list_all (\<lambda>q. declines q h) before \<and> fst (p h) = Inr i"
proof (induction ps)
  case (Cons p ps)
  show ?case
  proof (cases "declines p h")
    case True
    with Cons obtain before q after where "ps = before @ q # after"
      "list_all (\<lambda>q. declines q h) before" "fst (q h) = Inr i" by auto
    with True show ?thesis by (intro exI [of _ "p # before"]) auto
  next
    case False
    with Cons.prems show ?thesis by (intro exI [of _ "[]"]) simp
  qed
qed simp

lemma resolve_Inr_iff:
  "fst (resolve ps h) = Inr i \<longleftrightarrow>
     (\<exists>before p after. ps = before @ p # after \<and> list_all (\<lambda>q. declines q h) before \<and> fst (p h) = Inr i)"
  using resolve_decided_by [of ps h i] by (auto simp: resolve_skip declines_def)

lemma resolve_NoIdentity_iff:
  "fst (resolve ps h) = Inl NoIdentity \<longleftrightarrow> list_all (\<lambda>q. declines q h) ps"
  by (induction ps) (auto simp: declines_def)

lemma warn_provider_fst [simp]: "fst (warn_provider p h) = fst (p h)"
  by (auto simp: warn_provider_def split: prod.splits sum.splits)

lemma domain_resolve_fst:
  "fst (domain_resolve d h md) =
     (if \<not> requires_per_spawn md then fst (resolve (dr_chain d) h)
      else case dr_per_spawn d of
             None \<Rightarrow> Inl PerSpawnRequired
           | Some ps \<Rightarrow>
               if fst (resolve ps h) = Inl NoIdentity then Inl PerSpawnRequired else fst (resolve ps h))"
  by (auto simp: domain_resolve_def split: option.splits prod.splits sum.splits)

subsection \<open>Sources that attest a bare name\<close>

text \<open>
  The env, file, sidecar and operating system providers attest a subject and nothing an issuer
  would have signed. A client of such a provider may conclude from a signed identity that it
  came from another provider of the chain.
\<close>

definition unsigned :: "identity \<Rightarrow> bool" where
  "unsigned i \<longleftrightarrow> id_source i \<noteq> source_assertion \<and> id_roles i = [] \<and> id_grade i = [] \<and> id_issuer i = []"

locale plain_source =
  fixes make :: "'c \<Rightarrow> provider"
  assumes attests_unsigned: "fst (make c h) = Inr i \<Longrightarrow> unsigned i"
    and attests_someone: "fst (make c h) = Inr i \<Longrightarrow> id_subject i \<noteq> []"
begin

lemma signed_is_later:
  "fst (resolve (make c # ps) h) = Inr i \<Longrightarrow> id_source i = source_assertion \<Longrightarrow>
     declines (make c) h \<and> fst (resolve ps h) = Inr i"
  using attests_unsigned [of c h i] by (auto simp: unsigned_def split: if_splits)

lemma signed_not_among:
  "fst (resolve (map make cs @ ps) h) = Inr i \<Longrightarrow> id_source i = source_assertion \<Longrightarrow>
     fst (resolve ps h) = Inr i"
  by (induction cs) (auto dest: signed_is_later simp del: fst_resolve_Cons)

lemma warned_unsigned:
  "fst (warn_provider (make c) h) = Inr i \<Longrightarrow> unsigned i"
  using attests_unsigned by simp

end

interpretation cenv: plain_source env_provider
  by unfold_locales
    (auto simp: env_provider_def plain_identity_def unsigned_def Let_def split: if_splits)

interpretation cfile: plain_source file_provider
  by unfold_locales
    (auto simp: file_provider_def plain_identity_def unsigned_def Let_def split: if_splits sum.splits)

interpretation builtin: plain_source "\<lambda>_ :: unit. builtin_provider"
  by unfold_locales
    (auto simp: builtin_provider_def plain_identity_def unsigned_def split: if_splits option.splits)

lemma configured_unsigned:
  "new_configured_provider cfg = Inr (Some p) \<Longrightarrow> fst (p h) = Inr i \<Longrightarrow> unsigned i"
  by (auto simp: new_configured_provider_def split: if_splits
      dest: cenv.attests_unsigned cfile.attests_unsigned)

subsection \<open>Properties\<close>

text \<open>A mint domain that requires a per-spawn source (A2A, local subagent) is granted an identity
  exactly when some configured per-spawn provider attests it and every per-spawn provider before
  that one declined; the shared chain, with the session sidecar and the operating system user, is
  never asked. Every other domain gets the shared chain's answer unchanged.\<close>
theorem domain_never_falls_through:
  "fst (domain_resolve d h md) = Inr i \<longleftrightarrow>
     (if requires_per_spawn md
      then \<exists>ps before p after. dr_per_spawn d = Some ps \<and> ps = before @ p # after
             \<and> list_all (\<lambda>q. declines q h) before \<and> fst (p h) = Inr i
      else fst (resolve (dr_chain d) h) = Inr i)"
proof (cases "requires_per_spawn md")
  case True
  show ?thesis
  proof (cases "dr_per_spawn d")
    case (Some ps)
    have "fst (domain_resolve d h md) = Inr i \<longleftrightarrow> fst (resolve ps h) = Inr i"
      using True Some by (auto simp: domain_resolve_fst)
    with True Some show ?thesis by (simp add: resolve_Inr_iff)
  qed (simp add: True domain_resolve_fst)
qed (simp add: domain_resolve_fst)

text \<open>The resolver returns the answer of the first provider that does not decline, be it an
  identity or an error, and reports that there is no identity only when all decline: an error is
  never downgraded to a later provider's answer.\<close>
theorem resolver_first_decisive:
  "fst (resolve ps h) =
     (case find (\<lambda>p. fst (p h) \<noteq> Inl NoIdentity) ps of None \<Rightarrow> Inl NoIdentity | Some p \<Rightarrow> fst (p h))"
  using resolve_find [of ps h] by (simp add: declines_def)

end
