(* ===== verification/A2aMint.thy ===== *)
theory A2aMint
  imports A2aPolicy Attestation
begin

text \<open>
  The A2A mint service of \<open>internal/a2amint/a2amint.go\<close>: resolve under the A2A domain, check the
  entitlement policy, look up the two OpenBao role names, read the assertion key, issue; every
  return writes one audit event. A run returns its result and its outside effects in order. The
  broker and the issuing client are parameters, an issuing error is either a transport error,
  whose own text goes to the audit event, or another.
\<close>

datatype issue_error = TransportError string | OtherIssueError string

datatype a2a_error =
    NoDomainResolver
  | A2aResolveFailed att_error
  | A2aDenied denied
  | NoAuthRole string
  | NoOidcRole string
  | NoBrokerConfigured
  | KeyUnreadable string
  | IssueFailed issue_error

datatype audit_reason =
    ReasonError a2a_error | ReasonResolve att_error | ReasonDenied denied | ReasonTransport string
  | ReasonOther string | ReasonIssued string

record a2a_audit =
  aa_identity :: string
  aa_role :: string
  aa_audience :: string
  aa_parent_session :: string
  aa_permitted :: bool
  aa_reason :: audit_reason

record issue_request =
  ir_endpoint :: string
  ir_private_key :: string
  ir_issuer :: string
  ir_subject :: string
  ir_ttl :: int
  ir_auth_mount :: string
  ir_auth_role :: string
  ir_oidc_role :: string

record a2a_token =
  at_value :: string
  at_expires :: int
  at_subject :: string

datatype a2a_effect = A2aWarned identity | A2aAudited a2a_audit | KeyRead string | Issued issue_request

record a2a_service =
  as_domain :: "domain_resolver option"
  as_policy :: "policy option"
  as_broker :: "(string \<Rightarrow> string + string) option"
  as_key_path :: string
  as_issuer :: string
  as_ttl :: int
  as_endpoint :: string
  as_auth_mount :: string
  as_auth_roles :: "string \<rightharpoonup> string"
  as_oidc_roles :: "string \<rightharpoonup> string"
  as_audit :: bool
  as_issue :: "(issue_request \<Rightarrow> issue_error + a2a_token) option"

definition a2a_audit_effect :: "a2a_service \<Rightarrow> a2a_audit \<Rightarrow> a2a_effect list" where
  "a2a_audit_effect s ev = (if as_audit s then [A2aAudited ev] else [])"

definition audit_reason_of :: "issue_error \<Rightarrow> audit_reason" where
  "audit_reason_of e = (case e of TransportError t \<Rightarrow> ReasonTransport t | OtherIssueError t \<Rightarrow> ReasonOther t)"

definition known_identity :: "identity \<Rightarrow> string \<Rightarrow> string \<Rightarrow> bool \<Rightarrow> audit_reason \<Rightarrow> a2a_audit" where
  "known_identity i role audience ok reason =
     \<lparr>aa_identity = id_subject i, aa_role = role, aa_audience = audience,
      aa_parent_session = id_parent_session i, aa_permitted = ok, aa_reason = reason\<rparr>"

definition role_entry :: "(string \<rightharpoonup> string) \<Rightarrow> string \<Rightarrow> string option" where
  "role_entry m role = (case m role of None \<Rightarrow> None | Some r \<Rightarrow> if r = [] then None else Some r)"

definition a2a_issue ::
    "(issue_request \<Rightarrow> issue_error + a2a_token) \<Rightarrow> a2a_service \<Rightarrow> identity \<Rightarrow> string \<Rightarrow> string \<Rightarrow> string \<Rightarrow> string \<Rightarrow> string
      \<Rightarrow> (a2a_error + a2a_token) \<times> a2a_effect list" where
  "a2a_issue dflt s i role audience auth oidc key =
     (let issue = (case as_issue s of None \<Rightarrow> dflt | Some f \<Rightarrow> f);
          req = \<lparr>ir_endpoint = as_endpoint s, ir_private_key = key, ir_issuer = as_issuer s,
                 ir_subject = id_subject i, ir_ttl = as_ttl s, ir_auth_mount = as_auth_mount s,
                 ir_auth_role = auth, ir_oidc_role = oidc\<rparr>
      in case issue req of
           Inl e \<Rightarrow> (Inl (IssueFailed e), Issued req #
                     a2a_audit_effect s (known_identity i role audience False (audit_reason_of e)))
         | Inr tok \<Rightarrow> (Inr tok, Issued req #
                     a2a_audit_effect s (known_identity i role audience True (ReasonIssued role))))"

definition a2a_refuse ::
    "a2a_service \<Rightarrow> identity \<Rightarrow> string \<Rightarrow> string \<Rightarrow> a2a_error \<Rightarrow> (a2a_error + a2a_token) \<times> a2a_effect list" where
  "a2a_refuse s i role audience e =
     (Inl e, a2a_audit_effect s (known_identity i role audience False (ReasonError e)))"

definition a2a_permitted ::
    "(issue_request \<Rightarrow> issue_error + a2a_token) \<Rightarrow> a2a_service \<Rightarrow> identity \<Rightarrow> string \<Rightarrow> string
      \<Rightarrow> (a2a_error + a2a_token) \<times> a2a_effect list" where
  "a2a_permitted dflt s i role audience =
     (case role_entry (as_auth_roles s) role of
        None \<Rightarrow> a2a_refuse s i role audience (NoAuthRole role)
      | Some auth \<Rightarrow>
          (case role_entry (as_oidc_roles s) role of
             None \<Rightarrow> a2a_refuse s i role audience (NoOidcRole role)
           | Some oidc \<Rightarrow>
               (case as_broker s of
                  None \<Rightarrow> a2a_refuse s i role audience NoBrokerConfigured
                | Some get \<Rightarrow>
                    (case get (as_key_path s) of
                       Inl e \<Rightarrow> apsnd ((#) (KeyRead (as_key_path s))) (a2a_refuse s i role audience (KeyUnreadable e))
                     | Inr key \<Rightarrow>
                         apsnd ((#) (KeyRead (as_key_path s))) (a2a_issue dflt s i role audience auth oidc key)))))"

definition a2a_mint ::
    "(issue_request \<Rightarrow> issue_error + a2a_token) \<Rightarrow> a2a_service \<Rightarrow> host \<Rightarrow> string
      \<Rightarrow> (a2a_error + a2a_token) \<times> a2a_effect list" where
  "a2a_mint dflt s h audience =
     (case as_domain s of
        None \<Rightarrow> (Inl NoDomainResolver,
                 a2a_audit_effect s \<lparr>aa_identity = [], aa_role = [], aa_audience = audience,
                   aa_parent_session = [], aa_permitted = False, aa_reason = ReasonError NoDomainResolver\<rparr>)
      | Some d \<Rightarrow>
          (case domain_resolve d h domain_a2a of
             (Inl e, ws) \<Rightarrow> (Inl (A2aResolveFailed e), map A2aWarned ws @
                 a2a_audit_effect s \<lparr>aa_identity = [], aa_role = [], aa_audience = audience,
                   aa_parent_session = [], aa_permitted = False, aa_reason = ReasonResolve e\<rparr>)
           | (Inr i, ws) \<Rightarrow> apsnd ((@) (map A2aWarned ws))
               (case policy_check (as_policy s) (id_subject i) audience of
                  Inl d \<Rightarrow> (Inl (A2aDenied d), a2a_audit_effect s (known_identity i [] audience False (ReasonDenied d)))
                | Inr role \<Rightarrow> a2a_permitted dflt s i role audience)))"


subsection \<open>Lemmas\<close>

definition is_audit :: "a2a_effect \<Rightarrow> bool" where
  "is_audit e = (case e of A2aAudited _ \<Rightarrow> True | _ \<Rightarrow> False)"

definition uses_key :: "a2a_effect \<Rightarrow> bool" where
  "uses_key e = (case e of KeyRead _ \<Rightarrow> True | Issued _ \<Rightarrow> True | _ \<Rightarrow> False)"

lemma effect_kinds [simp]:
  "is_audit (A2aAudited ev)" "\<not> is_audit (KeyRead p)" "\<not> is_audit (Issued q)" "\<not> is_audit (A2aWarned i)"
  "\<not> uses_key (A2aAudited ev)" "uses_key (KeyRead p)" "uses_key (Issued q)" "\<not> uses_key (A2aWarned i)"
  by (simp_all add: is_audit_def uses_key_def)

text \<open>One audit event ends every run and says what the run returned.\<close>

definition verdict :: "(a2a_error + a2a_token) \<times> a2a_effect list \<Rightarrow> bool" where
  "verdict r \<longleftrightarrow> (\<exists>pre ev. snd r = pre @ [A2aAudited ev] \<and> list_all (\<lambda>e. \<not> is_audit e) pre
     \<and> aa_permitted ev = is_ok (fst r))"

lemma verdict_prefix:
  assumes "verdict r" and "list_all (\<lambda>e. \<not> is_audit e) es"
  shows "verdict (apsnd ((@) es) r)"
proof -
  from assms(1) obtain pre ev where "snd r = pre @ [A2aAudited ev]" "list_all (\<lambda>e. \<not> is_audit e) pre"
    "aa_permitted ev = is_ok (fst r)"
    by (auto simp: verdict_def)
  with assms(2) show ?thesis unfolding verdict_def
    by (intro exI [of _ "es @ pre"] exI [of _ ev]) (cases r; simp)
qed

lemma verdict_Cons: "\<not> is_audit e \<Longrightarrow> verdict r \<Longrightarrow> verdict (apsnd ((#) e) r)"
  using verdict_prefix [of r "[e]"] by (cases r) simp

lemma verdict_warned: "verdict r \<Longrightarrow> verdict (apsnd ((@) (map A2aWarned ws)) r)"
  by (erule verdict_prefix) (simp add: list_all_iff)

lemma verdict_audit:
  "as_audit s \<Longrightarrow> list_all (\<lambda>e. \<not> is_audit e) pre \<Longrightarrow> aa_permitted ev = is_ok r \<Longrightarrow>
     verdict (r, pre @ a2a_audit_effect s ev)"
  by (auto simp: verdict_def a2a_audit_effect_def)

lemma verdict_refuse: "as_audit s \<Longrightarrow> verdict (a2a_refuse s i role audience e)"
  using verdict_audit [of s "[]"] by (simp add: a2a_refuse_def known_identity_def)

lemma verdict_issue: "as_audit s \<Longrightarrow> verdict (a2a_issue dflt s i role audience auth oidc key)"
  using verdict_audit [of s "[Issued q]" for q]
  by (auto simp: a2a_issue_def Let_def known_identity_def split: sum.split)

lemma verdict_permitted: "as_audit s \<Longrightarrow> verdict (a2a_permitted dflt s i role audience)"
  by (auto simp: a2a_permitted_def intro!: verdict_Cons verdict_refuse verdict_issue split: option.split sum.split)

lemma verdict_mint: "as_audit s \<Longrightarrow> verdict (a2a_mint dflt s h audience)"
  using verdict_audit [of s "[]"] verdict_audit [of s "map A2aWarned ws" for ws]
  by (auto simp: a2a_mint_def known_identity_def list_all_iff intro!: verdict_warned verdict_permitted
      split: option.split sum.split prod.split)

lemma permitted_issued:
  "Issued q \<in> set (snd (a2a_permitted dflt s i role audience)) \<Longrightarrow>
     ir_subject q = id_subject i \<and> role_entry (as_auth_roles s) role = Some (ir_auth_role q)
       \<and> role_entry (as_oidc_roles s) role = Some (ir_oidc_role q)"
  by (auto simp: a2a_permitted_def a2a_refuse_def a2a_issue_def a2a_audit_effect_def Let_def
      split: option.splits sum.splits if_splits)

lemma role_entry_nonempty: "role_entry m r = Some x \<Longrightarrow> m r = Some x \<and> x \<noteq> []"
  by (auto simp: role_entry_def split: option.splits if_splits)

lemma mint_uses_key:
  assumes "e \<in> set (snd (a2a_mint dflt s h audience))" and "uses_key e"
  obtains d i role where "as_domain s = Some d" "fst (domain_resolve d h domain_a2a) = Inr i"
    "policy_check (as_policy s) (id_subject i) audience = Inr role"
    "e \<in> set (snd (a2a_permitted dflt s i role audience))"
proof -
  have "A2aWarned x \<noteq> e" "A2aAudited a \<noteq> e" for x a using assms(2) by auto
  with assms(1) show thesis
    by (auto simp: a2a_mint_def a2a_audit_effect_def intro: that split: option.splits sum.splits prod.splits if_splits)
qed

subsection \<open>Properties\<close>

text \<open>Every run of the A2A mint, whatever it returns, writes exactly one audit event, as its last
  effect, and the event says permitted exactly when a token is returned.\<close>
theorem a2a_mint_audits_every_outcome:
  assumes "as_audit s"
  shows "\<exists>pre ev. snd (a2a_mint dflt s h audience) = pre @ [A2aAudited ev] \<and> list_all (\<lambda>e. \<not> is_audit e) pre
     \<and> aa_permitted ev = is_ok (fst (a2a_mint dflt s h audience))"
  using verdict_mint [OF assms] by (simp add: verdict_def)

text \<open>The assertion key is read, and a request issued, only for an identity a per-spawn source
  attested and the policy entitles to the requested audience; the request's subject is that identity
  and its two role names are the non-empty ones configured for the entitled role.\<close>
theorem a2a_mint_entitled_before_key:
  assumes "e \<in> set (snd (a2a_mint dflt s h audience))" and "uses_key e"
  shows "\<exists>d ps i ents ent. as_domain s = Some d \<and> dr_per_spawn d = Some ps \<and> fst (resolve ps h) = Inr i
    \<and> as_policy s = Some ents \<and> ents (id_subject i) = Some ent \<and> audience \<in> set (ent_audiences ent)
    \<and> (case e of Issued q \<Rightarrow> ir_subject q = id_subject i \<and> ir_auth_role q \<noteq> [] \<and> ir_oidc_role q \<noteq> []
           \<and> as_auth_roles s (ent_role ent) = Some (ir_auth_role q)
           \<and> as_oidc_roles s (ent_role ent) = Some (ir_oidc_role q)
       | _ \<Rightarrow> True)"
  using assms
proof (rule mint_uses_key)
  fix d i role
  assume d: "as_domain s = Some d" "fst (domain_resolve d h domain_a2a) = Inr i"
    and p: "policy_check (as_policy s) (id_subject i) audience = Inr role"
    and e: "e \<in> set (snd (a2a_permitted dflt s i role audience))"
  from d(2) obtain ps where "dr_per_spawn d = Some ps" "fst (resolve ps h) = Inr i"
    by (auto simp: domain_resolve_fst requires_per_spawn_def split: option.splits if_splits)
  moreover from p obtain ents ent where "as_policy s = Some ents" "ents (id_subject i) = Some ent"
    "audience \<in> set (ent_audiences ent)" "role = ent_role ent"
    by (auto simp: policy_check_Inr)
  moreover have "case e of Issued q \<Rightarrow> ir_subject q = id_subject i \<and> ir_auth_role q \<noteq> [] \<and> ir_oidc_role q \<noteq> []
      \<and> as_auth_roles s role = Some (ir_auth_role q) \<and> as_oidc_roles s role = Some (ir_oidc_role q) | _ \<Rightarrow> True"
  proof (cases e)
    case (Issued q)
    with e have q: "Issued q \<in> set (snd (a2a_permitted dflt s i role audience))" by simp
    from permitted_issued [OF q] role_entry_nonempty Issued show ?thesis by auto
  qed simp_all
  ultimately show ?thesis using d(1) by blast
qed

subsection \<open>Witnesses\<close>

definition sample_a2a :: a2a_service where
  "sample_a2a = \<lparr>as_domain = Some \<lparr>dr_chain = [], dr_per_spawn = Some [\<lambda>_. (Inr (plain_identity ''bot'' ''sidecar''), [])]\<rparr>,
     as_policy = Some [''bot'' \<mapsto> \<lparr>ent_role = ''peer'', ent_audiences = [''x'']\<rparr>], as_broker = Some (\<lambda>_. Inr ''key''),
     as_key_path = ''p'', as_issuer = ''iss'', as_ttl = 60, as_endpoint = ''e'', as_auth_mount = ''m'',
     as_auth_roles = [''peer'' \<mapsto> ''jwt''], as_oidc_roles = [''peer'' \<mapsto> ''oidc''], as_audit = True, as_issue = None\<rparr>"

definition sample_issue :: "issue_request \<Rightarrow> issue_error + a2a_token" where
  "sample_issue req = Inr \<lparr>at_value = ''t'', at_expires = 0, at_subject = ir_subject req\<rparr>"

lemma sample_a2a_key: "KeyRead ''p'' \<in> set (snd (a2a_mint sample_issue sample_a2a h ''x''))"
  by (simp add: a2a_mint_def sample_a2a_def domain_resolve_def requires_per_spawn_def resolve.simps(2)
      policy_check_def plain_identity_def a2a_permitted_def role_entry_def)

theorem a2a_mint_audits_every_outcome_witness:
  "\<exists>pre ev. snd (a2a_mint sample_issue sample_a2a undefined ''x'') = pre @ [A2aAudited ev]"
  using a2a_mint_audits_every_outcome [of sample_a2a sample_issue undefined "''x''"]
  by (auto simp: sample_a2a_def)

theorem a2a_mint_entitled_before_key_witness:
  "\<exists>d ps i. as_domain sample_a2a = Some d \<and> dr_per_spawn d = Some ps \<and> fst (resolve ps undefined) = Inr i"
  using a2a_mint_entitled_before_key [OF sample_a2a_key [of undefined]] by auto

end
