(* ===== verification/Mint.thy ===== *)
theory Mint
  imports Roles Attestation
begin

text \<open>
  The mint service of \<open>internal/mint/mint.go\<close>: resolve the role, its binding and the attested
  identity, gate the identity, read the App's credentials from the broker, request a token. A run
  returns its result and the list of its outside effects in order. The broker and the App client
  are parameters; the broker is also given the number of the read, so a secret may change between
  two reads.
\<close>

subsection \<open>Grades\<close>

definition grade_harness :: string where "grade_harness = ''harness''"
definition grade_workload :: string where "grade_workload = ''workload''"

definition grade_rank :: "string \<Rightarrow> nat" where
  "grade_rank g = (if g = grade_workload then 2 else if g = grade_harness then 1 else 0)"

text \<open>The order the ranks implement.\<close>

datatype grade_level = Ungraded | Harness | Workload

instantiation grade_level :: linorder
begin

definition less_eq_grade_level :: "grade_level \<Rightarrow> grade_level \<Rightarrow> bool" where
  "less_eq_grade_level a b \<longleftrightarrow> a = Ungraded \<or> b = Workload \<or> a = b"

definition less_grade_level :: "grade_level \<Rightarrow> grade_level \<Rightarrow> bool" where
  "less_grade_level a b \<longleftrightarrow> a \<le> b \<and> a \<noteq> (b :: grade_level)"

instance
proof
  fix x y z :: grade_level
  show "x < y \<longleftrightarrow> x \<le> y \<and> \<not> y \<le> x" by (cases x; cases y) (auto simp: less_grade_level_def less_eq_grade_level_def)
  show "x \<le> x" by (simp add: less_eq_grade_level_def)
  show "x \<le> y \<Longrightarrow> y \<le> z \<Longrightarrow> x \<le> z" by (cases x; cases y; cases z) (auto simp: less_eq_grade_level_def)
  show "x \<le> y \<Longrightarrow> y \<le> x \<Longrightarrow> x = y" by (cases x; cases y) (auto simp: less_eq_grade_level_def)
  show "x \<le> y \<or> y \<le> x" by (cases x; cases y) (auto simp: less_eq_grade_level_def)
qed

end

definition level_of :: "string \<Rightarrow> grade_level" where
  "level_of g = (if g = grade_workload then Workload else if g = grade_harness then Harness else Ungraded)"

lemma grade_rank_refines: "grade_rank a \<le> grade_rank b \<longleftrightarrow> level_of a \<le> level_of b"
  by (auto simp: grade_rank_def level_of_def less_eq_grade_level_def grade_workload_def grade_harness_def)

subsection \<open>Bindings\<close>

record role_binding =
  rb_app_id_path :: string
  rb_installation_id_path :: string
  rb_private_key_path :: string
  rb_entitled :: "string list"
  rb_min_grade :: string
  rb_app_slug :: string
  rb_app_slug_path :: string

fun contains_string :: "string list \<Rightarrow> string \<Rightarrow> bool" where
  "contains_string [] s = False"
| "contains_string (v # vs) s = (if v = s then True else contains_string vs s)"

definition entitled :: "role_binding \<Rightarrow> string \<Rightarrow> bool" where
  "entitled b ident = contains_string (rb_entitled b) ident"

definition min_grade :: "role_binding \<Rightarrow> string" where
  "min_grade b = (if rb_min_grade b = [] then grade_harness else rb_min_grade b)"

definition valid_min_grade :: "string \<Rightarrow> bool" where
  "valid_min_grade s \<longleftrightarrow> s = [] \<or> s = grade_harness \<or> s = grade_workload"

definition app_slug_configured :: "role_binding \<Rightarrow> bool" where
  "app_slug_configured b \<longleftrightarrow> rb_app_slug b \<noteq> [] \<and> rb_app_slug_path b \<noteq> []"

datatype mint_error =
    MintUnknownRole string
  | NoBinding string
  | NoResolver string
  | ResolveFailed string att_error
  | RoleNotCarried string string "string list"
  | GradeTooLow string string string string
  | NotEntitled string string
  | NoSlugBinding string
  | ReadAppId string string
  | ReadInstallation string string
  | ReadSlug string string
  | SlugMismatch string string string
  | ReadPrivateKey string string
  | MintFailed string

definition check_assertion :: "role_binding \<Rightarrow> string \<Rightarrow> identity \<Rightarrow> mint_error option" where
  "check_assertion b rn i =
     (if \<not> contains_string (id_roles i) rn then Some (RoleNotCarried rn (id_subject i) (id_roles i))
      else if grade_rank (id_grade i) < grade_rank (min_grade b)
           then Some (GradeTooLow rn (min_grade b) (id_subject i) (id_grade i))
      else if 0 < length (rb_entitled b) \<and> \<not> entitled b (id_subject i) then Some (NotEntitled rn (id_subject i))
      else None)"

subsection \<open>The service\<close>

record gh_token =
  tok_value :: string
  tok_expires :: int
  tok_app_slug :: string

record mint_request =
  mr_api_base :: string
  mr_app_id :: string
  mr_installation_id :: string
  mr_private_key :: string
  mr_permissions :: "string \<rightharpoonup> string"
  mr_repos :: "string list"
  mr_ttl :: int

record audit_event =
  ev_role :: string
  ev_subject :: string
  ev_source :: string
  ev_grade :: string
  ev_issuer :: string
  ev_permitted :: bool
  ev_reason :: "mint_error option"

datatype effect =
    Warned identity | Audited audit_event | BrokerRead string | TokenRequested mint_request

type_synonym broker = "nat \<Rightarrow> string \<Rightarrow> string + string"
type_synonym app_client = "mint_request \<Rightarrow> string + gh_token"

record mint_service =
  ms_api_base :: string
  ms_ttl :: int
  ms_roles :: role_registry
  ms_broker :: broker
  ms_bindings :: "string \<rightharpoonup> role_binding"
  ms_attestation :: "provider list option"
  ms_domain :: "domain_resolver option"
  ms_renderer :: "(role \<Rightarrow> (string \<rightharpoonup> string)) option"
  ms_mint :: "app_client option"
  ms_audit :: bool

type_synonym 'a run = "(mint_error + 'a) \<times> effect list"

definition run_bind :: "'a run \<Rightarrow> ('a \<Rightarrow> 'b run) \<Rightarrow> 'b run" where
  "run_bind r f =
     (case r of (Inl e, es) \<Rightarrow> (Inl e, es) | (Inr x, es) \<Rightarrow> (let (r', es') = f x in (r', es @ es')))"

definition broker_get :: "mint_service \<Rightarrow> nat \<Rightarrow> (string \<Rightarrow> mint_error) \<Rightarrow> string \<Rightarrow> string run" where
  "broker_get s n err path =
     ((case ms_broker s n path of Inl e \<Rightarrow> Inl (err e) | Inr v \<Rightarrow> Inr v), [BrokerRead path])"

text \<open>The gate, with the audit record of a decision on an asserted identity.\<close>

definition gate_identity :: "mint_service \<Rightarrow> string \<Rightarrow> role_binding \<Rightarrow> identity \<Rightarrow> unit run" where
  "gate_identity s rn b i =
     (if id_source i = source_assertion then
        (let err = check_assertion b rn i;
             ev = \<lparr>ev_role = rn, ev_subject = id_subject i, ev_source = id_source i, ev_grade = id_grade i,
                   ev_issuer = id_issuer i, ev_permitted = (err = None), ev_reason = err\<rparr>
         in ((case err of None \<Rightarrow> Inr () | Some e \<Rightarrow> Inl e), if ms_audit s then [Audited ev] else []))
      else if \<not> entitled b (id_subject i) then (Inl (NotEntitled rn (id_subject i)), [])
      else (Inr (), []))"

text \<open>From the slug check to the token; \<open>dflt\<close> is the App client used when none is set.\<close>

definition request_token ::
    "app_client \<Rightarrow> mint_service \<Rightarrow> role \<Rightarrow> role_binding \<Rightarrow> string list \<Rightarrow> string \<Rightarrow> string \<Rightarrow> string \<Rightarrow> string
      \<Rightarrow> gh_token run" where
  "request_token dflt s ro b repos app_id inst slug key =
     (let render = (case ms_renderer s of None \<Rightarrow> github_render | Some r \<Rightarrow> r);
          mint = (case ms_mint s of None \<Rightarrow> dflt | Some f \<Rightarrow> f);
          req = \<lparr>mr_api_base = ms_api_base s, mr_app_id = app_id, mr_installation_id = inst,
                 mr_private_key = key, mr_permissions = render ro, mr_repos = repos, mr_ttl = ms_ttl s\<rparr>
      in ((case mint req of Inl e \<Rightarrow> Inl (MintFailed e) | Inr tok \<Rightarrow> Inr (tok\<lparr>tok_app_slug := slug\<rparr>)),
          [TokenRequested req]))"

definition mint_with_credentials ::
    "app_client \<Rightarrow> mint_service \<Rightarrow> string \<Rightarrow> role \<Rightarrow> role_binding \<Rightarrow> string list \<Rightarrow> gh_token run" where
  "mint_with_credentials dflt s rn ro b repos =
     (if \<not> app_slug_configured b then (Inl (NoSlugBinding rn), [])
      else run_bind (broker_get s 0 (ReadAppId rn) (rb_app_id_path b)) (\<lambda>app_id.
           run_bind (broker_get s 1 (ReadInstallation rn) (rb_installation_id_path b)) (\<lambda>inst.
           run_bind (broker_get s 2 (ReadSlug rn) (rb_app_slug_path b)) (\<lambda>slug.
             if slug \<noteq> rb_app_slug b then (Inl (SlugMismatch rn slug (rb_app_slug b)), [])
             else run_bind (broker_get s 3 (ReadPrivateKey rn) (rb_private_key_path b)) (\<lambda>key.
               request_token dflt s ro b repos app_id inst slug key)))))"

definition service_resolver :: "mint_service \<Rightarrow> domain_resolver option" where
  "service_resolver s =
     (case ms_domain s of
        Some d \<Rightarrow> Some d
      | None \<Rightarrow> map_option (\<lambda>ps. \<lparr>dr_chain = ps, dr_per_spawn = None\<rparr>) (ms_attestation s))"

text \<open>\<open>mintForDomain\<close>: the identity is returned with the token for the attributed form.\<close>

definition mint_for_domain ::
    "app_client \<Rightarrow> mint_service \<Rightarrow> host \<Rightarrow> domain \<Rightarrow> string \<Rightarrow> string list \<Rightarrow> (gh_token \<times> identity) run" where
  "mint_for_domain dflt s h md rn repos =
     (case resolve_role (ms_roles s) rn of
        Inl e \<Rightarrow> (Inl (MintUnknownRole rn), [])
      | Inr ro \<Rightarrow>
          (case ms_bindings s rn of
             None \<Rightarrow> (Inl (NoBinding rn), [])
           | Some b \<Rightarrow>
               (case service_resolver s of
                  None \<Rightarrow> (Inl (NoResolver rn), [])
                | Some d \<Rightarrow>
                    (case domain_resolve d h md of
                       (Inl e, ws) \<Rightarrow> (Inl (ResolveFailed rn e), map Warned ws)
                     | (Inr i, ws) \<Rightarrow>
                         run_bind (Inr (), map Warned ws) (\<lambda>_.
                         run_bind (gate_identity s rn b i) (\<lambda>_.
                         run_bind (mint_with_credentials dflt s rn ro b repos) (\<lambda>tok.
                           (Inr (tok, i), []))))))))"

definition mint :: "app_client \<Rightarrow> mint_service \<Rightarrow> host \<Rightarrow> string \<Rightarrow> string list \<Rightarrow> gh_token run" where
  "mint dflt s h rn repos =
     run_bind (mint_for_domain dflt s h domain_local rn repos) (\<lambda>(tok, i). (Inr tok, []))"

definition mint_attributed ::
    "app_client \<Rightarrow> mint_service \<Rightarrow> host \<Rightarrow> domain \<Rightarrow> string \<Rightarrow> string list \<Rightarrow> (gh_token \<times> identity) run" where
  "mint_attributed dflt s h md rn repos = mint_for_domain dflt s h md rn repos"


subsection \<open>Lemmas\<close>

lemma contains_string_iff: "contains_string vs s \<longleftrightarrow> s \<in> set vs"
  by (induction vs) auto

lemma run_bind_Inr:
  "run_bind r f = (Inr y, es) \<longleftrightarrow> (\<exists>x a b. r = (Inr x, a) \<and> f x = (Inr y, b) \<and> es = a @ b)"
  by (auto simp: run_bind_def split: prod.splits sum.splits)

lemma run_bind_snd:
  "snd (run_bind r f) = snd r @ (case fst r of Inl _ \<Rightarrow> [] | Inr x \<Rightarrow> snd (f x))"
  by (auto simp: run_bind_def split: prod.splits sum.splits)

lemma run_bind_fst:
  "fst (run_bind r f) = (case fst r of Inl e \<Rightarrow> Inl e | Inr x \<Rightarrow> fst (f x))"
  by (auto simp: run_bind_def split: prod.splits sum.splits)

text \<open>What the gate promises: the roles, grade and subjects a binding admits.\<close>

definition admits :: "role_binding \<Rightarrow> string \<Rightarrow> identity \<Rightarrow> bool" where
  "admits b rn i \<longleftrightarrow>
     (if id_source i = source_assertion
      then rn \<in> set (id_roles i) \<and> level_of (min_grade b) \<le> level_of (id_grade i)
           \<and> (rb_entitled b = [] \<or> id_subject i \<in> set (rb_entitled b))
      else id_subject i \<in> set (rb_entitled b))"

lemma check_assertion_None:
  "check_assertion b rn i = None \<longleftrightarrow>
     rn \<in> set (id_roles i) \<and> level_of (min_grade b) \<le> level_of (id_grade i)
       \<and> (rb_entitled b = [] \<or> id_subject i \<in> set (rb_entitled b))"
  by (auto simp: check_assertion_def contains_string_iff entitled_def not_less simp flip: grade_rank_refines)

lemma gate_admits: "fst (gate_identity s rn b i) = Inr () \<longleftrightarrow> admits b rn i"
  by (auto simp: gate_identity_def admits_def Let_def check_assertion_None [symmetric] entitled_def
      contains_string_iff split: option.splits)

definition reads_secret :: "effect \<Rightarrow> bool" where
  "reads_secret e = (case e of BrokerRead _ \<Rightarrow> True | TokenRequested _ \<Rightarrow> True | _ \<Rightarrow> False)"

lemma gate_reads_nothing: "e \<in> set (snd (gate_identity s rn b i)) \<Longrightarrow> \<not> reads_secret e"
  by (auto simp: gate_identity_def Let_def reads_secret_def split: if_splits)

text \<open>The identity a run acted on.\<close>

definition acting :: "mint_service \<Rightarrow> host \<Rightarrow> domain \<Rightarrow> string \<Rightarrow> identity \<Rightarrow> role_binding \<Rightarrow> role \<Rightarrow> bool" where
  "acting s h md rn i b ro \<longleftrightarrow>
     resolve_role (ms_roles s) rn = Inr ro \<and> ms_bindings s rn = Some b
     \<and> (\<exists>d. service_resolver s = Some d \<and> fst (domain_resolve d h md) = Inr i)"

lemma mint_run_cases:
  obtains (refused) e ws where "mint_for_domain dflt s h md rn repos = (Inl e, map Warned ws)"
      "\<forall>i b ro. \<not> acting s h md rn i b ro"
  | (gated) i b ro ws where "acting s h md rn i b ro"
      "mint_for_domain dflt s h md rn repos =
         run_bind (Inr (), map Warned ws) (\<lambda>_. run_bind (gate_identity s rn b i) (\<lambda>_.
           run_bind (mint_with_credentials dflt s rn ro b repos) (\<lambda>tok. (Inr (tok, i), []))))"
proof (cases "resolve_role (ms_roles s) rn")
  case (Inl e)
  with refused [of _ "[]"] show thesis by (simp add: mint_for_domain_def acting_def)
next
  case ro: (Inr ro)
  show thesis
  proof (cases "ms_bindings s rn")
    case None
    with ro refused [of _ "[]"] show thesis by (simp add: mint_for_domain_def acting_def)
  next
    case b: (Some b)
    show thesis
    proof (cases "service_resolver s")
      case None
      with ro b refused [of _ "[]"] show thesis by (simp add: mint_for_domain_def acting_def)
    next
      case d: (Some d)
      obtain r ws where dr: "domain_resolve d h md = (r, ws)" by fastforce
      show thesis
      proof (cases r)
        case (Inl e)
        with ro b d dr show thesis by (intro refused [of _ ws]) (simp_all add: mint_for_domain_def acting_def)
      next
        case (Inr i)
        with ro b d dr show thesis
          by (intro gated [of i b ro ws]) (simp_all add: mint_for_domain_def acting_def)
      qed
    qed
  qed
qed

lemma mint_with_credentials_Inr:
  assumes "mint_with_credentials dflt s rn ro b repos = (Inr tok, es)"
  shows "\<exists>app_id inst key req tok0.
     ms_broker s 0 (rb_app_id_path b) = Inr app_id \<and> ms_broker s 1 (rb_installation_id_path b) = Inr inst
     \<and> ms_broker s 2 (rb_app_slug_path b) = Inr (rb_app_slug b) \<and> ms_broker s 3 (rb_private_key_path b) = Inr key
     \<and> req = \<lparr>mr_api_base = ms_api_base s, mr_app_id = app_id, mr_installation_id = inst, mr_private_key = key,
              mr_permissions = (case ms_renderer s of None \<Rightarrow> github_render | Some r \<Rightarrow> r) ro,
              mr_repos = repos, mr_ttl = ms_ttl s\<rparr>
     \<and> (case ms_mint s of None \<Rightarrow> dflt | Some f \<Rightarrow> f) req = Inr tok0
     \<and> tok = tok0\<lparr>tok_app_slug := rb_app_slug b\<rparr> \<and> rb_app_slug b \<noteq> []
     \<and> es = [BrokerRead (rb_app_id_path b), BrokerRead (rb_installation_id_path b),
             BrokerRead (rb_app_slug_path b), BrokerRead (rb_private_key_path b), TokenRequested req]"
  using assms
  by (auto simp: mint_with_credentials_def run_bind_Inr broker_get_def request_token_def Let_def
      app_slug_configured_def split: if_splits sum.splits)

text \<open>A key is read, and a token requested, only once the slug the broker holds is the configured one.\<close>

lemma key_after_slug:
  assumes "snd (mint_with_credentials dflt s rn ro b repos) = es"
  shows "length es \<le> 5 \<and> (3 < length es \<longrightarrow> ms_broker s 2 (rb_app_slug_path b) = Inr (rb_app_slug b))"
  using assms
  by (auto simp: mint_with_credentials_def run_bind_snd broker_get_def request_token_def Let_def
      split: if_splits sum.splits)

context permission_renderer
begin

text \<open>With a lawful renderer the requested permissions are exactly the registered ones of the role.\<close>

lemma requested_permissions:
  assumes "mint_with_credentials dflt s rn ro b repos = (Inr tok, es)" and "ms_renderer s = Some render"
    and "resolve_role r rn = Inr ro"
  shows "\<exists>req. TokenRequested req \<in> set es \<and> Some (mr_permissions req) = r rn"
  using mint_with_credentials_Inr [OF assms(1)] assms(2) resolved_render [OF assms(3)] by fastforce

end


subsection \<open>A sample service\<close>

definition sample_identity_i :: identity where
  "sample_identity_i = (plain_identity ''agent:bot'' source_assertion)
     \<lparr>id_roles := [''reader''], id_grade := ''workload'', id_issuer := ''https://issuer''\<rparr>"

definition sample_binding :: role_binding where
  "sample_binding = \<lparr>rb_app_id_path = ''a'', rb_installation_id_path = ''i'', rb_private_key_path = ''k'',
     rb_entitled = [], rb_min_grade = [], rb_app_slug = ''app'', rb_app_slug_path = ''s''\<rparr>"

definition sample_service :: mint_service where
  "sample_service = \<lparr>ms_api_base = ''api'', ms_ttl = 600, ms_roles = new_registry,
     ms_broker = (\<lambda>_ p. if p = ''s'' then Inr ''app'' else Inr p), ms_bindings = [''reader'' \<mapsto> sample_binding],
     ms_attestation = Some [\<lambda>_. (Inr sample_identity_i, [])], ms_domain = None, ms_renderer = None, ms_mint = None,
     ms_audit = True\<rparr>"

definition sample_client :: app_client where
  "sample_client req = Inr \<lparr>tok_value = ''t'', tok_expires = 0, tok_app_slug = []\<rparr>"

definition reader_role :: role where
  "reader_role = \<lparr>role_name = ''reader'', role_permissions =
     [''contents'' \<mapsto> read_perm, ''pull_requests'' \<mapsto> read_perm, ''issues'' \<mapsto> read_perm]\<rparr>"

definition reader_request :: mint_request where
  "reader_request = \<lparr>mr_api_base = ''api'', mr_app_id = ''a'', mr_installation_id = ''i'', mr_private_key = ''k'',
     mr_permissions = role_permissions reader_role, mr_repos = [''r''], mr_ttl = 600\<rparr>"

lemma sample_acting: "acting sample_service h domain_local ''reader'' sample_identity_i sample_binding reader_role"
  by (simp add: acting_def sample_service_def resolve_role_def new_registry_def reference_def service_resolver_def
      reader_role_def domain_resolve_fst requires_per_spawn_def declines_def sample_identity_i_def plain_identity_def)

lemma sample_run:
  "mint_for_domain sample_client sample_service h domain_local ''reader'' [''r''] =
     (Inr (\<lparr>tok_value = ''t'', tok_expires = 0, tok_app_slug = ''app''\<rparr>, sample_identity_i),
      [Audited \<lparr>ev_role = ''reader'', ev_subject = ''agent:bot'', ev_source = ''assertion'', ev_grade = ''workload'',
         ev_issuer = ''https://issuer'', ev_permitted = True, ev_reason = None\<rparr>,
       BrokerRead ''a'', BrokerRead ''i'', BrokerRead ''s'', BrokerRead ''k'', TokenRequested reader_request])"
  by (simp add: mint_for_domain_def sample_service_def resolve_role_def new_registry_def reference_def
      service_resolver_def domain_resolve_def requires_per_spawn_def resolve.simps(2) run_bind_def gate_identity_def
      sample_identity_i_def plain_identity_def check_assertion_def sample_binding_def min_grade_def grade_rank_def
      grade_harness_def grade_workload_def Let_def mint_with_credentials_def app_slug_configured_def broker_get_def
      request_token_def sample_client_def github.render_eq reader_request_def reader_role_def)

lemma sample_settings:
  "ms_renderer sample_service = None" "ms_roles sample_service = new_registry" "ms_audit sample_service"
  by (simp_all add: sample_service_def)

subsection \<open>Properties\<close>

text \<open>C7: Fail closed: a run reads a broker secret or requests a token only for an attested identity that
  the role's binding admits (the asserted roles, grade and subject, or the configured subjects for
  an unsigned identity) and only for a binding with both halves of the App slug configured.\<close>
theorem mint_reads_only_when_admitted:
  assumes "e \<in> set (snd (mint_for_domain dflt s h md rn repos))" and "reads_secret e"
  shows "\<exists>i b ro. acting s h md rn i b ro \<and> admits b rn i \<and> app_slug_configured b"
proof (cases rule: mint_run_cases [of dflt s h md rn repos])
  case (refused err ws)
  with assms show ?thesis by (auto simp: reads_secret_def)
next
  case (gated i b ro ws)
  have "e \<notin> Warned ` set ws" using assms(2) by (auto simp: reads_secret_def)
  with assms gate_reads_nothing [of e s rn b i]
  have "fst (gate_identity s rn b i) = Inr ()" and e: "e \<in> set (snd (mint_with_credentials dflt s rn ro b repos))"
    unfolding gated(2) by (auto simp: run_bind_snd split: sum.splits)
  then have "admits b rn i" by (simp add: gate_admits)
  moreover from e have "app_slug_configured b" by (auto simp: mint_with_credentials_def split: if_splits)
  ultimately show ?thesis using gated(1) by blast
qed

theorem mint_reads_only_when_admitted_witness:
  "\<exists>i b ro. acting sample_service (undefined :: host) domain_local ''reader'' i b ro \<and> admits b ''reader'' i \<and> app_slug_configured b"
  by (rule mint_reads_only_when_admitted [of "BrokerRead ''k''" sample_client _ _ _ _ "[''r'']"])
    (simp_all add: sample_run reads_secret_def)

text \<open>A minted token belongs to the App the binding names: its slug is the configured one and is what
  the broker held, the private key was read after that check, and the request carried, for GitHub's
  renderer, exactly the permissions registered for the role, the caller's repositories and the
  credentials found at the binding's paths.\<close>
theorem mint_token_of_bound_app:
  assumes "mint_for_domain dflt s h md rn repos = (Inr (tok, i), es)" and "ms_renderer s = None"
  shows "\<exists>b ro req. acting s h md rn i b ro \<and> admits b rn i
    \<and> tok_app_slug tok = rb_app_slug b \<and> ms_broker s 2 (rb_app_slug_path b) = Inr (rb_app_slug b)
    \<and> ms_broker s 0 (rb_app_id_path b) = Inr (mr_app_id req) \<and> ms_broker s 3 (rb_private_key_path b) = Inr (mr_private_key req)
    \<and> ms_roles s rn = Some (mr_permissions req) \<and> mr_repos req = repos
    \<and> filter reads_secret es = [BrokerRead (rb_app_id_path b), BrokerRead (rb_installation_id_path b),
         BrokerRead (rb_app_slug_path b), BrokerRead (rb_private_key_path b), TokenRequested req]"
proof (cases rule: mint_run_cases [of dflt s h md rn repos])
  case (refused err ws)
  with assms show ?thesis by simp
next
  case (gated j b ro ws)
  from assms(1) obtain ga ms where g: "gate_identity s rn b j = (Inr (), ga)"
    and m: "mint_with_credentials dflt s rn ro b repos = (Inr tok, ms)" and j: "j = i"
    and es: "es = map Warned ws @ ga @ ms"
    unfolding gated(2) by (auto simp: run_bind_Inr)
  have "filter reads_secret (map Warned ws) = []" by (auto simp: reads_secret_def filter_empty_conv)
  moreover have "filter reads_secret ga = []"
    using gate_reads_nothing [of _ s rn b j] g by (auto simp: filter_empty_conv)
  moreover have "admits b rn i" using gate_admits [of s rn b j] g j by simp
  moreover have "ms_roles s rn = Some (github_render ro)"
    using github.resolved_render gated(1) by (auto simp: acting_def)
  moreover note gated(1) j
  ultimately show ?thesis
    using mint_with_credentials_Inr [OF m] assms(2) es
    by (auto simp: reads_secret_def intro!: exI [of _ b])
qed

theorem mint_token_of_bound_app_witness:
  "\<exists>b ro (req :: mint_request). acting sample_service undefined domain_local ''reader'' sample_identity_i b ro
    \<and> tok_app_slug \<lparr>tok_value = ''t'', tok_expires = 0, tok_app_slug = ''app''\<rparr> = rb_app_slug b
    \<and> ms_roles sample_service ''reader'' = Some (mr_permissions req)"
  using mint_token_of_bound_app [OF sample_run [of undefined] sample_settings(1)] by blast

text \<open>With an audit sink, exactly one audit record is written for every decision on an asserted
  identity, before any secret is read, and it says whether the identity was admitted; none is written
  for an unsigned identity.\<close>
theorem mint_audits_asserted_decision:
  assumes "acting s h md rn i b ro" and "ms_audit s"
  shows "\<exists>ws evs rest. snd (mint_for_domain dflt s h md rn repos) = map Warned ws @ map Audited evs @ rest
    \<and> (\<forall>e. Audited e \<notin> set rest)
    \<and> (if id_source i = source_assertion
       then \<exists>ev. evs = [ev] \<and> ev_permitted ev = admits b rn i \<and> ev_subject ev = id_subject i \<and> ev_role ev = rn
       else evs = [])"
proof (cases rule: mint_run_cases [of dflt s h md rn repos])
  case (refused err ws)
  with assms(1) show ?thesis by blast
next
  case (gated j b' ro' ws)
  then have eq: "j = i" "b' = b" using assms(1) by (auto simp: acting_def)
  obtain evs where ga: "snd (gate_identity s rn b i) = map Audited evs"
    "if id_source i = source_assertion
     then \<exists>ev. evs = [ev] \<and> ev_permitted ev = (check_assertion b rn i = None) \<and> ev_subject ev = id_subject i \<and> ev_role ev = rn
     else evs = []"
  proof (cases "id_source i = source_assertion")
    case True
    let ?ev = "\<lparr>ev_role = rn, ev_subject = id_subject i, ev_source = id_source i, ev_grade = id_grade i,
      ev_issuer = id_issuer i, ev_permitted = (check_assertion b rn i = None), ev_reason = check_assertion b rn i\<rparr>"
    from True assms(2) show thesis by (intro that [of "[?ev]"]) (simp_all add: gate_identity_def Let_def)
  next
    case False
    then show thesis by (intro that [of "[]"]) (simp_all add: gate_identity_def)
  qed
  have "Audited e \<notin> set (snd (mint_with_credentials dflt s rn r b repos))" for e r
    by (auto simp: mint_with_credentials_def run_bind_snd broker_get_def request_token_def Let_def
        split: sum.splits if_splits)
  then show ?thesis
    unfolding gated(2) eq
    using ga by (intro exI [of _ ws] exI [of _ evs]) (auto simp: run_bind_snd admits_def check_assertion_None split: sum.splits)
qed

theorem mint_audits_asserted_decision_witness:
  "\<exists>ws evs rest. snd (mint_for_domain sample_client sample_service undefined domain_local ''reader'' [''r'']) =
     map Warned ws @ map Audited evs @ rest \<and> (\<exists>ev. evs = [ev])"
proof -
  have "id_source sample_identity_i = source_assertion" by (simp add: sample_identity_i_def plain_identity_def)
  then show ?thesis
    using mint_audits_asserted_decision [OF sample_acting [of undefined] sample_settings(3), of sample_client "[''r'']"]
    by auto
qed

end
