(* ===== verification/GoPath.thy ===== *)
theory GoPath
  imports Prelude
begin

text \<open>
  The lexical path functions of Go's \<open>path\<close> and (on unix, where they agree)
  \<open>path/filepath\<close> packages, as the program calls them: \<open>Clean\<close>, \<open>IsAbs\<close>,
  \<open>Join\<close>, \<open>Base\<close>, \<open>Dir\<close>, \<open>Ext\<close> and \<open>Rel\<close>. \<open>Clean\<close> is the
  documented rewriting, run over the slash-separated elements with a stack: an empty element
  and \<open>.\<close> vanish, \<open>..\<close> removes the element before it, and at a root it vanishes.
\<close>

definition is_abs :: "string \<Rightarrow> bool" where
  "is_abs p = has_prefix p ''/''"

definition clean_step :: "bool \<Rightarrow> string list \<Rightarrow> string \<Rightarrow> string list" where
  "clean_step rooted st e =
     (if e = [] \<or> e = ''.'' then st
      else if e = ''..'' then
        (case st of
           [] \<Rightarrow> if rooted then [] else [e]
         | t # st' \<Rightarrow> if t = ''..'' then e # st else st')
      else e # st)"

definition clean_elems :: "bool \<Rightarrow> string list \<Rightarrow> string list" where
  "clean_elems rooted es = rev (foldl (clean_step rooted) [] es)"

definition elems_of :: "string \<Rightarrow> string list" where
  "elems_of p = clean_elems (is_abs p) (split_on CHR ''/'' p)"

definition unelems :: "bool \<Rightarrow> string list \<Rightarrow> string" where
  "unelems rooted es =
     (if rooted then ''/'' @ join_with ''/'' es
      else if es = [] then ''.'' else join_with ''/'' es)"

definition path_clean :: "string \<Rightarrow> string" where
  "path_clean p = unelems (is_abs p) (elems_of p)"

definition path_join :: "string list \<Rightarrow> string" where
  "path_join ws =
     (let ne = filter (\<lambda>w. w \<noteq> []) ws in if ne = [] then [] else path_clean (join_with ''/'' ne))"

definition strip_slashes :: "string \<Rightarrow> string" where
  "strip_slashes p = rev (dropWhile (\<lambda>c. c = CHR ''/'') (rev p))"

definition path_base :: "string \<Rightarrow> string" where
  "path_base p =
     (if p = [] then ''.''
      else let q = strip_slashes p in if q = [] then ''/'' else last (split_on CHR ''/'' q))"

definition path_dir :: "string \<Rightarrow> string" where
  "path_dir p = path_clean (rev (dropWhile (\<lambda>c. c \<noteq> CHR ''/'') (rev p)))"

text \<open>\<open>Ext\<close>: from the last dot of the last element, empty without one.\<close>

definition path_ext :: "string \<Rightarrow> string" where
  "path_ext p =
     (let e = last (split_on CHR ''/'' p)
      in if CHR ''.'' \<in> set e then CHR ''.'' # last (split_on CHR ''.'' e) else [])"

text \<open>\<open>Rel\<close> on two cleaned paths; \<open>None\<close> is its error.\<close>

fun drop_common :: "string list \<Rightarrow> string list \<Rightarrow> string list \<times> string list" where
  "drop_common (b # bs) (t # ts) = (if b = t then drop_common bs ts else (b # bs, t # ts))"
| "drop_common bs ts = (bs, ts)"

definition path_rel :: "string \<Rightarrow> string \<Rightarrow> string option" where
  "path_rel base targ =
     (if path_clean targ = path_clean base then Some ''.''
      else if is_abs base \<noteq> is_abs targ then None
      else let (bs, ts) = drop_common (elems_of base) (elems_of targ)
        in if bs \<noteq> [] \<and> hd bs = ''..'' then None
           else Some (join_with ''/'' (replicate (length bs) ''..'' @ ts)))"

subsection \<open>The elements of a cleaned path\<close>

text \<open>
  A cleaned element list is normal: no empty element and no \<open>.\<close>, and \<open>..\<close> only as a
  leading run of an unrooted path.
\<close>

definition plain_elem :: "string \<Rightarrow> bool" where
  "plain_elem e \<longleftrightarrow> e \<noteq> [] \<and> e \<noteq> ''.'' \<and> e \<noteq> ''..'' \<and> CHR ''/'' \<notin> set e"

fun normal_stack :: "bool \<Rightarrow> string list \<Rightarrow> bool" where
  "normal_stack rooted [] = True"
| "normal_stack rooted (t # st) =
     ((if t = ''..'' then \<not> rooted \<and> set st \<subseteq> {''..''} else plain_elem t) \<and> normal_stack rooted st)"

lemma clean_step_normal:
  "normal_stack r st \<Longrightarrow> CHR ''/'' \<notin> set e \<Longrightarrow> normal_stack r (clean_step r st e)"
  by (auto simp: clean_step_def plain_elem_def split: list.splits if_splits)

lemma foldl_clean_normal:
  "normal_stack r st \<Longrightarrow> \<forall>e \<in> set es. CHR ''/'' \<notin> set e \<Longrightarrow>
     normal_stack r (foldl (clean_step r) st es)"
  by (induction es arbitrary: st) (auto simp: clean_step_normal)

lemma elems_of_normal: "normal_stack (is_abs p) (rev (elems_of p))"
  unfolding elems_of_def clean_elems_def
  by (simp add: foldl_clean_normal split_on_no_sep)

text \<open>Cleaning a normal list changes nothing.\<close>

lemma normal_stack_append:
  "normal_stack r (xs @ ys) \<Longrightarrow> normal_stack r ys"
  by (induction xs) auto

lemma clean_step_id:
  "normal_stack r (e # st) \<Longrightarrow> clean_step r st e = e # st"
  by (cases st) (auto simp: clean_step_def plain_elem_def)

lemma foldl_clean_id:
  "normal_stack r (rev es @ st) \<Longrightarrow> foldl (clean_step r) st es = rev es @ st"
proof (induction es arbitrary: st)
  case (Cons e es)
  from Cons.prems have "normal_stack r (e # st)"
    by (metis append_assoc append_Cons append_Nil normal_stack_append rev.simps(2))
  with Cons.IH [of "e # st"] Cons.prems show ?case
    by (simp add: clean_step_id)
qed simp

lemma normal_no_slash: "normal_stack r st \<Longrightarrow> e \<in> set st \<Longrightarrow> CHR ''/'' \<notin> set e"
  by (induction st) (auto simp: plain_elem_def split: if_splits)

lemma normal_nonempty: "normal_stack r st \<Longrightarrow> e \<in> set st \<Longrightarrow> e \<noteq> [] \<and> e \<noteq> ''.''"
  by (induction st) (auto simp: plain_elem_def split: if_splits)

lemma split_unelems:
  assumes "normal_stack r (rev es)"
  shows "split_on CHR ''/'' (unelems r es) =
    (if r then [] # (if es = [] then [[]] else es) else if es = [] then [''.''] else es)"
proof -
  have "\<forall>e \<in> set es. CHR ''/'' \<notin> set e"
    using normal_no_slash [OF assms] by simp
  then show ?thesis by (auto simp: unelems_def split_join)
qed

lemma is_abs_unelems:
  assumes "normal_stack r (rev es)"
  shows "is_abs (unelems r es) = r"
proof (cases "r \<or> es = []")
  case False
  then obtain e ws where es: "es = e # ws" by (cases es) auto
  with assms have "e \<noteq> []" "CHR ''/'' \<notin> set e"
    by (auto dest: normal_nonempty normal_no_slash)
  then obtain c d where "e = c # d" "c \<noteq> CHR ''/''" by (cases e) auto
  with es False show ?thesis by (cases ws) (auto simp: unelems_def is_abs_def)
qed (auto simp: unelems_def is_abs_def)

lemma elems_of_unelems:
  assumes "normal_stack r (rev es)"
  shows "elems_of (unelems r es) = es"
proof -
  have "foldl (clean_step r) [] es = rev es"
    using foldl_clean_id [of r es "[]"] assms by simp
  with assms show ?thesis
    by (auto simp: elems_of_def is_abs_unelems split_unelems clean_elems_def clean_step_def)
qed

lemma elems_of_clean [simp]: "elems_of (path_clean p) = elems_of p"
  by (simp add: path_clean_def elems_of_unelems elems_of_normal)

lemma is_abs_clean [simp]: "is_abs (path_clean p) = is_abs p"
  by (simp add: path_clean_def is_abs_unelems elems_of_normal)

lemma path_clean_idem [simp]: "path_clean (path_clean p) = path_clean p"
  unfolding path_clean_def [of "path_clean p"] elems_of_clean is_abs_clean
  by (rule path_clean_def [symmetric])

lemma path_clean_eq_iff:
  "path_clean p = path_clean q \<longleftrightarrow> is_abs p = is_abs q \<and> elems_of p = elems_of q"
proof
  assume eq: "path_clean p = path_clean q"
  from arg_cong [OF eq, of is_abs] arg_cong [OF eq, of elems_of]
  show "is_abs p = is_abs q \<and> elems_of p = elems_of q" by simp
qed (simp add: path_clean_def)

text \<open>
  A path in canonical form: absolute, one slash before each plain element. These are the paths
  \<open>Clean\<close> leaves alone.
\<close>

definition abs_path :: "string list \<Rightarrow> string" where
  "abs_path es = ''/'' @ join_with ''/'' es"

lemma abs_path_unelems: "abs_path es = unelems True es"
  by (simp add: abs_path_def unelems_def)

lemma plain_normal: "\<forall>e \<in> set es. plain_elem e \<Longrightarrow> normal_stack True (rev es)"
proof -
  have "\<forall>e \<in> set st. plain_elem e \<Longrightarrow> normal_stack True st" for st
    by (induction st) (auto simp: plain_elem_def)
  then show "\<forall>e \<in> set es. plain_elem e \<Longrightarrow> normal_stack True (rev es)" by simp
qed

lemma normal_rooted_plain: "normal_stack True st \<Longrightarrow> \<forall>e \<in> set st. plain_elem e"
  by (induction st) (auto split: if_splits)

lemma clean_abs_path: "\<forall>e \<in> set es. plain_elem e \<Longrightarrow> path_clean (abs_path es) = abs_path es"
  by (simp add: abs_path_unelems path_clean_def is_abs_unelems elems_of_unelems plain_normal)

lemma path_clean_abs: "is_abs p \<Longrightarrow> path_clean p = abs_path (elems_of p) \<and> (\<forall>e \<in> set (elems_of p). plain_elem e)"
  using normal_rooted_plain [of "rev (elems_of p)"] elems_of_normal [of p]
  by (simp add: path_clean_def unelems_def abs_path_def)

subsection \<open>Children of a directory\<close>

lemma elems_of_abs_path: "\<forall>e \<in> set es. plain_elem e \<Longrightarrow> elems_of (abs_path es) = es"
  by (simp add: abs_path_unelems elems_of_unelems plain_normal)

lemma foldl_plain:
  "\<forall>e \<in> set es. plain_elem e \<Longrightarrow> foldl (clean_step r) st es = rev es @ st"
  by (induction es arbitrary: st) (auto simp: clean_step_def plain_elem_def)

text \<open>Joining an absolute directory and one plain element appends the element.\<close>

lemma split_on_append:
  "split_on c (a @ c # b) = split_on c a @ split_on c b"
proof (induction a)
  case (Cons x a)
  then show ?case by (auto split: list.splits simp: append_eq_Cons_conv)
qed simp

lemma elems_of_join:
  assumes "d \<noteq> []" and "n \<noteq> []"
  shows "elems_of (path_join [d, n]) =
    rev (foldl (clean_step (is_abs d)) (rev (elems_of d)) (split_on CHR ''/'' n))"
    and "is_abs (path_join [d, n]) = is_abs d"
proof -
  have j: "path_join [d, n] = path_clean (d @ CHR ''/'' # n)"
    using assms by (simp add: path_join_def)
  have a: "is_abs (d @ CHR ''/'' # n) = is_abs d"
    using assms(1) by (cases d) (auto simp: is_abs_def)
  show "is_abs (path_join [d, n]) = is_abs d" by (simp add: j a)
  show "elems_of (path_join [d, n]) =
    rev (foldl (clean_step (is_abs d)) (rev (elems_of d)) (split_on CHR ''/'' n))"
    by (simp add: j a elems_of_def [of "d @ CHR ''/'' # n"] split_on_append clean_elems_def)
       (simp add: elems_of_def clean_elems_def)
qed

lemma elems_of_join_plain:
  assumes "d \<noteq> []" and "plain_elem n"
  shows "elems_of (path_join [d, n]) = elems_of d @ [n]"
  using assms elems_of_join(1) [of d n]
  by (auto simp: plain_elem_def split_on_free clean_step_def)

lemma path_join_abs:
  assumes "is_abs d" and "plain_elem n"
  shows "path_join [d, n] = abs_path (elems_of d @ [n])"
proof -
  have ne: "d \<noteq> []" "n \<noteq> []" using assms by (auto simp: is_abs_def plain_elem_def)
  have "path_join [d, n] = path_clean (path_join [d, n])"
    using ne by (simp add: path_join_def)
  also have "\<dots> = abs_path (elems_of d @ [n])"
    using path_clean_abs [of "path_join [d, n]"] elems_of_join(2) [OF ne] assms ne
    by (simp add: elems_of_join_plain)
  finally show ?thesis .
qed

lemma path_join_clean_fixed: "path_clean (path_join [d, n]) = path_join [d, n] \<or> path_join [d, n] = []"
  by (simp add: path_join_def Let_def)

subsection \<open>Directory and base of a path\<close>

lemma drop_last_elem:
  "CHR ''/'' \<notin> set n \<Longrightarrow> rev (dropWhile (\<lambda>c. c \<noteq> CHR ''/'') (rev (a @ ''/'' @ n))) = a @ ''/''"
  by (simp add: dropWhile_append)

lemma abs_path_snoc: "abs_path (es @ [n]) = (if es = [] then [] else abs_path es) @ ''/'' @ n"
proof (cases "es = []")
  case False
  have "join_with ''/'' (es @ [n]) = join_with ''/'' es @ ''/'' @ n"
    using False
  proof (induction es)
    case (Cons a es)
    then show ?case by (cases es) simp_all
  qed simp
  with False show ?thesis by (simp add: abs_path_def)
qed (simp add: abs_path_def)

lemma clean_trailing_slash:
  assumes "p \<noteq> []"
  shows "path_clean (p @ ''/'') = path_clean p"
proof -
  have "is_abs (p @ ''/'') = is_abs p" using assms by (cases p) (auto simp: is_abs_def)
  moreover have "split_on CHR ''/'' (p @ ''/'') = split_on CHR ''/'' p @ [[]]"
    using split_on_append [of "CHR ''/''" p "[]"] by simp
  ultimately have "elems_of (p @ ''/'') = elems_of p"
    by (simp add: elems_of_def clean_elems_def clean_step_def)
  with \<open>is_abs (p @ ''/'') = is_abs p\<close> show ?thesis by (simp add: path_clean_eq_iff)
qed

lemma path_dir_snoc:
  assumes "\<forall>e \<in> set es. plain_elem e" and "plain_elem n"
  shows "path_dir (abs_path (es @ [n])) = abs_path es"
proof -
  have "CHR ''/'' \<notin> set n" using assms(2) by (simp add: plain_elem_def)
  then have d: "path_dir (abs_path (es @ [n])) = path_clean ((if es = [] then [] else abs_path es) @ ''/'')"
    unfolding path_dir_def abs_path_snoc by (subst drop_last_elem) simp_all
  show ?thesis
  proof (cases "es = []")
    case True
    have "path_clean ''/'' = ''/''" by code_simp
    with True d show ?thesis by (simp add: abs_path_def)
  next
    case False
    moreover have "abs_path es \<noteq> []" by (simp add: abs_path_def)
    ultimately show ?thesis using d clean_trailing_slash [of "abs_path es"] clean_abs_path [OF assms(1)] by simp
  qed
qed

lemma path_base_snoc:
  assumes "plain_elem n"
  shows "path_base (abs_path (es @ [n])) = n"
proof -
  have n: "n \<noteq> []" "CHR ''/'' \<notin> set n" using assms by (auto simp: plain_elem_def)
  let ?p = "(if es = [] then [] else abs_path es) @ ''/'' @ n"
  have "hd (rev n) \<noteq> CHR ''/''" using n by (metis hd_in_set rev_is_Nil_conv set_rev)
  then have "strip_slashes ?p = ?p" using n(1)
    by (simp add: strip_slashes_def dropWhile_append) (cases "rev n"; simp)
  moreover have "split_on CHR ''/'' ?p = split_on CHR ''/'' (if es = [] then [] else abs_path es) @ [n]"
    using split_on_append [of "CHR ''/''" _ n] split_on_free [OF n(2)] by simp
  ultimately show ?thesis using n unfolding abs_path_snoc path_base_def Let_def by simp
qed

text \<open>A file put in a directory is found in it again.\<close>

lemma join_dir_base:
  assumes "is_abs d" and "plain_elem n"
  shows "path_dir (path_clean (path_join [d, n])) = path_clean d" and "path_base (path_join [d, n]) = n"
    and "path_clean (path_join [d, n]) = path_join [d, n]"
proof -
  have j: "path_join [d, n] = abs_path (elems_of d @ [n])" using assms by (rule path_join_abs)
  have c: "path_clean d = abs_path (elems_of d)" "\<forall>e \<in> set (elems_of d). plain_elem e"
    using path_clean_abs [OF assms(1)] by auto
  show "path_clean (path_join [d, n]) = path_join [d, n]"
    unfolding j by (rule clean_abs_path) (use c assms in auto)
  then show "path_dir (path_clean (path_join [d, n])) = path_clean d"
    using path_dir_snoc [OF c(2) assms(2)] j c by simp
  show "path_base (path_join [d, n]) = n" unfolding j using assms(2) by (rule path_base_snoc)
qed

end
