(* ===== verification/Base64Url.thy ===== *)
theory Base64Url
  imports Prelude
begin

text \<open>
  Go's \<open>base64.RawURLEncoding\<close>: the URL alphabet without padding. The decoder skips carriage
  returns and line feeds anywhere in its input and does not look at the unused low bits of a
  final partial quantum, as Go's does.
\<close>

definition b64_char :: "nat \<Rightarrow> char" where
  "b64_char n =
     (if n < 26 then char_of (65 + n) else if n < 52 then char_of (97 + (n - 26))
      else if n < 62 then char_of (48 + (n - 52)) else if n = 62 then CHR ''-'' else CHR ''_'')"

definition b64_val :: "char \<Rightarrow> nat option" where
  "b64_val c =
     (if is_upper c then Some (code c - 65) else if is_lower c then Some (26 + (code c - 97))
      else if is_digit c then Some (52 + (code c - 48))
      else if c = CHR ''-'' then Some 62 else if c = CHR ''_'' then Some 63 else None)"

fun enc_sextets :: "nat list \<Rightarrow> nat list" where
  "enc_sextets [] = []"
| "enc_sextets [x] = [x div 4, (x mod 4) * 16]"
| "enc_sextets [x, y] = [x div 4, (x mod 4) * 16 + y div 16, (y mod 16) * 4]"
| "enc_sextets (x # y # z # r) =
     x div 4 # ((x mod 4) * 16 + y div 16) # ((y mod 16) * 4 + z div 64) # z mod 64 # enc_sextets r"

fun dec_sextets :: "nat list \<Rightarrow> nat list option" where
  "dec_sextets [] = Some []"
| "dec_sextets [a] = None"
| "dec_sextets [a, b] = Some [a * 4 + b div 16]"
| "dec_sextets [a, b, c] = Some [a * 4 + b div 16, (b mod 16) * 16 + c div 4]"
| "dec_sextets (a # b # c # d # r) =
     map_option (\<lambda>bs. (a * 4 + b div 16) # ((b mod 16) * 16 + c div 4) # ((c mod 4) * 64 + d) # bs)
       (dec_sextets r)"

definition b64url_encode :: "string \<Rightarrow> string" where
  "b64url_encode s = map b64_char (enc_sextets (map code s))"

definition b64url_decode :: "string \<Rightarrow> string option" where
  "b64url_decode s =
     (let vs = map b64_val (filter (\<lambda>c. c \<noteq> CHR 0x0A \<and> c \<noteq> CHR 0x0D) s)
      in if None \<in> set vs then None
         else map_option (map char_of) (dec_sextets (map the vs)))"

subsection \<open>Encoding and decoding are inverse\<close>

lemma b64_val_char: "n < 64 \<Longrightarrow> b64_val (b64_char n) = Some n"
  by (auto simp: b64_val_def b64_char_def char_class_defs)

lemma b64_char_class: "n < 64 \<Longrightarrow> is_alnum (b64_char n) \<or> b64_char n \<in> {CHR ''-'', CHR ''_''}"
  by (auto simp: b64_char_def char_class_defs)

lemma enc_sextets_bound: "\<forall>x \<in> set xs. x < 256 \<Longrightarrow> \<forall>n \<in> set (enc_sextets xs). n < 64"
  by (induction xs rule: enc_sextets.induct) auto

lemma byte1: "y < 256 \<Longrightarrow> x div 4 * 4 + (x mod 4 * 16 + y div 16) div 16 = (x::nat)"
proof -
  assume "y < 256"
  then have "y div 16 < 16" by simp
  then have "(x mod 4 * 16 + y div 16) div 16 = x mod 4" by simp
  then show ?thesis by simp
qed

lemma byte2:
  "y < 256 \<Longrightarrow> z < 256 \<Longrightarrow>
     (x mod 4 * 16 + y div 16) mod 16 * 16 + (y mod 16 * 4 + z div 64) div 4 = (y::nat)"
proof -
  assume "y < 256" "z < 256"
  then have "y div 16 < 16" "z div 64 < 4" by simp_all
  then have "(x mod 4 * 16 + y div 16) mod 16 = y div 16" "(y mod 16 * 4 + z div 64) div 4 = y mod 16"
    by simp_all
  then show ?thesis by simp
qed

lemma byte3: "z < 256 \<Longrightarrow> (y mod 16 * 4 + z div 64) mod 4 * 64 + z mod 64 = (z::nat)"
proof -
  assume "z < 256"
  then have "z div 64 < 4" by simp
  then have "(y mod 16 * 4 + z div 64) mod 4 = z div 64"
    by (metis add.commute mod_less mod_mult_self2 mult.commute)
  then show ?thesis by simp
qed

lemma byte2_end: "y < 256 \<Longrightarrow> (x mod 4 * 16 + y div 16) mod 16 * 16 + y mod 16 * 4 div 4 = (y::nat)"
  using byte2 [of y 0 x] by simp

lemma dec_enc_sextets:
  "\<forall>x \<in> set xs. x < 256 \<Longrightarrow> dec_sextets (enc_sextets xs) = Some xs"
  by (induction xs rule: enc_sextets.induct)
     (simp_all only: enc_sextets.simps dec_sextets.simps byte1 byte2 byte3 byte2_end ball_simps
        list.set Set.insert_iff simp_thms option.map, simp_all)

lemma b64url_alphabet: "c \<in> set (b64url_encode s) \<Longrightarrow> is_alnum c \<or> c = CHR ''-'' \<or> c = CHR ''_''"
  using enc_sextets_bound [of "map code s"] b64_char_class
  by (fastforce simp: b64url_encode_def)

lemma b64url_no_dot: "CHR ''.'' \<notin> set (b64url_encode s)"
  using b64url_alphabet [of "CHR ''.''" s] by (auto simp: char_class_defs)

lemma b64url_graphic: "\<forall>c \<in> set (b64url_encode s). graphic c"
  using b64url_alphabet by (fastforce simp: char_class_defs graphic_def)

lemma b64url_roundtrip: "b64url_decode (b64url_encode s) = Some s"
proof -
  let ?e = "enc_sextets (map code s)"
  have b: "\<forall>n \<in> set ?e. n < 64" by (rule enc_sextets_bound) auto
  have f: "filter (\<lambda>c. c \<noteq> CHR 0x0A \<and> c \<noteq> CHR 0x0D) (map b64_char ?e) = map b64_char ?e"
    using b64url_graphic [of s] by (auto simp: filter_id_conv b64url_encode_def graphic_def code_def)
  have v: "map b64_val (map b64_char ?e) = map Some ?e"
    using b by (simp add: b64_val_char)
  have "map char_of (map code s) = s" by (simp add: code_def comp_def)
  then show ?thesis
    unfolding b64url_decode_def b64url_encode_def f v
    by (auto simp: dec_enc_sextets comp_def image_iff)
qed

end
