(* ===== verification/AssertionVerify.thy ===== *)
theory AssertionVerify
  imports Attestation GoPath Base64Url
begin

text \<open>
  Verification of a compact JWS identity assertion: \<open>internal/attestation/assertion_verify.go\<close>.
  NumericDates and majors are int64 values, kept at their width. The signature primitives of
  Go's crypto packages are a parameter (\<open>crypto\<close>), as is the source of trusted keys. A
  single-value type assertion that would panic is the outcome \<open>Panicked\<close>.
\<close>

unbundle bit_operations_syntax

type_synonym int64 = "64 word"

definition supported_contract_major :: int64 where "supported_contract_major = 2"
definition origin_driven_major :: int64 where "origin_driven_major = 2"
definition max_assertion_lifetime :: int64 where "max_assertion_lifetime = 43200"
definition max_numeric_date :: int64 where "max_numeric_date = 253402300799"
definition max_assertion_file_bytes :: nat where "max_assertion_file_bytes = 16384"

datatype audience_mode = ModeLocal | ModePeer

record verify_params =
  vp_now :: int64
  vp_mode :: audience_mode
  vp_peer :: string
  vp_observed_dir :: string
  vp_max_major :: int64

record jwk =
  jwk_kty :: string
  jwk_crv :: string
  jwk_kid :: string
  jwk_alg :: string
  jwk_use :: string
  jwk_x :: string
  jwk_y :: string

record key_source =
  ks_trusted :: "string \<Rightarrow> bool"
  ks_keys :: "string \<Rightarrow> string + jwk list"

record assertion_claims =
  ac_iss :: string
  ac_actor :: string
  ac_roles :: "string list"
  ac_grade :: string

record crypto =
  ed25519_verify :: "string \<Rightarrow> string \<Rightarrow> string \<Rightarrow> bool"
  p256_on_curve :: "nat \<Rightarrow> nat \<Rightarrow> bool"
  ecdsa_verify :: "nat \<Rightarrow> nat \<Rightarrow> string \<Rightarrow> nat \<Rightarrow> nat \<Rightarrow> bool"
  sha256 :: "string \<Rightarrow> string"

type_synonym claim_map = "(string \<times> json) list"

subsection \<open>Names\<close>

definition name_body :: "string \<Rightarrow> bool" where
  "name_body s \<longleftrightarrow> 1 \<le> length s \<and> length s \<le> 128 \<and> list_all is_name_char s"

definition actor_of_kind :: "string list \<Rightarrow> string \<Rightarrow> bool" where
  "actor_of_kind kinds s \<longleftrightarrow>
     list_ex (\<lambda>k. has_prefix s (k @ '':'') \<and> name_body (drop (Suc (length k)) s)) kinds"

definition re_actor :: "string \<Rightarrow> bool" where
  "re_actor = actor_of_kind [''human'', ''agent'', ''runtime'']"

definition re_actor_sub :: "string \<Rightarrow> bool" where
  "re_actor_sub = actor_of_kind [''agent'', ''runtime'']"

definition re_role_name :: "string \<Rightarrow> bool" where
  "re_role_name s =
     (case s of [] \<Rightarrow> False
      | c # r \<Rightarrow> is_lower c \<and> length r \<le> 63
          \<and> list_all (\<lambda>d. is_lower d \<or> is_digit d \<or> d = CHR ''_'' \<or> d = CHR ''-'') r)"

definition always_required_claims :: "string list" where
  "always_required_claims =
     [''iss'', ''sub'', ''roles'', ''grade'', ''rt'', ''sid'', ''origin'', ''iat'', ''exp'', ''jti'', ''cia'']"

subsection \<open>Reading the claims\<close>

definition decode_object :: "string \<Rightarrow> claim_map option" where
  "decode_object seg =
     (case b64url_decode seg of
        None \<Rightarrow> None
      | Some raw \<Rightarrow> (case json_parse raw of Some (JObj m) \<Rightarrow> Some m | _ \<Rightarrow> None))"

definition as_int :: "json option \<Rightarrow> int64 option" where
  "as_int v =
     (case v of Some (JNum n) \<Rightarrow> map_option word_of_int (parse_int64 n) | _ \<Rightarrow> None)"

text \<open>\<open>s, ok := v.(string)\<close>, and \<open>s, _ :=\<close> with the empty string where it fails.\<close>

definition as_str :: "json option \<Rightarrow> string option" where
  "as_str v = (case v of Some (JStr s) \<Rightarrow> Some s | _ \<Rightarrow> None)"

definition str_of :: "json option \<Rightarrow> string" where
  "str_of v = (case as_str v of Some s \<Rightarrow> s | None \<Rightarrow> [])"

definition non_empty_string :: "json option \<Rightarrow> bool" where
  "non_empty_string v = (case as_str v of Some s \<Rightarrow> s \<noteq> [] | None \<Rightarrow> False)"

definition bytes_nat :: "string \<Rightarrow> nat" where
  "bytes_nat s = foldl (\<lambda>a c. 256 * a + code c) 0 s"

definition verify_signature :: "crypto \<Rightarrow> jwk \<Rightarrow> string \<Rightarrow> string \<Rightarrow> string \<Rightarrow> bool" where
  "verify_signature cr k alg input sig =
     (if alg = ''EdDSA'' then
        (if jwk_kty k \<noteq> ''OKP'' \<or> jwk_crv k \<noteq> ''Ed25519'' then False
         else case b64url_decode (jwk_x k) of
                None \<Rightarrow> False
              | Some x \<Rightarrow> if length x \<noteq> 32 then False else ed25519_verify cr x input sig)
      else if alg = ''ES256'' then
        (if jwk_kty k \<noteq> ''EC'' \<or> jwk_crv k \<noteq> ''P-256'' \<or> length sig \<noteq> 64 then False
         else case (b64url_decode (jwk_x k), b64url_decode (jwk_y k)) of
                (Some xb, Some yb) \<Rightarrow>
                  if \<not> p256_on_curve cr (bytes_nat xb) (bytes_nat yb) then False
                  else ecdsa_verify cr (bytes_nat xb) (bytes_nat yb) (sha256 cr input)
                         (bytes_nat (take 32 sig)) (bytes_nat (drop 32 sig))
              | _ \<Rightarrow> False)
      else False)"

fun signing_loop :: "jwk list \<Rightarrow> string \<Rightarrow> string \<Rightarrow> jwk list" where
  "signing_loop [] kid alg = []"
| "signing_loop (k # ks) kid alg =
     (if jwk_kid k \<noteq> kid \<or> (jwk_use k \<noteq> [] \<and> jwk_use k \<noteq> ''sig'') \<or> (jwk_alg k \<noteq> [] \<and> jwk_alg k \<noteq> alg)
      then signing_loop ks kid alg else k # signing_loop ks kid alg)"

definition signing_keys :: "jwk list \<Rightarrow> string \<Rightarrow> string \<Rightarrow> jwk list" where
  "signing_keys keys kid alg = (if kid = [] then [] else signing_loop keys kid alg)"

lemma lookup_in: "lookup k ms = Some v \<Longrightarrow> (k, v) \<in> set ms"
  by (auto simp: lookup.simps dest: map_of_SomeD)

lemma lookup_size: "lookup k ms = Some v \<Longrightarrow> size v < size (JObj ms)"
proof -
  assume "lookup k ms = Some v"
  then have "(k, v) \<in> set ms" by (rule lookup_in)
  then have "size_prod (\<lambda>_. 0) size (k, v) \<le> size_list (size_prod (\<lambda>_. 0) size) ms"
    by (rule size_list_estimation') simp
  then show ?thesis by simp
qed


function valid_actor_chain :: "json \<Rightarrow> bool" where
  "valid_actor_chain (JObj m) =
     (case as_str (lookup ''sub'' m) of
        None \<Rightarrow> False
      | Some s \<Rightarrow>
          if \<not> re_actor_sub s then False
          else (case lookup ''act'' m of None \<Rightarrow> True | Some inner \<Rightarrow> valid_actor_chain inner))"
| "valid_actor_chain JNull = False"
| "valid_actor_chain (JBool b) = False"
| "valid_actor_chain (JNum n) = False"
| "valid_actor_chain (JStr s) = False"
| "valid_actor_chain (JArr vs) = False"
  by pat_completeness auto
termination
  by (relation "measure size") (auto dest: lookup_size)

declare valid_actor_chain.simps(1) [simp del]


subsection \<open>The shape of the claims\<close>

fun roles_valid :: "string list \<Rightarrow> json list \<Rightarrow> bool" where
  "roles_valid seen [] = True"
| "roles_valid seen (r # rs) =
     (case r of
        JStr s \<Rightarrow> if \<not> re_role_name s \<or> s \<in> set seen then False else roles_valid (s # seen) rs
      | _ \<Rightarrow> False)"

definition origin_valid :: "claim_map \<Rightarrow> int64 \<Rightarrow> bool" where
  "origin_valid c cia =
     (let o' = str_of (lookup ''origin'' c)
      in if o' \<in> {''human'', ''scheduled'', ''loop'', ''trigger'', ''agent''} then True
         else if o' = ''driven'' then
           \<not> (cia <s origin_driven_major \<or> lookup ''grade'' c \<noteq> Some (JStr ''workload'')
               \<or> has_prefix (str_of (lookup ''sub'' c)) ''human:'')
         else False)"

definition optional_claim :: "claim_map \<Rightarrow> string \<Rightarrow> (json \<Rightarrow> bool) \<Rightarrow> bool" where
  "optional_claim c name P = (case lookup name c of None \<Rightarrow> True | Some v \<Rightarrow> P v)"

definition claims_shape_valid :: "claim_map \<Rightarrow> int64 \<Rightarrow> bool" where
  "claims_shape_valid c cia =
     (if \<not> list_all (\<lambda>name. lookup name c \<noteq> None) always_required_claims then False
      else if \<not> non_empty_string (lookup ''iss'' c) \<or> \<not> non_empty_string (lookup ''sid'' c)
           \<or> \<not> non_empty_string (lookup ''jti'' c) then False
      else if \<not> (case as_str (lookup ''sub'' c) of Some s \<Rightarrow> re_actor s | None \<Rightarrow> False) then False
      else if \<not> (case lookup ''roles'' c of Some (JArr rs) \<Rightarrow> roles_valid [] rs | _ \<Rightarrow> False) then False
      else if str_of (lookup ''grade'' c) \<noteq> ''workload'' \<and> str_of (lookup ''grade'' c) \<noteq> ''harness'' then False
      else if \<not> origin_valid c cia then False
      else if \<not> (case lookup ''rt'' c of
                   Some (JObj rt) \<Rightarrow> non_empty_string (lookup ''id'' rt) \<and> non_empty_string (lookup ''version'' rt)
                 | _ \<Rightarrow> False) then False
      else if \<not> optional_claim c ''act'' valid_actor_chain then False
      else if \<not> optional_claim c ''spawn'' (\<lambda>v. non_empty_string (Some v)) then False
      else if \<not> optional_claim c ''aud'' (\<lambda>v. non_empty_string (Some v)) then False
      else if \<not> optional_claim c ''dir'' (\<lambda>v. case v of JStr s \<Rightarrow> has_prefix s ''/'' | _ \<Rightarrow> False) then False
      else if (lookup ''aud'' c \<noteq> None) = (lookup ''dir'' c \<noteq> None) then False
      else if lookup ''grade'' c = Some (JStr ''harness'')
           \<and> (lookup ''act'' c = None \<or> lookup ''spawn'' c = None) then False
      else True)"

subsection \<open>Verification\<close>

datatype verify_outcome = Refused assertion_code | Accepted assertion_claims | Panicked

text \<open>The accepted claims, \<open>None\<close> where a type assertion would panic.\<close>

fun role_strings :: "json list \<Rightarrow> string list option" where
  "role_strings [] = Some []"
| "role_strings (r # rs) = (case r of JStr s \<Rightarrow> map_option ((#) s) (role_strings rs) | _ \<Rightarrow> None)"

definition claims_out :: "string \<Rightarrow> claim_map \<Rightarrow> assertion_claims option" where
  "claims_out iss c =
     (case (as_str (lookup ''sub'' c), as_str (lookup ''grade'' c)) of
        (Some sub, Some grade) \<Rightarrow>
          (case (case lookup ''act'' c of
                   Some (JObj act) \<Rightarrow> as_str (lookup ''sub'' act)
                 | _ \<Rightarrow> Some sub) of
             None \<Rightarrow> None
           | Some actor \<Rightarrow>
               (case lookup ''roles'' c of
                  Some (JArr rs) \<Rightarrow>
                    map_option (\<lambda>roles. \<lparr>ac_iss = iss, ac_actor = actor, ac_roles = roles, ac_grade = grade\<rparr>)
                      (role_strings rs)
                | _ \<Rightarrow> None))
      | _ \<Rightarrow> None)"

definition accept_claims :: "string \<Rightarrow> claim_map \<Rightarrow> verify_outcome" where
  "accept_claims iss c = (case claims_out iss c of None \<Rightarrow> Panicked | Some out \<Rightarrow> Accepted out)"

definition check_audience :: "verify_params \<Rightarrow> string \<Rightarrow> claim_map \<Rightarrow> verify_outcome" where
  "check_audience p iss c =
     (let aud = as_str (lookup ''aud'' c)
      in case vp_mode p of
           ModeLocal \<Rightarrow>
             if aud \<noteq> None then Refused CodeAudUnexpected
             else (case as_str (lookup ''dir'' c) of
                     None \<Rightarrow> Panicked
                   | Some dir \<Rightarrow>
                       if path_clean dir \<noteq> path_clean (vp_observed_dir p) then Refused CodeDirMismatch
                       else accept_claims iss c)
         | ModePeer \<Rightarrow>
             if aud \<noteq> Some (vp_peer p) then Refused CodeAudMismatch else accept_claims iss c)"

definition out_of_range :: "int64 \<Rightarrow> bool" where
  "out_of_range d \<longleftrightarrow> d <s 0 \<or> max_numeric_date <s d"

definition check_claims :: "verify_params \<Rightarrow> string \<Rightarrow> claim_map \<Rightarrow> verify_outcome" where
  "check_claims p iss c =
     (let max_major = (if vp_max_major p = 0 then supported_contract_major else vp_max_major p)
      in case as_int (lookup ''cia'' c) of
           None \<Rightarrow> Refused CodeVersionNew
         | Some cia \<Rightarrow>
             if cia <s 1 \<or> max_major <s cia then Refused CodeVersionNew
             else if lookup ''nbf'' c \<noteq> None \<and> as_int (lookup ''nbf'' c) = None then Refused CodeClaimsInvalid
             else (case (as_int (lookup ''iat'' c), as_int (lookup ''exp'' c)) of
                     (Some iat, Some expiry) \<Rightarrow>
                       if out_of_range iat \<or> out_of_range expiry then Refused CodeClaimsInvalid
                       else if expiry <=s vp_now p then Refused CodeExpired
                       else if (case as_int (lookup ''nbf'' c) of Some nbf \<Rightarrow> vp_now p <s nbf | None \<Rightarrow> False)
                            \<or> vp_now p <s iat then Refused CodeNotYetValid
                       else if max_assertion_lifetime <s expiry - iat then Refused CodeTTLExceeded
                       else if \<not> claims_shape_valid c cia then Refused CodeClaimsInvalid
                       else check_audience p iss c
                   | _ \<Rightarrow> Refused CodeClaimsInvalid))"

definition some_key_verifies :: "crypto \<Rightarrow> jwk list \<Rightarrow> string \<Rightarrow> string \<Rightarrow> string option \<Rightarrow> bool" where
  "some_key_verifies cr ks alg input sig =
     (case sig of None \<Rightarrow> False | Some sg \<Rightarrow> list_ex (\<lambda>k. verify_signature cr k alg input sg) ks)"

definition check_signature ::
    "crypto \<Rightarrow> key_source \<Rightarrow> verify_params \<Rightarrow> string \<Rightarrow> string \<Rightarrow> string option \<Rightarrow> claim_map \<Rightarrow> claim_map
      \<Rightarrow> verify_outcome" where
  "check_signature cr src p seg0 seg1 sig header claims =
     (let alg = str_of (lookup ''alg'' header); iss = str_of (lookup ''iss'' claims)
      in if lookup ''crit'' header \<noteq> None then Refused CodeMalformed
         else if alg \<noteq> ''EdDSA'' \<and> alg \<noteq> ''ES256'' then Refused CodeAlgNotAllowed
         else if iss = [] \<or> \<not> ks_trusted src iss then Refused CodeIssuerUntrusted
         else case ks_keys src iss of
                Inl e \<Rightarrow> Refused CodeJWKSUnavailable
              | Inr keys \<Rightarrow>
                  (let candidates = signing_keys keys (str_of (lookup ''kid'' header)) alg
                   in if candidates = [] then Refused CodeKeyNotFound
                      else if \<not> some_key_verifies cr candidates alg (seg0 @ ''.'' @ seg1) sig
                           then Refused CodeSignatureBad
                      else check_claims p iss claims))"

definition verify_assertion ::
    "crypto \<Rightarrow> key_source \<Rightarrow> verify_params \<Rightarrow> string \<Rightarrow> verify_outcome" where
  "verify_assertion cr src p token =
     (case split_on CHR ''.'' token of
        [seg0, seg1, seg2] \<Rightarrow>
          (case (decode_object seg0, decode_object seg1) of
             (Some header, Some claims) \<Rightarrow>
               check_signature cr src p seg0 seg1 (b64url_decode seg2) header claims
           | _ \<Rightarrow> Refused CodeMalformed)
      | _ \<Rightarrow> Refused CodeMalformed)"

subsection \<open>No overflow, no panic\<close>

lemma sint_consts [simp]:
  "sint (0 :: int64) = 0" "sint (1 :: int64) = 1" "sint supported_contract_major = 2"
  "sint origin_driven_major = 2" "sint max_assertion_lifetime = 43200" "sint max_numeric_date = 253402300799"
  by (simp_all add: supported_contract_major_def origin_driven_major_def max_assertion_lifetime_def
      max_numeric_date_def)

lemma sless_sint: "(a :: int64) <s b \<longleftrightarrow> sint a < sint b"
  by (simp add: word_sless_alt)

lemma sle_sint: "(a :: int64) <=s b \<longleftrightarrow> sint a \<le> sint b"
  by (simp add: word_sle_eq)

lemma lifetime_exact:
  assumes "\<not> out_of_range iat" and "\<not> out_of_range expiry"
  shows "sint (expiry - iat) = sint expiry - sint iat"
proof -
  have r: "0 \<le> sint iat" "sint iat \<le> 253402300799" "0 \<le> sint expiry" "sint expiry \<le> 253402300799"
    using assms by (auto simp: out_of_range_def sless_sint)
  show ?thesis
    by (subst sint_word_ariths(2)) (use r in \<open>simp add: signed_take_bit_int_eq_self\<close>)
qed

lemma roles_valid_strings:
  "roles_valid seen rs \<Longrightarrow>
     \<exists>ss. role_strings rs = Some ss \<and> rs = map JStr ss \<and> list_all re_role_name ss
       \<and> distinct ss \<and> set ss \<inter> set seen = {}"
proof (induction rs arbitrary: seen)
  case (Cons r rs)
  then obtain s where s: "r = JStr s" "re_role_name s" "s \<notin> set seen" "roles_valid (s # seen) rs"
    by (cases r) (auto split: if_splits)
  with Cons.IH [of "s # seen"] show ?case by auto
qed simp

lemma valid_actor_chain_D:
  "valid_actor_chain v \<Longrightarrow> \<exists>m s. v = JObj m \<and> as_str (lookup ''sub'' m) = Some s \<and> re_actor_sub s"
  by (cases v) (auto simp: valid_actor_chain.simps(1) split: option.splits if_splits)

lemma as_str_Some: "as_str v = Some s \<longleftrightarrow> v = Some (JStr s)"
  by (auto simp: as_str_def split: option.splits json.splits)

text \<open>What a valid shape says, one fact per claim.\<close>

lemma shape_validD:
  assumes "claims_shape_valid c cia"
  obtains sub roles grade rt where
    "lookup ''sub'' c = Some (JStr sub)" "re_actor sub"
    "lookup ''roles'' c = Some (JArr (map JStr roles))" "role_strings (map JStr roles) = Some roles"
    "list_all re_role_name roles" "distinct roles"
    "lookup ''grade'' c = Some (JStr grade)" "grade = ''workload'' \<or> grade = ''harness''"
    "lookup ''rt'' c = Some (JObj rt)" "non_empty_string (lookup ''id'' rt)"
    "non_empty_string (lookup ''version'' rt)"
    "origin_valid c cia" "optional_claim c ''act'' valid_actor_chain"
    "non_empty_string (lookup ''sid'' c)" "non_empty_string (lookup ''jti'' c)"
    "(lookup ''aud'' c = None) \<noteq> (lookup ''dir'' c = None)"
    "optional_claim c ''aud'' (\<lambda>v. non_empty_string (Some v))"
    "optional_claim c ''dir'' (\<lambda>v. \<exists>s. v = JStr s \<and> is_abs s)"
    "grade = ''harness'' \<Longrightarrow> lookup ''act'' c \<noteq> None \<and> lookup ''spawn'' c \<noteq> None"
proof -
  note s = assms [unfolded claims_shape_valid_def]
  have "\<exists>sub. lookup ''sub'' c = Some (JStr sub) \<and> re_actor sub"
    using s by (auto simp: as_str_Some split: if_splits option.splits)
  moreover have "\<exists>rs. lookup ''roles'' c = Some (JArr rs) \<and> roles_valid [] rs"
    using s by (auto split: if_splits option.splits json.splits)
  moreover have "\<exists>g. lookup ''grade'' c = Some (JStr g) \<and> (g = ''workload'' \<or> g = ''harness'')"
    using s by (auto simp: str_of_def as_str_Some split: if_splits option.splits)
  moreover have "\<exists>rt. lookup ''rt'' c = Some (JObj rt) \<and> non_empty_string (lookup ''id'' rt)
      \<and> non_empty_string (lookup ''version'' rt)"
    using s by (auto split: if_splits option.splits json.splits)
  moreover have "optional_claim c ''dir'' (\<lambda>v. \<exists>s. v = JStr s \<and> is_abs s)"
    using s by (auto simp: optional_claim_def is_abs_def split: if_splits option.splits json.splits)
  moreover have "lookup ''grade'' c = Some (JStr ''harness'') \<longrightarrow> lookup ''act'' c \<noteq> None \<and> lookup ''spawn'' c \<noteq> None"
    using s by (auto split: if_splits)
  moreover have "origin_valid c cia" "optional_claim c ''act'' valid_actor_chain"
    "non_empty_string (lookup ''sid'' c)" "non_empty_string (lookup ''jti'' c)"
    "(lookup ''aud'' c = None) \<noteq> (lookup ''dir'' c = None)"
    "optional_claim c ''aud'' (\<lambda>v. non_empty_string (Some v))"
    using s by (auto split: if_splits)
  ultimately show thesis using roles_valid_strings that by (metis (no_types, lifting))
qed


definition actor_of :: "claim_map \<Rightarrow> string" where
  "actor_of c =
     (case lookup ''act'' c of Some (JObj act) \<Rightarrow> str_of (lookup ''sub'' act) | _ \<Rightarrow> str_of (lookup ''sub'' c))"

definition roles_of :: "claim_map \<Rightarrow> string list" where
  "roles_of c =
     (case lookup ''roles'' c of Some (JArr rs) \<Rightarrow> map (\<lambda>r. str_of (Some r)) rs | _ \<Rightarrow> [])"

definition claims_view :: "claim_map \<Rightarrow> assertion_claims" where
  "claims_view c =
     \<lparr>ac_iss = str_of (lookup ''iss'' c), ac_actor = actor_of c, ac_roles = roles_of c,
      ac_grade = str_of (lookup ''grade'' c)\<rparr>"

lemma str_of_JStr [simp]: "str_of (Some (JStr s)) = s"
  by (simp add: str_of_def as_str_def)

lemma accept_claims_valid:
  assumes "claims_shape_valid c cia"
  shows "accept_claims (str_of (lookup ''iss'' c)) c = Accepted (claims_view c)"
  using assms
proof (rule shape_validD)
  fix sub roles grade rt
  assume l: "lookup ''sub'' c = Some (JStr sub)" "lookup ''roles'' c = Some (JArr (map JStr roles))"
    "role_strings (map JStr roles) = Some roles" "lookup ''grade'' c = Some (JStr grade)"
    and act: "optional_claim c ''act'' valid_actor_chain"
  have r: "roles_of c = roles" by (simp add: roles_of_def l comp_def)
  show ?thesis
  proof (cases "lookup ''act'' c")
    case None
    with l r show ?thesis
      by (simp add: accept_claims_def claims_out_def claims_view_def actor_of_def as_str_def)
  next
    case (Some v)
    with act obtain m s where "v = JObj m" "lookup ''sub'' m = Some (JStr s)"
      by (auto simp: optional_claim_def as_str_Some dest: valid_actor_chain_D)
    with Some l r show ?thesis
      by (simp add: accept_claims_def claims_out_def claims_view_def actor_of_def as_str_def)
  qed
qed

subsection \<open>The refusal table\<close>

text \<open>
  The contract's order of checks as a table: each row is a failure condition, over integers and
  strings, and the code it refuses with. The first row that applies decides.
\<close>

fun first_failure :: "(bool \<times> assertion_code) list \<Rightarrow> verify_outcome \<Rightarrow> verify_outcome" where
  "first_failure [] otherwise = otherwise"
| "first_failure ((failed, c) # rows) otherwise =
     (if failed then Refused c else first_failure rows otherwise)"

definition date_of :: "claim_map \<Rightarrow> string \<Rightarrow> int option" where
  "date_of c name = map_option sint (as_int (lookup name c))"

definition claim_rows :: "verify_params \<Rightarrow> claim_map \<Rightarrow> (bool \<times> assertion_code) list" where
  "claim_rows p c =
     (let major = (if vp_max_major p = 0 then 2 else sint (vp_max_major p)); now = sint (vp_now p);
          date = (\<lambda>name. case date_of c name of Some d \<Rightarrow> d | None \<Rightarrow> 0);
          cia = (case as_int (lookup ''cia'' c) of Some v \<Rightarrow> v | None \<Rightarrow> 0)
      in [(date_of c ''cia'' = None \<or> date ''cia'' < 1 \<or> major < date ''cia'', CodeVersionNew),
          ((lookup ''nbf'' c \<noteq> None \<and> date_of c ''nbf'' = None) \<or> date_of c ''iat'' = None \<or> date_of c ''exp'' = None,
             CodeClaimsInvalid),
          (date ''iat'' \<notin> {0..253402300799} \<or> date ''exp'' \<notin> {0..253402300799}, CodeClaimsInvalid),
          (date ''exp'' \<le> now, CodeExpired),
          ((date_of c ''nbf'' \<noteq> None \<and> now < date ''nbf'') \<or> now < date ''iat'', CodeNotYetValid),
          (date ''exp'' - date ''iat'' > 43200, CodeTTLExceeded),
          (\<not> claims_shape_valid c cia, CodeClaimsInvalid),
          (vp_mode p = ModeLocal \<and> as_str (lookup ''aud'' c) \<noteq> None, CodeAudUnexpected),
          (vp_mode p = ModeLocal \<and>
             path_clean (str_of (lookup ''dir'' c)) \<noteq> path_clean (vp_observed_dir p), CodeDirMismatch),
          (vp_mode p = ModePeer \<and> as_str (lookup ''aud'' c) \<noteq> Some (vp_peer p), CodeAudMismatch)])"

definition signature_rows ::
    "crypto \<Rightarrow> key_source \<Rightarrow> string \<Rightarrow> string \<Rightarrow> string option \<Rightarrow> claim_map \<Rightarrow> claim_map
      \<Rightarrow> (bool \<times> assertion_code) list" where
  "signature_rows cr src seg0 seg1 sig header c =
     (let alg = str_of (lookup ''alg'' header); iss = str_of (lookup ''iss'' c);
          keys = (case ks_keys src iss of Inr ks \<Rightarrow> ks | Inl e \<Rightarrow> []);
          cands = signing_keys keys (str_of (lookup ''kid'' header)) alg
      in [(lookup ''crit'' header \<noteq> None, CodeMalformed),
          (alg \<notin> {''EdDSA'', ''ES256''}, CodeAlgNotAllowed),
          (iss = [] \<or> \<not> ks_trusted src iss, CodeIssuerUntrusted),
          (\<not> is_ok (ks_keys src iss), CodeJWKSUnavailable),
          (cands = [], CodeKeyNotFound),
          (\<not> (\<exists>sg. sig = Some sg \<and> (\<exists>k \<in> set cands. verify_signature cr k alg (seg0 @ ''.'' @ seg1) sg)),
             CodeSignatureBad)])"

lemma first_failure_append:
  "first_failure (xs @ ys) z = first_failure xs (first_failure ys z)"
  by (induction xs z rule: first_failure.induct) auto

lemma check_audience_rows:
  assumes "claims_shape_valid c cia"
  shows "check_audience p (str_of (lookup ''iss'' c)) c =
    first_failure
      [(vp_mode p = ModeLocal \<and> as_str (lookup ''aud'' c) \<noteq> None, CodeAudUnexpected),
       (vp_mode p = ModeLocal \<and>
          path_clean (str_of (lookup ''dir'' c)) \<noteq> path_clean (vp_observed_dir p), CodeDirMismatch),
       (vp_mode p = ModePeer \<and> as_str (lookup ''aud'' c) \<noteq> Some (vp_peer p), CodeAudMismatch)]
      (Accepted (claims_view c))"
  using assms
proof (rule shape_validD)
  assume "(lookup ''aud'' c = None) \<noteq> (lookup ''dir'' c = None)"
    and "optional_claim c ''aud'' (\<lambda>v. non_empty_string (Some v))"
    and "optional_claim c ''dir'' (\<lambda>v. \<exists>s. v = JStr s \<and> is_abs s)"
  then have dir: "as_str (lookup ''aud'' c) = None \<Longrightarrow> \<exists>s. lookup ''dir'' c = Some (JStr s)"
    by (auto simp: optional_claim_def non_empty_string_def split: option.splits)
  show ?thesis
  proof (cases "as_str (lookup ''aud'' c)")
    case None
    with dir obtain s where "lookup ''dir'' c = Some (JStr s)" by blast
    with None accept_claims_valid [OF assms] show ?thesis
      by (cases "vp_mode p") (simp_all add: check_audience_def Let_def as_str_Some [THEN iffD2])
  next
    case (Some a)
    with accept_claims_valid [OF assms] show ?thesis
      by (cases "vp_mode p") (simp_all add: check_audience_def Let_def)
  qed
qed

lemma as_int_None [simp]: "as_int None = None"
  by (simp add: as_int_def)

lemma check_claims_rows:
  "check_claims p (str_of (lookup ''iss'' c)) c = first_failure (claim_rows p c) (Accepted (claims_view c))"
proof (cases "as_int (lookup ''cia'' c)")
  case None
  then show ?thesis by (simp add: check_claims_def claim_rows_def date_of_def Let_def)
next
  case (Some cia)
  have lt: "\<not> out_of_range iat \<Longrightarrow> \<not> out_of_range expiry \<Longrightarrow>
      (max_assertion_lifetime <s expiry - iat) = (43200 < sint expiry - sint iat)" for iat expiry
    by (simp add: sless_sint lifetime_exact)
  have rng: "out_of_range d = (sint d \<notin> {0..253402300799})" for d
    by (auto simp: out_of_range_def sless_sint)
  show ?thesis
  proof (cases "as_int (lookup ''iat'' c)"; cases "as_int (lookup ''exp'' c)")
    fix iat expiry
    assume d: "as_int (lookup ''iat'' c) = Some iat" "as_int (lookup ''exp'' c) = Some expiry"
    show ?thesis
      using Some d check_audience_rows [of c cia p] lt [of iat expiry] rng
      by (cases "as_int (lookup ''nbf'' c)")
        (simp_all add: check_claims_def claim_rows_def date_of_def Let_def sless_sint sle_sint)
  qed (use Some in \<open>simp_all add: check_claims_def claim_rows_def date_of_def Let_def sless_sint\<close>)
qed

lemma some_key_verifies_iff:
  "some_key_verifies cr ks alg input sig \<longleftrightarrow>
     (\<exists>sg. sig = Some sg \<and> (\<exists>k \<in> set ks. verify_signature cr k alg input sg))"
  by (auto simp: some_key_verifies_def list_ex_iff split: option.splits)

lemma check_signature_rows:
  "check_signature cr src p seg0 seg1 sig header c =
     first_failure (signature_rows cr src seg0 seg1 sig header c @ claim_rows p c) (Accepted (claims_view c))"
proof (cases "ks_keys src (str_of (lookup ''iss'' c))")
  case (Inl e)
  then show ?thesis by (simp add: check_signature_def signature_rows_def Let_def)
next
  case (Inr keys)
  have alg: "(a \<noteq> ''EdDSA'' \<and> a \<noteq> ''ES256'') = (a \<notin> {''EdDSA'', ''ES256''})" for a by simp
  show ?thesis
    unfolding check_signature_def signature_rows_def Let_def alg first_failure.simps append.simps
      check_claims_rows some_key_verifies_iff Inr
    by (simp only: sum.case is_ok_simps not_True_eq_False if_False)
qed


lemma first_failure_Accepted:
  "first_failure rows (Accepted x) = Accepted y \<longleftrightarrow> x = y \<and> list_all (\<lambda>r. \<not> fst r) rows"
  by (induction rows "Accepted x" rule: first_failure.induct) auto

lemma verify_assertion_rows:
  "verify_assertion cr src p token =
     (case split_on CHR ''.'' token of
        [seg0, seg1, seg2] \<Rightarrow>
          (case (decode_object seg0, decode_object seg1) of
             (Some header, Some c) \<Rightarrow>
               first_failure
                 (signature_rows cr src seg0 seg1 (b64url_decode seg2) header c @ claim_rows p c)
                 (Accepted (claims_view c))
           | _ \<Rightarrow> Refused CodeMalformed)
      | _ \<Rightarrow> Refused CodeMalformed)"
  by (auto simp: verify_assertion_def check_signature_rows split: list.splits option.splits)

subsection \<open>Tokens as they are written\<close>

definition compact :: "claim_map \<Rightarrow> claim_map \<Rightarrow> string \<Rightarrow> string" where
  "compact header c sig =
     b64url_encode (json_encode (JObj header)) @ ''.'' @ b64url_encode (json_encode (JObj c)) @ ''.''
       @ b64url_encode sig"

definition writable :: "claim_map \<Rightarrow> bool" where
  "writable c \<longleftrightarrow> encodable (JObj c) \<and> fits 0 (JObj c)"

lemma decode_object_encode: "writable c \<Longrightarrow> decode_object (b64url_encode (json_encode (JObj c))) = Some c"
  by (simp add: writable_def decode_object_def b64url_roundtrip json_parse_encode del: json_encode.simps)

lemma split_compact:
  "split_on CHR ''.'' (compact header c sig) =
     [b64url_encode (json_encode (JObj header)), b64url_encode (json_encode (JObj c)), b64url_encode sig]"
  by (simp add: compact_def split_on_append_sep split_on_free b64url_no_dot del: json_encode.simps)

lemma verify_compact:
  assumes "writable header" and "writable c"
  shows "verify_assertion cr src p (compact header c sig) =
    first_failure
      (signature_rows cr src (b64url_encode (json_encode (JObj header))) (b64url_encode (json_encode (JObj c)))
         (Some sig) header c @ claim_rows p c)
      (Accepted (claims_view c))"
  using assms
  by (simp add: verify_assertion_rows split_compact decode_object_encode b64url_roundtrip del: json_encode.simps)

lemma enc_sextets_length: "length (enc_sextets xs) \<le> 2 * length xs"
  by (induction xs rule: enc_sextets.induct) auto

lemma b64url_length: "length (b64url_encode s) \<le> 2 * length s"
  using enc_sextets_length [of "map code s"] by (simp add: b64url_encode_def)

lemma compact_length:
  "length (compact h c sig) \<le> 2 * (enc_bound (JObj h) + enc_bound (JObj c) + length sig) + 2"
  using b64url_length [of "json_encode (JObj h)"] b64url_length [of "json_encode (JObj c)"] b64url_length [of sig]
    json_encode_length [of "JObj h"] json_encode_length [of "JObj c"]
  by (simp add: compact_def del: json_encode.simps enc_bound.simps)

lemma compact_last: "compact h c sig \<noteq> [] \<and> last (compact h c sig) \<noteq> CHR 0x0A"
proof -
  have "\<forall>x \<in> set (compact h c sig). x = CHR ''.'' \<or> graphic x"
    using b64url_graphic by (auto simp: compact_def simp del: json_encode.simps)
  moreover have "compact h c sig \<noteq> []" by (simp add: compact_def)
  ultimately have "last (compact h c sig) = CHR ''.'' \<or> graphic (last (compact h c sig))" by simp
  with \<open>compact h c sig \<noteq> []\<close> show ?thesis by (auto simp: graphic_def code_def)
qed

subsection \<open>What acceptance means\<close>

lemma verify_acceptedD:
  assumes "verify_assertion cr src p token = Accepted out"
  obtains seg0 seg1 seg2 header c where
    "split_on CHR ''.'' token = [seg0, seg1, seg2]"
    "decode_object seg0 = Some header" "decode_object seg1 = Some c" "out = claims_view c"
    "list_all (\<lambda>r. \<not> fst r) (signature_rows cr src seg0 seg1 (b64url_decode seg2) header c)"
    "list_all (\<lambda>r. \<not> fst r) (claim_rows p c)"
proof -
  from assms have "\<exists>seg0 seg1 seg2 header c. split_on CHR ''.'' token = [seg0, seg1, seg2]
      \<and> decode_object seg0 = Some header \<and> decode_object seg1 = Some c \<and> out = claims_view c
      \<and> list_all (\<lambda>r. \<not> fst r) (signature_rows cr src seg0 seg1 (b64url_decode seg2) header c)
      \<and> list_all (\<lambda>r. \<not> fst r) (claim_rows p c)"
    unfolding verify_assertion_rows
    by (auto simp: first_failure_Accepted split: list.splits option.splits)
  then show thesis using that by blast
qed

lemma signing_loop_set:
  "k \<in> set (signing_loop ks kid alg) \<longleftrightarrow>
     k \<in> set ks \<and> jwk_kid k = kid \<and> (jwk_use k = [] \<or> jwk_use k = ''sig'') \<and> (jwk_alg k = [] \<or> jwk_alg k = alg)"
  by (induction ks) auto

lemma signing_keys_set:
  "k \<in> set (signing_keys ks kid alg) \<longleftrightarrow>
     kid \<noteq> [] \<and> k \<in> set ks \<and> jwk_kid k = kid \<and> (jwk_use k = [] \<or> jwk_use k = ''sig'')
       \<and> (jwk_alg k = [] \<or> jwk_alg k = alg)"
  by (simp add: signing_keys_def signing_loop_set)

definition signed_by_issuer ::
    "crypto \<Rightarrow> key_source \<Rightarrow> string \<Rightarrow> string \<Rightarrow> claim_map \<Rightarrow> string \<Rightarrow> string \<Rightarrow> bool" where
  "signed_by_issuer cr src seg0 seg1 header iss sig \<longleftrightarrow>
     ks_trusted src iss \<and> iss \<noteq> [] \<and>
     (\<exists>ks k. ks_keys src iss = Inr ks \<and> k \<in> set ks \<and> jwk_kid k \<noteq> []
        \<and> lookup ''kid'' header = Some (JStr (jwk_kid k))
        \<and> verify_signature cr k (str_of (lookup ''alg'' header)) (seg0 @ ''.'' @ seg1) sig)"

lemma signature_rows_sound:
  assumes "list_all (\<lambda>r. \<not> fst r) (signature_rows cr src seg0 seg1 sig header c)"
  shows "\<exists>sg. sig = Some sg \<and> signed_by_issuer cr src seg0 seg1 header (str_of (lookup ''iss'' c)) sg
    \<and> lookup ''crit'' header = None \<and> str_of (lookup ''alg'' header) \<in> {''EdDSA'', ''ES256''}"
proof -
  let ?alg = "str_of (lookup ''alg'' header)" and ?iss = "str_of (lookup ''iss'' c)"
  from assms obtain ks where ks: "ks_keys src ?iss = Inr ks"
    by (auto simp: signature_rows_def Let_def is_ok_iff)
  with assms obtain sg k where "sig = Some sg" and k: "k \<in> set (signing_keys ks (str_of (lookup ''kid'' header)) ?alg)"
    and "verify_signature cr k ?alg (seg0 @ ''.'' @ seg1) sg"
    by (auto simp: signature_rows_def Let_def)
  moreover have "ks_trusted src ?iss \<and> ?iss \<noteq> [] \<and> lookup ''crit'' header = None \<and> ?alg \<in> {''EdDSA'', ''ES256''}"
    using assms by (auto simp: signature_rows_def Let_def)
  moreover have "lookup ''kid'' header = Some (JStr (jwk_kid k)) \<and> jwk_kid k \<noteq> []"
    using k by (auto simp: signing_keys_set str_of_def as_str_Some split: option.splits)
  ultimately show ?thesis using ks k unfolding signed_by_issuer_def
    by (auto simp: signing_keys_set)
qed

lemma role_names_valid: "list_all re_role_name rs \<Longrightarrow> distinct rs \<Longrightarrow> [] \<notin> set rs"
  by (auto simp: re_role_name_def list_all_iff split: list.splits)

definition claims_in_force :: "int \<Rightarrow> claim_map \<Rightarrow> bool" where
  "claims_in_force now c \<longleftrightarrow>
     (\<exists>iat expiry. date_of c ''iat'' = Some iat \<and> date_of c ''exp'' = Some expiry
        \<and> 0 \<le> iat \<and> iat \<le> now \<and> now < expiry \<and> expiry - iat \<le> 43200
        \<and> (\<forall>nbf. date_of c ''nbf'' = Some nbf \<longrightarrow> nbf \<le> now))"

lemma claim_rows_sound:
  assumes "list_all (\<lambda>r. \<not> fst r) (claim_rows p c)"
  obtains cia where "as_int (lookup ''cia'' c) = Some cia" "1 \<le> sint cia"
    "claims_in_force (sint (vp_now p)) c" "claims_shape_valid c cia"
    "vp_mode p = ModeLocal \<Longrightarrow> as_str (lookup ''aud'' c) = None
       \<and> path_clean (str_of (lookup ''dir'' c)) = path_clean (vp_observed_dir p)"
    "vp_mode p = ModePeer \<Longrightarrow> as_str (lookup ''aud'' c) = Some (vp_peer p)"
proof -
  from assms obtain cia iat expiry where d: "as_int (lookup ''cia'' c) = Some cia"
    "date_of c ''iat'' = Some iat" "date_of c ''exp'' = Some expiry"
    by (auto simp: claim_rows_def Let_def date_of_def)
  show thesis
    by (rule that [of cia])
      (use assms d in \<open>auto simp: claim_rows_def Let_def claims_in_force_def date_of_def split: if_splits\<close>)
qed

subsection \<open>A sample assertion\<close>

definition sample_header :: claim_map where
  "sample_header = [(''alg'', JStr ''EdDSA''), (''kid'', JStr ''k1'')]"

definition sample_claims :: claim_map where
  "sample_claims =
     [(''iss'', JStr ''https://issuer''), (''sub'', JStr ''agent:bot''), (''roles'', JArr [JStr ''builder'']),
      (''grade'', JStr ''workload''), (''rt'', JObj [(''id'', JStr ''rt1''), (''version'', JStr ''1'')]),
      (''sid'', JStr ''s1''), (''origin'', JStr ''driven''), (''iat'', JNum (show_int 100)),
      (''exp'', JNum (show_int 200)), (''jti'', JStr ''j1''), (''cia'', JNum (show_int 2)),
      (''dir'', JStr ''/run/id'')]"

definition sample_key :: jwk where
  "sample_key = \<lparr>jwk_kty = ''OKP'', jwk_crv = ''Ed25519'', jwk_kid = ''k1'', jwk_alg = [], jwk_use = ''sig'',
     jwk_x = b64url_encode (replicate 32 CHR ''x''), jwk_y = []\<rparr>"

definition sample_source :: key_source where
  "sample_source = \<lparr>ks_trusted = (\<lambda>iss. iss = ''https://issuer''), ks_keys = (\<lambda>_. Inr [sample_key])\<rparr>"

definition sample_crypto :: crypto where
  "sample_crypto = \<lparr>ed25519_verify = (\<lambda>key input sg. sg = ''signed''), p256_on_curve = (\<lambda>_ _. False),
     ecdsa_verify = (\<lambda>_ _ _ _ _. False), sha256 = (\<lambda>s. s)\<rparr>"

definition sample_params :: verify_params where
  "sample_params = \<lparr>vp_now = 150, vp_mode = ModeLocal, vp_peer = [], vp_observed_dir = ''/run//id/'',
     vp_max_major = 0\<rparr>"

definition sample_token :: string where
  "sample_token = compact sample_header sample_claims ''signed''"

lemma utf8_ascii: "\<forall>c \<in> set s. code c < 128 \<Longrightarrow> utf8_valid s"
  by (induction s) (auto simp: utf8_valid.simps(2) rune_len_def)

lemma sample_writable: "writable sample_header" "writable sample_claims"
  by (auto simp: writable_def sample_header_def sample_claims_def max_depth_def code_def intro!: utf8_ascii)

lemma as_int_show: "int64_range i \<Longrightarrow> as_int (Some (JNum (show_int i))) = Some (word_of_int i)"
  by (simp add: as_int_def parse_show_int)

lemma sample_dates:
  "as_int (lookup ''iat'' sample_claims) = Some 100" "as_int (lookup ''exp'' sample_claims) = Some 200"
  "as_int (lookup ''cia'' sample_claims) = Some 2" "lookup ''nbf'' sample_claims = None"
  by (simp_all add: sample_claims_def lookup.simps as_int_show int64_range_def)

lemma sample_shape: "claims_shape_valid sample_claims 2"
  by code_simp


lemma sample_signature_rows:
  assumes "ks_trusted src ''https://issuer''" and "ks_keys src ''https://issuer'' = Inr [sample_key]"
  shows "list_all (\<lambda>r. \<not> fst r) (signature_rows sample_crypto src seg0 seg1 (Some ''signed'') sample_header sample_claims)"
  using assms
  by (simp add: signature_rows_def Let_def sample_header_def sample_claims_def lookup.simps
      sample_key_def signing_keys_def verify_signature_def b64url_roundtrip sample_crypto_def)

lemma sample_claim_rows: "list_all (\<lambda>r. \<not> fst r) (claim_rows sample_params sample_claims)"
proof -
  have "path_clean ''/run/id'' = path_clean ''/run//id/''" by code_simp
  moreover have "lookup ''aud'' sample_claims = None" "lookup ''dir'' sample_claims = Some (JStr ''/run/id'')"
    by (simp_all add: sample_claims_def lookup.simps)
  moreover have "as_str None = None" by (simp add: as_str_def)
  ultimately show ?thesis
    by (simp add: claim_rows_def Let_def date_of_def sample_dates sample_shape sample_params_def)
qed

lemma sample_accepted_by:
  assumes "ks_trusted src ''https://issuer''" and "ks_keys src ''https://issuer'' = Inr [sample_key]"
  shows "verify_assertion sample_crypto src sample_params sample_token =
     Accepted \<lparr>ac_iss = ''https://issuer'', ac_actor = ''agent:bot'', ac_roles = [''builder''], ac_grade = ''workload''\<rparr>"
proof -
  have "claims_view sample_claims =
      \<lparr>ac_iss = ''https://issuer'', ac_actor = ''agent:bot'', ac_roles = [''builder''], ac_grade = ''workload''\<rparr>"
    by (simp add: claims_view_def actor_of_def roles_of_def sample_claims_def lookup.simps)
  then show ?thesis
    using sample_signature_rows [OF assms] sample_claim_rows
    by (simp add: sample_token_def verify_compact sample_writable first_failure_Accepted)
qed

lemma sample_accepted:
  "verify_assertion sample_crypto sample_source sample_params sample_token =
     Accepted \<lparr>ac_iss = ''https://issuer'', ac_actor = ''agent:bot'', ac_roles = [''builder''], ac_grade = ''workload''\<rparr>"
  by (rule sample_accepted_by) (simp_all add: sample_source_def)

subsection \<open>Properties\<close>


text \<open>C5: Whatever a local verification accepts carries a signature over exactly its first two segments
  by a key of a trusted issuer's own key set, named by the header's key id; is inside its validity
  window, at most twelve hours long; names no audience and is bound to the observed directory; its
  role names are valid and distinct, and a driven origin comes only with a workload grade and never
  for a human.\<close>
theorem verify_assertion_sound:
  assumes "verify_assertion cr src p token = Accepted out" and "vp_mode p = ModeLocal"
  shows "\<exists>seg0 seg1 sig header c. token = seg0 @ ''.'' @ seg1 @ ''.'' @ sig
    \<and> decode_object seg0 = Some header \<and> decode_object seg1 = Some c
    \<and> (\<exists>sg. b64url_decode sig = Some sg \<and> signed_by_issuer cr src seg0 seg1 header (ac_iss out) sg)
    \<and> claims_in_force (sint (vp_now p)) c
    \<and> lookup ''aud'' c = None
    \<and> path_clean (str_of (lookup ''dir'' c)) = path_clean (vp_observed_dir p)
    \<and> lookup ''roles'' c = Some (JArr (map JStr (ac_roles out)))
    \<and> distinct (ac_roles out) \<and> list_all re_role_name (ac_roles out)
    \<and> (str_of (lookup ''origin'' c) = ''driven'' \<longrightarrow>
         ac_grade out = ''workload'' \<and> \<not> has_prefix (str_of (lookup ''sub'' c)) ''human:'')"
proof -
  from assms(1) obtain seg0 seg1 seg2 header c where
    split: "split_on CHR ''.'' token = [seg0, seg1, seg2]"
    and dec: "decode_object seg0 = Some header" "decode_object seg1 = Some c" and out: "out = claims_view c"
    and rows: "list_all (\<lambda>r. \<not> fst r) (signature_rows cr src seg0 seg1 (b64url_decode seg2) header c)"
      "list_all (\<lambda>r. \<not> fst r) (claim_rows p c)"
    by (rule verify_acceptedD)
  have token: "token = seg0 @ ''.'' @ seg1 @ ''.'' @ seg2"
    using join_split [of "CHR ''.''" token] unfolding split by simp
  from rows(2) obtain cia where force: "claims_in_force (sint (vp_now p)) c" and shape: "claims_shape_valid c cia"
    and loc: "as_str (lookup ''aud'' c) = None \<and> path_clean (str_of (lookup ''dir'' c)) = path_clean (vp_observed_dir p)"
    using assms(2) by (rule_tac claim_rows_sound) auto
  from shape obtain roles grade where r: "lookup ''roles'' c = Some (JArr (map JStr roles))"
    "list_all re_role_name roles" "distinct roles" "origin_valid c cia"
    "lookup ''grade'' c = Some (JStr grade)" "optional_claim c ''aud'' (\<lambda>v. non_empty_string (Some v))"
    by (rule shape_validD) blast
  have "roles_of c = roles" by (simp add: roles_of_def r comp_def)
  moreover have "lookup ''aud'' c = None"
    using loc r(6) by (auto simp: optional_claim_def non_empty_string_def split: option.splits)
  moreover have "str_of (lookup ''origin'' c) = ''driven'' \<longrightarrow>
      grade = ''workload'' \<and> \<not> has_prefix (str_of (lookup ''sub'' c)) ''human:''"
    using r(4,5) by (auto simp: origin_valid_def Let_def split: if_splits)
  ultimately show ?thesis
    using token dec force loc r signature_rows_sound [OF rows(1)] out
    by (intro exI [of _ seg0] exI [of _ seg1] exI [of _ seg2] exI [of _ header] exI [of _ c])
      (auto simp: claims_view_def)
qed

theorem verify_assertion_sound_witness:
  "\<exists>seg0 seg1 sig header c. sample_token = seg0 @ ''.'' @ seg1 @ ''.'' @ sig
    \<and> decode_object seg1 = Some c \<and> claims_in_force 150 c \<and> decode_object seg0 = Some header"
  using verify_assertion_sound [OF sample_accepted] by (auto simp: sample_params_def)

text \<open>C22: Verification returns for every token, key source and clock: no type assertion of the code
  panics.\<close>
theorem verify_assertion_never_panics: "verify_assertion cr src p token \<noteq> Panicked"
proof -
  have "first_failure rows (Accepted x) \<noteq> Panicked" for rows x
    by (induction rows "Accepted x" rule: first_failure.induct) auto
  then show ?thesis unfolding verify_assertion_rows
    by (auto split: list.split option.split)
qed

end
