(* ===== verification/Sidecar.thy ===== *)
theory Sidecar
  imports Attestation GoPath
begin

text \<open>
  The session and per-spawn sidecar provider of \<open>internal/attestation/sidecar.go\<close> and the
  structured record of \<open>structured_sidecar.go\<close>. The YAML reader is a library of its own and
  a parameter: \<open>yaml data\<close> is \<open>None\<close> for its error, else the mapping it returns, which may
  be nil. Values are those of \<open>json\<close>, of which only strings are ever used.
\<close>

record sidecar_config =
  sc_dir :: string
  sc_prefix :: string
  sc_session_env :: string
  sc_identity_field :: string

definition sidecar_enabled :: "sidecar_config \<Rightarrow> bool" where
  "sidecar_enabled cfg \<longleftrightarrow> sc_dir cfg \<noteq> [] \<and> sc_prefix cfg \<noteq> [] \<and> sc_session_env cfg \<noteq> []"

definition is_safe_path_segment :: "string \<Rightarrow> bool" where
  "is_safe_path_segment s =
     (if s = [] \<or> s = ''.'' \<or> s = ''..'' then False
      else if CHR ''/'' \<in> set s \<or> CHR 0x5C \<in> set s then False
      else if path_clean s \<noteq> s then False
      else True)"

definition require_contained :: "string \<Rightarrow> string \<Rightarrow> bool" where
  "require_contained dir target =
     (case path_rel (path_clean dir) (path_clean target) of
        None \<Rightarrow> False
      | Some rel \<Rightarrow>
          if rel = ''..'' \<or> has_prefix rel ''../'' \<or> is_abs rel then False
          else if CHR ''/'' \<in> set rel then False
          else True)"

subsection \<open>Structured records\<close>

text \<open>
  Unmarshalling into untyped values turns every number literal into a float64 and fails on one
  that rounds beyond the largest finite value, \<open>2 ^ 1024 - 2 ^ 970\<close> being the first.
\<close>

definition literal_parts :: "string \<Rightarrow> nat \<times> nat \<times> int" where
  "literal_parts s =
     (let t = (if has_prefix s ''-'' then tl s else s);
          m = takeWhile (\<lambda>c. c \<noteq> CHR ''e'' \<and> c \<noteq> CHR ''E'') t;
          e = drop (Suc (length m)) t;
          w = takeWhile (\<lambda>c. c \<noteq> CHR ''.'') m;
          f = drop (Suc (length w)) m;
          en = (if has_prefix e ''-'' then - int (digits_val (tl e))
                else if has_prefix e ''+'' then int (digits_val (tl e)) else int (digits_val e))
      in (digits_val (w @ f), length f, en))"

definition float64_range :: "string \<Rightarrow> bool" where
  "float64_range s =
     (let (m, d, e) = literal_parts s; x = e - int d; top = 2 ^ 1024 - 2 ^ 970
      in if 0 \<le> x then m * 10 ^ nat x < top else m < top * 10 ^ nat (- x))"

fun numbers_ok :: "json \<Rightarrow> bool" where
  "numbers_ok (JNum s) = float64_range s"
| "numbers_ok (JArr vs) = list_all numbers_ok vs"
| "numbers_ok (JObj ms) = list_all (\<lambda>(k, v). numbers_ok v) ms"
| "numbers_ok _ = True"

type_synonym yaml_reader = "string \<Rightarrow> (string \<times> json) list option option"

definition decode_structured_record :: "yaml_reader \<Rightarrow> string \<Rightarrow> (string \<times> json) list option" where
  "decode_structured_record yaml data =
     (let from_yaml = (case yaml data of Some (Some m) \<Rightarrow> Some m | _ \<Rightarrow> None)
      in case json_parse data of
           Some (JObj m) \<Rightarrow> if numbers_ok (JObj m) then Some m else from_yaml
         | Some JNull \<Rightarrow> Some []
         | _ \<Rightarrow> from_yaml)"

definition string_or_empty :: "(string \<times> json) list \<Rightarrow> string \<Rightarrow> string" where
  "string_or_empty m key =
     (case lookup key m of None \<Rightarrow> [] | Some (JStr s) \<Rightarrow> s | Some _ \<Rightarrow> [])"

definition parse_structured_sidecar ::
    "yaml_reader \<Rightarrow> string \<Rightarrow> string \<Rightarrow> string \<Rightarrow> att_error + identity" where
  "parse_structured_sidecar yaml path field data =
     (case decode_structured_record yaml data of
        None \<Rightarrow> Inl (MalformedSidecar path [] NotParseable)
      | Some m \<Rightarrow>
          (case lookup field m of
             None \<Rightarrow> Inl (MalformedSidecar path field FieldAbsent)
           | Some (JStr raw) \<Rightarrow>
               (let subject = trim_space raw
                in if subject = [] then Inl (MalformedSidecar path field FieldEmpty)
                   else Inr \<lparr>id_subject = subject, id_source = ''sidecar'', id_roles = [],
                             id_grade = [], id_issuer = [],
                             id_parent_session = string_or_empty m ''parent_session_id'',
                             id_spawn = string_or_empty m ''spawn_id'',
                             id_agent_type = string_or_empty m ''agent_type'',
                             id_spawned_at = string_or_empty m ''spawned_at''\<rparr>)
           | Some _ \<Rightarrow> Inl (MalformedSidecar path field FieldNotString)))"

subsection \<open>The provider\<close>

definition sidecar_path :: "sidecar_config \<Rightarrow> string \<Rightarrow> string" where
  "sidecar_path cfg session = path_join [sc_dir cfg, sc_prefix cfg @ session]"

definition sidecar_resolve :: "yaml_reader \<Rightarrow> sidecar_config \<Rightarrow> host \<Rightarrow> att_error + identity" where
  "sidecar_resolve yaml cfg h =
     (let session = trim_space (getenv h (sc_session_env cfg))
      in if session = [] then Inl NoIdentity
         else if \<not> is_safe_path_segment session then Inl NoIdentity
         else let path = sidecar_path cfg session
           in if \<not> require_contained (sc_dir cfg) path then Inl (SidecarEscapes path)
              else case h_lstat h path of
                     Inl e \<Rightarrow> Inl (if e = NotExist then NoIdentity else SidecarStat path e)
                   | Inr info \<Rightarrow>
                       if fi_kind info \<noteq> RegularFile then Inl (SidecarNotRegular path)
                       else case h_read h path of
                              Inl e \<Rightarrow> Inl (if e = NotExist then NoIdentity else SidecarRead path e)
                            | Inr data \<Rightarrow>
                                if sc_identity_field cfg \<noteq> []
                                then parse_structured_sidecar yaml path (sc_identity_field cfg) data
                                else let v = trim_space data
                                  in if v = [] then Inl NoIdentity
                                     else Inr (plain_identity v ''sidecar''))"

definition sidecar_provider :: "yaml_reader \<Rightarrow> sidecar_config \<Rightarrow> provider" where
  "sidecar_provider yaml cfg h = (sidecar_resolve yaml cfg h, [])"

definition new_sidecar_provider :: "yaml_reader \<Rightarrow> sidecar_config \<Rightarrow> chain_error + provider option" where
  "new_sidecar_provider yaml cfg =
     (if \<not> sidecar_enabled cfg then Inr None else Inr (Some (sidecar_provider yaml cfg)))"


subsection \<open>Containment\<close>

lemma drop_common_split:
  "drop_common bs ts = (b, t) \<Longrightarrow> \<exists>cs. bs = cs @ b \<and> ts = cs @ t \<and> (b = [] \<or> t = [] \<or> hd b \<noteq> hd t)"
proof (induction bs ts arbitrary: b t rule: drop_common.induct)
  case (1 x xs y ys)
  show ?case
  proof (cases "x = y")
    case True
    with 1 obtain cs where "xs = cs @ b \<and> ys = cs @ t \<and> (b = [] \<or> t = [] \<or> hd b \<noteq> hd t)" by auto
    with True show ?thesis by (intro exI [of _ "x # cs"]) auto
  qed (use 1 in auto)
qed auto

lemma elems_no_slash: "e \<in> set (elems_of p) \<Longrightarrow> CHR ''/'' \<notin> set e"
  using normal_no_slash [OF elems_of_normal [of p], of e] by simp

lemma elems_nonempty: "e \<in> set (elems_of p) \<Longrightarrow> e \<noteq> [] \<and> e \<noteq> ''.''"
  using normal_nonempty [OF elems_of_normal [of p], of e] by simp

lemma join_dotdot:
  "n \<noteq> 0 \<Longrightarrow> join_with ''/'' (replicate n ''..'' @ ts) = ''..'' \<or>
     has_prefix (join_with ''/'' (replicate n ''..'' @ ts)) ''../''"
proof (cases n)
  case (Suc m)
  then show ?thesis by (cases "replicate m ''..'' @ ts = []") (auto simp: join_with_Cons)
qed simp

text \<open>The containment check passes for a direct child and for the directory itself.\<close>

lemma require_contained_elems:
  assumes "require_contained dir target"
  shows "is_abs dir = is_abs target \<and>
    (elems_of target = elems_of dir \<or> (\<exists>e. elems_of target = elems_of dir @ [e]))"
proof (cases "path_clean target = path_clean dir")
  case True
  then show ?thesis by (simp add: path_clean_eq_iff)
next
  case False
  obtain bs ts where d: "drop_common (elems_of dir) (elems_of target) = (bs, ts)" by fastforce
  then obtain cs where cs: "elems_of dir = cs @ bs" "elems_of target = cs @ ts"
    using drop_common_split by blast
  let ?rel = "join_with ''/'' (replicate (length bs) ''..'' @ ts)"
  from assms False d have ab: "is_abs dir = is_abs target"
    and rel: "?rel \<noteq> ''..''" "\<not> has_prefix ?rel ''../''" "CHR ''/'' \<notin> set ?rel"
    by (auto simp: require_contained_def path_rel_def split: if_splits)
  have bs: "bs = []" using join_dotdot [of "length bs" ts] rel by auto
  with cs False ab have "ts \<noteq> []" by (auto simp: path_clean_eq_iff)
  then obtain e es where ts: "ts = e # es" by (cases ts) auto
  have "es = []"
  proof (rule ccontr)
    assume "es \<noteq> []"
    with rel(3) bs ts show False by (auto simp: join_with_Cons)
  qed
  with bs ts cs ab show ?thesis by auto
qed

lemma sidecar_path_elems:
  assumes "sc_dir cfg \<noteq> []" and "CHR ''/'' \<notin> set (sc_prefix cfg)" and "sc_prefix cfg \<noteq> []"
    and "is_safe_path_segment session"
  shows "elems_of (sidecar_path cfg session) = elems_of (sc_dir cfg) @ [sc_prefix cfg @ session]"
proof -
  have "session \<noteq> []" "session \<noteq> ''.''" "CHR ''/'' \<notin> set session"
    using assms(4) by (auto simp: is_safe_path_segment_def split: if_splits)
  with assms(2,3) have "plain_elem (sc_prefix cfg @ session)"
    by (auto simp: plain_elem_def append_eq_Cons_conv)
  with assms(1) show ?thesis unfolding sidecar_path_def by (rule elems_of_join_plain)
qed

lemma require_contained_childI:
  assumes "is_abs dir = is_abs target" and "elems_of target = elems_of dir @ [e]" and "e \<noteq> ''..''"
  shows "require_contained dir target"
proof -
  have dc: "drop_common xs (xs @ ys) = ([], ys)" for xs ys :: "string list"
    by (induction xs) (cases ys; simp)+
  have "path_clean target \<noteq> path_clean dir" using assms(2) by (auto simp: path_clean_eq_iff)
  moreover have "CHR ''/'' \<notin> set e" "e \<noteq> []" using assms(2) elems_no_slash [of e target] elems_nonempty [of e target] by auto
  moreover have "\<not> has_prefix e ''../''" "\<not> is_abs e"
    using calculation(2) by (auto simp: has_prefix_iff is_abs_def)
  ultimately show ?thesis
    using assms dc by (auto simp: require_contained_def path_rel_def)
qed

lemma sidecar_read_from:
  assumes "sidecar_resolve yaml cfg h = Inr i"
  defines "session \<equiv> trim_space (getenv h (sc_session_env cfg))"
  defines "path \<equiv> sidecar_path cfg session"
  obtains info data where "is_safe_path_segment session" and "require_contained (sc_dir cfg) path"
    and "h_lstat h path = Inr info" and "fi_kind info = RegularFile" and "h_read h path = Inr data"
    and "if sc_identity_field cfg \<noteq> []
         then parse_structured_sidecar yaml path (sc_identity_field cfg) data = Inr i
         else trim_space data \<noteq> [] \<and> i = plain_identity (trim_space data) ''sidecar''"
  using assms(1) unfolding sidecar_resolve_def session_def [symmetric] path_def [symmetric] Let_def
  by (auto split: if_splits sum.splits)

lemma parse_structured_unsigned:
  "parse_structured_sidecar yaml path f data = Inr i \<Longrightarrow> unsigned i \<and> id_subject i \<noteq> [] \<and> id_source i = ''sidecar''"
  by (auto simp: parse_structured_sidecar_def unsigned_def Let_def split: option.splits json.splits if_splits)

lemma sidecar_unsigned:
  "sidecar_resolve yaml cfg h = Inr i \<Longrightarrow> unsigned i \<and> id_subject i \<noteq> []"
  by (erule sidecar_read_from)
    (auto simp: plain_identity_def unsigned_def split: if_splits dest: parse_structured_unsigned)

interpretation sidecar: plain_source "sidecar_provider yaml" for yaml
  by unfold_locales (auto simp: sidecar_provider_def dest: sidecar_unsigned)

subsection \<open>Properties\<close>

text \<open>An identity a sidecar provider attests was read from a regular file that is the configured
  directory's direct child (or the directory path itself, which the check also lets pass); with a
  prefix free of slashes it is exactly the child named by the prefix and the trimmed session
  variable, whatever the session variable holds.\<close>
theorem sidecar_reads_direct_child:
  assumes "sidecar_enabled cfg" and "sidecar_resolve yaml cfg h = Inr i"
  shows "\<exists>path info data. h_lstat h path = Inr info \<and> fi_kind info = RegularFile \<and> h_read h path = Inr data
     \<and> is_abs path = is_abs (sc_dir cfg)
     \<and> (elems_of path = elems_of (sc_dir cfg) \<or> (\<exists>e. elems_of path = elems_of (sc_dir cfg) @ [e]))
     \<and> (CHR ''/'' \<in> set (sc_prefix cfg) \<or>
          elems_of path = elems_of (sc_dir cfg) @ [sc_prefix cfg @ trim_space (getenv h (sc_session_env cfg))])"
  using assms(2)
proof (rule sidecar_read_from)
  fix info data
  let ?s = "trim_space (getenv h (sc_session_env cfg))"
  assume "is_safe_path_segment ?s" and "require_contained (sc_dir cfg) (sidecar_path cfg ?s)"
    and "h_lstat h (sidecar_path cfg ?s) = Inr info" and "fi_kind info = RegularFile"
    and "h_read h (sidecar_path cfg ?s) = Inr data"
  then show ?thesis
    using assms(1) require_contained_elems [of "sc_dir cfg" "sidecar_path cfg ?s"] sidecar_path_elems [of cfg ?s]
    by (intro exI [of _ "sidecar_path cfg ?s"] exI [of _ info] exI [of _ data]) (auto simp: sidecar_enabled_def)
qed

text \<open>A sidecar provider hands over to the next provider of the chain only when there is no usable
  session variable, no such file, or (unstructured files only) nothing in it: an unreadable, special or
  malformed sidecar stops the chain with an error.\<close>
theorem sidecar_declines_iff:
  "declines (sidecar_provider yaml cfg) h \<longleftrightarrow>
     (let session = trim_space (getenv h (sc_session_env cfg)); path = sidecar_path cfg session
      in if is_safe_path_segment session
         then require_contained (sc_dir cfg) path \<and>
          (h_lstat h path = Inl NotExist \<or>
           (\<exists>info. h_lstat h path = Inr info \<and> fi_kind info = RegularFile \<and>
              (h_read h path = Inl NotExist \<or>
               (\<exists>data. h_read h path = Inr data \<and> sc_identity_field cfg = [] \<and> trim_space data = []))))
         else True)"
proof -
  have "parse_structured_sidecar yaml p f d \<noteq> Inl NoIdentity" for p f d
    by (auto simp: parse_structured_sidecar_def Let_def split: option.splits json.splits)
  then show ?thesis
    by (auto simp: declines_def sidecar_provider_def sidecar_resolve_def Let_def is_safe_path_segment_def
        split: sum.splits)
qed

end
