(* ===== verification/AssertionProvider.thy ===== *)
theory AssertionProvider
  imports AssertionVerify Sidecar
begin

text \<open>
  The identity-assertion provider: key set locators and their fetching
  (\<open>internal/attestation/assertion_jwks.go\<close>), the delivery directory
  (\<open>assertion_delivery_unix.go\<close>), the provider (\<open>assertion.go\<close>) and the fixed order of the
  provider chain (\<open>chain.go\<close>). URL parsing, loopback addresses and HTTP are the record \<open>net\<close>
  of what those libraries answer.
\<close>

record url =
  u_scheme :: string
  u_host :: string
  u_path :: string
  u_raw_query :: string
  u_fragment :: string

record net =
  url_parse :: "string \<Rightarrow> url option"
  url_string :: "url \<Rightarrow> string"
  url_hostname :: "url \<Rightarrow> string"
  ip_is_loopback :: "string \<Rightarrow> bool"
  http_get :: "string \<Rightarrow> string \<Rightarrow> string + nat \<times> (string + string)"

definition max_jwks_bytes :: nat where "max_jwks_bytes = 65536"
definition well_known_jwks :: string where "well_known_jwks = ''/.well-known/jwks.json''"

datatype locator_kind = LocFile | LocHTTP | LocUnix

record locator =
  loc_kind :: locator_kind
  loc_target :: string

subsection \<open>Locators\<close>

definition is_loopback_host :: "net \<Rightarrow> string \<Rightarrow> bool" where
  "is_loopback_host n s = (if s = ''localhost'' then True else ip_is_loopback n s)"

definition parse_locator :: "net \<Rightarrow> string \<Rightarrow> locator option" where
  "parse_locator n s =
     (if is_abs s then Some \<lparr>loc_kind = LocFile, loc_target = path_clean s\<rparr>
      else case url_parse n s of
             None \<Rightarrow> None
           | Some u \<Rightarrow>
               if u_scheme u = ''file'' \<or> u_scheme u = ''unix'' then
                 (if u_host u \<noteq> [] \<or> \<not> is_abs (u_path u) then None
                  else Some \<lparr>loc_kind = (if u_scheme u = ''unix'' then LocUnix else LocFile),
                             loc_target = path_clean (u_path u)\<rparr>)
               else if u_scheme u = ''https'' then
                 (if u_host u = [] then None else Some \<lparr>loc_kind = LocHTTP, loc_target = url_string n u\<rparr>)
               else if u_scheme u = ''http'' then
                 (if \<not> is_loopback_host n (url_hostname n u) then None
                  else Some \<lparr>loc_kind = LocHTTP, loc_target = url_string n u\<rparr>)
               else None)"

definition resolve_locator :: "net \<Rightarrow> string \<Rightarrow> string \<Rightarrow> locator option" where
  "resolve_locator n iss explicit =
     (if explicit \<noteq> [] then parse_locator n explicit
      else case url_parse n iss of
             None \<Rightarrow> None
           | Some u \<Rightarrow>
               if u_scheme u = [] then None
               else if u_scheme u = ''https'' \<or> u_scheme u = ''http'' then
                 (if u_host u = [] then None
                  else parse_locator n (url_string n
                         (u\<lparr>u_path := trim_suffix (u_path u) ''/'' @ well_known_jwks,
                            u_raw_query := [], u_fragment := []\<rparr>)))
               else if u_scheme u = ''file'' \<or> u_scheme u = ''unix'' then parse_locator n iss
               else None)"

text \<open>The redirect policy of the key set client; \<open>True\<close> follows the redirect.\<close>

definition jwks_redirect_policy :: "net \<Rightarrow> url \<Rightarrow> url list \<Rightarrow> bool" where
  "jwks_redirect_policy n req via =
     (if 3 \<le> length via then False
      else case via of
             [] \<Rightarrow> False
           | first # _ \<Rightarrow>
               if u_scheme req \<noteq> u_scheme first \<or> u_host req \<noteq> u_host first then False
               else parse_locator n (url_string n req) \<noteq> None)"

subsection \<open>Files opened without following links\<close>

datatype file_error = FileMissing | FileLink | FileTooLarge | FileOther

definition read_opened ::
    "nat \<Rightarrow> io_err + (io_err + file_info) \<times> (io_err + string) \<Rightarrow> file_error + string \<times> file_info" where
  "read_opened limit opened =
     (case opened of
        Inl e \<Rightarrow> Inl (if e = NotExist then FileMissing else if e = SymLoop then FileLink else FileOther)
      | Inr (st, content) \<Rightarrow>
          (case st of
             Inl e \<Rightarrow> Inl FileOther
           | Inr fi \<Rightarrow>
               if fi_kind fi \<noteq> RegularFile then Inl FileLink
               else case content of
                      Inl e \<Rightarrow> Inl FileOther
                    | Inr whole \<Rightarrow>
                        (let data = take (limit + 1) whole
                         in if limit < length data then Inl FileTooLarge else Inr (data, fi))))"

subsection \<open>Key sets\<close>

definition read_jwks_file :: "host \<Rightarrow> string \<Rightarrow> string + string" where
  "read_jwks_file h p =
     (case read_opened max_jwks_bytes (h_open h p) of
        Inl FileLink \<Rightarrow> Inl ''symlink or not regular''
      | Inl FileTooLarge \<Rightarrow> Inl ''too large''
      | Inl e \<Rightarrow> Inl ''unreadable''
      | Inr (data, fi) \<Rightarrow>
          if group_or_other_write (fi_perm fi) then Inl ''writable by group or other'' else Inr data)"

text \<open>\<open>http_get sock target\<close> is the answer over TCP, or over the unix socket \<open>sock\<close>.\<close>

definition get_bounded :: "net \<Rightarrow> string \<Rightarrow> string \<Rightarrow> string + string" where
  "get_bounded n sock target =
     (case http_get n sock target of
        Inl e \<Rightarrow> Inl e
      | Inr (status, body) \<Rightarrow>
          if status \<noteq> 200 then Inl ''status''
          else case body of
                 Inl e \<Rightarrow> Inl e
               | Inr whole \<Rightarrow>
                   (let data = take (max_jwks_bytes + 1) whole
                    in if max_jwks_bytes < length data then Inl ''too large'' else Inr data))"

definition fetch_jwks :: "net \<Rightarrow> host \<Rightarrow> locator \<Rightarrow> string + string" where
  "fetch_jwks n h l =
     (case loc_kind l of
        LocFile \<Rightarrow> read_jwks_file h (loc_target l)
      | LocUnix \<Rightarrow> get_bounded n (loc_target l) (''http://localhost'' @ well_known_jwks)
      | LocHTTP \<Rightarrow> get_bounded n [] (loc_target l))"

definition zero_jwk :: jwk where
  "zero_jwk = \<lparr>jwk_kty = [], jwk_crv = [], jwk_kid = [], jwk_alg = [], jwk_use = [], jwk_x = [], jwk_y = []\<rparr>"

definition decode_jwk :: "jwk \<Rightarrow> json \<Rightarrow> jwk option" where
  "decode_jwk k v =
     (case v of
        JNull \<Rightarrow> Some k
      | JObj ms \<Rightarrow>
          (case (string_field (jwk_kty k) ''kty'' ms, string_field (jwk_crv k) ''crv'' ms,
                 string_field (jwk_kid k) ''kid'' ms, string_field (jwk_alg k) ''alg'' ms,
                 string_field (jwk_use k) ''use'' ms, string_field (jwk_x k) ''x'' ms,
                 string_field (jwk_y k) ''y'' ms) of
             (Some kty, Some crv, Some kid, Some alg, Some us, Some x, Some y) \<Rightarrow>
               Some \<lparr>jwk_kty = kty, jwk_crv = crv, jwk_kid = kid, jwk_alg = alg, jwk_use = us, jwk_x = x, jwk_y = y\<rparr>
           | _ \<Rightarrow> None)
      | _ \<Rightarrow> None)"

text \<open>
  Decoding an array into a slice writes over the elements of its backing array: \<open>buf\<close> is that
  array, of which the first \<open>length vs\<close> are the slice afterwards.
\<close>

fun decode_elems :: "jwk list \<Rightarrow> json list \<Rightarrow> jwk list option" where
  "decode_elems buf [] = Some []"
| "decode_elems buf (v # vs) =
     (case decode_jwk (case buf of b # _ \<Rightarrow> b | [] \<Rightarrow> zero_jwk) v of
        None \<Rightarrow> None
      | Some k \<Rightarrow> map_option ((#) k) (decode_elems (tl buf) vs))"

definition decode_keys :: "jwk list \<times> jwk list \<Rightarrow> json \<Rightarrow> (jwk list \<times> jwk list) option" where
  "decode_keys s v =
     (case v of
        JNull \<Rightarrow> Some ([], [])
      | JArr [] \<Rightarrow> Some ([], [])
      | JArr vs \<Rightarrow> map_option (\<lambda>ks. (ks, ks @ drop (length ks) (snd s))) (decode_elems (snd s) vs)
      | _ \<Rightarrow> None)"

definition parse_jwks :: "string \<Rightarrow> string + jwk list" where
  "parse_jwks raw =
     (case json_parse raw of
        Some JNull \<Rightarrow> Inr []
      | Some (JObj ms) \<Rightarrow>
          (case fold (\<lambda>v s. case s of None \<Rightarrow> None | Some p \<Rightarrow> decode_keys p v) (field_values ''keys'' ms) (Some ([], [])) of
             None \<Rightarrow> Inl ''not a JWKS document''
           | Some (ks, _) \<Rightarrow> Inr ks)
      | _ \<Rightarrow> Inl ''not a JWKS document'')"


subsection \<open>The delivery directory\<close>

definition open_delivery_dir :: "host \<Rightarrow> string \<Rightarrow> assertion_code + (io_err + file_info)" where
  "open_delivery_dir h dir =
     (case h_open_dir h dir of
        Inr st \<Rightarrow> Inr st
      | Inl e \<Rightarrow>
          Inl (if e = NotExist then CodeDirMissing
               else if e = SymLoop then CodeDirUnsafe
               else if e = NotDirectory then
                 (case h_lstat h dir of
                    Inr li \<Rightarrow> if fi_kind li = SymLink then CodeDirUnsafe else CodeDirMissing
                  | Inl _ \<Rightarrow> CodeDirMissing)
               else CodeDirUnsafe))"

definition trim_newline :: "string \<Rightarrow> string" where
  "trim_newline data = (if data \<noteq> [] \<and> last data = CHR 0x0A then butlast data else data)"

definition assertion_file :: string where "assertion_file = ''identity.jwt''"

definition read_delivery :: "host \<Rightarrow> string \<Rightarrow> assertion_code + string" where
  "read_delivery h dir =
     (if \<not> is_abs dir then Inl CodeDirMissing
      else case open_delivery_dir h dir of
             Inl c \<Rightarrow> Inl c
           | Inr (Inl e) \<Rightarrow> Inl CodeDirUnsafe
           | Inr (Inr info) \<Rightarrow>
               if fi_uid info \<noteq> h_euid h \<or> fi_perm info \<noteq> mode_0700 then Inl CodeDirUnsafe
               else case read_opened max_assertion_file_bytes (h_openat h dir assertion_file) of
                      Inl FileMissing \<Rightarrow> Inl CodeFileMissing
                    | Inl FileLink \<Rightarrow> Inl CodeFileSymlink
                    | Inl FileTooLarge \<Rightarrow> Inl CodeMalformed
                    | Inl FileOther \<Rightarrow> Inl CodeFileMissing
                    | Inr (data, fi) \<Rightarrow> Inr (trim_newline data))"

subsection \<open>The provider\<close>

record assertion_issuer =
  ai_iss :: string
  ai_jwks :: string

datatype assertion_config_error = NoIssuers | EmptyIss | DuplicateIss string | BadLocator string

fun add_issuers ::
    "net \<Rightarrow> assertion_issuer list \<Rightarrow> (string \<rightharpoonup> locator) \<Rightarrow> assertion_config_error + (string \<rightharpoonup> locator)" where
  "add_issuers n [] m = Inr m"
| "add_issuers n (is # rest) m =
     (if ai_iss is = [] then Inl EmptyIss
      else if m (ai_iss is) \<noteq> None then Inl (DuplicateIss (ai_iss is))
      else case resolve_locator n (ai_iss is) (ai_jwks is) of
             None \<Rightarrow> Inl (BadLocator (ai_iss is))
           | Some l \<Rightarrow> add_issuers n rest (m(ai_iss is \<mapsto> l)))"

definition new_assertion_provider ::
    "net \<Rightarrow> assertion_issuer list \<Rightarrow> assertion_config_error + (string \<rightharpoonup> locator)" where
  "new_assertion_provider n issuers =
     (if issuers = [] then Inl NoIssuers else add_issuers n issuers Map.empty)"

definition issuer_keys :: "net \<Rightarrow> host \<Rightarrow> (string \<rightharpoonup> locator) \<Rightarrow> string \<Rightarrow> string + jwk list" where
  "issuer_keys n h issuers iss =
     (case fetch_jwks n h (case issuers iss of Some l \<Rightarrow> l | None \<Rightarrow> \<lparr>loc_kind = LocFile, loc_target = []\<rparr>) of
        Inl e \<Rightarrow> Inl e
      | Inr raw \<Rightarrow> parse_jwks raw)"

definition issuer_source :: "net \<Rightarrow> host \<Rightarrow> (string \<rightharpoonup> locator) \<Rightarrow> key_source" where
  "issuer_source n h issuers =
     \<lparr>ks_trusted = (\<lambda>iss. issuers iss \<noteq> None), ks_keys = issuer_keys n h issuers\<rparr>"

definition identity_dir_env :: string where "identity_dir_env = ''CLAGENTIC_IDENTITY_DIR''"

definition local_params :: "host \<Rightarrow> string \<Rightarrow> verify_params" where
  "local_params h dir =
     \<lparr>vp_now = word_of_int (h_now h div 1000000000), vp_mode = ModeLocal, vp_peer = [],
      vp_observed_dir = dir, vp_max_major = 0\<rparr>"

definition assertion_resolve :: "crypto \<Rightarrow> net \<Rightarrow> (string \<rightharpoonup> locator) \<Rightarrow> host \<Rightarrow> att_error + identity" where
  "assertion_resolve cr n issuers h =
     (case h_env h identity_dir_env of
        None \<Rightarrow> Inl NoIdentity
      | Some dir \<Rightarrow>
          if dir = [] then Inl NoIdentity
          else case read_delivery h dir of
                 Inl c \<Rightarrow> Inl (AssertionRefused c)
               | Inr token \<Rightarrow>
                   (case verify_assertion cr (issuer_source n h issuers) (local_params h dir) token of
                      Refused c \<Rightarrow> Inl (AssertionRefused c)
                    | Panicked \<Rightarrow> Inl AssertionPanic
                    | Accepted out \<Rightarrow>
                        Inr ((plain_identity (ac_actor out) source_assertion)
                          \<lparr>id_roles := ac_roles out, id_grade := ac_grade out, id_issuer := ac_iss out\<rparr>)))"

definition assertion_provider :: "crypto \<Rightarrow> net \<Rightarrow> (string \<rightharpoonup> locator) \<Rightarrow> provider" where
  "assertion_provider cr n issuers h = (assertion_resolve cr n issuers h, [])"

subsection \<open>The chain\<close>

record chain_config =
  ch_assertion :: "provider option"
  ch_configured :: configured_config
  ch_sidecars :: "sidecar_config list"
  ch_omit_os_user :: bool
  ch_warn :: bool

fun add_sidecars :: "yaml_reader \<Rightarrow> sidecar_config list \<Rightarrow> chain_error + provider list" where
  "add_sidecars yaml [] = Inr []"
| "add_sidecars yaml (c # cs) =
     (case new_sidecar_provider yaml c of
        Inl e \<Rightarrow> Inl e
      | Inr p \<Rightarrow>
          (case add_sidecars yaml cs of
             Inl e \<Rightarrow> Inl e
           | Inr ps \<Rightarrow> Inr (case p of None \<Rightarrow> ps | Some q \<Rightarrow> q # ps)))"

definition new_chain :: "yaml_reader \<Rightarrow> chain_config \<Rightarrow> chain_error + provider list" where
  "new_chain yaml cfg =
     (let first = (case ch_assertion cfg of None \<Rightarrow> [] | Some p \<Rightarrow> [p])
      in case new_configured_provider (ch_configured cfg) of
           Inl e \<Rightarrow> Inl e
         | Inr conf \<Rightarrow>
             (let second = (case conf of None \<Rightarrow> [] | Some p \<Rightarrow> [p])
              in case add_sidecars yaml (ch_sidecars cfg) of
                   Inl e \<Rightarrow> Inl e
                 | Inr sides \<Rightarrow>
                     (let os = (if ch_omit_os_user cfg then []
                                else [if ch_warn cfg then warn_provider builtin_provider else builtin_provider])
                      in Inr (first @ second @ sides @ os))))"

subsection \<open>Lemmas\<close>

lemma add_sidecars_eq:
  "add_sidecars yaml cs = Inr (map (sidecar_provider yaml) (filter sidecar_enabled cs))"
  by (induction cs) (auto simp: new_sidecar_provider_def)

lemma read_opened_Inr:
  "read_opened limit opened = Inr (data, fi) \<longleftrightarrow>
     (\<exists>whole. opened = Inr (Inr fi, Inr whole) \<and> fi_kind fi = RegularFile \<and> length whole \<le> limit \<and> data = whole)"
  by (auto simp: read_opened_def Let_def split: sum.splits prod.splits if_splits)

definition delivered :: "host \<Rightarrow> string \<Rightarrow> string \<Rightarrow> bool" where
  "delivered h dir token \<longleftrightarrow>
     is_abs dir \<and>
     (\<exists>info fi whole.
        h_open_dir h dir = Inr (Inr info) \<and> fi_uid info = h_euid h \<and> fi_perm info = mode_0700
        \<and> h_openat h dir assertion_file = Inr (Inr fi, Inr whole) \<and> fi_kind fi = RegularFile
        \<and> length whole \<le> 16384 \<and> token = trim_newline whole)"

lemma open_delivery_dir_Inr: "open_delivery_dir h dir = Inr st \<longleftrightarrow> h_open_dir h dir = Inr st"
  by (auto simp: open_delivery_dir_def split: sum.splits)

lemma read_delivery_Inr: "read_delivery h dir = Inr token \<longleftrightarrow> delivered h dir token"
proof
  assume "read_delivery h dir = Inr token"
  then show "delivered h dir token"
    by (auto simp: read_delivery_def delivered_def open_delivery_dir_Inr read_opened_Inr max_assertion_file_bytes_def
        split: sum.splits file_error.splits if_splits)
next
  assume "delivered h dir token"
  then obtain info fi whole where d: "is_abs dir" "h_open_dir h dir = Inr (Inr info)" "fi_uid info = h_euid h"
    "fi_perm info = mode_0700" "h_openat h dir assertion_file = Inr (Inr fi, Inr whole)"
    "fi_kind fi = RegularFile" "length whole \<le> 16384" "token = trim_newline whole"
    by (auto simp: delivered_def)
  moreover from d have "open_delivery_dir h dir = Inr (Inr info)" by (simp add: open_delivery_dir_Inr)
  moreover from d have "read_opened max_assertion_file_bytes (h_openat h dir assertion_file) = Inr (whole, fi)"
    by (simp add: read_opened_Inr max_assertion_file_bytes_def)
  ultimately show "read_delivery h dir = Inr token" by (simp add: read_delivery_def)
qed

lemma assertion_resolve_Inr:
  "assertion_resolve cr n issuers h = Inr i \<longleftrightarrow>
     (\<exists>dir token out. h_env h identity_dir_env = Some dir \<and> dir \<noteq> [] \<and> delivered h dir token
        \<and> verify_assertion cr (issuer_source n h issuers) (local_params h dir) token = Accepted out
        \<and> i = (plain_identity (ac_actor out) source_assertion)
                \<lparr>id_roles := ac_roles out, id_grade := ac_grade out, id_issuer := ac_iss out\<rparr>)"
  by (auto simp: assertion_resolve_def simp flip: read_delivery_Inr
      split: option.splits sum.splits verify_outcome.splits if_splits)

lemma new_chain_eq:
  "new_chain yaml cfg = Inr ps \<longleftrightarrow>
     (\<exists>conf. new_configured_provider (ch_configured cfg) = Inr conf
        \<and> ps = (case ch_assertion cfg of None \<Rightarrow> [] | Some p \<Rightarrow> [p]) @ (case conf of None \<Rightarrow> [] | Some p \<Rightarrow> [p])
               @ map (sidecar_provider yaml) (filter sidecar_enabled (ch_sidecars cfg))
               @ (if ch_omit_os_user cfg then []
                  else [if ch_warn cfg then warn_provider builtin_provider else builtin_provider]))"
  by (auto simp: new_chain_def Let_def add_sidecars_eq split: sum.splits)

lemma os_part_unsigned:
  "fst (resolve (if b then [] else [if w then warn_provider builtin_provider else builtin_provider]) h) = Inr i \<Longrightarrow>
     id_source i \<noteq> source_assertion"
  using builtin.attests_unsigned [of h i]
  by (auto simp: unsigned_def split: if_splits)

lemma chain_signed_first:
  assumes "new_chain yaml cfg = Inr ps" and "fst (resolve ps h) = Inr i" and "id_source i = source_assertion"
  shows "\<exists>p. ch_assertion cfg = Some p \<and> fst (p h) = Inr i"
proof -
  let ?os = "if ch_omit_os_user cfg then []
    else [if ch_warn cfg then warn_provider builtin_provider else builtin_provider]"
  let ?side = "map (sidecar_provider yaml) (filter sidecar_enabled (ch_sidecars cfg)) @ ?os"
  obtain conf where conf: "new_configured_provider (ch_configured cfg) = Inr conf"
    and ps: "ps = (case ch_assertion cfg of None \<Rightarrow> [] | Some p \<Rightarrow> [p]) @ (case conf of None \<Rightarrow> [] | Some p \<Rightarrow> [p]) @ ?side"
    using assms(1) by (auto simp: new_chain_eq)
  have side: "fst (resolve ?side h) \<noteq> Inr i"
    using sidecar.signed_not_among [of yaml _ ?os h i] os_part_unsigned [of _ _ h i] assms(3) by blast
  have rest: "fst (resolve ((case conf of None \<Rightarrow> [] | Some p \<Rightarrow> [p]) @ ?side) h) \<noteq> Inr i"
  proof (cases conf)
    case (Some p)
    then show ?thesis
      using side assms(3) configured_unsigned [of "ch_configured cfg" p h i] conf
      by (auto simp: unsigned_def)
  qed (use side in simp)
  show ?thesis
  proof (cases "ch_assertion cfg")
    case (Some p)
    then show ?thesis using assms(2) rest ps by (auto split: if_splits)
  qed (use assms(2) rest ps in simp)
qed

subsection \<open>A sample delivery\<close>

definition sample_jwks :: json where
  "sample_jwks = JObj [(''keys'', JArr [JObj [(''kty'', JStr ''OKP''), (''crv'', JStr ''Ed25519''), (''kid'', JStr ''k1''),
     (''use'', JStr ''sig''), (''x'', JStr (jwk_x sample_key))]])]"

definition sample_issuers :: "string \<rightharpoonup> locator" where
  "sample_issuers = [''https://issuer'' \<mapsto> \<lparr>loc_kind = LocFile, loc_target = ''/etc/jwks''\<rparr>]"

definition sample_net :: net where
  "sample_net = \<lparr>url_parse = (\<lambda>_. None), url_string = u_path, url_hostname = u_host, ip_is_loopback = (\<lambda>_. False),
     http_get = (\<lambda>_ _. Inl ''offline'')\<rparr>"

definition sample_host :: host where
  "sample_host = \<lparr>h_env = [identity_dir_env \<mapsto> ''/run//id/''], h_lstat = (\<lambda>_. Inl NotExist), h_read = (\<lambda>_. Inl NotExist),
     h_open_dir = (\<lambda>_. Inr (Inr \<lparr>fi_kind = Directory, fi_perm = mode_0700, fi_uid = 1000\<rparr>)),
     h_openat = (\<lambda>_ _. Inr (Inr \<lparr>fi_kind = RegularFile, fi_perm = 384, fi_uid = 1000\<rparr>, Inr sample_token)),
     h_open = (\<lambda>_. Inr (Inr \<lparr>fi_kind = RegularFile, fi_perm = 384, fi_uid = 0\<rparr>, Inr (json_encode sample_jwks))),
     h_user = Some ''op'', h_euid = 1000, h_now = 150000000000\<rparr>"

lemma sample_jwks_parsed: "json_parse (json_encode sample_jwks) = Some sample_jwks"
proof (rule json_parse_encode)
  have "utf8_valid (jwk_x sample_key)"
    by (rule utf8_ascii) (use b64url_graphic in \<open>force simp: sample_key_def graphic_def\<close>)
  then show "encodable sample_jwks"
    by (auto simp: sample_jwks_def code_def intro!: utf8_ascii)
qed (simp add: sample_jwks_def max_depth_def)

lemma jwk_keys [simp]:
  "fold_key ''keys'' = ''keys''" "fold_key ''kty'' = ''kty''" "fold_key ''crv'' = ''crv''" "fold_key ''kid'' = ''kid''"
  "fold_key ''alg'' = ''alg''" "fold_key ''use'' = ''use''" "fold_key ''x'' = ''x''" "fold_key ''y'' = ''y''"
  by (rule fold_key_lower; simp add: char_class_defs)+

lemma provider_fields:
  "field_values ''keys'' [(''keys'', v)] = [v]"
  "decode_jwk zero_jwk (JObj [(''kty'', JStr ''OKP''), (''crv'', JStr ''Ed25519''), (''kid'', JStr ''k1''),
     (''use'', JStr ''sig''), (''x'', JStr x)]) =
   Some \<lparr>jwk_kty = ''OKP'', jwk_crv = ''Ed25519'', jwk_kid = ''k1'', jwk_alg = [], jwk_use = ''sig'', jwk_x = x, jwk_y = []\<rparr>"
  by (simp_all add: decode_jwk_def string_field_def field_values_def zero_jwk_def)

lemma sample_keys: "parse_jwks (json_encode sample_jwks) = Inr [sample_key]"
proof -
  let ?k = "JObj [(''kty'', JStr ''OKP''), (''crv'', JStr ''Ed25519''), (''kid'', JStr ''k1''),
     (''use'', JStr ''sig''), (''x'', JStr (jwk_x sample_key))]"
  have "decode_keys ([], []) (JArr [?k]) = Some ([sample_key], [sample_key])"
    by (simp add: decode_keys_def provider_fields) (simp add: sample_key_def)
  then show ?thesis
    unfolding parse_jwks_def sample_jwks_parsed unfolding sample_jwks_def
    by (simp add: provider_fields)
qed

lemma sample_jwks_size: "length (json_encode sample_jwks) \<le> 65536"
proof -
  have "length (jwk_x sample_key) \<le> 64"
    using b64url_length [of "replicate 32 CHR ''x''"] by (simp add: sample_key_def)
  then show ?thesis
    using json_encode_length [of sample_jwks] by (simp add: sample_jwks_def del: json_encode.simps)
qed

lemma sample_token_size: "length sample_token \<le> 16384"
proof -
  have "length (show_int 100) \<le> 3" "length (show_int 200) \<le> 3" "length (show_int 2) \<le> 3" by code_simp+
  then have "2 * (enc_bound (JObj sample_header) + enc_bound (JObj sample_claims) + length ''signed'') + 2 \<le> 16384"
    by (simp add: sample_header_def sample_claims_def)
  then show ?thesis
    using compact_length [of sample_header sample_claims "''signed''"]
    by (simp add: sample_token_def del: enc_bound.simps)
qed

lemma sample_delivered: "delivered sample_host ''/run//id/'' sample_token"
  using sample_token_size compact_last [of sample_header sample_claims "''signed''"]
  by (simp add: delivered_def sample_host_def trim_newline_def is_abs_def flip: sample_token_def)

lemma sample_issuer_keys:
  "ks_keys (issuer_source sample_net sample_host sample_issuers) ''https://issuer'' = Inr [sample_key]"
proof -
  have "read_jwks_file sample_host ''/etc/jwks'' = Inr (json_encode sample_jwks)"
    using sample_jwks_size
    by (simp add: read_jwks_file_def read_opened_def sample_host_def max_jwks_bytes_def group_or_other_write_def Let_def)
  then show ?thesis
    by (simp add: issuer_source_def issuer_keys_def sample_issuers_def fetch_jwks_def sample_keys)
qed

lemma sample_identity:
  "assertion_resolve sample_crypto sample_net sample_issuers sample_host =
     Inr ((plain_identity ''agent:bot'' source_assertion)
       \<lparr>id_roles := [''builder''], id_grade := ''workload'', id_issuer := ''https://issuer''\<rparr>)"
proof -
  have "local_params sample_host ''/run//id/'' = sample_params"
    by (simp add: local_params_def sample_host_def sample_params_def)
  moreover have "verify_assertion sample_crypto (issuer_source sample_net sample_host sample_issuers) sample_params
      sample_token = Accepted \<lparr>ac_iss = ''https://issuer'', ac_actor = ''agent:bot'', ac_roles = [''builder''],
        ac_grade = ''workload''\<rparr>"
    by (rule sample_accepted_by) (simp_all add: sample_issuer_keys, simp add: issuer_source_def sample_issuers_def)
  moreover have "h_env sample_host identity_dir_env = Some ''/run//id/''" by (simp add: sample_host_def)
  ultimately show ?thesis using sample_delivered by (subst assertion_resolve_Inr) auto
qed

definition sample_chain :: chain_config where
  "sample_chain = \<lparr>ch_assertion = Some (assertion_provider sample_crypto sample_net sample_issuers),
     ch_configured = \<lparr>cc_type = ''env'', cc_source = ''WHO''\<rparr>, ch_sidecars = [], ch_omit_os_user = True,
     ch_warn = False\<rparr>"

subsection \<open>Properties\<close>

text \<open>C6: An identity that the full provider chain reports as asserted was read from the directory the
  environment names, absolute, owned by this process's user with mode 0700, out of a regular file of at
  most 16384 bytes opened in it, and that token passed local verification for that directory against
  the configured issuers: no other layer of the chain can produce one.\<close>
theorem asserted_identity_is_verified:
  assumes "new_chain yaml cfg = Inr ps" and "ch_assertion cfg = Some (assertion_provider cr n issuers)"
    and "fst (resolve ps h) = Inr i" and "id_source i = source_assertion"
  shows "\<exists>dir token out. h_env h identity_dir_env = Some dir \<and> delivered h dir token
     \<and> verify_assertion cr (issuer_source n h issuers) (local_params h dir) token = Accepted out
     \<and> id_subject i = ac_actor out \<and> id_roles i = ac_roles out \<and> id_grade i = ac_grade out
     \<and> id_issuer i = ac_iss out \<and> issuers (ac_iss out) \<noteq> None"
proof -
  from chain_signed_first [OF assms(1,3,4)] assms(2)
  have "assertion_resolve cr n issuers h = Inr i" by (auto simp: assertion_provider_def)
  then obtain dir token out where d: "h_env h identity_dir_env = Some dir" "delivered h dir token"
    "verify_assertion cr (issuer_source n h issuers) (local_params h dir) token = Accepted out"
    "i = (plain_identity (ac_actor out) source_assertion)
                \<lparr>id_roles := ac_roles out, id_grade := ac_grade out, id_issuer := ac_iss out\<rparr>"
    by (auto simp: assertion_resolve_Inr)
  moreover from d(3) have "issuers (ac_iss out) \<noteq> None"
    by (rule verify_acceptedD)
      (auto dest!: signature_rows_sound simp: signed_by_issuer_def issuer_source_def claims_view_def)
  ultimately show ?thesis by (auto simp: plain_identity_def)
qed

theorem asserted_identity_is_verified_witness:
  "\<exists>dir token out. h_env sample_host identity_dir_env = Some dir \<and> delivered sample_host dir token
     \<and> verify_assertion sample_crypto (issuer_source sample_net sample_host sample_issuers)
          (local_params sample_host dir) token = Accepted out
     \<and> ''agent:bot'' = ac_actor out \<and> [''builder''] = ac_roles out \<and> ''workload'' = ac_grade out
     \<and> ''https://issuer'' = ac_iss out \<and> sample_issuers (ac_iss out) \<noteq> None"
proof -
  let ?i = "(plain_identity ''agent:bot'' source_assertion)
       \<lparr>id_roles := [''builder''], id_grade := ''workload'', id_issuer := ''https://issuer''\<rparr>"
  obtain ps where ps: "new_chain (\<lambda>_. None) sample_chain =
      Inr (assertion_provider sample_crypto sample_net sample_issuers # ps)"
    by (simp add: new_chain_eq sample_chain_def new_configured_provider_def)
  have "fst (resolve (assertion_provider sample_crypto sample_net sample_issuers # ps) sample_host) = Inr ?i"
    by (simp add: declines_def assertion_provider_def sample_identity)
  then have "\<exists>dir token out. h_env sample_host identity_dir_env = Some dir \<and> delivered sample_host dir token
     \<and> verify_assertion sample_crypto (issuer_source sample_net sample_host sample_issuers)
          (local_params sample_host dir) token = Accepted out
     \<and> id_subject ?i = ac_actor out \<and> id_roles ?i = ac_roles out \<and> id_grade ?i = ac_grade out
     \<and> id_issuer ?i = ac_iss out \<and> sample_issuers (ac_iss out) \<noteq> None"
    by (intro asserted_identity_is_verified [OF ps]) (simp_all add: sample_chain_def plain_identity_def)
  then show ?thesis by (simp add: plain_identity_def)
qed

end
