(* ===== verification/Claims.thy ===== *)
theory Claims
  imports AssertionVerify
begin

text \<open>
  Assertion claims as the issuer writes and reads them: \<open>internal/identity/jws.go\<close> and the
  public half of \<open>keyring.go\<close>. The private key is a parameter: \<open>kr_sign\<close> is the signature of
  an input, or \<open>None\<close> for an error of the signer. Reading follows \<open>encoding/json\<close> into a
  struct: member names match up to case, null leaves a field as it is, a later member of a name
  is decoded over the earlier one.
\<close>

datatype actor = Actor (actor_sub: string) (actor_act: "actor option")

record runtime =
  rt_id :: string
  rt_version :: string

record claims =
  cl_iss :: string
  cl_sub :: string
  cl_act :: "actor option"
  cl_roles :: "string list"
  cl_grade :: string
  cl_rt :: runtime
  cl_sid :: string
  cl_spawn :: string
  cl_origin :: string
  cl_dir :: string
  cl_iat :: int
  cl_exp :: int
  cl_jti :: string
  cl_cia :: int

definition origin_driven :: string where "origin_driven = ''driven''"

definition contract_for :: "string \<Rightarrow> int" where
  "contract_for origin = (if origin = origin_driven then 2 else 1)"

definition max_lifetime_seconds :: int where "max_lifetime_seconds = 43200"

subsection \<open>The key ring\<close>

record public_key =
  pk_jwk :: jwk
  pk_ed :: "string option"
  pk_ec :: "nat \<times> nat"

record keyring =
  kr_current :: public_key
  kr_public :: "public_key list"
  kr_sign :: "string \<Rightarrow> string option"

fun jwks_of :: "public_key list \<Rightarrow> jwk list" where
  "jwks_of [] = []"
| "jwks_of (p # ps) = pk_jwk p # jwks_of ps"

fun keyring_verify :: "crypto \<Rightarrow> public_key list \<Rightarrow> string \<Rightarrow> string \<Rightarrow> string \<Rightarrow> string \<Rightarrow> bool" where
  "keyring_verify cr [] kid alg input sig = False"
| "keyring_verify cr (p # ps) kid alg input sig =
     (if jwk_kid (pk_jwk p) \<noteq> kid \<or> jwk_alg (pk_jwk p) \<noteq> alg then keyring_verify cr ps kid alg input sig
      else case pk_ed p of
             Some x \<Rightarrow> ed25519_verify cr x input sig
           | None \<Rightarrow>
               if length sig \<noteq> 64 then False
               else ecdsa_verify cr (fst (pk_ec p)) (snd (pk_ec p)) (sha256 cr input)
                      (bytes_nat (take 32 sig)) (bytes_nat (drop 32 sig)))"

subsection \<open>Writing\<close>

fun actor_json :: "actor \<Rightarrow> json" where
  "actor_json (Actor s None) = JObj [(''sub'', JStr s)]"
| "actor_json (Actor s (Some a)) = JObj [(''sub'', JStr s), (''act'', actor_json a)]"

definition claims_members :: "claims \<Rightarrow> claim_map" where
  "claims_members c =
     [(''iss'', JStr (cl_iss c)), (''sub'', JStr (cl_sub c))]
     @ (case cl_act c of None \<Rightarrow> [] | Some a \<Rightarrow> [(''act'', actor_json a)])
     @ [(''roles'', JArr (map JStr (cl_roles c))), (''grade'', JStr (cl_grade c)),
        (''rt'', JObj [(''id'', JStr (rt_id (cl_rt c))), (''version'', JStr (rt_version (cl_rt c)))]),
        (''sid'', JStr (cl_sid c))]
     @ (if cl_spawn c = [] then [] else [(''spawn'', JStr (cl_spawn c))])
     @ [(''origin'', JStr (cl_origin c)), (''dir'', JStr (cl_dir c)),
        (''iat'', JNum (show_int (cl_iat c))), (''exp'', JNum (show_int (cl_exp c))),
        (''jti'', JStr (cl_jti c)), (''cia'', JNum (show_int (cl_cia c)))]"

definition header_members :: "keyring \<Rightarrow> claim_map" where
  "header_members k =
     [(''alg'', JStr (jwk_alg (pk_jwk (kr_current k)))), (''kid'', JStr (jwk_kid (pk_jwk (kr_current k))))]"

definition signing_input :: "keyring \<Rightarrow> claims \<Rightarrow> string" where
  "signing_input k c =
     b64url_encode (json_encode (JObj (header_members k))) @ ''.''
       @ b64url_encode (json_encode (JObj (claims_members c)))"

definition sign_claims :: "keyring \<Rightarrow> claims \<Rightarrow> string option" where
  "sign_claims k c =
     (let input = signing_input k c
      in case kr_sign k input of None \<Rightarrow> None | Some sig \<Rightarrow> Some (input @ ''.'' @ b64url_encode sig))"

subsection \<open>Reading\<close>

definition dec_str :: "string \<Rightarrow> json \<Rightarrow> string option" where
  "dec_str old v = (case v of JStr s \<Rightarrow> Some s | JNull \<Rightarrow> Some old | _ \<Rightarrow> None)"

definition dec_int :: "int \<Rightarrow> json \<Rightarrow> int option" where
  "dec_int old v = (case v of JNum n \<Rightarrow> parse_int64 n | JNull \<Rightarrow> Some old | _ \<Rightarrow> None)"

fun dec_actor :: "actor \<Rightarrow> json \<Rightarrow> actor option"
  and dec_actor_members :: "actor \<Rightarrow> (string \<times> json) list \<Rightarrow> actor option" where
  "dec_actor a JNull = Some a"
| "dec_actor a (JObj ms) = dec_actor_members a ms"
| "dec_actor a (JBool b) = None"
| "dec_actor a (JNum n) = None"
| "dec_actor a (JStr s) = None"
| "dec_actor a (JArr vs) = None"
| "dec_actor_members a [] = Some a"
| "dec_actor_members a ((k, v) # ms) =
     (case (if fold_key k = ''sub'' then map_option (\<lambda>s. Actor s (actor_act a)) (dec_str (actor_sub a) v)
            else if fold_key k = ''act'' then
              (if v = JNull then Some (Actor (actor_sub a) None)
               else map_option (\<lambda>i. Actor (actor_sub a) (Some i))
                      (dec_actor (case actor_act a of Some i \<Rightarrow> i | None \<Rightarrow> Actor [] None) v))
            else Some a) of
        None \<Rightarrow> None
      | Some a' \<Rightarrow> dec_actor_members a' ms)"

definition dec_runtime :: "runtime \<Rightarrow> json \<Rightarrow> runtime option" where
  "dec_runtime r v =
     (case v of
        JNull \<Rightarrow> Some r
      | JObj ms \<Rightarrow>
          (case (string_field (rt_id r) ''id'' ms, string_field (rt_version r) ''version'' ms) of
             (Some i, Some ver) \<Rightarrow> Some \<lparr>rt_id = i, rt_version = ver\<rparr>
           | _ \<Rightarrow> None)
      | _ \<Rightarrow> None)"

text \<open>A string slice with its backing array, as for the keys of a key set.\<close>

fun dec_strings :: "string list \<Rightarrow> json list \<Rightarrow> string list option" where
  "dec_strings buf [] = Some []"
| "dec_strings buf (v # vs) =
     (case dec_str (case buf of b # _ \<Rightarrow> b | [] \<Rightarrow> []) v of
        None \<Rightarrow> None
      | Some s \<Rightarrow> map_option ((#) s) (dec_strings (tl buf) vs))"

definition dec_slice :: "string list \<Rightarrow> json \<Rightarrow> (string list \<times> string list) option" where
  "dec_slice buf v =
     (case v of
        JNull \<Rightarrow> Some ([], [])
      | JArr [] \<Rightarrow> Some ([], [])
      | JArr vs \<Rightarrow> map_option (\<lambda>ss. (ss, ss @ drop (length ss) buf)) (dec_strings buf vs)
      | _ \<Rightarrow> None)"

definition dec_member :: "string \<Rightarrow> json \<Rightarrow> claims \<times> string list \<Rightarrow> (claims \<times> string list) option" where
  "dec_member k v cb =
     (let (c, buf) = cb; f = fold_key k;
          set_str = (\<lambda>old upd. map_option (\<lambda>s. (upd s, buf)) (dec_str old v));
          set_int = (\<lambda>old upd. map_option (\<lambda>i. (upd i, buf)) (dec_int old v))
      in if f = ''iss'' then set_str (cl_iss c) (\<lambda>s. c\<lparr>cl_iss := s\<rparr>)
         else if f = ''sub'' then set_str (cl_sub c) (\<lambda>s. c\<lparr>cl_sub := s\<rparr>)
         else if f = ''act'' then
           (if v = JNull then Some (c\<lparr>cl_act := None\<rparr>, buf)
            else map_option (\<lambda>a. (c\<lparr>cl_act := Some a\<rparr>, buf))
                   (dec_actor (case cl_act c of Some a \<Rightarrow> a | None \<Rightarrow> Actor [] None) v))
         else if f = ''roles'' then map_option (\<lambda>(ss, b). (c\<lparr>cl_roles := ss\<rparr>, b)) (dec_slice buf v)
         else if f = ''grade'' then set_str (cl_grade c) (\<lambda>s. c\<lparr>cl_grade := s\<rparr>)
         else if f = ''rt'' then map_option (\<lambda>r. (c\<lparr>cl_rt := r\<rparr>, buf)) (dec_runtime (cl_rt c) v)
         else if f = ''sid'' then set_str (cl_sid c) (\<lambda>s. c\<lparr>cl_sid := s\<rparr>)
         else if f = ''spawn'' then set_str (cl_spawn c) (\<lambda>s. c\<lparr>cl_spawn := s\<rparr>)
         else if f = ''origin'' then set_str (cl_origin c) (\<lambda>s. c\<lparr>cl_origin := s\<rparr>)
         else if f = ''dir'' then set_str (cl_dir c) (\<lambda>s. c\<lparr>cl_dir := s\<rparr>)
         else if f = ''iat'' then set_int (cl_iat c) (\<lambda>i. c\<lparr>cl_iat := i\<rparr>)
         else if f = ''exp'' then set_int (cl_exp c) (\<lambda>i. c\<lparr>cl_exp := i\<rparr>)
         else if f = ''jti'' then set_str (cl_jti c) (\<lambda>s. c\<lparr>cl_jti := s\<rparr>)
         else if f = ''cia'' then set_int (cl_cia c) (\<lambda>i. c\<lparr>cl_cia := i\<rparr>)
         else Some (c, buf))"

fun dec_members :: "(string \<times> json) list \<Rightarrow> claims \<times> string list \<Rightarrow> (claims \<times> string list) option" where
  "dec_members [] cb = Some cb"
| "dec_members ((k, v) # ms) cb =
     (case dec_member k v cb of None \<Rightarrow> None | Some cb' \<Rightarrow> dec_members ms cb')"

definition zero_claims :: claims where
  "zero_claims = \<lparr>cl_iss = [], cl_sub = [], cl_act = None, cl_roles = [], cl_grade = [],
     cl_rt = \<lparr>rt_id = [], rt_version = []\<rparr>, cl_sid = [], cl_spawn = [], cl_origin = [], cl_dir = [],
     cl_iat = 0, cl_exp = 0, cl_jti = [], cl_cia = 0\<rparr>"

definition decode_segment :: "string \<Rightarrow> json option" where
  "decode_segment seg = (case b64url_decode seg of None \<Rightarrow> None | Some raw \<Rightarrow> json_parse raw)"

definition claims_of_json :: "json \<Rightarrow> claims option" where
  "claims_of_json v =
     (case v of
        JNull \<Rightarrow> Some zero_claims
      | JObj ms \<Rightarrow> map_option fst (dec_members ms (zero_claims, []))
      | _ \<Rightarrow> None)"

definition header_of_json :: "json \<Rightarrow> (string \<times> string) option" where
  "header_of_json v =
     (case v of
        JNull \<Rightarrow> Some ([], [])
      | JObj ms \<Rightarrow>
          (case (string_field [] ''alg'' ms, string_field [] ''kid'' ms) of
             (Some alg, Some kid) \<Rightarrow> Some (alg, kid)
           | _ \<Rightarrow> None)
      | _ \<Rightarrow> None)"

definition bind_opt :: "'a option \<Rightarrow> ('a \<Rightarrow> 'b option) \<Rightarrow> 'b option" where
  "bind_opt x f = (case x of None \<Rightarrow> None | Some y \<Rightarrow> f y)"

definition parse_own :: "crypto \<Rightarrow> keyring \<Rightarrow> string \<Rightarrow> claims option" where
  "parse_own cr k token =
     (case split_on CHR ''.'' (trim_space token) of
        [p0, p1, p2] \<Rightarrow>
          bind_opt (bind_opt (decode_segment p0) header_of_json) (\<lambda>(alg, kid).
          bind_opt (b64url_decode p2) (\<lambda>sig.
            if \<not> keyring_verify cr (kr_public k) kid alg (p0 @ ''.'' @ p1) sig then None
            else bind_opt (decode_segment p1) claims_of_json))
      | _ \<Rightarrow> None)"


subsection \<open>What is written is read back\<close>

lemma claim_keys [simp]:
  "fold_key ''iss'' = ''iss''" "fold_key ''sub'' = ''sub''" "fold_key ''act'' = ''act''" "fold_key ''roles'' = ''roles''"
  "fold_key ''grade'' = ''grade''" "fold_key ''rt'' = ''rt''" "fold_key ''sid'' = ''sid''" "fold_key ''spawn'' = ''spawn''"
  "fold_key ''origin'' = ''origin''" "fold_key ''dir'' = ''dir''" "fold_key ''iat'' = ''iat''" "fold_key ''exp'' = ''exp''"
  "fold_key ''jti'' = ''jti''" "fold_key ''cia'' = ''cia''" "fold_key ''alg'' = ''alg''" "fold_key ''kid'' = ''kid''"
  "fold_key ''id'' = ''id''" "fold_key ''version'' = ''version''"
  by (rule fold_key_lower; simp add: char_class_defs)+

lemma dec_actor_json: "dec_actor (Actor [] None) (actor_json a) = Some a"
proof (induction a rule: actor_json.induct)
  case (2 s a)
  then show ?case by (cases a rule: actor_json.cases) (auto simp: dec_str_def)
qed (simp add: dec_str_def)

lemma actor_json_obj: "\<exists>ms. actor_json a = JObj ms"
  by (cases a rule: actor_json.cases) auto

lemma dec_strings_map: "dec_strings [] (map JStr ss) = Some ss"
  by (induction ss) (auto simp: dec_str_def)

lemma dec_slice_map: "dec_slice [] (JArr (map JStr ss)) = Some (ss, ss)"
  using dec_strings_map [of ss] by (cases ss) (auto simp: dec_slice_def)

definition dates_in_range :: "claims \<Rightarrow> bool" where
  "dates_in_range c \<longleftrightarrow> int64_range (cl_iat c) \<and> int64_range (cl_exp c) \<and> int64_range (cl_cia c)"

lemma dec_member_simps [simp]:
  "dec_member ''iss'' (JStr x) (c, b) = Some (c\<lparr>cl_iss := x\<rparr>, b)"
  "dec_member ''sub'' (JStr x) (c, b) = Some (c\<lparr>cl_sub := x\<rparr>, b)"
  "dec_member ''grade'' (JStr x) (c, b) = Some (c\<lparr>cl_grade := x\<rparr>, b)"
  "dec_member ''sid'' (JStr x) (c, b) = Some (c\<lparr>cl_sid := x\<rparr>, b)"
  "dec_member ''spawn'' (JStr x) (c, b) = Some (c\<lparr>cl_spawn := x\<rparr>, b)"
  "dec_member ''origin'' (JStr x) (c, b) = Some (c\<lparr>cl_origin := x\<rparr>, b)"
  "dec_member ''dir'' (JStr x) (c, b) = Some (c\<lparr>cl_dir := x\<rparr>, b)"
  "dec_member ''jti'' (JStr x) (c, b) = Some (c\<lparr>cl_jti := x\<rparr>, b)"
  "int64_range i \<Longrightarrow> dec_member ''iat'' (JNum (show_int i)) (c, b) = Some (c\<lparr>cl_iat := i\<rparr>, b)"
  "int64_range i \<Longrightarrow> dec_member ''exp'' (JNum (show_int i)) (c, b) = Some (c\<lparr>cl_exp := i\<rparr>, b)"
  "int64_range i \<Longrightarrow> dec_member ''cia'' (JNum (show_int i)) (c, b) = Some (c\<lparr>cl_cia := i\<rparr>, b)"
  "dec_member ''roles'' (JArr (map JStr rs)) (c, []) = Some (c\<lparr>cl_roles := rs\<rparr>, rs)"
  "dec_member ''rt'' (JObj [(''id'', JStr x), (''version'', JStr y)]) (c, b) =
     Some (c\<lparr>cl_rt := \<lparr>rt_id = x, rt_version = y\<rparr>\<rparr>, b)"
  by (simp_all add: dec_member_def Let_def dec_str_def dec_int_def parse_show_int dec_slice_map
      dec_runtime_def string_field_def field_values_def)

lemma dec_member_act [simp]:
  "cl_act c = None \<Longrightarrow> dec_member ''act'' (actor_json a) (c, b) = Some (c\<lparr>cl_act := Some a\<rparr>, b)"
  using dec_actor_json [of a] actor_json_obj [of a] by (auto simp: dec_member_def Let_def)

lemma claims_members_read:
  assumes "dates_in_range c"
  shows "claims_of_json (JObj (claims_members c)) = Some c"
proof -
  have r: "int64_range (cl_iat c)" "int64_range (cl_exp c)" "int64_range (cl_cia c)"
    using assms by (auto simp: dates_in_range_def)
  show ?thesis
    by (cases "cl_act c"; cases "cl_spawn c = []")
      (simp_all add: claims_of_json_def claims_members_def zero_claims_def r)
qed

lemma header_read:
  "header_of_json (JObj (header_members k)) =
     Some (jwk_alg (pk_jwk (kr_current k)), jwk_kid (pk_jwk (kr_current k)))"
  by (simp add: header_of_json_def header_members_def string_field_def field_values_def)

lemma decode_segment_encode: "writable c \<Longrightarrow> decode_segment (b64url_encode (json_encode (JObj c))) = Some (JObj c)"
  by (simp add: writable_def decode_segment_def b64url_roundtrip json_parse_encode del: json_encode.simps)

lemma signed_compact:
  "sign_claims k c = Some token \<longleftrightarrow>
     (\<exists>sig. kr_sign k (signing_input k c) = Some sig \<and> token = compact (header_members k) (claims_members c) sig)"
  by (auto simp: sign_claims_def signing_input_def compact_def Let_def split: option.splits simp del: json_encode.simps)

lemma compact_graphic: "x \<in> set (compact h c sig) \<Longrightarrow> graphic x"
  using b64url_graphic by (auto simp: compact_def graphic_def code_def simp del: json_encode.simps)

lemma compact_trim: "trim_space (compact h c sig) = compact h c sig"
  by (rule graphic_trim_space) (use compact_graphic in blast)

text \<open>A key ring whose signatures its own published key accepts.\<close>

definition sound_keyring :: "crypto \<Rightarrow> keyring \<Rightarrow> bool" where
  "sound_keyring cr k \<longleftrightarrow>
     (\<forall>input sig. kr_sign k input = Some sig \<longrightarrow>
        keyring_verify cr (kr_public k) (jwk_kid (pk_jwk (kr_current k))) (jwk_alg (pk_jwk (kr_current k))) input sig)"

lemma parse_own_compact:
  assumes "writable (header_members k)" and "writable (claims_members c)" and "dates_in_range c"
  shows "parse_own cr k (compact (header_members k) (claims_members c) sig) =
    (if keyring_verify cr (kr_public k) (jwk_kid (pk_jwk (kr_current k))) (jwk_alg (pk_jwk (kr_current k)))
          (signing_input k c) sig
     then Some c else None)"
  using assms
  by (simp add: parse_own_def compact_trim split_compact decode_segment_encode header_read b64url_roundtrip
      bind_opt_def claims_members_read signing_input_def del: json_encode.simps)

subsection \<open>Properties\<close>

text \<open>The issuer reads back its own assertions: what it signed parses to exactly the claims that were signed, for claims of valid UTF-8 text
  and 64-bit dates under a key ring whose signatures verify.\<close>
theorem parse_own_signed:
  assumes "sign_claims k c = Some token" and "sound_keyring cr k"
    and "writable (header_members k)" and "writable (claims_members c)" and "dates_in_range c"
  shows "parse_own cr k token = Some c"
  using assms parse_own_compact [OF assms(3-5)]
  by (auto simp: signed_compact sound_keyring_def)


subsection \<open>A sample key ring\<close>

definition sample_keyring :: keyring where
  "sample_keyring =
     (let pk = \<lparr>pk_jwk = sample_key\<lparr>jwk_alg := ''EdDSA''\<rparr>, pk_ed = Some (replicate 32 CHR ''x''), pk_ec = (0, 0)\<rparr>
      in \<lparr>kr_current = pk, kr_public = [pk], kr_sign = (\<lambda>_. Some ''signed'')\<rparr>)"

definition sample_session :: claims where
  "sample_session = \<lparr>cl_iss = ''unix:///run/s.sock'', cl_sub = ''runtime:claude'', cl_act = Some (Actor ''agent:lead'' None),
     cl_roles = [''builder'', ''reader''], cl_grade = ''workload'', cl_rt = \<lparr>rt_id = ''claude'', rt_version = ''1.0''\<rparr>,
     cl_sid = ''s-1'', cl_spawn = [], cl_origin = ''trigger'', cl_dir = ''/run/spawn/d'', cl_iat = 100, cl_exp = 200,
     cl_jti = ''j'', cl_cia = 1\<rparr>"

lemma sample_session_writable:
  "writable (header_members sample_keyring)" "writable (claims_members sample_session)" "dates_in_range sample_session"
  by (auto simp: writable_def header_members_def sample_keyring_def Let_def sample_key_def claims_members_def sample_session_def
      max_depth_def code_def dates_in_range_def int64_range_def intro!: utf8_ascii)

lemma sample_keyring_sound: "sound_keyring sample_crypto sample_keyring"
  by (simp add: sound_keyring_def sample_keyring_def sample_crypto_def Let_def)

theorem parse_own_signed_witness:
  "parse_own sample_crypto sample_keyring
     (compact (header_members sample_keyring) (claims_members sample_session) ''signed'') = Some sample_session"
  by (rule parse_own_signed [OF _ sample_keyring_sound sample_session_writable])
    (simp add: signed_compact sample_keyring_def Let_def)

end
