(* ===== verification/ProcInfo.thy ===== *)
theory ProcInfo
  imports AssertionVerify
begin

text \<open>
  Process attestation: \<open>internal/identity/peer.go\<close>. A process is read through its
  \<open>/proc\<close> files one after another; \<open>proc_files\<close> is what each of the reads returns in that
  order, so the process may change between two of them. The refusal codes and their public
  messages are those of \<open>wire.go\<close> and \<open>refusals.go\<close>.
\<close>

subsection \<open>Refusals\<close>

datatype issue_code =
    BadRequest | PeerUnattested | PeerUIDRefused | RuntimeUnbound | RuntimeMismatch
  | OriginForbidden | DefinitionUnknown | ParentInvalid | ParentExpired | ParentUnknown
  | UIDMismatch | PIDMismatch | ExeMismatch | LifetimeEmpty | SpawnDirCode | InternalCode

record refusal =
  rf_status :: nat
  rf_code :: issue_code
  rf_message :: string

definition public_message :: "issue_code \<Rightarrow> string" where
  "public_message c =
     (case c of
        BadRequest \<Rightarrow> ''the request is malformed or names a value the issuer does not accept''
      | PeerUnattested \<Rightarrow> ''the calling process could not be attested''
      | PeerUIDRefused \<Rightarrow> ''this issuer serves only the user it runs as''
      | RuntimeUnbound \<Rightarrow> ''the calling process is not running under a runtime this issuer can bind the request to''
      | RuntimeMismatch \<Rightarrow> ''the declared runtime does not match the attested runtime''
      | OriginForbidden \<Rightarrow> ''the requested origin is not permitted for the calling user''
      | DefinitionUnknown \<Rightarrow> ''the requested definition is not available''
      | ParentInvalid \<Rightarrow> ''the parent token is not a valid assertion issued by this server''
      | ParentExpired \<Rightarrow> ''the parent token has expired''
      | ParentUnknown \<Rightarrow> ''the parent token was not recognised; request a new session and issue the child from it''
      | UIDMismatch \<Rightarrow> ''the parent token was issued to a different user than the caller''
      | PIDMismatch \<Rightarrow> ''the caller is not the process the parent token was issued to''
      | ExeMismatch \<Rightarrow> ''the caller is running a different executable than the one the parent token was issued to''
      | LifetimeEmpty \<Rightarrow> ''the assertion would not outlive its issue time''
      | SpawnDirCode \<Rightarrow> ''the assertion could not be delivered; retry the request, and if it fails again ask the operator to check the issuer log''
      | InternalCode \<Rightarrow> ''the issuer failed to complete the request; see the issuer log'')"

definition refuse :: "nat \<Rightarrow> issue_code \<Rightarrow> refusal" where
  "refuse status c = \<lparr>rf_status = status, rf_code = c, rf_message = public_message c\<rparr>"

subsection \<open>Fields and numbers\<close>

text \<open>\<open>strings.Fields\<close>: the maximal runs free of white space.\<close>

function white_fields_from :: "string \<Rightarrow> string \<Rightarrow> string list" where
  "white_fields_from cur [] = (if cur = [] then [] else [cur])"
| "white_fields_from cur (c # s) =
     (if lead_space (c # s) = 0 then white_fields_from (cur @ [c]) s
      else (if cur = [] then [] else [cur]) @ white_fields_from [] (drop (lead_space (c # s) - 1) s))"
  by pat_completeness auto
termination
  by (relation "measure (\<lambda>(cur, s). length s)") auto

declare white_fields_from.simps(2) [simp del]

definition white_fields :: "string \<Rightarrow> string list" where
  "white_fields s = white_fields_from [] s"

definition parse_uint :: "nat \<Rightarrow> string \<Rightarrow> nat option" where
  "parse_uint bits s =
     (if s \<noteq> [] \<and> list_all is_digit s \<and> digits_val s < 2 ^ bits then Some (digits_val s) else None)"

definition parse_int32 :: "string \<Rightarrow> int option" where
  "parse_int32 s =
     (case parse_int64 s of None \<Rightarrow> None
      | Some i \<Rightarrow> if - (2 ^ 31) \<le> i \<and> i < 2 ^ 31 then Some i else None)"

text \<open>What follows the last closing parenthesis.\<close>

definition after_paren :: "string \<Rightarrow> string option" where
  "after_paren stat =
     (if CHR '')'' \<in> set stat then Some (last (split_on CHR '')'' stat)) else None)"

definition parse_ppid :: "string \<Rightarrow> int option" where
  "parse_ppid stat =
     (case after_paren stat of
        None \<Rightarrow> None
      | Some rest \<Rightarrow> (let fs = white_fields rest in if length fs < 2 then None else parse_int32 (fs ! 1)))"

definition parse_start_time :: "string \<Rightarrow> nat option" where
  "parse_start_time stat =
     (case after_paren stat of
        None \<Rightarrow> None
      | Some rest \<Rightarrow> (let fs = white_fields rest in if length fs < 20 then None else parse_uint 64 (fs ! 19)))"

definition stat_of :: "string option \<Rightarrow> (nat \<times> int) option" where
  "stat_of raw =
     (case raw of
        None \<Rightarrow> None
      | Some stat \<Rightarrow>
          (case parse_start_time stat of
             None \<Rightarrow> None
           | Some start \<Rightarrow> map_option (\<lambda>ppid. (start, ppid)) (parse_ppid stat)))"

subsection \<open>Reading a process\<close>

record proc_info =
  pi_exe :: string
  pi_args :: "string list"
  pi_start :: nat
  pi_dev :: nat
  pi_ino :: nat
  pi_ppid :: int
  pi_uid :: nat
  pi_has_uid :: bool

text \<open>The effective uid line of \<open>/proc/pid/status\<close>.\<close>

fun uid_line :: "string list \<Rightarrow> nat option" where
  "uid_line [] = None"
| "uid_line (l # ls) =
     (if \<not> has_prefix l ''Uid:'' then uid_line ls
      else let fs = white_fields (drop 4 l) in if length fs < 2 then None else parse_uint 32 (fs ! 1))"

definition uid_of :: "string option \<Rightarrow> nat option" where
  "uid_of raw = (case raw of None \<Rightarrow> None | Some s \<Rightarrow> uid_line (split_on CHR 0x0A s))"

record proc_files =
  pf_stat_before :: "string option"
  pf_exe :: "string option"
  pf_exe_identity :: "(nat \<times> nat) option"
  pf_cmdline :: "string option"
  pf_status :: "string option"
  pf_stat_after :: "string option"

definition trim_right_nul :: "string \<Rightarrow> string" where
  "trim_right_nul s = rev (dropWhile (\<lambda>c. c = CHR 0x00) (rev s))"

definition read_proc :: "proc_files \<Rightarrow> proc_info option" where
  "read_proc f =
     (case (stat_of (pf_stat_before f), pf_exe f, pf_exe_identity f, pf_cmdline f, uid_of (pf_status f),
            stat_of (pf_stat_after f)) of
        (Some (start, ppid), Some exe, Some (dev, ino), Some cmdline, Some uid, Some (start', ppid')) \<Rightarrow>
          if start \<noteq> start' then None
          else if ppid \<noteq> ppid' then None
          else Some \<lparr>pi_exe = trim_suffix exe '' (deleted)'', pi_args = split_on CHR 0x00 (trim_right_nul cmdline),
                     pi_start = start, pi_dev = dev, pi_ino = ino, pi_ppid = ppid, pi_uid = uid,
                     pi_has_uid = True\<rparr>
      | _ \<Rightarrow> None)"

subsection \<open>Runtime names\<close>

definition is_interpreter :: "string \<Rightarrow> bool" where
  "is_interpreter s \<longleftrightarrow>
     s \<in> {''node'', ''nodejs'', ''bun'', ''deno'', ''python'', ''ruby'', ''perl'', ''php'', ''java'', ''bash'', ''sh'',
          ''dash'', ''zsh'', ''env''}
     \<or> (has_prefix s ''python'' \<and> drop 6 s \<noteq> [] \<and> list_all (\<lambda>c. is_digit c \<or> c = CHR ''.'') (drop 6 s))"

text \<open>Every code point outside \<open>[A-Za-z0-9._-]\<close>, or byte of no code point, becomes one hyphen.\<close>

function replace_unsafe :: "string \<Rightarrow> string" where
  "replace_unsafe [] = []"
| "replace_unsafe (c # s) =
     (if is_name_char c then c # replace_unsafe s
      else CHR ''-'' # replace_unsafe (drop (rune_len (c # s) - 1) s))"
  by pat_completeness auto
termination
  by (relation "measure length") auto

fun script_name :: "string \<Rightarrow> string list \<Rightarrow> string" where
  "script_name name [] = name"
| "script_name name (a # as) =
     (if a = [] \<or> has_prefix a ''-'' then script_name name as
      else trim_suffix (path_base a) (path_ext a))"

definition re_name :: "string \<Rightarrow> bool" where
  "re_name s \<longleftrightarrow> name_body s"

definition runtime_id :: "string \<Rightarrow> string list \<Rightarrow> string option" where
  "runtime_id exe args =
     (let base = path_base exe;
          name = (if is_interpreter base then script_name base (drop 1 args) else base);
          safe = take 128 (replace_unsafe name)
      in if \<not> re_name safe \<or> \<not> list_ex is_alnum safe then None else Some safe)"

subsection \<open>Lemmas\<close>

lemma replace_unsafe_names: "list_all is_name_char (replace_unsafe s)"
  by (induction s rule: replace_unsafe.induct) (auto simp: char_class_defs)

lemma runtime_id_name: "runtime_id exe args = Some r \<Longrightarrow> name_body r \<and> list_ex is_alnum r"
  by (auto simp: runtime_id_def re_name_def Let_def split: if_splits)

lemma read_proc_Some:
  "read_proc f = Some p \<Longrightarrow>
     stat_of (pf_stat_before f) = Some (pi_start p, pi_ppid p) \<and> stat_of (pf_stat_after f) = Some (pi_start p, pi_ppid p)
     \<and> uid_of (pf_status f) = Some (pi_uid p) \<and> pi_has_uid p \<and> pf_exe_identity f = Some (pi_dev p, pi_ino p)"
  by (auto simp: read_proc_def split: option.splits if_splits)

end
