(* ===== verification/Registry.thy ===== *)
theory Registry
  imports ProcInfo
begin

text \<open>
  The record of issued assertions, \<open>internal/identity/registry.go\<close>: which process each token id
  was issued to. Putting an entry first drops every expired one. What the issuer relies on is the
  locale \<open>issue_record\<close>.
\<close>

record issued_to =
  is_uid :: nat
  is_pid :: int
  is_start :: nat
  is_dev :: nat
  is_ino :: nat
  is_exp :: int

type_synonym registry = "string \<rightharpoonup> issued_to"

definition empty_registry :: registry where
  "empty_registry = Map.empty"

definition registry_put :: "string \<Rightarrow> issued_to \<Rightarrow> int \<Rightarrow> registry \<Rightarrow> registry" where
  "registry_put jti e now r =
     (\<lambda>k. case r k of None \<Rightarrow> None | Some v \<Rightarrow> if is_exp v \<le> now then None else Some v)(jti \<mapsto> e)"

definition registry_get :: "registry \<Rightarrow> string \<Rightarrow> issued_to option" where
  "registry_get r jti = r jti"

locale issue_record =
  fixes put :: "string \<Rightarrow> 'e \<Rightarrow> int \<Rightarrow> 'r \<Rightarrow> 'r"
    and get :: "'r \<Rightarrow> string \<Rightarrow> 'e option"
    and expiry :: "'e \<Rightarrow> int"
    and fresh :: 'r
  assumes get_fresh: "get fresh j = None"
    and get_put_same: "get (put j e now r) j = Some e"
    and get_put_other: "k \<noteq> j \<Longrightarrow>
      get (put j e now r) k = (case get r k of None \<Rightarrow> None | Some v \<Rightarrow> if expiry v \<le> now then None else Some v)"
begin

text \<open>The state after a sequence of issues, oldest first.\<close>

definition after :: "(string \<times> 'e \<times> int) list \<Rightarrow> 'r" where
  "after ps = fold (\<lambda>(j, e, now) r. put j e now r) ps fresh"

lemma after_snoc: "after (ps @ [(j, e, now)]) = put j e now (after ps)"
  by (simp add: after_def)

text \<open>What is found is what was put and has neither been put again nor outlived since.\<close>

definition survives :: "string \<Rightarrow> 'e \<Rightarrow> (string \<times> 'e \<times> int) list \<Rightarrow> bool" where
  "survives j e later \<longleftrightarrow> list_all (\<lambda>(k, d, now). k \<noteq> j \<and> now < expiry e) later"

lemma found_iff:
  "get (after ps) j = Some e \<longleftrightarrow> (\<exists>earlier now later. ps = earlier @ (j, e, now) # later \<and> survives j e later)"
proof (induction ps rule: rev_induct)
  case Nil
  then show ?case by (simp add: after_def get_fresh)
next
  case (snoc p ps)
  obtain k d now where p: "p = (k, d, now)" by (cases p)
  have step: "get (after (ps @ [p])) j = Some e \<longleftrightarrow>
      (if k = j then d = e else get (after ps) j = Some e \<and> now < expiry e)"
    by (auto simp: p after_snoc get_put_same get_put_other split: option.splits)
  have split: "(\<exists>earlier n later. ps @ [p] = earlier @ (j, e, n) # later \<and> survives j e later) \<longleftrightarrow>
      p = (j, e, now) \<or>
      (\<exists>earlier n later. ps = earlier @ (j, e, n) # later \<and> survives j e later \<and> k \<noteq> j \<and> now < expiry e)"
    (is "?L \<longleftrightarrow> ?R")
  proof
    assume ?L
    then obtain earlier n later where e: "ps @ [p] = earlier @ (j, e, n) # later" "survives j e later" by blast
    show ?R
    proof (cases later rule: rev_cases)
      case Nil
      with e p show ?thesis by simp
    next
      case (snoc xs x)
      with e p show ?thesis by (auto simp: survives_def)
    qed
  next
    assume ?R
    then show ?L
    proof
      assume "p = (j, e, now)"
      then show ?L by (intro exI [of _ ps] exI [of _ now] exI [of _ "[]"]) (simp add: survives_def)
    next
      assume "\<exists>earlier n later. ps = earlier @ (j, e, n) # later \<and> survives j e later \<and> k \<noteq> j \<and> now < expiry e"
      then obtain earlier n later where "ps = earlier @ (j, e, n) # later" "survives j e later" "k \<noteq> j" "now < expiry e"
        by blast
      then show ?L by (intro exI [of _ earlier] exI [of _ n] exI [of _ "later @ [p]"]) (simp add: survives_def p)
    qed
  qed
  show ?case unfolding step split snoc.IH using p by auto
qed

lemma found_was_put: "get (after ps) j = Some e \<Longrightarrow> \<exists>now. (j, e, now) \<in> set ps"
  by (auto simp: found_iff)

end

interpretation reg: issue_record registry_put registry_get is_exp empty_registry
  by unfold_locales (auto simp: registry_put_def registry_get_def empty_registry_def split: option.splits)

text \<open>After any sequence of issues, looking a token id up finds an entry exactly when that entry was
  put under the id, the id was not put again, and every later put came before the entry's expiry: pruning
  never loses or alters a live entry and never revives a dead one.\<close>
theorem registry_finds_live_entries:
  "registry_get (fold (\<lambda>(j, e, now) r. registry_put j e now r) puts empty_registry) j = Some e \<longleftrightarrow>
     (\<exists>earlier now later. puts = earlier @ (j, e, now) # later
        \<and> list_all (\<lambda>(k, d, now). k \<noteq> j \<and> now < is_exp e) later)"
  using reg.found_iff [of puts j e] unfolding reg.after_def reg.survives_def .

end
