(* ===== verification/Definitions.thy ===== *)
theory Definitions
  imports ProcInfo
begin

text \<open>
  Agent definitions: \<open>internal/identity/definitions.go\<close>, \<open>frontmatter.go\<close> and the file checks
  of \<open>fileio_linux.go\<close> and \<open>trust_linux.go\<close> they rest on. The YAML library is a parameter from
  the text between the fences to the three fields; a definitions directory is what opening and
  reading each of its names yields.
\<close>

subsection \<open>Frontmatter\<close>

fun replace_crlf :: "string \<Rightarrow> string" where
  "replace_crlf (c # d # r) =
     (if c = CHR 0x0D \<and> d = CHR 0x0A then CHR 0x0A # replace_crlf r else c # replace_crlf (d # r))"
| "replace_crlf s = s"

fun close_at :: "string \<Rightarrow> string list \<Rightarrow> (string \<times> string) option" where
  "close_at front [] = None"
| "close_at front (l # ls) =
     (if l = ''---'' then Some (front, join_with [CHR 0x0A] ls)
      else close_at (front @ l @ (if ls = [] then [] else [CHR 0x0A])) ls)"

definition fence :: string where "fence = ''---'' @ [CHR 0x0A]"

definition split_frontmatter :: "string \<Rightarrow> (string \<times> string) option" where
  "split_frontmatter raw =
     (let r = replace_crlf raw
      in if \<not> has_prefix r fence then None
         else close_at [] (split_on CHR 0x0A (drop (length fence) r)))"

subsection \<open>Trusted files\<close>

definition trusted_owner :: "nat \<Rightarrow> nat \<Rightarrow> bool" where
  "trusted_owner euid uid \<longleftrightarrow> uid = 0 \<or> uid = euid"

definition check_trusted_file :: "nat \<Rightarrow> file_info \<Rightarrow> bool" where
  "check_trusted_file euid fi =
     (if \<not> trusted_owner euid (fi_uid fi) then False
      else if group_or_other_write (fi_perm fi) then False
      else True)"

text \<open>An open directory: what opening a name in it gives, then its status and its content.\<close>

type_synonym dir_files = "string \<Rightarrow> io_err + (io_err + file_info) \<times> (io_err + string)"

datatype open_error = BadName | OpenFailed io_err | StatFailed | NotRegularFile

definition open_regular_at :: "dir_files \<Rightarrow> string \<Rightarrow> open_error + file_info \<times> (io_err + string)" where
  "open_regular_at files name =
     (if name = [] \<or> CHR ''/'' \<in> set name then Inl BadName
      else case files name of
             Inl e \<Rightarrow> Inl (OpenFailed e)
           | Inr (Inl e, content) \<Rightarrow> Inl StatFailed
           | Inr (Inr fi, content) \<Rightarrow>
               if fi_kind fi \<noteq> RegularFile then Inl NotRegularFile else Inr (fi, content))"

definition is_not_regular_entry :: "open_error \<Rightarrow> bool" where
  "is_not_regular_entry e \<longleftrightarrow> e = NotRegularFile \<or> e = OpenFailed SymLoop"

subsection \<open>Definitions\<close>

definition max_definition_bytes :: nat where "max_definition_bytes = 65536"
definition definition_suffix :: string where "definition_suffix = ''.md''"

record frontmatter =
  fm_name :: string
  fm_roles :: "string list"
  fm_trust_boundary :: string

record agent_definition =
  df_name :: string
  df_roles :: "string list"
  df_trust_boundary :: string

type_synonym yaml_frontmatter = "string \<Rightarrow> frontmatter option"

datatype definition_error =
    NoDefinitionsDir | BadDefinitionName | DefinitionOpen open_error | DefinitionUntrusted
  | DefinitionUnreadable | DefinitionFrontmatter | DefinitionNameMismatch | DefinitionBadRole string

definition parse_frontmatter :: "yaml_frontmatter \<Rightarrow> string \<Rightarrow> frontmatter option" where
  "parse_frontmatter yaml raw =
     (case split_frontmatter raw of None \<Rightarrow> None | Some (front, body) \<Rightarrow> yaml front)"

fun collect_roles :: "string list \<Rightarrow> string list \<Rightarrow> definition_error + string list" where
  "collect_roles seen [] = Inr []"
| "collect_roles seen (r # rs) =
     (if \<not> re_role_name r then Inl (DefinitionBadRole r)
      else if r \<in> set seen then collect_roles seen rs
      else case collect_roles (r # seen) rs of Inl e \<Rightarrow> Inl e | Inr out \<Rightarrow> Inr (r # out))"

definition load_definition ::
    "yaml_frontmatter \<Rightarrow> nat \<Rightarrow> dir_files option \<Rightarrow> string \<Rightarrow> definition_error + agent_definition" where
  "load_definition yaml euid dir name =
     (case dir of
        None \<Rightarrow> Inl NoDefinitionsDir
      | Some files \<Rightarrow>
          if \<not> re_name name then Inl BadDefinitionName
          else case open_regular_at files (name @ definition_suffix) of
                 Inl e \<Rightarrow> Inl (DefinitionOpen e)
               | Inr (fi, content) \<Rightarrow>
                   if \<not> check_trusted_file euid fi then Inl DefinitionUntrusted
                   else case content of
                          Inl e \<Rightarrow> Inl DefinitionUnreadable
                        | Inr whole \<Rightarrow>
                            (let raw = take (max_definition_bytes + 1) whole
                             in if length raw > max_definition_bytes then Inl DefinitionUnreadable
                                else case parse_frontmatter yaml raw of
                                       None \<Rightarrow> Inl DefinitionFrontmatter
                                     | Some fm \<Rightarrow>
                                         if fm_name fm \<noteq> name then Inl DefinitionNameMismatch
                                         else case collect_roles [] (fm_roles fm) of
                                                Inl e \<Rightarrow> Inl e
                                              | Inr roles \<Rightarrow>
                                                  Inr \<lparr>df_name = fm_name fm, df_roles = roles,
                                                       df_trust_boundary = fm_trust_boundary fm\<rparr>))"

text \<open>The check of a whole directory at startup; \<open>names\<close> is its listing.\<close>

fun verify_files :: "nat \<Rightarrow> dir_files \<Rightarrow> string list \<Rightarrow> definition_error option" where
  "verify_files euid files [] = None"
| "verify_files euid files (n # ns) =
     (if \<not> has_suffix n definition_suffix then verify_files euid files ns
      else case open_regular_at files n of
             Inl e \<Rightarrow> if is_not_regular_entry e then verify_files euid files ns else Some (DefinitionOpen e)
           | Inr (fi, content) \<Rightarrow>
               if \<not> check_trusted_file euid fi then Some DefinitionUntrusted else verify_files euid files ns)"

subsection \<open>Lemmas\<close>

lemma collect_roles_spec:
  "collect_roles seen rs = Inr out \<Longrightarrow>
     distinct out \<and> list_all re_role_name rs \<and> set out = set rs - set seen"
proof (induction rs arbitrary: seen out)
  case (Cons r rs)
  then have v: "re_role_name r" by (simp split: if_splits)
  show ?case
  proof (cases "r \<in> set seen")
    case True
    with Cons.prems v have "collect_roles seen rs = Inr out" by simp
    from Cons.IH [OF this] v True show ?thesis by auto
  next
    case False
    with Cons.prems v obtain out' where o: "collect_roles (r # seen) rs = Inr out'" "out = r # out'"
      by (auto split: sum.splits)
    from Cons.IH [OF o(1)] v False o(2) show ?thesis by auto
  qed
qed simp

lemma collect_roles_total: "list_all re_role_name rs \<Longrightarrow> \<exists>out. collect_roles seen rs = Inr out"
proof (induction seen rs rule: collect_roles.induct)
  case (2 seen r rs)
  then show ?case by (cases "r \<in> set seen") fastforce+
qed simp

lemma close_at_lines:
  "''---'' \<notin> set ls \<Longrightarrow> close_at front (ls @ ''---'' # rest) =
     Some (front @ concat (map (\<lambda>l. l @ [CHR 0x0A]) ls), join_with [CHR 0x0A] rest)"
  by (induction ls arbitrary: front) auto

lemma replace_crlf_id: "CHR 0x0D \<notin> set s \<Longrightarrow> replace_crlf s = s"
  by (induction s rule: replace_crlf.induct) auto

lemma open_regular_at_Inr:
  "open_regular_at files name = Inr (fi, content) \<longleftrightarrow>
     name \<noteq> [] \<and> CHR ''/'' \<notin> set name \<and> files name = Inr (Inr fi, content) \<and> fi_kind fi = RegularFile"
  by (auto simp: open_regular_at_def split: sum.splits prod.splits if_splits)

lemma load_definition_Inr:
  assumes "load_definition yaml euid dir name = Inr d"
  obtains files fi whole fm where "dir = Some files" "re_name name"
    "files (name @ definition_suffix) = Inr (Inr fi, Inr whole)" "fi_kind fi = RegularFile"
    "check_trusted_file euid fi" "length whole \<le> 65536" "parse_frontmatter yaml whole = Some fm"
    "fm_name fm = name" "collect_roles [] (fm_roles fm) = Inr (df_roles d)" "df_name d = name"
    "df_trust_boundary d = fm_trust_boundary fm"
proof -
  obtain files where dir: "dir = Some files" and name: "re_name name"
    using assms by (auto simp: load_definition_def split: option.splits if_splits)
  then obtain fi content where o: "open_regular_at files (name @ definition_suffix) = Inr (fi, content)"
    and t: "check_trusted_file euid fi"
    using assms by (auto simp: load_definition_def split: sum.splits if_splits)
  then obtain whole where c: "content = Inr whole"
    using assms dir name by (auto simp: load_definition_def split: sum.splits)
  have l: "length whole \<le> 65536"
    using assms dir name o t c by (auto simp: load_definition_def Let_def max_definition_bytes_def split: if_splits)
  then have w: "take (max_definition_bytes + 1) whole = whole" by (simp add: max_definition_bytes_def)
  obtain fm where f: "parse_frontmatter yaml whole = Some fm" "fm_name fm = name"
    using assms dir name o t c w by (auto simp: load_definition_def Let_def split: if_splits option.splits)
  then obtain roles where r: "collect_roles [] (fm_roles fm) = Inr roles"
    "d = \<lparr>df_name = name, df_roles = roles, df_trust_boundary = fm_trust_boundary fm\<rparr>"
    using assms dir name o t c w l
    by (auto simp: load_definition_def Let_def max_definition_bytes_def split: if_splits sum.splits)
  from that [OF dir name _ _ t l f] o c r show thesis by (auto simp: open_regular_at_Inr)
qed

lemma load_definition_sound:
  assumes "load_definition yaml euid dir name = Inr d"
  shows "df_name d = name \<and> name_body name \<and> distinct (df_roles d) \<and> list_all re_role_name (df_roles d)"
  using assms
proof (rule load_definition_Inr)
  fix fm
  assume "re_name name" "df_name d = name" and c: "collect_roles [] (fm_roles fm) = Inr (df_roles d)"
  with collect_roles_spec [OF c] show ?thesis by (auto simp: re_name_def list_all_iff)
qed

subsection \<open>Properties\<close>

text \<open>A definition is loaded only from a regular file of its own name in the directory, opened without
  following a link, owned by root or the serving user, closed to writing by group and other, and at most
  64 KiB; the name it declares is the name asked for, and its roles are exactly the declared ones, each
  a valid role name, none twice.\<close>
theorem load_definition_trusted:
  assumes "load_definition yaml euid (Some files) name = Inr d"
  shows "\<exists>fi whole fm. files (name @ ''.md'') = Inr (Inr fi, Inr whole) \<and> fi_kind fi = RegularFile
    \<and> (fi_uid fi = 0 \<or> fi_uid fi = euid) \<and> \<not> group_or_other_write (fi_perm fi) \<and> length whole \<le> 65536
    \<and> parse_frontmatter yaml whole = Some fm \<and> fm_name fm = name \<and> df_name d = name
    \<and> set (df_roles d) = set (fm_roles fm) \<and> distinct (df_roles d) \<and> list_all re_role_name (df_roles d)"
  using assms
proof (rule load_definition_Inr)
  fix files' fi whole fm
  assume d: "Some files = Some files'" "files' (name @ definition_suffix) = Inr (Inr fi, Inr whole)"
    "fi_kind fi = RegularFile" "check_trusted_file euid fi" "length whole \<le> 65536"
    "parse_frontmatter yaml whole = Some fm" "fm_name fm = name" "df_name d = name"
    and c: "collect_roles [] (fm_roles fm) = Inr (df_roles d)"
  have "(fi_uid fi = 0 \<or> fi_uid fi = euid) \<and> \<not> group_or_other_write (fi_perm fi)"
    using d(4) by (auto simp: check_trusted_file_def trusted_owner_def split: if_splits)
  with d collect_roles_spec [OF c] show ?thesis
    by (intro exI [of _ fi] exI [of _ whole] exI [of _ fm]) (auto simp: definition_suffix_def list_all_iff)
qed

definition sample_definition_text :: string where
  "sample_definition_text = join_with [CHR 0x0A] [''---'', ''name: lead'', ''---'', ''body'']"

definition sample_yaml :: yaml_frontmatter where
  "sample_yaml front = (if front = ''name: lead'' @ [CHR 0x0A]
     then Some \<lparr>fm_name = ''lead'', fm_roles = [''builder'', ''reader'', ''builder''], fm_trust_boundary = []\<rparr> else None)"

definition sample_dir :: dir_files where
  "sample_dir n = (if n = ''lead.md''
     then Inr (Inr \<lparr>fi_kind = RegularFile, fi_perm = 420, fi_uid = 0\<rparr>, Inr sample_definition_text) else Inl NotExist)"

lemma sample_loaded:
  "load_definition sample_yaml 1000 (Some sample_dir) ''lead'' =
     Inr \<lparr>df_name = ''lead'', df_roles = [''builder'', ''reader''], df_trust_boundary = []\<rparr>"
proof -
  have "parse_frontmatter sample_yaml sample_definition_text =
      Some \<lparr>fm_name = ''lead'', fm_roles = [''builder'', ''reader'', ''builder''], fm_trust_boundary = []\<rparr>"
    by (simp add: parse_frontmatter_def sample_definition_text_def split_frontmatter_def fence_def sample_yaml_def)
  moreover have "length sample_definition_text \<le> 65536" by (simp add: sample_definition_text_def)
  moreover have "collect_roles [] [''builder'', ''reader'', ''builder''] = Inr [''builder'', ''reader'']"
    by (simp add: re_role_name_def char_class_defs)
  ultimately show ?thesis
    by (simp add: load_definition_def re_name_def name_body_def char_class_defs definition_suffix_def
        open_regular_at_def sample_dir_def check_trusted_file_def trusted_owner_def group_or_other_write_def
        max_definition_bytes_def)
qed

theorem load_definition_trusted_witness:
  "\<exists>fi whole fm. sample_dir (''lead'' @ ''.md'') = Inr (Inr fi, Inr whole) \<and> parse_frontmatter sample_yaml whole = Some fm
    \<and> set (fm_roles fm) = {''builder'', ''reader''}"
  using load_definition_trusted [OF sample_loaded] by auto

end
