(* ===== verification/SpawnDirs.thy ===== *)
theory SpawnDirs
  imports GoPath Host
begin

text \<open>
  Delivery directories: \<open>internal/identity/spawndir.go\<close>. A directory's name is its creation time
  and a random id in hexadecimal; the reaper decides by the name alone. The random source, the
  directory calls and the removal are parameters.
\<close>

subsection \<open>Hexadecimal\<close>

definition hex_encode :: "string \<Rightarrow> string" where
  "hex_encode bs = concat (map (\<lambda>c. [hex_digit (code c div 16), hex_digit (code c mod 16)]) bs)"

definition random_id :: "string option \<Rightarrow> string option" where
  "random_id rnd = map_option hex_encode rnd"

fun show_hex :: "nat \<Rightarrow> string" where
  "show_hex n = (if n < 16 then [hex_digit n] else show_hex (n div 16) @ [hex_digit (n mod 16)])"

declare show_hex.simps [simp del]

definition pad_hex :: "nat \<Rightarrow> nat \<Rightarrow> string" where
  "pad_hex w n = (let s = show_hex n in replicate (w - length s) CHR ''0'' @ s)"

definition hex_value :: "string \<Rightarrow> nat" where
  "hex_value s = foldl (\<lambda>a c. 16 * a + (case hex_val c of Some v \<Rightarrow> v | None \<Rightarrow> 0)) 0 s"

subsection \<open>Names\<close>

definition spawn_name :: "nat \<Rightarrow> string \<Rightarrow> string" where
  "spawn_name now ident = pad_hex 10 now @ ''-'' @ ident"

text \<open>The pattern of a spawn directory's name, and the creation time its first group holds.\<close>

definition spawn_created :: "string \<Rightarrow> nat option" where
  "spawn_created name =
     (if length name = 43 \<and> list_all is_hex_lower (take 10 name) \<and> name ! 10 = CHR ''-''
         \<and> list_all is_hex_lower (drop 11 name)
      then Some (hex_value (take 10 name)) else None)"

record spawn_dirs =
  sd_root :: string

definition create_dir ::
    "spawn_dirs \<Rightarrow> string option \<Rightarrow> (string \<Rightarrow> bool) \<Rightarrow> int \<Rightarrow> (string \<times> string) option" where
  "create_dir s rnd mkdir now =
     (case random_id rnd of
        None \<Rightarrow> None
      | Some ident \<Rightarrow>
          (let name = spawn_name (nat now) ident; dir = path_join [sd_root s, name]
           in if \<not> mkdir name then None else Some (dir, name)))"

definition name_of :: "spawn_dirs \<Rightarrow> string \<Rightarrow> string option" where
  "name_of s dir = (if path_dir (path_clean dir) \<noteq> sd_root s then None else Some (path_base dir))"

subsection \<open>Reaping\<close>

text \<open>\<open>time.Time.Sub\<close> in nanoseconds, saturating at the range of a Duration.\<close>

definition duration_sub :: "int \<Rightarrow> int \<Rightarrow> int" where
  "duration_sub t u = max (- (2 ^ 63)) (min (2 ^ 63 - 1) (t - u))"

definition stale :: "int \<Rightarrow> int \<Rightarrow> string \<Rightarrow> bool" where
  "stale now max_age name =
     (case spawn_created name of
        None \<Rightarrow> False
      | Some created \<Rightarrow> \<not> duration_sub now (int created * 1000000000) \<le> max_age)"

text \<open>\<open>remove\<close> is \<open>None\<close> for success; a missing directory is neither counted nor a failure.\<close>

fun reap_loop :: "(string \<Rightarrow> io_err option) \<Rightarrow> int \<Rightarrow> int \<Rightarrow> string list \<Rightarrow> string list \<times> string list" where
  "reap_loop remove now max_age [] = ([], [])"
| "reap_loop remove now max_age (n # ns) =
     (if \<not> stale now max_age n then reap_loop remove now max_age ns
      else let (removed, failed) = reap_loop remove now max_age ns
        in (case remove n of
              None \<Rightarrow> (n # removed, failed)
            | Some e \<Rightarrow> if e = NotExist then (removed, failed) else (removed, n # failed)))"

definition reap :: "(string \<Rightarrow> io_err option) \<Rightarrow> int \<Rightarrow> int \<Rightarrow> string list \<Rightarrow> nat \<times> string list" where
  "reap remove now max_age names =
     (let (removed, failed) = reap_loop remove now max_age names in (length removed, failed))"

subsection \<open>Lemmas\<close>

lemma hex_digit_lower: "n < 16 \<Longrightarrow> is_hex_lower (hex_digit n)"
  by (auto simp: hex_digit_def char_class_defs)

lemma show_hex_lower: "list_all is_hex_lower (show_hex n)"
  by (induction n rule: show_hex.induct) (subst show_hex.simps, auto simp: hex_digit_lower)

lemma hex_value_append:
  "hex_value (s @ [c]) = 16 * hex_value s + (case hex_val c of Some v \<Rightarrow> v | None \<Rightarrow> 0)"
  by (simp add: hex_value_def)

lemma hex_value_show: "hex_value (show_hex n) = n"
proof (induction n rule: show_hex.induct)
  case (1 n)
  then show ?case by (subst show_hex.simps) (auto simp: hex_value_append, simp add: hex_value_def)
qed

lemma hex_value_zeros: "hex_value (replicate k CHR ''0'' @ s) = hex_value s"
proof (induction k)
  case (Suc k)
  have "hex_val CHR ''0'' = Some 0" by (simp add: hex_val_def char_class_defs)
  with Suc show ?case by (simp add: hex_value_def)
qed simp

lemma show_hex_length: "n < 16 ^ k \<Longrightarrow> 0 < k \<Longrightarrow> length (show_hex n) \<le> k"
proof (induction n arbitrary: k rule: show_hex.induct)
  case (1 n)
  show ?case
  proof (cases "n < 16")
    case True
    with 1 show ?thesis by (subst show_hex.simps) simp
  next
    case False
    then obtain j where j: "k = Suc j" "0 < j" using 1(2,3) by (cases k; cases "k - 1") auto
    with 1(2) have "n div 16 < 16 ^ j" by (simp add: less_mult_imp_div_less mult.commute)
    with 1(1) [OF False this j(2)] j(1) False show ?thesis by (subst show_hex.simps) simp
  qed
qed

lemma pad_hex_length: "n < 16 ^ 10 \<Longrightarrow> length (pad_hex 10 n) = 10"
  using show_hex_length [of n 10] by (simp add: pad_hex_def Let_def)

lemma pad_hex_lower: "list_all is_hex_lower (pad_hex w n)"
  using show_hex_lower by (auto simp: pad_hex_def Let_def list_all_iff char_class_defs)

lemma hex_value_pad: "hex_value (pad_hex w n) = n"
  by (simp add: pad_hex_def Let_def hex_value_zeros hex_value_show)

lemma hex_encode_lower: "list_all is_hex_lower (hex_encode bs) \<and> length (hex_encode bs) = 2 * length bs"
proof (induction bs)
  case (Cons c bs)
  have "code c div 16 < 16" using code_less_256 [of c] by (simp add: less_mult_imp_div_less)
  with Cons show ?case by (simp add: hex_encode_def hex_digit_lower)
qed (simp add: hex_encode_def)

text \<open>A name carries its creation time.\<close>

lemma spawn_created_name:
  assumes "now < 16 ^ 10" and "length ident = 32" and "list_all is_hex_lower ident"
  shows "spawn_created (spawn_name now ident) = Some now"
  using assms pad_hex_length [OF assms(1)] pad_hex_lower [of 10 now] hex_value_pad [of 10 now]
  by (simp add: spawn_created_def spawn_name_def nth_append)

lemma reap_loop_stale:
  "reap_loop remove now age names =
     (filter (\<lambda>n. stale now age n \<and> remove n = None) names,
      filter (\<lambda>n. stale now age n \<and> remove n \<noteq> None \<and> remove n \<noteq> Some NotExist) names)"
proof (induction names)
  case (Cons n ns)
  then show ?case by (cases "stale now age n"; cases "remove n") simp_all
qed simp

lemma stale_iff:
  assumes "- (2 ^ 63) \<le> age" and "age < 2 ^ 63 - 1"
  shows "stale now age name \<longleftrightarrow>
    (\<exists>created. spawn_created name = Some created \<and> age < now - int created * 1000000000)"
  using assms by (auto simp: stale_def duration_sub_def split: option.splits)


lemma hex_char_safe: "is_hex_lower c \<Longrightarrow> c \<noteq> CHR ''/'' \<and> c \<noteq> CHR ''.''"
  by (auto simp: char_class_defs)

lemma spawn_name_plain:
  assumes "list_all is_hex_lower ident"
  shows "plain_elem (spawn_name now ident)"
proof -
  have "\<forall>c \<in> set (pad_hex 10 now) \<union> set ident. c \<noteq> CHR ''/'' \<and> c \<noteq> CHR ''.''"
    using assms pad_hex_lower [of 10 now] unfolding list_all_iff by (blast dest: hex_char_safe)
  then have c: "\<forall>c \<in> set (spawn_name now ident). c \<noteq> CHR ''/'' \<and> c \<noteq> CHR ''.''"
    unfolding spawn_name_def by simp
  have "spawn_name now ident \<noteq> []" by (simp add: spawn_name_def)
  moreover from c have "spawn_name now ident \<noteq> ''.''" "spawn_name now ident \<noteq> ''..''" "CHR ''/'' \<notin> set (spawn_name now ident)"
    by force+
  ultimately show ?thesis unfolding plain_elem_def by blast
qed

lemma create_dir_Some:
  assumes "create_dir s (Some bytes) mkdir now = Some (dir, name)"
  shows "name = spawn_name (nat now) (hex_encode bytes)" and "dir = path_join [sd_root s, name]" and "mkdir name"
  using assms by (auto simp: create_dir_def random_id_def Let_def split: if_splits)

lemma created_dir:
  assumes "is_abs (sd_root s)" and "path_clean (sd_root s) = sd_root s"
    and "create_dir s (Some bytes) mkdir now = Some (dir, name)"
  shows "name_of s dir = Some name" and "path_clean dir = dir" and "is_abs dir"
proof -
  have n: "plain_elem name" using create_dir_Some(1) [OF assms(3)] spawn_name_plain hex_encode_lower by simp
  note j = join_dir_base [OF assms(1) n, folded create_dir_Some(2) [OF assms(3)]]
  show "name_of s dir = Some name" using j assms(2) by (simp add: name_of_def)
  show "path_clean dir = dir" by (rule j(3))
  show "is_abs dir" using path_join_abs [OF assms(1) n] create_dir_Some(2) [OF assms(3)]
    by (simp add: abs_path_def is_abs_def)
qed

subsection \<open>Properties\<close>

text \<open>A delivery directory made under a clean absolute root is a direct child of it that publishing and
  discarding find again by path, under a name whose creation time is the time it was made; the reaper
  therefore leaves it alone as long as the clock has not passed that time by more than the maximum age,
  and takes it afterwards.\<close>
theorem created_dir_reaped_when_old:
  assumes "is_abs (sd_root s)" and "path_clean (sd_root s) = sd_root s" and "length bytes = 16"
    and "0 \<le> made" and "made < 16 ^ 10" and "0 \<le> age" and "age < 2 ^ 63 - 1"
    and "create_dir s (Some bytes) mkdir made = Some (dir, name)"
  shows "name_of s dir = Some name \<and> spawn_created name = Some (nat made)
    \<and> (stale now age name \<longleftrightarrow> age < now - made * 1000000000)"
proof -
  have i: "length (hex_encode bytes) = 32" "list_all is_hex_lower (hex_encode bytes)"
    using hex_encode_lower [of bytes] assms(3) by auto
  have "spawn_created name = Some (nat made)"
    unfolding create_dir_Some(1) [OF assms(8)] using assms(4,5) i by (intro spawn_created_name) auto
  with created_dir(1) [OF assms(1,2,8)] stale_iff [of age now name] assms(4,6,7) show ?thesis by auto
qed

theorem created_dir_reaped_when_old_witness:
  "stale 4000000000000 3600000000000 (spawn_name 100 (hex_encode (replicate 16 CHR ''a'')))"
proof -
  let ?s = "\<lparr>sd_root = ''/run''\<rparr>" and ?n = "spawn_name 100 (hex_encode (replicate 16 CHR ''a''))"
  have "path_clean ''/run'' = ''/run''" by code_simp
  then show ?thesis
    using created_dir_reaped_when_old [of ?s "replicate 16 CHR ''a''" 100 3600000000000 "\<lambda>_. True"
        "path_join [''/run'', ?n]" ?n 4000000000000]
    by (simp add: is_abs_def create_dir_def random_id_def Let_def)
qed

text \<open>The reaper removes, and reports, only directories whose name has the spawn pattern and whose
  creation time is more than the maximum age ago; everything else in the root is left untouched, a
  name it cannot remove is reported as a failure, and one failure does not stop the rest.\<close>
theorem reap_only_stale:
  "reap remove now age names =
     (length (filter (\<lambda>n. stale now age n \<and> remove n = None) names),
      filter (\<lambda>n. stale now age n \<and> remove n \<noteq> None \<and> remove n \<noteq> Some NotExist) names)"
  by (simp add: reap_def reap_loop_stale)

end
