(* ===== verification/Binding.thy ===== *)
theory Binding
  imports ProcInfo
begin

text \<open>
  Binding a request to the process of a runtime: \<open>internal/identity/binding.go\<close>. The process
  table is read again and again while it changes: \<open>reader n pid\<close> is what the \<open>n\<close>-th read of a
  binding returns for \<open>pid\<close>. \<open>helper\<close> is the device and inode of the configured helper
  executable, \<open>None\<close> when none is configured or it cannot be inspected.
\<close>

type_synonym proc_reader = "nat \<Rightarrow> int \<Rightarrow> proc_info option"

record peer =
  peer_uid :: nat
  peer_gid :: nat
  peer_pid :: int

record binding =
  bd_pid :: int
  bd_proc :: proc_info

definition max_wrapper_hops :: nat where "max_wrapper_hops = 3"

subsection \<open>Command wrappers\<close>

definition is_shell_name :: "string \<Rightarrow> bool" where
  "is_shell_name s \<longleftrightarrow> s \<in> {''sh'', ''bash'', ''dash'', ''ash'', ''zsh'', ''ksh'', ''mksh'', ''busybox''}"

definition short_flag_with_c :: "string \<Rightarrow> bool" where
  "short_flag_with_c a =
     (case a of [] \<Rightarrow> False | d # r \<Rightarrow> d = CHR ''-'' \<and> list_all is_alpha r \<and> CHR ''c'' \<in> set r)"

definition base_name :: "string \<Rightarrow> string" where
  "base_name p = last (split_on CHR ''/'' p)"

fun wrapper_args :: "string list \<Rightarrow> bool" where
  "wrapper_args [] = False"
| "wrapper_args (a # as) =
     (if short_flag_with_c a then True else if has_prefix a ''-'' then wrapper_args as else False)"

definition is_command_wrapper :: "proc_info \<Rightarrow> bool" where
  "is_command_wrapper p =
     (if \<not> is_shell_name (base_name (pi_exe p)) then False else wrapper_args (drop 1 (pi_args p)))"

subsection \<open>The walk\<close>

definition is_helper :: "(nat \<times> nat) option \<Rightarrow> proc_info \<Rightarrow> bool" where
  "is_helper helper p =
     (case helper of None \<Rightarrow> False | Some (dev, ino) \<Rightarrow> pi_dev p = dev \<and> pi_ino p = ino)"

definition unbound :: refusal where "unbound = refuse 403 RuntimeUnbound"
definition unattested :: refusal where "unattested = refuse 403 PeerUnattested"

definition same_process :: "proc_info \<Rightarrow> proc_info \<Rightarrow> bool" where
  "same_process p q \<longleftrightarrow>
     pi_start p = pi_start q \<and> pi_ppid p = pi_ppid q \<and> pi_dev p = pi_dev q \<and> pi_ino p = pi_ino q"

definition confirm :: "proc_reader \<Rightarrow> nat \<Rightarrow> int \<Rightarrow> proc_info \<Rightarrow> refusal option" where
  "confirm reader n pid first =
     (case reader n pid of
        None \<Rightarrow> Some unattested
      | Some again \<Rightarrow> if \<not> same_process again first then Some unbound else None)"

text \<open>
  One hop per call: the parent of the last link is read, checked and appended; a wrapper asks for
  another hop, of which \<open>left\<close> remain.
\<close>

fun walk :: "proc_reader \<Rightarrow> nat \<Rightarrow> nat \<Rightarrow> nat \<Rightarrow> (int \<times> proc_info) list \<Rightarrow> refusal + (int \<times> proc_info) list" where
  "walk reader uid left n chain =
     (let below = last chain; ppid = pi_ppid (snd below)
      in if ppid \<le> 1 then Inl unbound
         else case reader n ppid of
                None \<Rightarrow> Inl unattested
              | Some parent \<Rightarrow>
                  if \<not> pi_has_uid parent \<or> pi_uid parent \<noteq> uid then Inl unbound
                  else if pi_start parent > pi_start (snd below) then Inl unbound
                  else if \<not> is_command_wrapper parent then Inr (chain @ [(ppid, parent)])
                  else (case left of 0 \<Rightarrow> Inl unbound
                        | Suc left' \<Rightarrow> walk reader uid left' (Suc n) (chain @ [(ppid, parent)])))"

fun confirm_all :: "proc_reader \<Rightarrow> nat \<Rightarrow> (int \<times> proc_info) list \<Rightarrow> refusal option" where
  "confirm_all reader n [] = None"
| "confirm_all reader n ((pid, p) # ls) =
     (case confirm reader n pid p of Some e \<Rightarrow> Some e | None \<Rightarrow> confirm_all reader (Suc n) ls)"

definition bind_runtime :: "proc_reader \<Rightarrow> (nat \<times> nat) option \<Rightarrow> peer \<Rightarrow> refusal + binding" where
  "bind_runtime reader helper pr =
     (case reader 0 (peer_pid pr) of
        None \<Rightarrow> Inl unattested
      | Some first \<Rightarrow>
          if \<not> pi_has_uid first \<or> pi_uid first \<noteq> peer_uid pr then Inl unbound
          else if \<not> is_helper helper first then
            (case confirm reader 1 (peer_pid pr) first of
               Some e \<Rightarrow> Inl e
             | None \<Rightarrow> Inr \<lparr>bd_pid = peer_pid pr, bd_proc = first\<rparr>)
          else case walk reader (peer_uid pr) max_wrapper_hops 1 [(peer_pid pr, first)] of
                 Inl e \<Rightarrow> Inl e
               | Inr chain \<Rightarrow>
                   (case confirm_all reader (length chain) chain of
                      Some e \<Rightarrow> Inl e
                    | None \<Rightarrow> Inr \<lparr>bd_pid = fst (last chain), bd_proc = snd (last chain)\<rparr>))"

declare walk.simps [simp del]

subsection \<open>What a binding attests\<close>

text \<open>
  The chain of a binding, as it was read: link \<open>k\<close> by the \<open>k\<close>-th read, each the parent of the one
  below it, none younger, all of the peer's user, and only the first and last not wrappers.
\<close>

definition read_chain :: "proc_reader \<Rightarrow> nat \<Rightarrow> (int \<times> proc_info) list \<Rightarrow> bool" where
  "read_chain reader uid chain \<longleftrightarrow>
     (\<forall>k < length chain. reader k (fst (chain ! k)) = Some (snd (chain ! k))
        \<and> pi_has_uid (snd (chain ! k)) \<and> pi_uid (snd (chain ! k)) = uid)
     \<and> (\<forall>k. Suc k < length chain \<longrightarrow>
          fst (chain ! Suc k) = pi_ppid (snd (chain ! k)) \<and> 1 < fst (chain ! Suc k)
          \<and> pi_start (snd (chain ! Suc k)) \<le> pi_start (snd (chain ! k)))"

definition confirmed :: "proc_reader \<Rightarrow> nat \<Rightarrow> (int \<times> proc_info) list \<Rightarrow> bool" where
  "confirmed reader n chain \<longleftrightarrow>
     (\<forall>k < length chain. \<exists>again. reader (n + k) (fst (chain ! k)) = Some again \<and> same_process again (snd (chain ! k)))"

lemma confirm_None: "confirm reader n pid p = None \<longleftrightarrow> (\<exists>again. reader n pid = Some again \<and> same_process again p)"
  by (auto simp: confirm_def split: option.splits)

lemma confirmed_Cons:
  "confirmed reader n (l # ls) \<longleftrightarrow> confirm reader n (fst l) (snd l) = None \<and> confirmed reader (Suc n) ls"
  unfolding confirmed_def confirm_None by (simp add: All_less_Suc2)

lemma confirm_all_None: "confirm_all reader n chain = None \<longleftrightarrow> confirmed reader n chain"
proof (induction chain arbitrary: n)
  case (Cons l ls)
  then show ?case by (cases l) (auto simp: confirmed_Cons split: option.splits)
qed (simp add: confirmed_def)

definition link_ok :: "proc_reader \<Rightarrow> nat \<Rightarrow> nat \<Rightarrow> int \<times> proc_info \<Rightarrow> int \<times> proc_info \<Rightarrow> bool" where
  "link_ok reader uid n below l \<longleftrightarrow>
     reader n (fst l) = Some (snd l) \<and> pi_has_uid (snd l) \<and> pi_uid (snd l) = uid
     \<and> fst l = pi_ppid (snd below) \<and> 1 < fst l \<and> pi_start (snd l) \<le> pi_start (snd below)"

lemma all_less_Suc: "(\<forall>k < Suc m. P k) \<longleftrightarrow> (\<forall>k < m. P k) \<and> P m"
  by (auto simp: less_Suc_eq)

lemma read_chain_snoc:
  assumes "chain \<noteq> []"
  shows "read_chain reader uid (chain @ [l]) \<longleftrightarrow>
    read_chain reader uid chain \<and> link_ok reader uid (length chain) (last chain) l"
proof -
  obtain m where m: "length chain = Suc m" using assms by (cases chain) auto
  have last: "last chain = chain ! m" using assms m by (simp add: last_conv_nth)
  have small: "k < Suc m \<Longrightarrow> (chain @ [l]) ! k = chain ! k" for k using m by (simp add: nth_append)
  have top: "(chain @ [l]) ! Suc m = l" using m by (metis nth_append_length)
  have one: "(\<forall>k < Suc (Suc m). P ((chain @ [l]) ! k) k) \<longleftrightarrow> (\<forall>k < Suc m. P (chain ! k) k) \<and> P l (Suc m)" for P
    using small top by (auto simp: less_Suc_eq)
  have two: "(\<forall>k. Suc k < Suc (Suc m) \<longrightarrow> Q ((chain @ [l]) ! Suc k) ((chain @ [l]) ! k)) \<longleftrightarrow>
      (\<forall>k. Suc k < Suc m \<longrightarrow> Q (chain ! Suc k) (chain ! k)) \<and> Q l (chain ! m)" for Q
  proof -
    have "(\<forall>k < Suc m. Q ((chain @ [l]) ! Suc k) ((chain @ [l]) ! k)) \<longleftrightarrow>
        (\<forall>k < m. Q (chain ! Suc k) (chain ! k)) \<and> Q l (chain ! m)"
      using small top by (simp add: all_less_Suc)
    then show ?thesis by simp
  qed
  show ?thesis
    unfolding read_chain_def length_append_singleton m last link_ok_def
      one [of "\<lambda>x k. reader k (fst x) = Some (snd x) \<and> pi_has_uid (snd x) \<and> pi_uid (snd x) = uid"]
      two [of "\<lambda>x y. fst x = pi_ppid (snd y) \<and> 1 < fst x \<and> pi_start (snd x) \<le> pi_start (snd y)"]
    by blast
qed

lemma read_chain_prefix: "read_chain reader uid (xs @ ys) \<Longrightarrow> read_chain reader uid xs"
  unfolding read_chain_def by (auto simp: nth_append split: if_splits)

lemma walk_step:
  assumes "chain \<noteq> []" and "length chain = n"
  shows "walk reader uid left n chain = Inr chain' \<longleftrightarrow>
    (\<exists>l. link_ok reader uid n (last chain) l \<and>
       (if \<not> is_command_wrapper (snd l) then chain' = chain @ [l]
        else \<exists>left'. left = Suc left' \<and> walk reader uid left' (Suc n) (chain @ [l]) = Inr chain'))"
proof -
  let ?ppid = "pi_ppid (snd (last chain))"
  show ?thesis
  proof (cases "reader n ?ppid")
    case None
    then show ?thesis by (subst walk.simps) (auto simp: Let_def link_ok_def)
  next
    case (Some parent)
    then have "link_ok reader uid n (last chain) l \<longleftrightarrow>
        l = (?ppid, parent) \<and> 1 < ?ppid \<and> pi_has_uid parent \<and> pi_uid parent = uid \<and> pi_start parent \<le> pi_start (snd (last chain))" for l
      by (cases l) (auto simp: link_ok_def)
    with Some show ?thesis by (subst walk.simps) (auto simp: Let_def split: nat.splits)
  qed
qed

text \<open>What the walk adds: wrappers below one process that is not.\<close>

definition wrappers_below :: "(int \<times> proc_info) list \<Rightarrow> bool" where
  "wrappers_below ext \<longleftrightarrow>
     ext \<noteq> [] \<and> (\<forall>l \<in> set (butlast ext). is_command_wrapper (snd l)) \<and> \<not> is_command_wrapper (snd (last ext))"

lemma wrappers_below_Cons:
  "wrappers_below (l # ls) \<longleftrightarrow> (if is_command_wrapper (snd l) then wrappers_below ls else ls = [])"
  by (auto simp: wrappers_below_def)

lemma walk_iff:
  assumes "chain \<noteq> []" and "length chain = n" and "read_chain reader uid chain"
  shows "walk reader uid left n chain = Inr chain' \<longleftrightarrow>
    (\<exists>ext. chain' = chain @ ext \<and> length ext \<le> Suc left \<and> wrappers_below ext \<and> read_chain reader uid chain')"
  using assms
proof (induction left arbitrary: n chain)
  case 0
  show ?case
  proof
    assume "walk reader uid 0 n chain = Inr chain'"
    then obtain l where "link_ok reader uid n (last chain) l" "\<not> is_command_wrapper (snd l)" "chain' = chain @ [l]"
      unfolding walk_step [OF 0(1,2)] by (auto split: if_splits)
    with 0 show "\<exists>ext. chain' = chain @ ext \<and> length ext \<le> Suc 0 \<and> wrappers_below ext \<and> read_chain reader uid chain'"
      by (intro exI [of _ "[l]"]) (auto simp: read_chain_snoc wrappers_below_def)
  next
    assume "\<exists>ext. chain' = chain @ ext \<and> length ext \<le> Suc 0 \<and> wrappers_below ext \<and> read_chain reader uid chain'"
    then obtain l where "chain' = chain @ [l]" "\<not> is_command_wrapper (snd l)" "read_chain reader uid (chain @ [l])"
      by (auto simp: wrappers_below_def le_Suc_eq length_Suc_conv)
    with 0 show "walk reader uid 0 n chain = Inr chain'"
      unfolding walk_step [OF 0(1,2)] by (intro exI [of _ l]) (auto simp: read_chain_snoc)
  qed
next
  case (Suc left)
  have ih: "link_ok reader uid n (last chain) l \<Longrightarrow>
      walk reader uid left (Suc n) (chain @ [l]) = Inr chain' \<longleftrightarrow>
      (\<exists>ext. chain' = (chain @ [l]) @ ext \<and> length ext \<le> Suc left \<and> wrappers_below ext \<and> read_chain reader uid chain')" for l
    by (rule Suc.IH) (use Suc.prems in \<open>auto simp: read_chain_snoc\<close>)
  have one: "read_chain reader uid (chain @ l # ext) \<Longrightarrow> link_ok reader uid n (last chain) l" for l ext
    using read_chain_prefix [of reader uid "chain @ [l]" ext] Suc.prems by (simp add: read_chain_snoc)
  show ?case
  proof
    assume "walk reader uid (Suc left) n chain = Inr chain'"
    then obtain l where l: "link_ok reader uid n (last chain) l"
      and c: "if \<not> is_command_wrapper (snd l) then chain' = chain @ [l]
              else walk reader uid left (Suc n) (chain @ [l]) = Inr chain'"
      unfolding walk_step [OF Suc.prems(1,2)] by (auto split: if_splits)
    show "\<exists>ext. chain' = chain @ ext \<and> length ext \<le> Suc (Suc left) \<and> wrappers_below ext \<and> read_chain reader uid chain'"
    proof (cases "is_command_wrapper (snd l)")
      case True
      with c ih [OF l] obtain ext where "chain' = (chain @ [l]) @ ext" "length ext \<le> Suc left" "wrappers_below ext"
        "read_chain reader uid chain'" by auto
      with True show ?thesis by (intro exI [of _ "l # ext"]) (auto simp: wrappers_below_Cons)
    next
      case False
      with c l Suc.prems show ?thesis
        by (intro exI [of _ "[l]"]) (auto simp: read_chain_snoc wrappers_below_def)
    qed
  next
    assume "\<exists>ext. chain' = chain @ ext \<and> length ext \<le> Suc (Suc left) \<and> wrappers_below ext \<and> read_chain reader uid chain'"
    then obtain l ext where e: "chain' = chain @ l # ext" "length ext \<le> Suc left" "wrappers_below (l # ext)"
      "read_chain reader uid chain'"
      by (auto simp: wrappers_below_def neq_Nil_conv)
    with one have l: "link_ok reader uid n (last chain) l" by auto
    have "if \<not> is_command_wrapper (snd l) then chain' = chain @ [l]
          else walk reader uid left (Suc n) (chain @ [l]) = Inr chain'"
      using e ih [OF l] by (auto simp: wrappers_below_Cons split: if_splits)
    with l show "walk reader uid (Suc left) n chain = Inr chain'"
      unfolding walk_step [OF Suc.prems(1,2)] by (intro exI [of _ l]) auto
  qed
qed

lemma read_chain_single:
  "read_chain reader uid [l] \<longleftrightarrow> reader 0 (fst l) = Some (snd l) \<and> pi_has_uid (snd l) \<and> pi_uid (snd l) = uid"
  by (auto simp: read_chain_def)

text \<open>The specification of a binding: the chain from the peer up to the runtime.\<close>

definition runtime_chain ::
    "proc_reader \<Rightarrow> (nat \<times> nat) option \<Rightarrow> peer \<Rightarrow> (int \<times> proc_info) list \<Rightarrow> bool" where
  "runtime_chain reader helper pr chain \<longleftrightarrow>
     (\<exists>first ext. chain = (peer_pid pr, first) # ext
        \<and> (if is_helper helper first then wrappers_below ext \<and> length ext \<le> 4 else ext = []))
     \<and> read_chain reader (peer_uid pr) chain \<and> confirmed reader (length chain) chain"

lemma bind_runtime_iff:
  "bind_runtime reader helper pr = Inr b \<longleftrightarrow>
     (\<exists>chain. runtime_chain reader helper pr chain \<and> b = \<lparr>bd_pid = fst (last chain), bd_proc = snd (last chain)\<rparr>)"
proof (cases "reader 0 (peer_pid pr)")
  case None
  then show ?thesis by (auto simp: bind_runtime_def runtime_chain_def read_chain_def)
next
  case (Some first)
  let ?c = "[(peer_pid pr, first)]"
  have starts: "runtime_chain reader helper pr chain \<Longrightarrow> \<exists>ext. chain = (peer_pid pr, first) # ext" for chain
    using Some by (auto simp: runtime_chain_def read_chain_def)
  show ?thesis
  proof (cases "pi_has_uid first \<and> pi_uid first = peer_uid pr")
    case False
    then show ?thesis using Some starts
      by (auto simp: bind_runtime_def runtime_chain_def) (auto simp: read_chain_def)
  next
    case ok: True
    then have rc: "read_chain reader (peer_uid pr) ?c" using Some by (simp add: read_chain_single)
    show ?thesis
    proof (cases "is_helper helper first")
      case False
      have "runtime_chain reader helper pr chain \<longleftrightarrow> chain = ?c \<and> confirm reader 1 (peer_pid pr) first = None" for chain
        using starts [of chain] False rc
        by (auto simp: runtime_chain_def confirmed_Cons) (auto simp: confirmed_def)
      with Some ok False show ?thesis by (auto simp: bind_runtime_def split: option.splits)
    next
      case True
      have "runtime_chain reader helper pr chain \<longleftrightarrow>
          walk reader (peer_uid pr) max_wrapper_hops 1 ?c = Inr chain \<and> confirm_all reader (length chain) chain = None" for chain
        using starts [of chain] True walk_iff [of ?c 1 reader "peer_uid pr" max_wrapper_hops chain] rc
        by (auto simp: runtime_chain_def confirm_all_None max_wrapper_hops_def)
      with Some ok True show ?thesis
        by (auto simp: bind_runtime_def split: sum.splits option.splits)
    qed
  qed
qed


subsection \<open>Properties\<close>

text \<open>C23: A request is bound to a process exactly when one pass over the process table shows a chain
  from the attested peer to it, and a second pass finds every link unchanged (start time, parent,
  executable): the peer alone when it is not the helper; else its ancestors up to the first that is
  no shell command wrapper, through at most three wrappers, each link the recorded parent of the one
  below, no younger than it, above pid 1, and run by the uid the socket attested.\<close>
theorem runtime_binding_attested:
  "bind_runtime reader helper pr = Inr b \<longleftrightarrow>
     (\<exists>chain. runtime_chain reader helper pr chain \<and> b = \<lparr>bd_pid = fst (last chain), bd_proc = snd (last chain)\<rparr>)"
  by (rule bind_runtime_iff)

lemma bound_process:
  assumes "bind_runtime reader helper pr = Inr b"
  shows "pi_uid (bd_proc b) = peer_uid pr \<and> (\<exists>k. reader k (bd_pid b) = Some (bd_proc b))"
proof -
  from assms obtain chain where c: "runtime_chain reader helper pr chain"
    and b: "b = \<lparr>bd_pid = fst (last chain), bd_proc = snd (last chain)\<rparr>"
    unfolding bind_runtime_iff by blast
  then have "chain \<noteq> []" and r: "read_chain reader (peer_uid pr) chain" by (auto simp: runtime_chain_def)
  then have "length chain - 1 < length chain" "last chain = chain ! (length chain - 1)"
    by (simp_all add: last_conv_nth)
  with r b show ?thesis by (auto simp: read_chain_def)
qed

end
