(* ===== verification/Issuer.thy ===== *)
theory Issuer
  imports Claims Registry Definitions SpawnDirs Binding
begin

text \<open>
  The issuer, \<open>internal/identity/issuer.go\<close>: session and child assertions for an attested
  process. The state is the registry; a call returns its result, the next registry and its effects
  on the delivery root in order. \<open>issue_call\<close> is what one call sees: clock, process table, random
  bytes, and the outcome of making and filling a directory. Times are nanoseconds, as \<open>time.Time\<close>
  holds them, and \<open>unix\<close> is their whole seconds.
\<close>

record issuer =
  ic_issuer :: string
  ic_keys :: keyring
  ic_yaml :: yaml_frontmatter
  ic_defs :: "dir_files option"
  ic_dirs :: spawn_dirs
  ic_helper :: "(nat \<times> nat) option"
  ic_runtime_roles :: "string list"
  ic_delegable :: "string list option"
  ic_ttl :: int
  ic_euid :: nat

record issue_call =
  cl_now :: int
  cl_reader :: proc_reader
  cl_rand_jti :: "string option"
  cl_rand_sid :: "string option"
  cl_rand_dir :: "string option"
  cl_mkdir :: "string \<Rightarrow> bool"
  cl_publish :: "string \<Rightarrow> string \<Rightarrow> bool"

record runtime_decl =
  rd_id :: string
  rd_version :: string

record session_request =
  sr_definition :: string
  sr_origin :: string
  sr_runtime :: "runtime_decl option"

record child_request =
  cr_parent_token :: string
  cr_agent_type :: string
  cr_agent_id :: string

record narrowing =
  nw_policy :: string
  nw_dropped :: "string list"
  nw_steps :: "(string \<times> string list) list"

record issued =
  iss_token :: string
  iss_dir :: string
  iss_expires_at :: int
  iss_sub :: string
  iss_actor :: string
  iss_grade :: string
  iss_roles :: "string list"
  iss_narrowed :: "narrowing option"

datatype dir_effect = DirCreated string | Published string string | Discarded string

type_synonym 'a issue_run = "(refusal + 'a) \<times> registry \<times> dir_effect list"

definition unix :: "int \<Rightarrow> int" where
  "unix t = t div 1000000000"

definition origins :: "string list" where
  "origins = [''human'', ''scheduled'', ''loop'', ''trigger'', ''agent'', origin_driven]"

definition re_version :: "string \<Rightarrow> bool" where
  "re_version s \<longleftrightarrow> 1 \<le> length s \<and> length s \<le> 64 \<and> list_all (\<lambda>c. is_name_char c \<or> c = CHR ''+'') s"

definition permitted :: "issuer \<Rightarrow> peer \<Rightarrow> bool" where
  "permitted i p \<longleftrightarrow> peer_uid p = ic_euid i"

subsection \<open>Narrowing\<close>

fun intersect_loop :: "string list \<Rightarrow> string list \<Rightarrow> string list \<times> string list" where
  "intersect_loop allowed [] = ([], [])"
| "intersect_loop allowed (r # rs) =
     (let (kept, dropped) = intersect_loop allowed rs
      in if r \<in> set allowed then (r # kept, dropped) else (kept, r # dropped))"

definition intersect :: "string list \<Rightarrow> string list option \<Rightarrow> string list \<times> string list" where
  "intersect want policy = (case policy of None \<Rightarrow> (want, []) | Some allowed \<Rightarrow> intersect_loop allowed want)"

definition narrowing_add :: "narrowing option \<Rightarrow> string \<Rightarrow> string list \<Rightarrow> narrowing option" where
  "narrowing_add n policy dropped =
     (if dropped = [] then n
      else Some (case n of
             None \<Rightarrow> \<lparr>nw_policy = policy, nw_dropped = dropped, nw_steps = [(policy, dropped)]\<rparr>
           | Some m \<Rightarrow> \<lparr>nw_policy = nw_policy m @ '','' @ policy, nw_dropped = nw_dropped m @ dropped,
                        nw_steps = nw_steps m @ [(policy, dropped)]\<rparr>))"

definition policy_delegable :: string where "policy_delegable = ''identity.delegable_roles''"
definition policy_parent :: string where "policy_parent = ''parent_token.roles''"

definition narrow_roles ::
    "string list option \<Rightarrow> string list \<Rightarrow> string list \<Rightarrow> string list \<times> narrowing option" where
  "narrow_roles delegable parent_roles want =
     (let (r1, d1) = intersect want delegable;
          n1 = narrowing_add None policy_delegable d1;
          (r2, d2) = intersect r1 (Some parent_roles);
          n2 = narrowing_add n1 policy_parent d2
      in (r2, n2))"

subsection \<open>Finishing\<close>

fun actor_chain_names_human :: "actor option \<Rightarrow> bool" where
  "actor_chain_names_human None = False"
| "actor_chain_names_human (Some (Actor s next)) =
     (if has_prefix s ''human:'' then True else actor_chain_names_human next)"

definition driven_violation :: "claims \<Rightarrow> bool" where
  "driven_violation c \<longleftrightarrow>
     cl_origin c = origin_driven \<and>
     (cl_grade c \<noteq> ''workload'' \<or> has_prefix (cl_sub c) ''human:'' \<or> actor_chain_names_human (cl_act c))"

definition internal :: refusal where "internal = refuse 500 InternalCode"

text \<open>The session id: kept when there is one, else \<open>s-\<close> and a random id.\<close>

definition with_sid :: "issue_call \<Rightarrow> claims \<Rightarrow> claims option" where
  "with_sid w c =
     (if cl_sid c \<noteq> [] then Some c
      else map_option (\<lambda>sid. c\<lparr>cl_sid := ''s-'' @ sid\<rparr>) (random_id (cl_rand_sid w)))"

definition entry_for :: "peer \<Rightarrow> binding \<Rightarrow> int \<Rightarrow> issued_to" where
  "entry_for pr b expiry =
     \<lparr>is_uid = peer_uid pr, is_pid = bd_pid b, is_start = pi_start (bd_proc b), is_dev = pi_dev (bd_proc b),
      is_ino = pi_ino (bd_proc b), is_exp = expiry\<rparr>"

definition publish :: "issuer \<Rightarrow> issue_call \<Rightarrow> peer \<Rightarrow> string \<Rightarrow> string \<Rightarrow> bool" where
  "publish i w pr dir token =
     (if peer_uid pr \<noteq> ic_euid i then False
      else case name_of (ic_dirs i) dir of
             None \<Rightarrow> False
           | Some name \<Rightarrow> cl_publish w name (token @ [CHR 0x0A]))"

text \<open>From the made directory to the registry entry.\<close>

definition deliver ::
    "issuer \<Rightarrow> issue_call \<Rightarrow> peer \<Rightarrow> binding \<Rightarrow> claims \<Rightarrow> string \<Rightarrow> narrowing option \<Rightarrow> registry \<Rightarrow> issued issue_run" where
  "deliver i w pr b c dir narrowed reg =
     (let c' = c\<lparr>cl_dir := path_clean dir\<rparr>
      in case sign_claims (ic_keys i) c' of
           None \<Rightarrow> (Inl internal, reg, [DirCreated dir, Discarded dir])
         | Some token \<Rightarrow>
             if \<not> publish i w pr dir token
             then (Inl internal, reg, [DirCreated dir, Discarded dir])
             else (Inr \<lparr>iss_token = token, iss_dir = cl_dir c', iss_expires_at = cl_exp c', iss_sub = cl_sub c',
                        iss_actor = (case cl_act c' of None \<Rightarrow> cl_sub c' | Some a \<Rightarrow> actor_sub a),
                        iss_grade = cl_grade c', iss_roles = cl_roles c', iss_narrowed = narrowed\<rparr>,
                   registry_put (cl_jti c') (entry_for pr b (cl_exp c')) (unix (cl_now w)) reg,
                   [DirCreated dir, Published dir token]))"

definition finish ::
    "issuer \<Rightarrow> issue_call \<Rightarrow> peer \<Rightarrow> binding \<Rightarrow> claims \<Rightarrow> int \<Rightarrow> narrowing option \<Rightarrow> registry \<Rightarrow> issued issue_run" where
  "finish i w pr b c expiry narrowed reg =
     (let now = cl_now w
      in if unix now \<ge> unix expiry then (Inl (refuse 403 LifetimeEmpty), reg, [])
         else case random_id (cl_rand_jti w) of
                None \<Rightarrow> (Inl internal, reg, [])
              | Some jti \<Rightarrow>
                  (case with_sid w c of
                     None \<Rightarrow> (Inl internal, reg, [])
                   | Some c1 \<Rightarrow>
                       if driven_violation c1 then (Inl internal, reg, [])
                       else (let c2 = c1\<lparr>cl_iat := unix now, cl_exp := unix expiry, cl_jti := jti,
                                         cl_cia := contract_for (cl_origin c1)\<rparr>
                         in case create_dir (ic_dirs i) (cl_rand_dir w) (cl_mkdir w) (unix now) of
                              None \<Rightarrow> (Inl (refuse 500 SpawnDirCode), reg, [])
                            | Some (dir, name) \<Rightarrow> deliver i w pr b c2 dir narrowed reg)))"

subsection \<open>Sessions\<close>

definition runtime_version :: "string \<Rightarrow> runtime_decl option \<Rightarrow> refusal + string" where
  "runtime_version rt d =
     (case d of
        None \<Rightarrow> Inr ''unknown''
      | Some decl \<Rightarrow>
          if rd_id decl \<noteq> [] \<and> rd_id decl \<noteq> rt then Inl (refuse 403 RuntimeMismatch)
          else if rd_version decl \<noteq> [] then
            (if \<not> re_version (rd_version decl) then Inl (refuse 400 BadRequest) else Inr (rd_version decl))
          else Inr ''unknown'')"

definition session_origin :: "string \<Rightarrow> refusal + string" where
  "session_origin origin =
     (if origin = [] then Inr ''trigger''
      else if origin \<notin> set origins then Inl (refuse 400 BadRequest)
      else if origin = ''human'' then Inl (refuse 403 OriginForbidden)
      else Inr origin)"

definition session_claims :: "issuer \<Rightarrow> string \<Rightarrow> string \<Rightarrow> string \<Rightarrow> string \<Rightarrow> refusal + claims" where
  "session_claims i rt version origin definition_name =
     (let base = zero_claims\<lparr>cl_iss := ic_issuer i, cl_sub := ''runtime:'' @ rt, cl_grade := ''workload'',
                             cl_rt := \<lparr>rt_id = rt, rt_version = version\<rparr>, cl_origin := origin\<rparr>
      in if definition_name \<noteq> [] then
           (case load_definition (ic_yaml i) (ic_euid i) (ic_defs i) definition_name of
              Inl e \<Rightarrow> Inl (refuse 404 DefinitionUnknown)
            | Inr d \<Rightarrow> Inr (base\<lparr>cl_roles := df_roles d, cl_act := Some (Actor (''agent:'' @ df_name d) None)\<rparr>))
         else Inr (base\<lparr>cl_roles := ic_runtime_roles i, cl_act := Some (Actor (''runtime:'' @ rt) None)\<rparr>))"

definition refused :: "refusal \<Rightarrow> registry \<Rightarrow> issued issue_run" where
  "refused e reg = (Inl e, reg, [])"

definition issue_session :: "issuer \<Rightarrow> issue_call \<Rightarrow> peer \<Rightarrow> session_request \<Rightarrow> registry \<Rightarrow> issued issue_run" where
  "issue_session i w pr req reg =
     (if \<not> permitted i pr then refused (refuse 403 PeerUIDRefused) reg
      else case bind_runtime (cl_reader w) (ic_helper i) pr of
             Inl e \<Rightarrow> refused e reg
           | Inr b \<Rightarrow>
               (case runtime_id (pi_exe (bd_proc b)) (pi_args (bd_proc b)) of
                  None \<Rightarrow> refused unattested reg
                | Some rt \<Rightarrow>
                    (case runtime_version rt (sr_runtime req) of
                       Inl e \<Rightarrow> refused e reg
                     | Inr version \<Rightarrow>
                         (case session_origin (sr_origin req) of
                            Inl e \<Rightarrow> refused e reg
                          | Inr origin \<Rightarrow>
                              (case session_claims i rt version origin (sr_definition req) of
                                 Inl e \<Rightarrow> refused e reg
                               | Inr c \<Rightarrow> finish i w pr b c (cl_now w + ic_ttl i) None reg)))))"

subsection \<open>Children\<close>

definition same_recipient :: "issued_to \<Rightarrow> binding \<Rightarrow> refusal option" where
  "same_recipient e b =
     (if is_pid e \<noteq> bd_pid b then Some (refuse 403 PIDMismatch)
      else if pi_start (bd_proc b) \<noteq> is_start e then Some (refuse 403 PIDMismatch)
      else if pi_dev (bd_proc b) \<noteq> is_dev e \<or> pi_ino (bd_proc b) \<noteq> is_ino e then Some (refuse 403 ExeMismatch)
      else None)"

definition child_claims :: "issuer \<Rightarrow> claims \<Rightarrow> agent_definition \<Rightarrow> string \<Rightarrow> claims \<times> narrowing option" where
  "child_claims i parent d agent_id =
     (let (roles, narrowed) = narrow_roles (ic_delegable i) (cl_roles parent) (df_roles d)
      in (zero_claims\<lparr>cl_iss := ic_issuer i, cl_sub := cl_sub parent, cl_roles := roles, cl_grade := ''harness'',
                      cl_rt := cl_rt parent, cl_sid := cl_sid parent, cl_spawn := agent_id, cl_origin := ''agent'',
                      cl_act := Some (Actor (''agent:'' @ df_name d) (cl_act parent))\<rparr>, narrowed))"

definition child_expiry :: "issuer \<Rightarrow> int \<Rightarrow> claims \<Rightarrow> int" where
  "child_expiry i now parent =
     (let expiry = now + ic_ttl i; pe = cl_exp parent * 1000000000 in if pe < expiry then pe else expiry)"

definition issue_child ::
    "crypto \<Rightarrow> issuer \<Rightarrow> issue_call \<Rightarrow> peer \<Rightarrow> child_request \<Rightarrow> registry \<Rightarrow> issued issue_run" where
  "issue_child cr i w pr req reg =
     (if \<not> permitted i pr then refused (refuse 403 PeerUIDRefused) reg
      else if \<not> re_name (cr_agent_type req) \<or> \<not> re_name (cr_agent_id req) then refused (refuse 400 BadRequest) reg
      else case parse_own cr (ic_keys i) (cr_parent_token req) of
             None \<Rightarrow> refused (refuse 403 ParentInvalid) reg
           | Some parent \<Rightarrow>
               if cl_exp parent \<le> unix (cl_now w) then refused (refuse 403 ParentExpired) reg
               else (case registry_get reg (cl_jti parent) of
                       None \<Rightarrow> refused (refuse 403 ParentUnknown) reg
                     | Some entry \<Rightarrow>
                         if is_uid entry \<noteq> peer_uid pr then refused (refuse 403 UIDMismatch) reg
                         else (case bind_runtime (cl_reader w) (ic_helper i) pr of
                                 Inl e \<Rightarrow> refused e reg
                               | Inr b \<Rightarrow>
                                   (case same_recipient entry b of
                                      Some e \<Rightarrow> refused e reg
                                    | None \<Rightarrow>
                                        (case load_definition (ic_yaml i) (ic_euid i) (ic_defs i) (cr_agent_type req) of
                                           Inl e \<Rightarrow> refused (refuse 404 DefinitionUnknown) reg
                                         | Inr d \<Rightarrow>
                                             (let (c, narrowed) = child_claims i parent d (cr_agent_id req)
                                              in finish i w pr b c (child_expiry i (cl_now w) parent) narrowed reg))))))"

subsection \<open>Narrowing only removes\<close>

lemma intersect_loop_filter:
  "intersect_loop allowed want = (filter (\<lambda>r. r \<in> set allowed) want, filter (\<lambda>r. r \<notin> set allowed) want)"
  by (induction want) auto

lemma intersect_filter:
  "intersect want policy =
     (filter (\<lambda>r. case policy of None \<Rightarrow> True | Some p \<Rightarrow> r \<in> set p) want,
      filter (\<lambda>r. case policy of None \<Rightarrow> False | Some p \<Rightarrow> r \<notin> set p) want)"
  by (cases policy) (simp_all add: intersect_def intersect_loop_filter)

lemma narrow_roles_kept:
  "fst (narrow_roles delegable parent_roles want) =
     filter (\<lambda>r. r \<in> set parent_roles \<and> (case delegable of None \<Rightarrow> True | Some p \<Rightarrow> r \<in> set p)) want"
  by (simp add: narrow_roles_def intersect_filter Let_def split: prod.split)
    (metis (no_types, lifting) conj_commute)

subsection \<open>A finished issue\<close>

lemma with_sid_Some:
  "with_sid w c = Some c1 \<Longrightarrow> c1 = c\<lparr>cl_sid := cl_sid c1\<rparr> \<and> cl_sid c1 \<noteq> [] \<and> (cl_sid c \<noteq> [] \<longrightarrow> c1 = c)"
  by (auto simp: with_sid_def split: if_splits)

text \<open>The claims a call signs, from those it was asked to sign.\<close>

definition completed :: "issue_call \<Rightarrow> claims \<Rightarrow> int \<Rightarrow> string \<Rightarrow> claims \<Rightarrow> bool" where
  "completed w c expiry dir cF \<longleftrightarrow>
     (\<exists>jti c1. random_id (cl_rand_jti w) = Some jti \<and> with_sid w c = Some c1 \<and> \<not> driven_violation c1
        \<and> cF = c1\<lparr>cl_iat := unix (cl_now w), cl_exp := unix expiry, cl_jti := jti,
                  cl_cia := contract_for (cl_origin c1), cl_dir := path_clean dir\<rparr>)"

lemma completed_fields:
  assumes "completed w c expiry dir cF"
  shows "cl_iss cF = cl_iss c" "cl_sub cF = cl_sub c" "cl_act cF = cl_act c" "cl_roles cF = cl_roles c"
    "cl_grade cF = cl_grade c" "cl_rt cF = cl_rt c" "cl_spawn cF = cl_spawn c" "cl_origin cF = cl_origin c"
    "cl_dir cF = path_clean dir" "cl_iat cF = unix (cl_now w)" "cl_exp cF = unix expiry"
    "cl_cia cF = contract_for (cl_origin c)" "cl_sid cF \<noteq> []" "cl_sid c \<noteq> [] \<Longrightarrow> cl_sid cF = cl_sid c"
    "\<not> driven_violation cF" "random_id (cl_rand_jti w) = Some (cl_jti cF)"
proof -
  from assms obtain jti c1 where j: "random_id (cl_rand_jti w) = Some jti" and s: "with_sid w c = Some c1"
    and d: "\<not> driven_violation c1"
    and f: "cF = c1\<lparr>cl_iat := unix (cl_now w), cl_exp := unix expiry, cl_jti := jti,
                  cl_cia := contract_for (cl_origin c1), cl_dir := path_clean dir\<rparr>"
    by (auto simp: completed_def)
  from with_sid_Some [OF s] obtain sid where c1: "c1 = c\<lparr>cl_sid := sid\<rparr>" "sid \<noteq> []" "cl_sid c \<noteq> [] \<longrightarrow> sid = cl_sid c"
    by (metis claims.surjective claims.update_convs(7) claims.select_convs(7))
  show "cl_iss cF = cl_iss c" "cl_sub cF = cl_sub c" "cl_act cF = cl_act c" "cl_roles cF = cl_roles c"
    "cl_grade cF = cl_grade c" "cl_rt cF = cl_rt c" "cl_spawn cF = cl_spawn c" "cl_origin cF = cl_origin c"
    "cl_dir cF = path_clean dir" "cl_iat cF = unix (cl_now w)" "cl_exp cF = unix expiry"
    "cl_cia cF = contract_for (cl_origin c)" "cl_sid cF \<noteq> []" "cl_sid c \<noteq> [] \<Longrightarrow> cl_sid cF = cl_sid c"
    "random_id (cl_rand_jti w) = Some (cl_jti cF)"
    using c1 j by (simp_all add: f)
  show "\<not> driven_violation cF" using d by (simp add: f driven_violation_def)
qed

text \<open>What a successful finish did, in full.\<close>

definition finished ::
    "issuer \<Rightarrow> issue_call \<Rightarrow> peer \<Rightarrow> binding \<Rightarrow> claims \<Rightarrow> int \<Rightarrow> registry \<Rightarrow> issued \<Rightarrow> registry \<Rightarrow> dir_effect list \<Rightarrow> claims \<Rightarrow> bool"
where
  "finished i w pr b c expiry reg out reg' es cF \<longleftrightarrow>
     (\<exists>dir name sig. completed w c expiry dir cF \<and> unix (cl_now w) < unix expiry
        \<and> create_dir (ic_dirs i) (cl_rand_dir w) (cl_mkdir w) (unix (cl_now w)) = Some (dir, name)
        \<and> kr_sign (ic_keys i) (signing_input (ic_keys i) cF) = Some sig
        \<and> iss_token out = compact (header_members (ic_keys i)) (claims_members cF) sig
        \<and> iss_dir out = path_clean dir \<and> iss_expires_at out = cl_exp cF \<and> iss_sub out = cl_sub cF
        \<and> iss_actor out = (case cl_act cF of None \<Rightarrow> cl_sub cF | Some a \<Rightarrow> actor_sub a)
        \<and> iss_grade out = cl_grade cF \<and> iss_roles out = cl_roles cF
        \<and> reg' = registry_put (cl_jti cF) (entry_for pr b (cl_exp cF)) (unix (cl_now w)) reg
        \<and> es = [DirCreated dir, Published dir (iss_token out)]
        \<and> peer_uid pr = ic_euid i)"

lemma deliver_Inr:
  assumes "deliver i w pr b c dir narrowed reg = (Inr out, reg', es)"
  obtains sig where "kr_sign (ic_keys i) (signing_input (ic_keys i) (c\<lparr>cl_dir := path_clean dir\<rparr>)) = Some sig"
    "iss_token out = compact (header_members (ic_keys i)) (claims_members (c\<lparr>cl_dir := path_clean dir\<rparr>)) sig"
    "iss_dir out = path_clean dir" "iss_expires_at out = cl_exp c" "iss_sub out = cl_sub c"
    "iss_actor out = (case cl_act c of None \<Rightarrow> cl_sub c | Some a \<Rightarrow> actor_sub a)"
    "iss_grade out = cl_grade c" "iss_roles out = cl_roles c"
    "reg' = registry_put (cl_jti c) (entry_for pr b (cl_exp c)) (unix (cl_now w)) reg"
    "es = [DirCreated dir, Published dir (iss_token out)]" "peer_uid pr = ic_euid i"
proof -
  let ?c = "c\<lparr>cl_dir := path_clean dir\<rparr>"
  from assms obtain token where t: "sign_claims (ic_keys i) ?c = Some token"
    by (auto simp: deliver_def Let_def split: option.splits)
  with assms have p: "publish i w pr dir token" by (auto simp: deliver_def Let_def split: if_splits)
  then have "peer_uid pr = ic_euid i" by (auto simp: publish_def split: if_splits)
  moreover from t obtain sig where "kr_sign (ic_keys i) (signing_input (ic_keys i) ?c) = Some sig"
    "token = compact (header_members (ic_keys i)) (claims_members ?c) sig"
    by (auto simp: signed_compact)
  ultimately show thesis using assms t p that by (cases "cl_act c") (auto simp: deliver_def Let_def)
qed

lemma finish_Inr:
  assumes "finish i w pr b c expiry narrowed reg = (Inr out, reg', es)"
  shows "\<exists>cF. finished i w pr b c expiry reg out reg' es cF"
proof -
  from assms have t: "unix (cl_now w) < unix expiry"
    by (auto simp: finish_def Let_def split: if_splits)
  with assms obtain jti where j: "random_id (cl_rand_jti w) = Some jti"
    by (auto simp: finish_def Let_def split: option.splits)
  with assms t obtain c1 where c1: "with_sid w c = Some c1"
    by (auto simp: finish_def Let_def split: option.splits)
  with assms t j have d: "\<not> driven_violation c1"
    by (auto simp: finish_def Let_def split: if_splits)
  let ?c2 = "c1\<lparr>cl_iat := unix (cl_now w), cl_exp := unix expiry, cl_jti := jti, cl_cia := contract_for (cl_origin c1)\<rparr>"
  from assms t j c1 d obtain dir name
    where m: "create_dir (ic_dirs i) (cl_rand_dir w) (cl_mkdir w) (unix (cl_now w)) = Some (dir, name)"
      and del: "deliver i w pr b ?c2 dir narrowed reg = (Inr out, reg', es)"
    by (auto simp: finish_def Let_def split: option.splits)
  have "completed w c expiry dir (?c2\<lparr>cl_dir := path_clean dir\<rparr>)"
    using j c1 d by (auto simp: completed_def)
  moreover from del obtain sig where
    "kr_sign (ic_keys i) (signing_input (ic_keys i) (?c2\<lparr>cl_dir := path_clean dir\<rparr>)) = Some sig"
    "iss_token out = compact (header_members (ic_keys i)) (claims_members (?c2\<lparr>cl_dir := path_clean dir\<rparr>)) sig"
    "iss_dir out = path_clean dir" "iss_expires_at out = cl_exp ?c2" "iss_sub out = cl_sub ?c2"
    "iss_actor out = (case cl_act ?c2 of None \<Rightarrow> cl_sub ?c2 | Some a \<Rightarrow> actor_sub a)"
    "iss_grade out = cl_grade ?c2" "iss_roles out = cl_roles ?c2"
    "reg' = registry_put (cl_jti ?c2) (entry_for pr b (cl_exp ?c2)) (unix (cl_now w)) reg"
    "es = [DirCreated dir, Published dir (iss_token out)]" "peer_uid pr = ic_euid i"
    by (rule deliver_Inr)
  ultimately show ?thesis using t m unfolding finished_def
    by (rule_tac exI [of _ "?c2\<lparr>cl_dir := path_clean dir\<rparr>"], rule_tac exI [of _ dir], rule_tac exI [of _ name],
        rule_tac exI [of _ sig], cases "cl_act c1") simp_all
qed

lemma finish_refused:
  assumes "finish i w pr b c expiry narrowed reg = (Inl e, reg', es)"
  shows "reg' = reg \<and> (es = [] \<or> (\<exists>dir. es = [DirCreated dir, Discarded dir]))"
  using assms
  by (auto simp: finish_def deliver_def Let_def split: if_splits option.splits)


subsection \<open>A session and a child, in full\<close>

lemma session_claims_Inr:
  assumes "session_claims i rt version origin dn = Inr c"
  shows "cl_iss c = ic_issuer i \<and> cl_sub c = ''runtime:'' @ rt \<and> cl_grade c = ''workload''
    \<and> cl_rt c = \<lparr>rt_id = rt, rt_version = version\<rparr> \<and> cl_origin c = origin \<and> cl_sid c = [] \<and> cl_spawn c = []
    \<and> (if dn = [] then cl_roles c = ic_runtime_roles i \<and> cl_act c = Some (Actor (''runtime:'' @ rt) None)
       else \<exists>d. load_definition (ic_yaml i) (ic_euid i) (ic_defs i) dn = Inr d
              \<and> cl_roles c = df_roles d \<and> cl_act c = Some (Actor (''agent:'' @ df_name d) None))"
  using assms by (auto simp: session_claims_def zero_claims_def Let_def split: if_splits sum.splits)

lemma issue_session_Inr:
  assumes "issue_session i w pr req reg = (Inr out, reg', es)"
  obtains b rt version origin c cF where "bind_runtime (cl_reader w) (ic_helper i) pr = Inr b"
    "runtime_id (pi_exe (bd_proc b)) (pi_args (bd_proc b)) = Some rt"
    "runtime_version rt (sr_runtime req) = Inr version" "session_origin (sr_origin req) = Inr origin"
    "session_claims i rt version origin (sr_definition req) = Inr c"
    "finished i w pr b c (cl_now w + ic_ttl i) reg out reg' es cF"
proof -
  from assms obtain b rt version origin c where "bind_runtime (cl_reader w) (ic_helper i) pr = Inr b"
    "runtime_id (pi_exe (bd_proc b)) (pi_args (bd_proc b)) = Some rt"
    "runtime_version rt (sr_runtime req) = Inr version" "session_origin (sr_origin req) = Inr origin"
    "session_claims i rt version origin (sr_definition req) = Inr c"
    "finish i w pr b c (cl_now w + ic_ttl i) None reg = (Inr out, reg', es)"
    by (auto simp: issue_session_def refused_def split: if_splits sum.splits option.splits)
  with finish_Inr that show thesis by blast
qed

text \<open>The process an entry names is the one a binding found.\<close>

definition recipient :: "issued_to \<Rightarrow> peer \<Rightarrow> binding \<Rightarrow> bool" where
  "recipient e pr b \<longleftrightarrow>
     is_uid e = peer_uid pr \<and> is_pid e = bd_pid b \<and> is_start e = pi_start (bd_proc b)
     \<and> is_dev e = pi_dev (bd_proc b) \<and> is_ino e = pi_ino (bd_proc b)"

lemma same_recipient_None: "same_recipient e b = None \<and> is_uid e = peer_uid pr \<longleftrightarrow> recipient e pr b"
  by (auto simp: same_recipient_def recipient_def)

lemma issue_child_Inr:
  assumes "issue_child cr i w pr req reg = (Inr out, reg', es)"
  obtains parent entry b d c narrowed cF where
    "parse_own cr (ic_keys i) (cr_parent_token req) = Some parent" "unix (cl_now w) < cl_exp parent"
    "registry_get reg (cl_jti parent) = Some entry" "bind_runtime (cl_reader w) (ic_helper i) pr = Inr b"
    "recipient entry pr b" "re_name (cr_agent_id req)"
    "load_definition (ic_yaml i) (ic_euid i) (ic_defs i) (cr_agent_type req) = Inr d"
    "child_claims i parent d (cr_agent_id req) = (c, narrowed)"
    "finished i w pr b c (child_expiry i (cl_now w) parent) reg out reg' es cF"
proof -
  from assms obtain parent where p: "parse_own cr (ic_keys i) (cr_parent_token req) = Some parent"
    and n: "re_name (cr_agent_type req)" "re_name (cr_agent_id req)" "permitted i pr"
    by (auto simp: issue_child_def refused_def split: if_splits option.splits)
  with assms obtain entry where e: "unix (cl_now w) < cl_exp parent" "registry_get reg (cl_jti parent) = Some entry"
    "is_uid entry = peer_uid pr"
    by (auto simp: issue_child_def refused_def split: if_splits option.splits)
  with assms p n obtain b where b: "bind_runtime (cl_reader w) (ic_helper i) pr = Inr b" "same_recipient entry b = None"
    by (auto simp: issue_child_def refused_def split: if_splits option.splits sum.splits)
  with assms p n e obtain d where d: "load_definition (ic_yaml i) (ic_euid i) (ic_defs i) (cr_agent_type req) = Inr d"
    by (auto simp: issue_child_def refused_def split: sum.splits)
  obtain c narrowed where c: "child_claims i parent d (cr_agent_id req) = (c, narrowed)" by fastforce
  from assms p n e b d c have "finish i w pr b c (child_expiry i (cl_now w) parent) narrowed reg = (Inr out, reg', es)"
    by (auto simp: issue_child_def refused_def)
  with finish_Inr obtain cF where "finished i w pr b c (child_expiry i (cl_now w) parent) reg out reg' es cF" by blast
  moreover have "recipient entry pr b" using b e same_recipient_None by blast
  ultimately show thesis using that p e b n d c by blast
qed

lemma child_claims_fields:
  assumes "child_claims i parent d aid = (c, narrowed)"
  shows "cl_iss c = ic_issuer i" "cl_sub c = cl_sub parent" "cl_grade c = ''harness''" "cl_rt c = cl_rt parent"
    "cl_sid c = cl_sid parent" "cl_spawn c = aid" "cl_origin c = ''agent''"
    "cl_act c = Some (Actor (''agent:'' @ df_name d) (cl_act parent))"
    "cl_roles c = filter (\<lambda>r. r \<in> set (cl_roles parent) \<and> (case ic_delegable i of None \<Rightarrow> True | Some p \<Rightarrow> r \<in> set p)) (df_roles d)"
  using assms narrow_roles_kept [of "ic_delegable i" "cl_roles parent" "df_roles d"]
  by (auto simp: child_claims_def split: prod.splits)

lemma unix_mono: "s \<le> t \<Longrightarrow> unix s \<le> unix t"
  by (simp add: unix_def zdiv_mono1)

lemma child_expiry_bounds:
  "unix (child_expiry i now parent) \<le> cl_exp parent" "child_expiry i now parent \<le> now + ic_ttl i"
  by (auto simp: child_expiry_def Let_def unix_def)

lemma lifetime_bound:
  assumes "e \<le> now + ttl" and "ttl \<le> 43200 * 1000000000"
  shows "unix e - unix now \<le> 43200"
proof -
  have "unix e \<le> (now + 43200 * 1000000000) div 1000000000"
    unfolding unix_def by (rule zdiv_mono1) (use assms in auto)
  also have "\<dots> = now div 1000000000 + 43200" by simp
  finally show ?thesis by (simp add: unix_def)
qed

subsection \<open>Properties\<close>

text \<open>C3: A child assertion never widens what it is derived from: its roles are those of the named definition
  that the parent token carries and the deployment lets be delegated, it expires no later than the
  parent, it keeps the parent's subject, session and runtime, and it is issued only to the very process
  (user, pid, start time, executable) the parent token's id was registered for.\<close>
theorem child_never_widens:
  assumes "issue_child cr i w pr req reg = (Inr out, reg', es)"
  shows "\<exists>parent entry b cF. parse_own cr (ic_keys i) (cr_parent_token req) = Some parent
    \<and> registry_get reg (cl_jti parent) = Some entry \<and> bind_runtime (cl_reader w) (ic_helper i) pr = Inr b
    \<and> recipient entry pr b \<and> unix (cl_now w) < cl_exp parent
    \<and> (\<exists>sig. iss_token out = compact (header_members (ic_keys i)) (claims_members cF) sig)
    \<and> set (cl_roles cF) \<subseteq> set (cl_roles parent) \<and> set (cl_roles cF) \<subseteq> (case ic_delegable i of None \<Rightarrow> UNIV | Some p \<Rightarrow> set p)
    \<and> cl_exp cF \<le> cl_exp parent \<and> cl_sub cF = cl_sub parent
    \<and> (cl_sid parent = [] \<or> cl_sid cF = cl_sid parent) \<and> cl_rt cF = cl_rt parent \<and> cl_grade cF = ''harness''"
  using assms
proof (rule issue_child_Inr)
  fix parent entry b d c narrowed cF
  assume a: "parse_own cr (ic_keys i) (cr_parent_token req) = Some parent" "unix (cl_now w) < cl_exp parent"
    "registry_get reg (cl_jti parent) = Some entry" "bind_runtime (cl_reader w) (ic_helper i) pr = Inr b"
    "recipient entry pr b"
    and c: "child_claims i parent d (cr_agent_id req) = (c, narrowed)"
    and f: "finished i w pr b c (child_expiry i (cl_now w) parent) reg out reg' es cF"
  from f obtain dir sig where cF: "completed w c (child_expiry i (cl_now w) parent) dir cF"
    and t: "iss_token out = compact (header_members (ic_keys i)) (claims_members cF) sig"
    by (auto simp: finished_def)
  note fl = completed_fields [OF cF] child_claims_fields [OF c]
  have "set (cl_roles cF) \<subseteq> set (cl_roles parent)"
    "set (cl_roles cF) \<subseteq> (case ic_delegable i of None \<Rightarrow> UNIV | Some p \<Rightarrow> set p)"
    using fl by (auto split: option.splits)
  moreover have "cl_exp cF \<le> cl_exp parent" using fl child_expiry_bounds(1) by simp
  ultimately show ?thesis using a t fl by (intro exI [of _ parent] exI [of _ entry] exI [of _ b] exI [of _ cF]) auto
qed

text \<open>A run that is refused leaves the registry alone and no directory behind; one that succeeds leaves
  one directory with the token in it.\<close>

definition leaves_nothing_refused :: "registry \<Rightarrow> issued issue_run \<Rightarrow> bool" where
  "leaves_nothing_refused reg r \<longleftrightarrow>
     (case r of
        (Inl e, reg', es) \<Rightarrow> reg' = reg \<and> (es = [] \<or> (\<exists>dir. es = [DirCreated dir, Discarded dir]))
      | (Inr out, reg', es) \<Rightarrow> \<exists>dir. es = [DirCreated dir, Published dir (iss_token out)])"

lemma leaves_refused [simp]: "leaves_nothing_refused reg (refused e reg)"
  by (simp add: leaves_nothing_refused_def refused_def)

lemma leaves_finish [simp]: "leaves_nothing_refused reg (finish i w pr b c x n reg)"
  using finish_refused [of i w pr b c x n reg] finish_Inr [of i w pr b c x n reg]
  by (cases "finish i w pr b c x n reg") (auto simp: leaves_nothing_refused_def finished_def split: sum.splits)

lemma leaves_session: "leaves_nothing_refused reg (issue_session i w pr req reg)"
  by (simp add: issue_session_def split: sum.split option.split)

lemma leaves_child: "leaves_nothing_refused reg (issue_child cr i w pr req reg)"
  by (simp add: issue_child_def split: sum.split option.split prod.split)

text \<open>A refused request, whatever refuses it, changes nothing that lasts: the registry is the one before
  it, and a directory made for it was discarded again; a granted one leaves exactly one directory, with
  the token published in it.\<close>
theorem refused_issue_leaves_nothing:
  "leaves_nothing_refused reg (issue_session i w pr sreq reg)
   \<and> leaves_nothing_refused reg (issue_child cr i w pr creq reg)"
  by (simp add: leaves_session leaves_child)

subsection \<open>A sample issuer\<close>

definition sample_proc :: proc_info where
  "sample_proc = \<lparr>pi_exe = ''/usr/bin/claude'', pi_args = [''claude''], pi_start = 5, pi_dev = 1, pi_ino = 2,
     pi_ppid = 1, pi_uid = 1000, pi_has_uid = True\<rparr>"

definition sample_peer :: peer where
  "sample_peer = \<lparr>peer_uid = 1000, peer_gid = 1000, peer_pid = 42\<rparr>"

definition sample_issuer :: issuer where
  "sample_issuer = \<lparr>ic_issuer = ''unix:///run/s.sock'', ic_keys = sample_keyring, ic_yaml = sample_yaml,
     ic_defs = Some sample_dir, ic_dirs = \<lparr>sd_root = ''/run''\<rparr>, ic_helper = None,
     ic_runtime_roles = [''builder'', ''reader''], ic_delegable = Some [''reader'', ''merger''],
     ic_ttl = 3600000000000, ic_euid = 1000\<rparr>"

definition sample_call :: "char \<Rightarrow> int \<Rightarrow> issue_call" where
  "sample_call c seconds = \<lparr>cl_now = seconds * 1000000000, cl_reader = (\<lambda>_ _. Some sample_proc),
     cl_rand_jti = Some (replicate 16 c), cl_rand_sid = Some (replicate 16 c), cl_rand_dir = Some (replicate 16 c),
     cl_mkdir = (\<lambda>_. True), cl_publish = (\<lambda>_ _. True)\<rparr>"

definition sample_entry :: issued_to where
  "sample_entry = \<lparr>is_uid = 1000, is_pid = 42, is_start = 5, is_dev = 1, is_ino = 2, is_exp = 200\<rparr>"

lemma issuer_fields:
  "ic_keys sample_issuer = sample_keyring" "ic_yaml sample_issuer = sample_yaml" "ic_defs sample_issuer = Some sample_dir"
  "ic_helper sample_issuer = None" "ic_euid sample_issuer = 1000" "cl_now (sample_call c t) = t * 1000000000"
  "cl_reader (sample_call c t) = (\<lambda>_ _. Some sample_proc)" "cl_jti sample_session = ''j''" "cl_exp sample_session = 200"
  "is_uid sample_entry = 1000" "peer_uid sample_peer = 1000"
  by (simp_all add: sample_issuer_def sample_call_def sample_session_def sample_entry_def sample_peer_def)

lemma sample_binding:
  "bind_runtime (\<lambda>_ _. Some sample_proc) None sample_peer = Inr \<lparr>bd_pid = 42, bd_proc = sample_proc\<rparr>"
  by (simp add: bind_runtime_def sample_peer_def sample_proc_def is_helper_def confirm_def same_process_def)

lemma sample_sign: "sign_claims sample_keyring c =
   Some (compact (header_members sample_keyring) (claims_members c) ''signed'')"
  by (simp add: signed_compact) (simp add: sample_keyring_def Let_def)

lemma sample_parse:
  "parse_own sample_crypto sample_keyring
     (compact (header_members sample_keyring) (claims_members sample_session) ''signed'') = Some sample_session"
  using sample_keyring_sound sample_session_writable
  by (simp add: parse_own_compact sound_keyring_def) (simp add: sample_keyring_def Let_def)

lemma sample_create:
  "\<exists>dir name. create_dir \<lparr>sd_root = ''/run''\<rparr> (Some bytes) (\<lambda>_. True) t = Some (dir, name)
     \<and> name_of \<lparr>sd_root = ''/run''\<rparr> dir = Some name"
proof -
  have c: "path_clean ''/run'' = ''/run''" by code_simp
  obtain dir name where d: "create_dir \<lparr>sd_root = ''/run''\<rparr> (Some bytes) (\<lambda>_. True) t = Some (dir, name)"
    by (auto simp: create_dir_def random_id_def Let_def)
  from created_dir(1) [OF _ _ d] c d show ?thesis by (auto simp: is_abs_def)
qed

lemma sample_deliver:
  assumes "name_of (ic_dirs sample_issuer) dir = Some name"
  shows "\<exists>out. deliver sample_issuer (sample_call ch t) sample_peer b c dir n reg =
    (Inr out, registry_put (cl_jti c) (entry_for sample_peer b (cl_exp c)) (unix (t * 1000000000)) reg,
     [DirCreated dir, Published dir (iss_token out)])"
  using assms
  by (simp add: deliver_def Let_def publish_def sample_sign sample_issuer_def sample_call_def sample_peer_def)

lemma sample_finish:
  assumes "unix (t * 1000000000) < unix expiry" and "\<not> driven_violation c"
  shows "\<exists>out reg' es. finish sample_issuer (sample_call ch t) sample_peer b c expiry n reg = (Inr out, reg', es)"
proof -
  have "\<exists>c1. with_sid (sample_call ch t) c = Some c1 \<and> \<not> driven_violation c1"
    using assms(2) by (cases "cl_sid c = []") (simp_all add: with_sid_def sample_call_def random_id_def driven_violation_def)
  then obtain c1 where c1: "with_sid (sample_call ch t) c = Some c1" "\<not> driven_violation c1" by blast
  obtain dir name where "create_dir (ic_dirs sample_issuer) (Some (replicate 16 ch)) (\<lambda>_. True) (unix (t * 1000000000)) = Some (dir, name)"
    "name_of (ic_dirs sample_issuer) dir = Some name"
    using sample_create [of "replicate 16 ch" "unix (t * 1000000000)"] unfolding sample_issuer_def issuer.select_convs by blast
  with assms(1) c1 sample_deliver [of dir name] show ?thesis
    by (fastforce simp: finish_def Let_def sample_call_def random_id_def)
qed

lemma sample_child:
  "\<exists>out reg' es. issue_child sample_crypto sample_issuer (sample_call CHR ''b'' 150) sample_peer
     \<lparr>cr_parent_token = compact (header_members sample_keyring) (claims_members sample_session) ''signed'',
      cr_agent_type = ''lead'', cr_agent_id = ''a1''\<rparr> [''j'' \<mapsto> sample_entry] = (Inr out, reg', es)"
proof -
  obtain c n where c: "child_claims sample_issuer sample_session \<lparr>df_name = ''lead'', df_roles = [''builder'', ''reader''],
      df_trust_boundary = []\<rparr> ''a1'' = (c, n)" by fastforce
  note f = child_claims_fields [OF c]
  have x: "child_expiry sample_issuer (150 * 1000000000) sample_session = 200 * 1000000000"
    by (simp add: child_expiry_def sample_issuer_def sample_session_def)
  have "\<not> driven_violation c"
    using f by (simp add: driven_violation_def sample_session_def origin_driven_def)
  then obtain out reg' es where "finish sample_issuer (sample_call CHR ''b'' 150) sample_peer
      \<lparr>bd_pid = 42, bd_proc = sample_proc\<rparr> c (child_expiry sample_issuer (150 * 1000000000) sample_session) n
      [''j'' \<mapsto> sample_entry] = (Inr out, reg', es)"
    using sample_finish [of 150 "200 * 1000000000" c] unfolding x unix_def by fastforce
  moreover have "re_name ''lead''" "re_name ''a1''" by (simp_all add: re_name_def name_body_def char_class_defs)
  moreover have "permitted sample_issuer sample_peer" by (simp add: permitted_def sample_issuer_def sample_peer_def)
  moreover have "same_recipient sample_entry \<lparr>bd_pid = 42, bd_proc = sample_proc\<rparr> = None"
    by (simp add: same_recipient_def sample_entry_def sample_proc_def)
  ultimately show ?thesis
    using c sample_binding sample_loaded sample_parse
    by (simp add: issue_child_def registry_get_def issuer_fields unix_def)
qed

lemma sample_issued_session:
  "\<exists>out reg' es. issue_session sample_issuer (sample_call CHR ''a'' 100) sample_peer
     \<lparr>sr_definition = ''lead'', sr_origin = [], sr_runtime = None\<rparr> empty_registry = (Inr out, reg', es)"
proof -
  obtain c where c: "session_claims sample_issuer ''claude'' ''unknown'' ''trigger'' ''lead'' = Inr c"
    using sample_loaded by (simp add: session_claims_def issuer_fields Let_def)
  note f = session_claims_Inr [OF c]
  have "\<not> driven_violation c" using f by (simp add: driven_violation_def origin_driven_def)
  then obtain out reg' es where "finish sample_issuer (sample_call CHR ''a'' 100) sample_peer
      \<lparr>bd_pid = 42, bd_proc = sample_proc\<rparr> c (100 * 1000000000 + 3600000000000) None empty_registry = (Inr out, reg', es)"
    using sample_finish [of 100 "100 * 1000000000 + 3600000000000" c] unfolding unix_def by fastforce
  moreover have "runtime_id (pi_exe sample_proc) (pi_args sample_proc) = Some ''claude''" by code_simp
  moreover have "permitted sample_issuer sample_peer" by (simp add: permitted_def issuer_fields)
  moreover have "ic_ttl sample_issuer = 3600000000000" by (simp add: sample_issuer_def)
  ultimately show ?thesis
    using c sample_binding
    by (simp add: issue_session_def issuer_fields runtime_version_def session_origin_def)
qed

theorem child_never_widens_witness:
  "\<exists>(cF :: claims) parent entry. parse_own sample_crypto sample_keyring
       (compact (header_members sample_keyring) (claims_members sample_session) ''signed'') = Some parent
     \<and> [''j'' \<mapsto> sample_entry] (cl_jti parent) = Some entry \<and> set (cl_roles cF) \<subseteq> set (cl_roles parent)
     \<and> set (cl_roles cF) \<subseteq> {''reader'', ''merger''} \<and> cl_exp cF \<le> cl_exp parent"
proof -
  obtain out reg' es where "issue_child sample_crypto sample_issuer (sample_call CHR ''b'' 150) sample_peer
     \<lparr>cr_parent_token = compact (header_members sample_keyring) (claims_members sample_session) ''signed'',
      cr_agent_type = ''lead'', cr_agent_id = ''a1''\<rparr> [''j'' \<mapsto> sample_entry] = (Inr out, reg', es)"
    using sample_child by blast
  from child_never_widens [OF this] show ?thesis
    unfolding registry_get_def sample_issuer_def issuer.select_convs option.case child_request.select_convs list.set by blast
qed

end
