(* ===== verification/IssueVerify.thy ===== *)
theory IssueVerify
  imports Issuer
begin

text \<open>
  The contract between the issuer and the verifier: every assertion the issuer hands out is one the
  mint's verifier accepts in the directory it was delivered to, as long as it is in force. The
  well-formedness of claims is carried from a session to its children.
\<close>


subsection \<open>The members of issued claims\<close>

lemma lookup_append: "lookup k (xs @ ys) = (case lookup k ys of None \<Rightarrow> lookup k xs | Some v \<Rightarrow> Some v)"
  by (simp add: lookup.simps map_add_def split: option.splits)

lemma lookup_single: "lookup k [(n, v)] = (if k = n then Some v else None)"
  by (simp add: lookup.simps)

lemma lookup_none: "lookup k [] = None"
  by (simp add: lookup.simps)

lemma members_lookup [simp]:
  "lookup ''iss'' (claims_members c) = Some (JStr (cl_iss c))"
  "lookup ''sub'' (claims_members c) = Some (JStr (cl_sub c))"
  "lookup ''act'' (claims_members c) = map_option actor_json (cl_act c)"
  "lookup ''roles'' (claims_members c) = Some (JArr (map JStr (cl_roles c)))"
  "lookup ''grade'' (claims_members c) = Some (JStr (cl_grade c))"
  "lookup ''rt'' (claims_members c) = Some (JObj [(''id'', JStr (rt_id (cl_rt c))), (''version'', JStr (rt_version (cl_rt c)))])"
  "lookup ''sid'' (claims_members c) = Some (JStr (cl_sid c))"
  "lookup ''spawn'' (claims_members c) = (if cl_spawn c = [] then None else Some (JStr (cl_spawn c)))"
  "lookup ''origin'' (claims_members c) = Some (JStr (cl_origin c))"
  "lookup ''dir'' (claims_members c) = Some (JStr (cl_dir c))"
  "lookup ''iat'' (claims_members c) = Some (JNum (show_int (cl_iat c)))"
  "lookup ''exp'' (claims_members c) = Some (JNum (show_int (cl_exp c)))"
  "lookup ''jti'' (claims_members c) = Some (JStr (cl_jti c))"
  "lookup ''cia'' (claims_members c) = Some (JNum (show_int (cl_cia c)))"
  "lookup ''aud'' (claims_members c) = None"
  "lookup ''nbf'' (claims_members c) = None"
  by (cases "cl_act c"; cases "cl_spawn c = []"; simp add: claims_members_def lookup.simps)+

lemma lookup_rt:
  "lookup ''id'' [(''id'', v), (''version'', w)] = Some v" "lookup ''version'' [(''id'', v), (''version'', w)] = Some w"
  by (simp_all add: lookup.simps)

lemma lookup_sub:
  "lookup ''sub'' [(''sub'', v)] = Some v" "lookup ''sub'' [(''sub'', v), (''act'', w)] = Some v"
  by (simp_all add: lookup.simps)

lemma header_lookup [simp]:
  "lookup ''crit'' (header_members k) = None"
  "lookup ''alg'' (header_members k) = Some (JStr (jwk_alg (pk_jwk (kr_current k))))"
  "lookup ''kid'' (header_members k) = Some (JStr (jwk_kid (pk_jwk (kr_current k))))"
  by (simp_all add: header_members_def lookup.simps)

subsection \<open>Well-formed claims\<close>

fun chain_ok :: "actor \<Rightarrow> bool" where
  "chain_ok (Actor s None) = re_actor_sub s"
| "chain_ok (Actor s (Some a)) = (re_actor_sub s \<and> chain_ok a)"

fun chain_length :: "actor \<Rightarrow> nat" where
  "chain_length (Actor s None) = 1"
| "chain_length (Actor s (Some a)) = Suc (chain_length a)"

text \<open>
  What the claims satisfy whatever call completes them: an issuable claim set is the input of
  \<open>finish\<close>, all but times, ids and directory.
\<close>

definition issuable :: "claims \<Rightarrow> bool" where
  "issuable c \<longleftrightarrow>
     cl_iss c \<noteq> [] \<and> re_actor (cl_sub c)
     \<and> (\<exists>a. cl_act c = Some a \<and> chain_ok a \<and> chain_length a < 9000)
     \<and> list_all re_role_name (cl_roles c) \<and> distinct (cl_roles c)
     \<and> cl_grade c \<in> {''workload'', ''harness''}
     \<and> cl_origin c \<in> {''scheduled'', ''loop'', ''trigger'', ''agent'', ''driven''}
     \<and> rt_id (cl_rt c) \<noteq> [] \<and> rt_version (cl_rt c) \<noteq> []
     \<and> (cl_grade c = ''harness'' \<longrightarrow> cl_spawn c \<noteq> [])
     \<and> list_all utf8_valid [cl_iss c, rt_id (cl_rt c), rt_version (cl_rt c), cl_sid c, cl_spawn c]"

lemma name_body_ascii: "name_body s \<Longrightarrow> utf8_valid s"
  by (rule utf8_ascii) (auto simp: name_body_def list_all_iff dest!: name_char_printable)

lemma utf8_append:
  assumes "list_all (\<lambda>c. code c < 128) p" and "utf8_valid s"
  shows "utf8_valid (p @ s)"
  using assms by (induction p) (auto simp: utf8_valid.simps(2) rune_len_def)

lemma is_lower_ascii: "is_lower c \<Longrightarrow> code c < 128"
  by (simp add: is_lower_def)

lemma actor_kind_utf8:
  assumes "actor_of_kind ks s" and "list_all (list_all is_lower) ks"
  shows "utf8_valid s"
proof -
  from assms(1) obtain k t where k: "k \<in> set ks" and s: "s = (k @ '':'') @ t" and "name_body (drop (Suc (length k)) s)"
    by (auto simp: actor_of_kind_def list_ex_iff has_prefix_iff)
  then have "name_body t" by simp
  moreover have "list_all (\<lambda>c. code c < 128) (k @ '':'')"
    using assms(2) k is_lower_ascii by (fastforce simp: list_all_iff code_def)
  ultimately show ?thesis unfolding s using name_body_ascii by (intro utf8_append)
qed

lemma re_actor_utf8: "re_actor s \<Longrightarrow> utf8_valid s" "re_actor_sub s \<Longrightarrow> utf8_valid s"
  unfolding re_actor_def re_actor_sub_def by (erule actor_kind_utf8; simp add: char_class_defs)+

lemma role_utf8: "re_role_name s \<Longrightarrow> utf8_valid s"
  by (rule utf8_ascii) (auto simp: re_role_name_def list_all_iff char_class_defs split: list.splits)

lemma chain_valid: "chain_ok a \<Longrightarrow> valid_actor_chain (actor_json a)"
  by (induction a rule: chain_ok.induct)
    (auto simp: valid_actor_chain.simps(1) lookup.simps as_str_def split: option.splits)

lemma chain_encodable: "chain_ok a \<Longrightarrow> encodable (actor_json a)"
proof (induction a rule: chain_ok.induct)
  case (1 s)
  then show ?case using re_actor_utf8(2) utf8_ascii [of "''sub''"] by (auto simp: code_def)
next
  case (2 s a)
  then show ?case using re_actor_utf8(2) utf8_ascii [of "''sub''"] utf8_ascii [of "''act''"] by (auto simp: code_def)
qed

lemma chain_fits: "d + chain_length a \<le> max_depth \<Longrightarrow> fits d (actor_json a)"
  by (induction a arbitrary: d rule: chain_ok.induct) auto

lemma claim_names_utf8:
  "utf8_valid ''iss''" "utf8_valid ''sub''" "utf8_valid ''act''" "utf8_valid ''roles''" "utf8_valid ''grade''"
  "utf8_valid ''rt''" "utf8_valid ''id''" "utf8_valid ''version''" "utf8_valid ''sid''" "utf8_valid ''spawn''"
  "utf8_valid ''origin''" "utf8_valid ''dir''" "utf8_valid ''iat''" "utf8_valid ''exp''" "utf8_valid ''jti''"
  "utf8_valid ''cia''" "utf8_valid ''alg''" "utf8_valid ''kid''"
  by (rule utf8_ascii, simp add: code_def)+

lemma origin_utf8:
  "o' \<in> {''scheduled'', ''loop'', ''trigger'', ''agent'', ''driven''} \<Longrightarrow> utf8_valid o'"
  "g \<in> {''workload'', ''harness''} \<Longrightarrow> utf8_valid g"
  by (rule utf8_ascii, auto simp: code_def)+

lemma issuable_writable:
  assumes "issuable c" and "utf8_valid (cl_dir c)" and "utf8_valid (cl_jti c)"
  shows "writable (claims_members c)"
proof -
  obtain a where a: "cl_act c = Some a" "chain_ok a" "chain_length a < 9000"
    using assms(1) by (auto simp: issuable_def)
  have "fits 1 (actor_json a)" using a(3) by (intro chain_fits) (simp add: max_depth_def)
  moreover have "encodable (actor_json a)" using a(2) by (rule chain_encodable)
  moreover have "\<forall>r \<in> set (cl_roles c). utf8_valid r"
    using assms(1) role_utf8 by (auto simp: issuable_def list_all_iff)
  moreover have "utf8_valid (cl_sub c)" using assms(1) re_actor_utf8(1) by (simp add: issuable_def)
  moreover have "utf8_valid (cl_origin c)" "utf8_valid (cl_grade c)"
    using assms(1) origin_utf8 by (auto simp: issuable_def)
  ultimately show ?thesis
    using assms a claim_names_utf8
    by (auto simp: writable_def claims_members_def issuable_def max_depth_def)
qed

subsection \<open>The issuer's claims are well-formed\<close>

lemma hex_ascii: "is_hex_lower c \<Longrightarrow> code c < 128"
  by (auto simp: char_class_defs)

lemma random_id_utf8: "random_id r = Some s \<Longrightarrow> utf8_valid s"
  using hex_encode_lower by (auto simp: random_id_def list_all_iff intro!: utf8_ascii dest!: hex_ascii)

lemma with_sid_utf8: "with_sid w c = Some c1 \<Longrightarrow> utf8_valid (cl_sid c) \<Longrightarrow> utf8_valid (cl_sid c1)"
  using utf8_append [of "''s-''"] random_id_utf8
  by (auto simp: with_sid_def code_def split: if_splits)

lemma issuable_cong:
  assumes "cl_iss c = cl_iss d" "cl_sub c = cl_sub d" "cl_act c = cl_act d" "cl_roles c = cl_roles d"
    "cl_grade c = cl_grade d" "cl_rt c = cl_rt d" "cl_spawn c = cl_spawn d" "cl_origin c = cl_origin d"
    and "issuable d" and "utf8_valid (cl_sid c)"
  shows "issuable c"
  using assms by (simp add: issuable_def)

lemma completed_issuable:
  assumes "completed w c expiry dir cF" and "issuable c"
  shows "issuable cF" and "utf8_valid (cl_jti cF)"
proof -
  from assms(1) obtain c1 where "with_sid w c = Some c1" "cl_sid cF = cl_sid c1" by (auto simp: completed_def)
  moreover have "utf8_valid (cl_sid c)" using assms(2) by (simp add: issuable_def)
  ultimately have "utf8_valid (cl_sid cF)" using with_sid_utf8 by auto
  with assms(2) completed_fields(1-8) [OF assms(1)] show "issuable cF" by (intro issuable_cong [of cF c])
  show "utf8_valid (cl_jti cF)" using completed_fields(16) [OF assms(1)] random_id_utf8 by blast
qed

lemma re_actor_kinds:
  "name_body n \<Longrightarrow> re_actor (''runtime:'' @ n)" "name_body n \<Longrightarrow> re_actor (''agent:'' @ n)"
  "name_body n \<Longrightarrow> re_actor_sub (''runtime:'' @ n)" "name_body n \<Longrightarrow> re_actor_sub (''agent:'' @ n)"
  by (simp_all add: re_actor_def re_actor_sub_def actor_of_kind_def)

lemma runtime_version_Inr:
  assumes "runtime_version rt d = Inr v"
  shows "v \<noteq> [] \<and> utf8_valid v"
proof -
  have "re_version v \<or> v = ''unknown''"
    using assms by (auto simp: runtime_version_def split: option.splits if_splits)
  then show ?thesis
    by (auto simp: re_version_def list_all_iff code_def dest!: name_char_printable intro!: utf8_ascii)
qed

lemma session_origin_Inr:
  "session_origin og = Inr og' \<Longrightarrow> og' \<in> {''scheduled'', ''loop'', ''trigger'', ''agent'', ''driven''}"
  by (auto simp: session_origin_def origins_def origin_driven_def split: if_splits)

lemma session_issuable:
  assumes "session_claims i rt version og dn = Inr c" and "name_body rt"
    and "version \<noteq> []" "utf8_valid version" and "og \<in> {''scheduled'', ''loop'', ''trigger'', ''agent'', ''driven''}"
    and "ic_issuer i \<noteq> []" "utf8_valid (ic_issuer i)"
    and "list_all re_role_name (ic_runtime_roles i)" "distinct (ic_runtime_roles i)"
  shows "issuable c"
proof -
  note f = session_claims_Inr [OF assms(1)]
  have n: "rt \<noteq> []" "utf8_valid rt" using assms(2) name_body_ascii by (auto simp: name_body_def)
  have "list_all re_role_name (cl_roles c) \<and> distinct (cl_roles c)
      \<and> (\<exists>s. cl_act c = Some (Actor s None) \<and> re_actor_sub s)"
  proof (cases "dn = []")
    case True
    with f assms(2,8,9) re_actor_kinds show ?thesis by auto
  next
    case False
    with f obtain d where "load_definition (ic_yaml i) (ic_euid i) (ic_defs i) dn = Inr d"
      "cl_roles c = df_roles d" "cl_act c = Some (Actor (''agent:'' @ df_name d) None)" by auto
    with load_definition_sound re_actor_kinds show ?thesis by fastforce
  qed
  with f assms n re_actor_kinds show ?thesis unfolding issuable_def by auto
qed

lemma child_issuable:
  assumes "child_claims i parent d aid = (c, narrowed)" and "issuable parent"
    and "load_definition yaml euid defs name = Inr d" and "re_name aid"
    and "ic_issuer i \<noteq> []" "utf8_valid (ic_issuer i)"
    and "\<And>a. cl_act parent = Some a \<Longrightarrow> chain_length a < 8999"
  shows "issuable c"
proof -
  note f = child_claims_fields [OF assms(1)]
  note d = load_definition_sound [OF assms(3)]
  obtain a where a: "cl_act parent = Some a" "chain_ok a" "chain_length a < 8999"
    using assms(2,7) by (auto simp: issuable_def)
  have "aid \<noteq> [] \<and> utf8_valid aid" using assms(4) name_body_ascii by (auto simp: re_name_def name_body_def)
  moreover have "list_all re_role_name (cl_roles c) \<and> distinct (cl_roles c)"
    using d by (auto simp: f(9) list_all_iff)
  moreover have "re_actor_sub (''agent:'' @ df_name d)" using d re_actor_kinds by auto
  ultimately show ?thesis using assms a f(1-8) unfolding issuable_def by auto
qed

subsection \<open>The verifier accepts them\<close>

lemma roles_valid_map: "list_all re_role_name rs \<Longrightarrow> distinct rs \<Longrightarrow> set rs \<inter> set seen = {} \<Longrightarrow> roles_valid seen (map JStr rs)"
  by (induction rs arbitrary: seen) auto

lemma roles_valid_distinct: "roles_valid seen (map JStr rs) \<Longrightarrow> distinct rs \<and> set rs \<inter> set seen = {}"
proof (induction rs arbitrary: seen)
  case (Cons r rs)
  then have "r \<notin> set seen" "roles_valid (r # seen) (map JStr rs)" by (auto split: if_splits)
  with Cons.IH [of "r # seen"] show ?case by auto
qed simp

lemma issued_origin_valid:
  assumes "issuable c" and "\<not> driven_violation c"
  shows "origin_valid (claims_members c) (word_of_int (contract_for (cl_origin c)))"
  using assms
  by (auto simp: origin_valid_def Let_def issuable_def driven_violation_def contract_for_def AssertionVerify.origin_driven_major_def
      Claims.origin_driven_def)

lemma issued_shape_valid:
  assumes "issuable c" and "\<not> driven_violation c" and "cl_sid c \<noteq> []" "cl_jti c \<noteq> []" "is_abs (cl_dir c)"
  shows "claims_shape_valid (claims_members c) (word_of_int (contract_for (cl_origin c)))"
proof -
  obtain a where a: "cl_act c = Some a" "chain_ok a" using assms(1) by (auto simp: issuable_def)
  then have "valid_actor_chain (actor_json a)" by (intro chain_valid)
  moreover have "roles_valid [] (map JStr (cl_roles c))"
    using assms(1) by (intro roles_valid_map) (auto simp: issuable_def)
  moreover have "origin_valid (claims_members c) (word_of_int (contract_for (cl_origin c)))"
    using assms(1,2) by (rule issued_origin_valid)
  moreover have "re_actor (cl_sub c)" "cl_iss c \<noteq> []" "rt_id (cl_rt c) \<noteq> []" "rt_version (cl_rt c) \<noteq> []"
    "cl_grade c = ''workload'' \<or> cl_grade c = ''harness''" "cl_grade c = ''harness'' \<longrightarrow> cl_spawn c \<noteq> []"
    using assms(1) by (auto simp: issuable_def)
  ultimately show ?thesis
    using assms(3-5) a
    by (simp add: claims_shape_valid_def always_required_claims_def non_empty_string_def as_str_def optional_claim_def
        is_abs_def lookup_rt)
qed

text \<open>
  The verifier knows the issuer: it trusts its name, has its published keys, and the current key's
  signatures verify under what is published of it.
\<close>

definition trusts :: "crypto \<Rightarrow> key_source \<Rightarrow> keyring \<Rightarrow> string \<Rightarrow> bool" where
  "trusts cr src k iss \<longleftrightarrow>
     (let cur = pk_jwk (kr_current k)
      in ks_trusted src iss \<and> ks_keys src iss = Inr (jwks_of (kr_public k)) \<and> kr_current k \<in> set (kr_public k)
         \<and> jwk_kid cur \<noteq> [] \<and> utf8_valid (jwk_kid cur) \<and> jwk_use cur = ''sig'' \<and> jwk_alg cur \<in> {''EdDSA'', ''ES256''}
         \<and> (\<forall>input sig. kr_sign k input = Some sig \<longrightarrow> verify_signature cr cur (jwk_alg cur) input sig))"

lemma jwks_of_map: "jwks_of ps = map pk_jwk ps"
  by (induction ps) auto

lemma trusted_signature_rows:
  assumes "trusts cr src k (cl_iss c)" and "cl_iss c \<noteq> []" and "kr_sign k (signing_input k c) = Some sig"
  shows "list_all (\<lambda>r. \<not> fst r)
    (signature_rows cr src (b64url_encode (json_encode (JObj (header_members k))))
       (b64url_encode (json_encode (JObj (claims_members c)))) (Some sig) (header_members k) (claims_members c))"
proof -
  let ?cur = "pk_jwk (kr_current k)"
  have "?cur \<in> set (signing_keys (jwks_of (kr_public k)) (jwk_kid ?cur) (jwk_alg ?cur))"
    using assms(1) by (auto simp: trusts_def Let_def signing_keys_set jwks_of_map)
  moreover have "verify_signature cr ?cur (jwk_alg ?cur) (signing_input k c) sig"
    using assms(1,3) by (auto simp: trusts_def Let_def)
  ultimately show ?thesis
    using assms(1,2) by (auto simp: signature_rows_def Let_def trusts_def signing_input_def simp del: json_encode.simps)
qed

text \<open>A local verification in the delivery directory, while the assertion is in force.\<close>

definition in_force_at :: "verify_params \<Rightarrow> claims \<Rightarrow> bool" where
  "in_force_at p c \<longleftrightarrow>
     vp_mode p = ModeLocal \<and> vp_max_major p = 0 \<and> path_clean (vp_observed_dir p) = cl_dir c
     \<and> cl_iat c \<le> sint (vp_now p) \<and> sint (vp_now p) < cl_exp c"

lemma int64_sint: "- (2 ^ 63) \<le> i \<Longrightarrow> i < 2 ^ 63 \<Longrightarrow> sint (word_of_int i :: int64) = i"
  by (simp add: sint_sbintrunc' signed_take_bit_int_eq_self)

lemma date_of_show: "lookup n c = Some (JNum (show_int i)) \<Longrightarrow> int64_range i \<Longrightarrow> date_of c n = Some i"
  by (simp add: date_of_def as_int_show int64_range_def int64_sint)

lemma issued_claim_rows:
  assumes "claims_shape_valid (claims_members c) (word_of_int (cl_cia c))" and "in_force_at p c"
    and "path_clean (cl_dir c) = cl_dir c" and "cl_cia c \<in> {1, 2}"
    and "0 \<le> cl_iat c" "cl_exp c \<le> 253402300799" "cl_exp c - cl_iat c \<le> 43200"
  shows "list_all (\<lambda>r. \<not> fst r) (claim_rows p (claims_members c))"
proof -
  have r: "int64_range (cl_iat c)" "int64_range (cl_exp c)" "int64_range (cl_cia c)"
    using assms(2,4-7) by (auto simp: int64_range_def in_force_at_def)
  have d: "date_of (claims_members c) ''iat'' = Some (cl_iat c)" "date_of (claims_members c) ''exp'' = Some (cl_exp c)"
    "date_of (claims_members c) ''cia'' = Some (cl_cia c)"
    using r by (intro date_of_show; simp)+
  have n: "date_of (claims_members c) ''nbf'' = None" by (simp add: date_of_def)
  have "as_int (Some (JNum (show_int (cl_cia c)))) = Some (word_of_int (cl_cia c))" using r by (simp add: as_int_show)
  then show ?thesis
    using assms d n by (auto simp: claim_rows_def Let_def in_force_at_def as_str_def)
qed

lemma is_abs_join: "is_abs d \<Longrightarrow> is_abs (path_join [d, n])"
proof (cases "n = []")
  assume "is_abs d"
  then obtain t where t: "d = CHR ''/'' # t" by (auto simp: is_abs_def has_prefix_iff)
  case True
  then show ?thesis unfolding path_join_def using t by (simp add: is_abs_def [of "CHR ''/'' # t"])
next
  assume "is_abs d"
  then obtain t where t: "d = CHR ''/'' # t" by (auto simp: is_abs_def has_prefix_iff)
  case False
  then show ?thesis unfolding path_join_def using t by (simp add: is_abs_def [of "CHR ''/'' # u" for u])
qed

definition accepted_as :: "crypto \<Rightarrow> key_source \<Rightarrow> verify_params \<Rightarrow> issuer \<Rightarrow> issued \<Rightarrow> bool" where
  "accepted_as cr src p i out \<longleftrightarrow>
     verify_assertion cr src p (iss_token out) =
       Accepted \<lparr>ac_iss = ic_issuer i, ac_actor = iss_actor out, ac_roles = iss_roles out, ac_grade = iss_grade out\<rparr>"

lemma claims_view_members: "claims_view (claims_members c) =
   \<lparr>ac_iss = cl_iss c, ac_actor = (case cl_act c of None \<Rightarrow> cl_sub c | Some a \<Rightarrow> actor_sub a),
    ac_roles = cl_roles c, ac_grade = cl_grade c\<rparr>"
proof (cases "cl_act c")
  case None
  then show ?thesis by (simp add: claims_view_def actor_of_def roles_of_def comp_def)
next
  case (Some a)
  then show ?thesis
    by (cases a rule: actor_json.cases) (auto simp: claims_view_def actor_of_def roles_of_def comp_def lookup_sub)
qed

lemma alg_utf8: "utf8_valid ''EdDSA''" "utf8_valid ''ES256''"
  by (rule utf8_ascii, simp add: code_def)+

lemma header_writable: "trusts cr src k iss \<Longrightarrow> writable (header_members k)"
  using alg_utf8 claim_names_utf8
  by (auto simp: writable_def header_members_def trusts_def Let_def max_depth_def)

text \<open>A deployment whose verifier can be expected to accept what its issuer signs.\<close>

definition deployed :: "crypto \<Rightarrow> key_source \<Rightarrow> issuer \<Rightarrow> bool" where
  "deployed cr src i \<longleftrightarrow>
     trusts cr src (ic_keys i) (ic_issuer i) \<and> ic_issuer i \<noteq> [] \<and> utf8_valid (ic_issuer i)
     \<and> is_abs (sd_root (ic_dirs i)) \<and> ic_ttl i \<le> 43200 * 1000000000"

definition call_in_range :: "issue_call \<Rightarrow> issued \<Rightarrow> bool" where
  "call_in_range w out \<longleftrightarrow>
     0 \<le> unix (cl_now w) \<and> iss_expires_at out \<le> 253402300799 \<and> utf8_valid (iss_dir out)
     \<and> (\<exists>r. cl_rand_jti w = Some r \<and> r \<noteq> [])"

lemma finished_accepted:
  assumes "finished i w pr b c expiry reg out reg' es cF" and "issuable c" and "cl_iss c = ic_issuer i"
    and "deployed cr src i" and "call_in_range w out" and "expiry \<le> cl_now w + ic_ttl i"
    and "vp_mode p = ModeLocal" "vp_max_major p = 0" "path_clean (vp_observed_dir p) = iss_dir out"
    and "unix (cl_now w) \<le> sint (vp_now p)" "sint (vp_now p) < iss_expires_at out"
  shows "accepted_as cr src p i out"
proof -
  from assms(1) obtain dir name sig where cF: "completed w c expiry dir cF"
    and mk: "create_dir (ic_dirs i) (cl_rand_dir w) (cl_mkdir w) (unix (cl_now w)) = Some (dir, name)"
    and sg: "kr_sign (ic_keys i) (signing_input (ic_keys i) cF) = Some sig"
    and tok: "iss_token out = compact (header_members (ic_keys i)) (claims_members cF) sig"
    and out: "iss_dir out = path_clean dir" "iss_expires_at out = cl_exp cF"
      "iss_actor out = (case cl_act cF of None \<Rightarrow> cl_sub cF | Some a \<Rightarrow> actor_sub a)"
      "iss_grade out = cl_grade cF" "iss_roles out = cl_roles cF"
    by (auto simp: finished_def)
  note f = completed_fields [OF cF]
  have iss: "issuable cF" "utf8_valid (cl_jti cF)" using completed_issuable [OF cF assms(2)] by auto
  have jti: "cl_jti cF \<noteq> []"
    using f(16) assms(5) by (auto simp: call_in_range_def random_id_def hex_encode_def)
  have dir: "is_abs (cl_dir cF)"
  proof -
    have r: "is_abs (sd_root (ic_dirs i))" using assms(4) by (simp add: deployed_def)
    from mk have "dir = path_join [sd_root (ic_dirs i), name]"
      by (auto simp: create_dir_def Let_def split: option.splits if_splits)
    with is_abs_join [OF r] show ?thesis using f(9) by simp
  qed
  have w: "writable (claims_members cF)"
    using iss f(9) out(1) assms(5) by (intro issuable_writable) (auto simp: call_in_range_def)
  have shape: "claims_shape_valid (claims_members cF) (word_of_int (cl_cia cF))"
    using issued_shape_valid [OF iss(1) f(15) f(13) jti dir] f(12) f(8) by simp
  have cr_: "list_all (\<lambda>r. \<not> fst r) (claim_rows p (claims_members cF))"
  proof (rule issued_claim_rows [OF shape])
    show "in_force_at p cF" using assms(7-11) out f by (simp add: in_force_at_def)
    show "cl_cia cF \<in> {1, 2}" by (simp add: f contract_for_def)
    show "cl_exp cF - cl_iat cF \<le> 43200" using lifetime_bound assms(4,6) f by (simp add: deployed_def)
  qed (use f assms(5) out in \<open>auto simp: call_in_range_def\<close>)
  have "trusts cr src (ic_keys i) (cl_iss cF)" "cl_iss cF \<noteq> []" using assms(3,4) f by (auto simp: deployed_def)
  from trusted_signature_rows [OF this sg] cr_ header_writable [OF this(1)] w
  show ?thesis using out f assms(3)
    by (simp add: accepted_as_def tok verify_compact first_failure_Accepted claims_view_members del: json_encode.simps)
qed

lemma session_accepted:
  assumes "issue_session i w pr req reg = (Inr out, reg', es)" and "deployed cr src i" and "call_in_range w out"
    and "list_all re_role_name (ic_runtime_roles i)" "distinct (ic_runtime_roles i)"
    and "vp_mode p = ModeLocal" "vp_max_major p = 0" "path_clean (vp_observed_dir p) = iss_dir out"
    and "unix (cl_now w) \<le> sint (vp_now p)" "sint (vp_now p) < iss_expires_at out"
  shows "accepted_as cr src p i out"
  using assms(1)
proof (rule issue_session_Inr)
  fix b rt version og c cF
  assume "runtime_id (pi_exe (bd_proc b)) (pi_args (bd_proc b)) = Some rt"
    and v: "runtime_version rt (sr_runtime req) = Inr version" and o: "session_origin (sr_origin req) = Inr og"
    and c: "session_claims i rt version og (sr_definition req) = Inr c"
    and f: "finished i w pr b c (cl_now w + ic_ttl i) reg out reg' es cF"
  then have rt: "name_body rt" using runtime_id_name by blast
  have "ic_issuer i \<noteq> []" "utf8_valid (ic_issuer i)" using assms(2) by (auto simp: deployed_def)
  with session_issuable [OF c rt _ _ session_origin_Inr [OF o]] runtime_version_Inr [OF v] assms(4,5)
  have "issuable c" by simp
  moreover have "cl_iss c = ic_issuer i" using session_claims_Inr [OF c] by simp
  ultimately show ?thesis using finished_accepted [OF f] assms by simp
qed

lemma child_accepted:
  assumes "issue_child cr' i w pr req reg = (Inr out, reg', es)" and "deployed cr src i" and "call_in_range w out"
    and "\<And>parent. parse_own cr' (ic_keys i) (cr_parent_token req) = Some parent \<Longrightarrow>
      issuable parent \<and> chain_length (the (cl_act parent)) < 8999"
    and "vp_mode p = ModeLocal" "vp_max_major p = 0" "path_clean (vp_observed_dir p) = iss_dir out"
    and "unix (cl_now w) \<le> sint (vp_now p)" "sint (vp_now p) < iss_expires_at out"
  shows "accepted_as cr src p i out"
  using assms(1)
proof (rule issue_child_Inr)
  fix parent entry b d c narrowed cF
  assume pa: "parse_own cr' (ic_keys i) (cr_parent_token req) = Some parent"
    and n: "re_name (cr_agent_id req)"
    and d: "load_definition (ic_yaml i) (ic_euid i) (ic_defs i) (cr_agent_type req) = Inr d"
    and c: "child_claims i parent d (cr_agent_id req) = (c, narrowed)"
    and f: "finished i w pr b c (child_expiry i (cl_now w) parent) reg out reg' es cF"
  have "ic_issuer i \<noteq> []" "utf8_valid (ic_issuer i)" using assms(2) by (auto simp: deployed_def)
  moreover have "issuable parent" "\<And>a. cl_act parent = Some a \<Longrightarrow> chain_length a < 8999"
    using assms(4) [OF pa] by auto
  ultimately have "issuable c" using child_issuable [OF c _ d n] by blast
  moreover have "cl_iss c = ic_issuer i" using child_claims_fields(1) [OF c] .
  ultimately show ?thesis using finished_accepted [OF f] assms child_expiry_bounds(2) by simp
qed

subsection \<open>Properties\<close>

text \<open>C11: A session assertion the issuer hands out is accepted by the verifier of a deployment that trusts it, in
  the directory it was delivered to, at every second from its issue to its expiry, and yields exactly the
  actor, roles and grade the issuer reported. It needs the runtime roles of the configuration to be valid
  names without repetition.\<close>
theorem session_assertion_accepted:
  assumes "issue_session i w pr req reg = (Inr out, reg', es)" and "deployed cr src i" and "call_in_range w out"
    and "list_all re_role_name (ic_runtime_roles i)" "distinct (ic_runtime_roles i)"
    and "vp_mode p = ModeLocal" "vp_max_major p = 0" "path_clean (vp_observed_dir p) = iss_dir out"
    and "unix (cl_now w) \<le> sint (vp_now p)" "sint (vp_now p) < iss_expires_at out"
  shows "accepted_as cr src p i out"
  using assms by (rule session_accepted)

text \<open>C12: The same holds of a child assertion, for a parent whose claims are well-formed and whose actor chain is
  short enough for the JSON decoder's nesting limit.\<close>
theorem child_assertion_accepted:
  assumes "issue_child cr' i w pr req reg = (Inr out, reg', es)" and "deployed cr src i" and "call_in_range w out"
    and "\<And>parent. parse_own cr' (ic_keys i) (cr_parent_token req) = Some parent \<Longrightarrow>
      issuable parent \<and> chain_length (the (cl_act parent)) < 8999"
    and "vp_mode p = ModeLocal" "vp_max_major p = 0" "path_clean (vp_observed_dir p) = iss_dir out"
    and "unix (cl_now w) \<le> sint (vp_now p)" "sint (vp_now p) < iss_expires_at out"
  shows "accepted_as cr src p i out"
  using assms by (rule child_accepted)

subsection \<open>The sample issuer's deployment\<close>

definition sample_verifier_source :: key_source where
  "sample_verifier_source = \<lparr>ks_trusted = (\<lambda>iss. iss = ''unix:///run/s.sock''),
     ks_keys = (\<lambda>_. Inr (jwks_of (kr_public sample_keyring)))\<rparr>"

lemma sample_deployed: "deployed sample_crypto sample_verifier_source sample_issuer"
proof -
  have "verify_signature sample_crypto (pk_jwk (kr_current sample_keyring)) ''EdDSA'' input ''signed''" for input
    by (simp add: verify_signature_def sample_keyring_def sample_key_def Let_def b64url_roundtrip sample_crypto_def)
  moreover have "utf8_valid ''unix:///run/s.sock''" "utf8_valid ''k1''" by (rule utf8_ascii, simp add: code_def)+
  ultimately show ?thesis
    by (simp add: deployed_def trusts_def Let_def sample_issuer_def sample_verifier_source_def is_abs_def)
      (simp add: sample_keyring_def sample_key_def Let_def)
qed

lemma sample_dir_utf8:
  assumes "create_dir \<lparr>sd_root = ''/run''\<rparr> (Some bytes) mk t = Some (dir, name)"
  shows "path_clean dir = dir" and "utf8_valid dir"
proof -
  have c: "path_clean ''/run'' = ''/run''" "elems_of ''/run'' = [''run'']" by code_simp+
  have h: "list_all is_hex_lower (hex_encode bytes)" using hex_encode_lower by blast
  then have n: "plain_elem name" using create_dir_Some(1) [OF assms] spawn_name_plain by simp
  show "path_clean dir = dir" using created_dir(2) [OF _ _ assms] c by (simp add: is_abs_def)
  have "dir = ''/run/'' @ name"
    using path_join_abs [OF _ n, of "''/run''"] create_dir_Some(2) [OF assms] c by (simp add: is_abs_def abs_path_def)
  moreover have "\<forall>x \<in> set name. code x < 128"
    using h pad_hex_lower [of 10] create_dir_Some(1) [OF assms] hex_ascii
    by (auto simp: spawn_name_def list_all_iff code_def)
  ultimately show "utf8_valid dir" using utf8_ascii [of dir] by (auto simp: code_def)
qed

lemma sample_in_range:
  assumes "finished sample_issuer (sample_call ch t) pr b c (e * 1000000000) reg out reg' es cF"
    and "0 \<le> t" and "e \<le> 253402300799"
  shows "call_in_range (sample_call ch t) out" and "iss_expires_at out = e"
    and "path_clean (iss_dir out) = iss_dir out" and "unix (cl_now (sample_call ch t)) = t"
proof -
  from assms(1) obtain dir name where cF: "completed (sample_call ch t) c (e * 1000000000) dir cF"
    and o: "iss_dir out = path_clean dir" "iss_expires_at out = cl_exp cF"
    and d: "create_dir (ic_dirs sample_issuer) (cl_rand_dir (sample_call ch t)) (cl_mkdir (sample_call ch t))
      (unix (cl_now (sample_call ch t))) = Some (dir, name)"
    by (auto simp: finished_def)
  then have d': "create_dir \<lparr>sd_root = ''/run''\<rparr> (Some (replicate 16 ch)) (\<lambda>_. True) (unix (t * 1000000000)) = Some (dir, name)"
    by (simp add: sample_issuer_def sample_call_def)
  show e: "iss_expires_at out = e" using o completed_fields(11) [OF cF] by (simp add: unix_def)
  show "unix (cl_now (sample_call ch t)) = t" by (simp add: sample_call_def unix_def)
  then show "call_in_range (sample_call ch t) out"
    using e assms(2,3) o sample_dir_utf8 [OF d'] by (simp add: call_in_range_def sample_call_def)
  show "path_clean (iss_dir out) = iss_dir out" using o by simp
qed

lemma sample_session_finished:
  assumes "issue_session sample_issuer (sample_call CHR ''a'' 100) pr req reg = (Inr out, reg', es)"
  shows "\<exists>b c cF. finished sample_issuer (sample_call CHR ''a'' 100) pr b c (3700 * 1000000000) reg out reg' es cF"
  using assms
proof (rule issue_session_Inr)
  fix b c cF
  assume "finished sample_issuer (sample_call CHR ''a'' 100) pr b c
    (cl_now (sample_call CHR ''a'' 100) + ic_ttl sample_issuer) reg out reg' es cF"
  moreover have "cl_now (sample_call CHR ''a'' 100) + ic_ttl sample_issuer = 3700 * 1000000000"
    by (simp add: sample_call_def sample_issuer_def)
  ultimately show ?thesis by auto
qed

text \<open>The verifier in a directory, at a second.\<close>

definition verifier_at :: "string \<Rightarrow> int64 \<Rightarrow> verify_params" where
  "verifier_at dir now = \<lparr>vp_now = now, vp_mode = ModeLocal, vp_peer = [], vp_observed_dir = dir, vp_max_major = 0\<rparr>"

theorem session_assertion_accepted_witness:
  "\<exists>(out :: issued). accepted_as sample_crypto sample_verifier_source (verifier_at (iss_dir out) 150) sample_issuer out"
proof -
  obtain out reg' es where s: "issue_session sample_issuer (sample_call CHR ''a'' 100) sample_peer
     \<lparr>sr_definition = ''lead'', sr_origin = [], sr_runtime = None\<rparr> empty_registry = (Inr out, reg', es)"
    using sample_issued_session by blast
  then obtain b c cF where "finished sample_issuer (sample_call CHR ''a'' 100) sample_peer b c (3700 * 1000000000)
      empty_registry out reg' es cF"
    using sample_session_finished by blast
  note r = sample_in_range [OF this]
  have "list_all re_role_name (ic_runtime_roles sample_issuer) \<and> distinct (ic_runtime_roles sample_issuer)"
    by (simp add: sample_issuer_def re_role_name_def char_class_defs)
  then show ?thesis
    using session_assertion_accepted [OF s sample_deployed r(1), of "verifier_at (iss_dir out) 150"] r(2-4)
    by (intro exI [of _ out]) (simp add: verifier_at_def)
qed

lemma sample_session_issuable: "issuable sample_session"
  by (auto simp: issuable_def sample_session_def re_actor_def re_actor_sub_def actor_of_kind_def name_body_def
      re_role_name_def char_class_defs intro!: utf8_ascii)

theorem child_assertion_accepted_witness:
  "\<exists>(out :: issued). accepted_as sample_crypto sample_verifier_source (verifier_at (iss_dir out) 150) sample_issuer out"
proof -
  let ?req = "\<lparr>cr_parent_token = compact (header_members sample_keyring) (claims_members sample_session) ''signed'',
      cr_agent_type = ''lead'', cr_agent_id = ''a1''\<rparr>"
  obtain out reg' es where s: "issue_child sample_crypto sample_issuer (sample_call CHR ''b'' 150) sample_peer ?req
     [''j'' \<mapsto> sample_entry] = (Inr out, reg', es)"
    using sample_child by blast
  have p: "parent = sample_session"
    if "parse_own sample_crypto (ic_keys sample_issuer) (cr_parent_token ?req) = Some parent" for parent
    using that sample_parse by (simp add: issuer_fields)
  have x: "child_expiry sample_issuer (cl_now (sample_call CHR ''b'' 150)) sample_session = 200 * 1000000000"
    by (simp add: child_expiry_def sample_issuer_def sample_session_def sample_call_def)
  from s obtain parent b c cF where "parse_own sample_crypto (ic_keys sample_issuer) (cr_parent_token ?req) = Some parent"
    and f: "finished sample_issuer (sample_call CHR ''b'' 150) sample_peer b c
      (child_expiry sample_issuer (cl_now (sample_call CHR ''b'' 150)) parent) [''j'' \<mapsto> sample_entry] out reg' es cF"
    by (rule issue_child_Inr)
  from f [unfolded p [OF this(1)] x] have r: "call_in_range (sample_call CHR ''b'' 150) out" "iss_expires_at out = 200"
    "path_clean (iss_dir out) = iss_dir out" "unix (cl_now (sample_call CHR ''b'' 150)) = 150"
    by (rule sample_in_range; simp)+
  have "issuable parent \<and> chain_length (the (cl_act parent)) < 8999"
    if "parse_own sample_crypto (ic_keys sample_issuer) (cr_parent_token ?req) = Some parent" for parent
    unfolding p [OF that] using sample_session_issuable by (simp add: sample_session_def)
  from child_assertion_accepted [OF s sample_deployed r(1) this, of "verifier_at (iss_dir out) 150"] r(2-4)
  show ?thesis by (intro exI [of _ out]) (simp add: verifier_at_def)
qed

end
