(* ===== verification/IssueRuns.thy ===== *)
theory IssueRuns
  imports IssueVerify
begin

text \<open>
  Runs of the issuer: the requests it serves one after another, as a step relation over the registry
  and the log of what was issued and to which process. Callers may present any parent token; that a
  token which verifies under the issuer's own keys was signed by it, in this run or an earlier one, is
  the assumption of each child step (\<open>authentic\<close>), and that token ids do not repeat, which 128 random
  bits give, one of each issue (\<open>fresh\<close>).
\<close>

type_synonym issue_log = "(string \<times> issued_to) list"

text \<open>What a token says, signed by whomever.\<close>

definition token_claims :: "string \<Rightarrow> claims option" where
  "token_claims token =
     (case split_on CHR ''.'' token of
        [p0, p1, p2] \<Rightarrow> bind_opt (decode_segment p1) claims_of_json
      | _ \<Rightarrow> None)"

definition token_id :: "string \<Rightarrow> string option" where
  "token_id token = map_option cl_jti (token_claims token)"

definition fresh :: "issue_log \<Rightarrow> string set \<Rightarrow> string \<Rightarrow> bool" where
  "fresh log earlier token \<longleftrightarrow> token_id token \<notin> token_id ` (fst ` set log \<union> earlier)"

definition authentic :: "crypto \<Rightarrow> issuer \<Rightarrow> issue_log \<Rightarrow> string set \<Rightarrow> string \<Rightarrow> bool" where
  "authentic cr i log earlier token \<longleftrightarrow>
     (\<forall>c. parse_own cr (ic_keys i) token = Some c \<longrightarrow>
        trim_space token \<in> fst ` set log \<union> earlier \<and> chain_length (the (cl_act c)) < 8999)"

inductive issue_run_of :: "crypto \<Rightarrow> issuer \<Rightarrow> string set \<Rightarrow> registry \<Rightarrow> issue_log \<Rightarrow> bool"
  for cr :: crypto and i :: issuer and earlier :: "string set"
where
  run_start: "issue_run_of cr i earlier empty_registry []"
| run_session: "\<lbrakk>issue_run_of cr i earlier reg log; issue_session i w pr req reg = (Inr out, reg', es);
     call_in_range w out; bind_runtime (cl_reader w) (ic_helper i) pr = Inr b; fresh log earlier (iss_token out)\<rbrakk>
   \<Longrightarrow> issue_run_of cr i earlier reg' ((iss_token out, entry_for pr b (iss_expires_at out)) # log)"
| run_child: "\<lbrakk>issue_run_of cr i earlier reg log; issue_child cr i w pr creq reg = (Inr out, reg', es);
     call_in_range w out; bind_runtime (cl_reader w) (ic_helper i) pr = Inr b; fresh log earlier (iss_token out);
     authentic cr i log earlier (cr_parent_token creq)\<rbrakk>
   \<Longrightarrow> issue_run_of cr i earlier reg' ((iss_token out, entry_for pr b (iss_expires_at out)) # log)"
| run_session_refused: "\<lbrakk>issue_run_of cr i earlier reg log; issue_session i w pr req reg = (Inl e, reg', es)\<rbrakk>
   \<Longrightarrow> issue_run_of cr i earlier reg' log"
| run_child_refused: "\<lbrakk>issue_run_of cr i earlier reg log; issue_child cr i w pr creq reg = (Inl e, reg', es)\<rbrakk>
   \<Longrightarrow> issue_run_of cr i earlier reg' log"

subsection \<open>What one issue adds\<close>

lemma parse_own_claims: "parse_own cr k token = Some c \<Longrightarrow> token_claims (trim_space token) = Some c"
  by (auto simp: parse_own_def token_claims_def bind_opt_def split: list.splits option.splits if_splits)

lemma compact_claims:
  "writable (claims_members c) \<Longrightarrow> dates_in_range c \<Longrightarrow> token_claims (compact h (claims_members c) sig) = Some c"
  by (simp add: token_claims_def split_compact decode_segment_encode bind_opt_def claims_members_read del: json_encode.simps)

lemma finished_claims:
  assumes "finished i w pr b c expiry reg out reg' es cF" and "issuable c" and "call_in_range w out"
    and "expiry \<le> cl_now w + ic_ttl i" "ic_ttl i \<le> 43200 * 1000000000"
  shows "token_claims (iss_token out) = Some cF" and "issuable cF"
    and "reg' = registry_put (cl_jti cF) (entry_for pr b (cl_exp cF)) (unix (cl_now w)) reg"
    and "iss_expires_at out = cl_exp cF" and "completed w c expiry (iss_dir out) cF"
proof -
  from assms(1) obtain dir sig where cF: "completed w c expiry dir cF" and lt: "unix (cl_now w) < unix expiry"
    and tok: "iss_token out = compact (header_members (ic_keys i)) (claims_members cF) sig"
    and out: "iss_dir out = path_clean dir" "iss_expires_at out = cl_exp cF"
    and reg: "reg' = registry_put (cl_jti cF) (entry_for pr b (cl_exp cF)) (unix (cl_now w)) reg"
    by (auto simp: finished_def)
  note f = completed_fields [OF cF]
  show i: "issuable cF" using completed_issuable(1) [OF cF assms(2)] .
  have w: "writable (claims_members cF)"
    using completed_issuable [OF cF assms(2)] f(9) out(1) assms(3) by (intro issuable_writable) (auto simp: call_in_range_def)
  have "dates_in_range cF"
    using assms(3) lt f out lifetime_bound [OF assms(4,5)]
    by (auto simp: dates_in_range_def int64_range_def call_in_range_def contract_for_def)
  then show "token_claims (iss_token out) = Some cF" unfolding tok by (rule compact_claims [OF w])
  show "reg' = registry_put (cl_jti cF) (entry_for pr b (cl_exp cF)) (unix (cl_now w)) reg" by (rule reg)
  show "iss_expires_at out = cl_exp cF" by (rule out(2))
  show "completed w c expiry (iss_dir out) cF" using cF by (simp add: completed_def out(1))
qed

text \<open>The process a registry entry names, without its expiry.\<close>

definition same_holder :: "issued_to \<Rightarrow> issued_to \<Rightarrow> bool" where
  "same_holder e e0 \<longleftrightarrow>
     is_uid e = is_uid e0 \<and> is_pid e = is_pid e0 \<and> is_start e = is_start e0 \<and> is_dev e = is_dev e0 \<and> is_ino e = is_ino e0"

lemma recipient_holder: "recipient e pr b \<Longrightarrow> same_holder (entry_for pr b x) e"
  by (simp add: recipient_def same_holder_def entry_for_def)

definition is_session :: "claims \<Rightarrow> bool" where
  "is_session c \<longleftrightarrow> cl_grade c = ''workload'' \<and> cl_spawn c = [] \<and> cl_origin c \<noteq> ''human'' \<and> has_prefix (cl_sub c) ''runtime:''"

definition within :: "claims \<Rightarrow> claims \<Rightarrow> bool" where
  "within c c0 \<longleftrightarrow> set (cl_roles c) \<subseteq> set (cl_roles c0) \<and> cl_exp c \<le> cl_exp c0 \<and> cl_sub c = cl_sub c0
     \<and> cl_sid c = cl_sid c0 \<and> cl_rt c = cl_rt c0"

lemma within_trans: "within c d \<Longrightarrow> within d e \<Longrightarrow> within c e"
  by (auto simp: within_def)

lemma within_refl: "within c c"
  by (simp add: within_def)

definition descends :: "issue_log \<Rightarrow> string \<times> issued_to \<Rightarrow> bool" where
  "descends log x \<longleftrightarrow>
     (\<exists>c t0 e0 c0. token_claims (fst x) = Some c \<and> (t0, e0) \<in> set log \<and> token_claims t0 = Some c0
        \<and> is_session c0 \<and> within c c0 \<and> same_holder (snd x) e0)"

definition configured :: "issuer \<Rightarrow> bool" where
  "configured i \<longleftrightarrow>
     ic_issuer i \<noteq> [] \<and> utf8_valid (ic_issuer i) \<and> ic_ttl i \<le> 43200 * 1000000000
     \<and> list_all re_role_name (ic_runtime_roles i) \<and> distinct (ic_runtime_roles i)"

definition run_inv :: "string set \<Rightarrow> registry \<Rightarrow> issue_log \<Rightarrow> bool" where
  "run_inv earlier reg log \<longleftrightarrow>
     (\<forall>x \<in> set log. descends log x \<and> (\<exists>c. token_claims (fst x) = Some c \<and> issuable c \<and> cl_sid c \<noteq> []))
     \<and> (\<forall>j e. registry_get reg j = Some e \<longrightarrow> (\<exists>t. (t, e) \<in> set log \<and> token_id t = Some j))
     \<and> (\<forall>x \<in> set log. \<forall>y \<in> set log. token_id (fst x) = token_id (fst y) \<longrightarrow> x = y)
     \<and> (\<forall>x \<in> set log. token_id (fst x) \<notin> token_id ` earlier)"

lemma run_invD:
  assumes "run_inv earlier reg log"
  shows "registry_get reg j = Some e \<Longrightarrow> \<exists>t. (t, e) \<in> set log \<and> token_id t = Some j"
    and "x \<in> set log \<Longrightarrow> y \<in> set log \<Longrightarrow> token_id (fst x) = token_id (fst y) \<Longrightarrow> x = y"
    and "x \<in> set log \<Longrightarrow> token_id (fst x) \<notin> token_id ` earlier"
    and "x \<in> set log \<Longrightarrow> descends log x"
    and "x \<in> set log \<Longrightarrow> \<exists>c. token_claims (fst x) = Some c \<and> issuable c \<and> cl_sid c \<noteq> []"
  using assms unfolding run_inv_def by blast+

lemma descends_mono: "descends log x \<Longrightarrow> set log \<subseteq> set log' \<Longrightarrow> descends log' x"
  unfolding descends_def by blast

text \<open>One issue keeps the invariant, whatever it is derived from.\<close>

lemma run_inv_issue:
  assumes "run_inv earlier reg log" and "fresh log earlier token" and "token_claims token = Some cF"
    and "issuable cF" "cl_sid cF \<noteq> []" and "is_exp e = cl_exp cF"
    and "descends ((token, e) # log) (token, e)"
  shows "run_inv earlier (registry_put (cl_jti cF) e now reg) ((token, e) # log)"
proof -
  have fr: "token_id token \<notin> token_id ` fst ` set log" "token_id token \<notin> token_id ` earlier"
    using assms(2) by (auto simp: fresh_def)
  have get: "registry_get (registry_put (cl_jti cF) e now reg) j = Some d \<Longrightarrow>
      (j = cl_jti cF \<and> d = e) \<or> registry_get reg j = Some d" for j d
    using reg.get_put_same reg.get_put_other by (cases "j = cl_jti cF") (auto split: option.splits if_splits)
  have "token_id token = Some (cl_jti cF)" using assms(3) by (simp add: token_id_def)
  then have "\<forall>j d. registry_get (registry_put (cl_jti cF) e now reg) j = Some d \<longrightarrow>
      (\<exists>t. (t, d) \<in> set ((token, e) # log) \<and> token_id t = Some j)"
    using get assms(1) unfolding run_inv_def by (metis list.set_intros)
  moreover have "\<forall>x \<in> set log. descends ((token, e) # log) x"
    using assms(1) descends_mono [of log _ "(token, e) # log"] by (auto simp: run_inv_def)
  moreover have "\<forall>x \<in> set log. token_id (fst x) \<noteq> token_id token" by (metis fr(1) imageI)
  ultimately show ?thesis using assms fr(2) unfolding run_inv_def by (auto simp: eq_commute)
qed

lemma session_step:
  assumes "run_inv earlier reg log" and "configured i" and "issue_session i w pr req reg = (Inr out, reg', es)"
    and "call_in_range w out" and "bind_runtime (cl_reader w) (ic_helper i) pr = Inr b"
    and "fresh log earlier (iss_token out)"
  shows "run_inv earlier reg' ((iss_token out, entry_for pr b (iss_expires_at out)) # log)"
  using assms(3)
proof (rule issue_session_Inr)
  fix b' rt version og c cF
  assume "bind_runtime (cl_reader w) (ic_helper i) pr = Inr b'"
    and rt: "runtime_id (pi_exe (bd_proc b')) (pi_args (bd_proc b')) = Some rt"
    and v: "runtime_version rt (sr_runtime req) = Inr version" and o: "session_origin (sr_origin req) = Inr og"
    and c: "session_claims i rt version og (sr_definition req) = Inr c"
    and f: "finished i w pr b' c (cl_now w + ic_ttl i) reg out reg' es cF"
  then have b: "b' = b" using assms(5) by simp
  have i: "issuable c"
    using session_issuable [OF c _ _ _ session_origin_Inr [OF o]] runtime_id_name [OF rt] runtime_version_Inr [OF v] assms(2)
    by (auto simp: configured_def)
  have "ic_ttl i \<le> 43200 * 1000000000" using assms(2) by (simp add: configured_def)
  from finished_claims [OF f i assms(4) order_refl this] have t: "token_claims (iss_token out) = Some cF" "issuable cF"
    "reg' = registry_put (cl_jti cF) (entry_for pr b' (cl_exp cF)) (unix (cl_now w)) reg" "iss_expires_at out = cl_exp cF"
    and cF: "completed w c (cl_now w + ic_ttl i) (iss_dir out) cF" by auto
  note g = completed_fields [OF cF] session_claims_Inr [OF c]
  have "is_session cF" using g session_origin_Inr [OF o] by (auto simp: is_session_def)
  then have "descends ((iss_token out, entry_for pr b (cl_exp cF)) # log) (iss_token out, entry_for pr b (cl_exp cF))"
    using t(1) within_refl unfolding descends_def same_holder_def by fastforce
  from run_inv_issue [OF assms(1,6) t(1,2) g(13) _ this] show ?thesis
    by (simp add: t(3,4) b entry_for_def)
qed

lemma child_step:
  assumes "run_inv earlier reg log" and "configured i" and "issue_child cr i w pr req reg = (Inr out, reg', es)"
    and "call_in_range w out" and "bind_runtime (cl_reader w) (ic_helper i) pr = Inr b"
    and "fresh log earlier (iss_token out)" and "authentic cr i log earlier (cr_parent_token req)"
  shows "run_inv earlier reg' ((iss_token out, entry_for pr b (iss_expires_at out)) # log)"
  using assms(3)
proof (rule issue_child_Inr)
  fix parent entry b' d c narrowed cF
  assume p: "parse_own cr (ic_keys i) (cr_parent_token req) = Some parent"
    and reg: "registry_get reg (cl_jti parent) = Some entry"
    and "bind_runtime (cl_reader w) (ic_helper i) pr = Inr b'" and "recipient entry pr b'"
    and n: "re_name (cr_agent_id req)"
    and d: "load_definition (ic_yaml i) (ic_euid i) (ic_defs i) (cr_agent_type req) = Inr d"
    and c: "child_claims i parent d (cr_agent_id req) = (c, narrowed)"
    and f: "finished i w pr b' c (child_expiry i (cl_now w) parent) reg out reg' es cF"
  then have b: "b' = b" and rc: "recipient entry pr b" using assms(5) by simp_all
  let ?t = "trim_space (cr_parent_token req)"
  have tc: "token_claims ?t = Some parent" using p by (rule parse_own_claims)
  have au: "?t \<in> fst ` set log \<union> earlier" "chain_length (the (cl_act parent)) < 8999"
    using assms(7) p by (auto simp: authentic_def)
  obtain t where t: "(t, entry) \<in> set log" "token_id t = token_id ?t"
    using run_invD(1) [OF assms(1) reg] tc by (auto simp: token_id_def)
  have "?t \<notin> earlier" using run_invD(3) [OF assms(1) t(1)] t(2) by auto
  with au(1) obtain e where e: "(?t, e) \<in> set log" by auto
  have "(t, entry) = (?t, e)" by (rule run_invD(2) [OF assms(1) t(1) e]) (simp add: t(2))
  with e have pl: "(?t, entry) \<in> set log" by simp
  have pi: "issuable parent" "cl_sid parent \<noteq> []" using run_invD(5) [OF assms(1) pl] tc by auto
  have pd: "descends log (?t, entry)" by (rule run_invD(4) [OF assms(1) pl])
  have i: "issuable c"
    by (rule child_issuable [OF c pi(1) d n]) (use assms(2) au(2) in \<open>auto simp: configured_def\<close>)
  have "ic_ttl i \<le> 43200 * 1000000000" using assms(2) by (simp add: configured_def)
  from finished_claims [OF f i assms(4) child_expiry_bounds(2) this] have k: "token_claims (iss_token out) = Some cF"
    "issuable cF" "reg' = registry_put (cl_jti cF) (entry_for pr b' (cl_exp cF)) (unix (cl_now w)) reg"
    "iss_expires_at out = cl_exp cF"
    and cF: "completed w c (child_expiry i (cl_now w) parent) (iss_dir out) cF" by auto
  note g = completed_fields [OF cF] child_claims_fields [OF c]
  have w: "within cF parent"
    using g pi(2) child_expiry_bounds(1) [of i "cl_now w" parent] by (auto simp: within_def)
  from pd tc obtain t0 e0 c0 where z: "(t0, e0) \<in> set log" "token_claims t0 = Some c0" "is_session c0" "within parent c0"
    "same_holder entry e0"
    by (auto simp: descends_def)
  have "within cF c0" using within_trans [OF w z(4)] .
  moreover have "same_holder (entry_for pr b (cl_exp cF)) e0"
    using recipient_holder [OF rc, of "cl_exp cF"] z(5) by (simp add: same_holder_def)
  ultimately have "descends ((iss_token out, entry_for pr b (cl_exp cF)) # log) (iss_token out, entry_for pr b (cl_exp cF))"
    unfolding descends_def using k(1) z(1-3)
    by (intro exI [of _ cF] exI [of _ t0] exI [of _ e0] exI [of _ c0]) simp
  from run_inv_issue [OF assms(1,6) k(1,2) g(13) _ this] show ?thesis
    by (simp add: k(3,4) b entry_for_def)
qed

lemma run_keeps_inv:
  assumes "issue_run_of cr i earlier reg log" and "configured i"
  shows "run_inv earlier reg log"
  using assms
proof (induction rule: issue_run_of.induct)
  case run_start
  show ?case by (simp add: run_inv_def registry_get_def empty_registry_def)
next
  case (run_session reg log w pr req out reg' es b)
  then show ?case using session_step by blast
next
  case (run_child reg log w pr creq out reg' es b)
  then show ?case using child_step by blast
next
  case (run_session_refused reg log w pr req e reg' es)
  then have "reg' = reg" using leaves_session [of reg i w pr req] by (simp add: leaves_nothing_refused_def)
  with run_session_refused show ?case by simp
next
  case (run_child_refused reg log w pr creq e reg' es)
  then have "reg' = reg" using leaves_child [of reg cr i w pr creq] by (simp add: leaves_nothing_refused_def)
  with run_child_refused show ?case by simp
qed

subsection \<open>Properties\<close>

text \<open>C2: In every run of a well-configured issuer, whatever tokens callers present and however requests and
  refusals interleave, each assertion handed out descends from a session assertion of the same run that
  was handed to the very same process (user, pid, start time and executable): it carries none but that
  session's roles, outlives it never, and keeps its subject, session id and runtime; a session never has
  a human origin. A token of an earlier run has no descendants.\<close>
theorem issued_descends_from_session:
  assumes "issue_run_of cr i earlier reg log" and "configured i" and "(token, e) \<in> set log"
  shows "\<exists>c t0 e0 c0. token_claims token = Some c \<and> (t0, e0) \<in> set log \<and> token_claims t0 = Some c0
    \<and> cl_grade c0 = ''workload'' \<and> cl_origin c0 \<noteq> ''human'' \<and> has_prefix (cl_sub c0) ''runtime:''
    \<and> set (cl_roles c) \<subseteq> set (cl_roles c0) \<and> cl_exp c \<le> cl_exp c0 \<and> cl_sub c = cl_sub c0
    \<and> cl_sid c = cl_sid c0 \<and> cl_rt c = cl_rt c0 \<and> same_holder e e0"
  using run_invD(4) [OF run_keeps_inv [OF assms(1,2)] assms(3)]
  unfolding descends_def is_session_def within_def by auto

lemma sample_configured: "configured sample_issuer"
  using sample_deployed by (simp add: configured_def deployed_def) (simp add: sample_issuer_def re_role_name_def char_class_defs)

lemma sample_issue_run:
  "\<exists>reg token e. issue_run_of sample_crypto sample_issuer {} reg [(token, e)]"
proof -
  obtain out reg' es where s: "issue_session sample_issuer (sample_call CHR ''a'' 100) sample_peer
     \<lparr>sr_definition = ''lead'', sr_origin = [], sr_runtime = None\<rparr> empty_registry = (Inr out, reg', es)"
    using sample_issued_session by blast
  then obtain b c cF where "finished sample_issuer (sample_call CHR ''a'' 100) sample_peer b c (3700 * 1000000000)
      empty_registry out reg' es cF"
    using sample_session_finished by blast
  from sample_in_range(1) [OF this] have r: "call_in_range (sample_call CHR ''a'' 100) out" by simp
  have b: "bind_runtime (cl_reader (sample_call CHR ''a'' 100)) (ic_helper sample_issuer) sample_peer =
      Inr \<lparr>bd_pid = 42, bd_proc = sample_proc\<rparr>"
    using sample_binding by (simp add: issuer_fields)
  have "fresh [] {} (iss_token out)" by (simp add: fresh_def)
  from run_session [OF run_start s r b this] show ?thesis by blast
qed

theorem issued_descends_from_session_witness:
  "\<exists>token c. token_claims token = Some c \<and> has_prefix (cl_sub c) ''runtime:''"
proof -
  obtain reg token e where "issue_run_of sample_crypto sample_issuer {} reg [(token, e)]" using sample_issue_run by blast
  from issued_descends_from_session [OF this sample_configured, of token e] show ?thesis by auto
qed

end
