(* ===== verification/Flags.thy ===== *)
theory Flags
  imports Prelude
begin

text \<open>
  Command lines, as the \<open>flag\<close> package of Go's standard library reads them
  (\<open>FlagSet.Parse\<close>) for the flag sets of \<open>cmd/gatekeeper\<close>. Reading a duration is a parameter,
  \<open>time.ParseDuration\<close>.
\<close>

datatype flag_kind = StringFlag | BoolFlag | IntFlag | DurationFlag

type_synonym flag_set = "string \<rightharpoonup> flag_kind"

datatype flag_error =
    BadFlagSyntax string | UnknownFlag string | FlagHelp | NeedsArgument string | InvalidValue string string

text \<open>What the parser takes an argument for.\<close>

datatype flag_token = NotAFlag | Terminator | BadToken | FlagToken string "string option"

definition cut_equals :: "string \<Rightarrow> string \<times> string option" where
  "cut_equals s =
     (case index_byte s CHR ''='' of None \<Rightarrow> (s, None) | Some i \<Rightarrow> (take i s, Some (drop (Suc i) s)))"

definition named_token :: "string \<Rightarrow> flag_token" where
  "named_token n =
     (if n = [] \<or> hd n = CHR ''-'' \<or> hd n = CHR ''='' then BadToken
      else (case cut_equals n of (name, v) \<Rightarrow> FlagToken name v))"

definition flag_token :: "string \<Rightarrow> flag_token" where
  "flag_token a =
     (if length a < 2 \<or> hd a \<noteq> CHR ''-'' then NotAFlag
      else if a ! 1 = CHR ''-'' then (if length a = 2 then Terminator else named_token (drop 2 a))
      else named_token (tl a))"

text \<open>\<open>strconv.ParseBool\<close>.\<close>

definition parse_bool :: "string \<Rightarrow> bool option" where
  "parse_bool s =
     (if s \<in> {''1'', ''t'', ''T'', ''true'', ''TRUE'', ''True''} then Some True
      else if s \<in> {''0'', ''f'', ''F'', ''false'', ''FALSE'', ''False''} then Some False
      else None)"

record flag_readers =
  rd_duration :: "string \<Rightarrow> int option"
  rd_int :: "string \<Rightarrow> int option"

definition valid_value :: "flag_readers \<Rightarrow> flag_kind \<Rightarrow> string \<Rightarrow> bool" where
  "valid_value rd k v =
     (case k of
        StringFlag \<Rightarrow> True
      | BoolFlag \<Rightarrow> parse_bool v \<noteq> None
      | IntFlag \<Rightarrow> rd_int rd v \<noteq> None
      | DurationFlag \<Rightarrow> rd_duration rd v \<noteq> None)"

text \<open>The values set, in order, and the arguments left.\<close>

type_synonym flag_values = "(string \<times> string) list"

fun parse_flags :: "flag_readers \<Rightarrow> flag_set \<Rightarrow> string list \<Rightarrow> flag_error + flag_values \<times> string list" where
  "parse_flags rd fs [] = Inr ([], [])"
| "parse_flags rd fs (a # args) =
     (case flag_token a of
        NotAFlag \<Rightarrow> Inr ([], a # args)
      | Terminator \<Rightarrow> Inr ([], args)
      | BadToken \<Rightarrow> Inl (BadFlagSyntax a)
      | FlagToken name value \<Rightarrow>
          (case fs name of
             None \<Rightarrow> if name = ''help'' \<or> name = ''h'' then Inl FlagHelp else Inl (UnknownFlag name)
           | Some k \<Rightarrow>
               if k = BoolFlag then
                 (let v = (case value of Some v \<Rightarrow> v | None \<Rightarrow> ''true'')
                  in if \<not> valid_value rd k v then Inl (InvalidValue name v)
                     else (case parse_flags rd fs args of
                             Inl e \<Rightarrow> Inl e
                           | Inr (vals, left) \<Rightarrow> Inr ((name, v) # vals, left)))
               else
                 (case value of
                    Some v \<Rightarrow>
                      if \<not> valid_value rd k v then Inl (InvalidValue name v)
                      else (case parse_flags rd fs args of
                              Inl e \<Rightarrow> Inl e
                            | Inr (vals, left) \<Rightarrow> Inr ((name, v) # vals, left))
                  | None \<Rightarrow>
                      (case args of
                         [] \<Rightarrow> Inl (NeedsArgument name)
                       | v # args' \<Rightarrow>
                           if \<not> valid_value rd k v then Inl (InvalidValue name v)
                           else (case parse_flags rd fs args' of
                                   Inl e \<Rightarrow> Inl e
                                 | Inr (vals, left) \<Rightarrow> Inr ((name, v) # vals, left))))))"

declare parse_flags.simps(2) [simp del]

text \<open>The last value set wins.\<close>

definition last_value :: "flag_values \<Rightarrow> string \<Rightarrow> string option" where
  "last_value vals name = map_of (rev vals) name"

definition string_value :: "flag_values \<Rightarrow> string \<Rightarrow> string \<Rightarrow> string" where
  "string_value vals name dflt = (case last_value vals name of None \<Rightarrow> dflt | Some v \<Rightarrow> v)"

definition bool_value :: "flag_values \<Rightarrow> string \<Rightarrow> bool" where
  "bool_value vals name = (case last_value vals name of None \<Rightarrow> False | Some v \<Rightarrow> parse_bool v = Some True)"

definition read_value :: "(string \<Rightarrow> int option) \<Rightarrow> flag_values \<Rightarrow> string \<Rightarrow> int \<Rightarrow> int" where
  "read_value rd vals name dflt =
     (case last_value vals name of None \<Rightarrow> dflt | Some v \<Rightarrow> (case rd v of Some n \<Rightarrow> n | None \<Rightarrow> dflt))"

definition strings_set :: "string list \<Rightarrow> flag_set" where
  "strings_set names = map_of (map (\<lambda>n. (n, StringFlag)) names)"

end
