(* ===== verification/Config.thy ===== *)
theory Config
  imports AssertionProvider
begin

text \<open>
  The configuration file: \<open>internal/config/config.go\<close> and \<open>removed_identity_keys.go\<close>. Decoding
  YAML, into the typed configuration and into a document tree, is a parameter; what the code checks
  and fills in after decoding is modelled. A map of roles is an association list with distinct
  names, in the order one iteration visits them.
\<close>

subsection \<open>The typed configuration\<close>

record github_config =
  gh_owner :: string
  gh_api_base :: string

record broker_config =
  br_type :: string
  br_endpoint :: string
  br_auth :: string

record assertion_issuer_config =
  aic_iss :: string
  aic_jwks :: string

record attestation_config =
  atc_configured :: configured_config
  atc_sidecar :: sidecar_config
  atc_sidecars :: "sidecar_config list"
  atc_assertion :: "assertion_issuer_config list option"
  atc_allow_os_user :: "bool option"

record identity_config =
  idc_issuer :: string
  idc_socket_path :: string
  idc_socket_mode :: string
  idc_key_path :: string
  idc_alg :: string
  idc_jwks_path :: string
  idc_runtime_roles :: "string list"
  idc_definitions_dir :: string
  idc_delegable_roles :: "string list option"
  idc_spawn_root :: string
  idc_session_ttl :: int

record a2a_entitlement_config =
  ae_role :: string
  ae_audiences :: "string list"

record a2a_role_config =
  ar_auth_role :: string
  ar_oidc_role :: string

record a2a_provider_config =
  ap_endpoint :: string
  ap_key_path :: string
  ap_issuer :: string
  ap_ttl :: int
  ap_auth_mount :: string
  ap_roles :: "(string \<times> a2a_role_config) list"

record role_config =
  rc_app_id_path :: string
  rc_installation_id_path :: string
  rc_private_key_path :: string
  rc_permissions :: "(string \<times> string) list"
  rc_entitled :: "string list"
  rc_min_grade :: string
  rc_app_slug :: string
  rc_app_slug_path :: string

record config =
  cfg_schema_version :: int
  cfg_github :: github_config
  cfg_broker :: broker_config
  cfg_ttl_minutes :: int
  cfg_roles :: "(string \<times> role_config) list"
  cfg_attestation :: attestation_config
  cfg_a2a_mapping :: "(string \<times> a2a_entitlement_config) list"
  cfg_a2a_provider :: a2a_provider_config
  cfg_identity :: identity_config
  cfg_identity_present :: bool
  cfg_removed_keys :: "string list"

definition identity_enabled :: "config \<Rightarrow> bool" where
  "identity_enabled c = cfg_identity_present c"

definition os_user_allowed :: "attestation_config \<Rightarrow> bool" where
  "os_user_allowed a \<longleftrightarrow> atc_allow_os_user a = Some True"

definition a2a_enabled :: "a2a_provider_config \<Rightarrow> bool" where
  "a2a_enabled c \<longleftrightarrow> ap_endpoint c \<noteq> [] \<and> ap_key_path c \<noteq> [] \<and> ap_auth_mount c \<noteq> []"

definition resolve_sidecars :: "attestation_config \<Rightarrow> sidecar_config list" where
  "resolve_sidecars a =
     (if sidecar_enabled (atc_sidecar a) then [atc_sidecar a] else []) @ atc_sidecars a"

subsection \<open>Checks\<close>

datatype config_error =
    ConfigMissing | ConfigUnreadable | ConfigUnparsed | BothSidecarForms | NotAbsolute string string | NoKeyPath

definition validate_attestation :: "attestation_config \<Rightarrow> config_error option" where
  "validate_attestation a =
     (if sidecar_enabled (atc_sidecar a) \<and> length (atc_sidecars a) > 0 then Some BothSidecarForms else None)"

text \<open>The fields tagged as absolute paths, with their keys, in the order of the struct.\<close>

definition path_fields :: "identity_config \<Rightarrow> (string \<times> string) list" where
  "path_fields c =
     [(''socket_path'', idc_socket_path c), (''key_path'', idc_key_path c), (''jwks_path'', idc_jwks_path c),
      (''definitions_dir'', idc_definitions_dir c), (''spawn_root'', idc_spawn_root c)]"

fun first_relative :: "(string \<times> string) list \<Rightarrow> config_error option" where
  "first_relative [] = None"
| "first_relative ((key, value) # rest) =
     (if value \<noteq> [] \<and> \<not> is_abs value then Some (NotAbsolute key value) else first_relative rest)"

definition validate_identity :: "identity_config \<Rightarrow> config_error option" where
  "validate_identity c = first_relative (path_fields c)"

subsection \<open>The document\<close>

text \<open>A YAML node: a scalar by its value, a mapping by its keys and values in order.\<close>

datatype yaml_tree = YamlText string | YamlMap "(yaml_tree \<times> yaml_tree) list" | YamlOtherNode

definition node_value :: "yaml_tree \<Rightarrow> string" where
  "node_value n = (case n of YamlText s \<Rightarrow> s | _ \<Rightarrow> [])"

text \<open>\<open>None\<close> is a document without content.\<close>

definition has_top_level_key :: "yaml_tree option \<Rightarrow> string \<Rightarrow> bool" where
  "has_top_level_key doc key =
     (case doc of
        Some (YamlMap m) \<Rightarrow> list_ex (\<lambda>(k, _). node_value k = key) m
      | _ \<Rightarrow> False)"

definition removed_identity_keys :: "string list" where
  "removed_identity_keys = [''operator_uid'', ''operator_name'', ''operator_roles'']"

definition removed_in :: "(yaml_tree \<times> yaml_tree) list \<Rightarrow> string list" where
  "removed_in section =
     filter (\<lambda>want. list_ex (\<lambda>(k, _). node_value k = want) section) removed_identity_keys"

definition removed_keys_present :: "yaml_tree option \<Rightarrow> string list" where
  "removed_keys_present doc =
     (case doc of
        Some (YamlMap m) \<Rightarrow>
          concat (map (\<lambda>(k, v).
             if node_value k \<noteq> ''identity'' then []
             else (case v of YamlMap section \<Rightarrow> removed_in section | _ \<Rightarrow> [])) m)
      | _ \<Rightarrow> [])"

definition removed_keys_warning :: "config \<Rightarrow> string" where
  "removed_keys_warning c =
     (if cfg_removed_keys c = [] then []
      else ''identity: deprecated config key(s) '' @ join_with '', '' (cfg_removed_keys c)
        @ '' have no effect; serve issues no human assertions'')"

subsection \<open>Load\<close>

definition default_api_base :: string where "default_api_base = ''https://api.github.com''"
definition default_ttl_minutes :: int where "default_ttl_minutes = 60"

definition apply_defaults :: "config \<Rightarrow> config" where
  "apply_defaults c =
     c\<lparr>cfg_github := (cfg_github c)\<lparr>gh_api_base :=
         (if gh_api_base (cfg_github c) = [] then default_api_base else gh_api_base (cfg_github c))\<rparr>,
       cfg_ttl_minutes := (if cfg_ttl_minutes c = 0 then default_ttl_minutes else cfg_ttl_minutes c)\<rparr>"

record config_yaml =
  cy_decode :: "string \<Rightarrow> config option"
  cy_tree :: "string \<Rightarrow> yaml_tree option option"

definition load_config :: "config_yaml \<Rightarrow> host \<Rightarrow> string \<Rightarrow> config_error + config" where
  "load_config y h path =
     (case h_read h path of
        Inl e \<Rightarrow> Inl (if e = NotExist then ConfigMissing else ConfigUnreadable)
      | Inr data \<Rightarrow>
          (case cy_decode y data of
             None \<Rightarrow> Inl ConfigUnparsed
           | Some cfg \<Rightarrow>
               (case validate_attestation (cfg_attestation cfg) of
                  Some e \<Rightarrow> Inl e
                | None \<Rightarrow>
                    (case cy_tree y data of
                       None \<Rightarrow> Inl ConfigUnparsed
                     | Some doc \<Rightarrow>
                         (let present = has_top_level_key doc ''identity'';
                              cfg' = cfg\<lparr>cfg_identity_present := present, cfg_removed_keys := removed_keys_present doc\<rparr>
                          in if present then
                               (case validate_identity (cfg_identity cfg') of
                                  Some e \<Rightarrow> Inl e
                                | None \<Rightarrow>
                                    if idc_key_path (cfg_identity cfg') = [] then Inl NoKeyPath
                                    else Inr (apply_defaults cfg'))
                             else Inr (apply_defaults cfg'))))))"

subsection \<open>What a loaded configuration satisfies\<close>

lemma first_relative_None: "first_relative fs = None \<longleftrightarrow> (\<forall>(k, v) \<in> set fs. v = [] \<or> is_abs v)"
  by (induction fs rule: first_relative.induct) auto

lemma load_config_Inr:
  assumes "load_config y h path = Inr cfg"
  obtains cfg0 present removed where "validate_attestation (cfg_attestation cfg0) = None"
    "cfg = apply_defaults (cfg0\<lparr>cfg_identity_present := present, cfg_removed_keys := removed\<rparr>)"
    "present \<Longrightarrow> validate_identity (cfg_identity cfg0) = None \<and> idc_key_path (cfg_identity cfg0) \<noteq> []"
proof -
  obtain data where d: "h_read h path = Inr data" using assms by (auto simp: load_config_def split: sum.splits)
  with assms obtain cfg0 where c: "cy_decode y data = Some cfg0" by (auto simp: load_config_def split: option.splits)
  with d assms have v: "validate_attestation (cfg_attestation cfg0) = None"
    by (auto simp: load_config_def split: option.splits)
  with d c assms obtain doc where t: "cy_tree y data = Some doc" by (auto simp: load_config_def split: option.splits)
  show ?thesis
    by (rule that [OF v, where present = "has_top_level_key doc ''identity''" and removed = "removed_keys_present doc"])
      (use d c v t assms in \<open>auto simp: load_config_def Let_def split: option.splits if_splits\<close>)
qed

definition config_ok :: "config \<Rightarrow> bool" where
  "config_ok cfg \<longleftrightarrow>
     gh_api_base (cfg_github cfg) \<noteq> [] \<and> cfg_ttl_minutes cfg \<noteq> 0
     \<and> (sidecar_enabled (atc_sidecar (cfg_attestation cfg)) \<longrightarrow> atc_sidecars (cfg_attestation cfg) = [])
     \<and> (identity_enabled cfg \<longrightarrow> idc_key_path (cfg_identity cfg) \<noteq> []
          \<and> (\<forall>(key, value) \<in> set (path_fields (cfg_identity cfg)). value = [] \<or> is_abs value))"

lemma loaded_config_ok: "load_config y h path = Inr cfg \<Longrightarrow> config_ok cfg"
  by (erule load_config_Inr)
    (auto simp: config_ok_def apply_defaults_def identity_enabled_def validate_attestation_def validate_identity_def
      first_relative_None default_api_base_def default_ttl_minutes_def path_fields_def split: if_splits)

end
