(* ===== verification/HookStore.thy ===== *)
theory HookStore
  imports SpawnDirs Definitions
begin

text \<open>
  The records hook processes leave each other, \<open>internal/hook/state.go\<close>: one file per session and
  agent under a private root. Files are a map from paths to contents; an operation yields its result
  and the file actions it performed, in order, and what can go wrong with each is the record
  \<open>store_env\<close>. What the hook relies on is the locale \<open>record_store\<close>.
\<close>

subsection \<open>Files\<close>

type_synonym files = "string \<rightharpoonup> string"

datatype file_action =
    WriteFile string string | RenameFile string string | LinkFile string string | Unlink string
  | RemoveTree string

definition below :: "string \<Rightarrow> string \<Rightarrow> bool" where
  "below p q \<longleftrightarrow> q = p \<or> has_prefix q (p @ ''/'')"

fun act :: "file_action \<Rightarrow> files \<Rightarrow> files" where
  "act (WriteFile p s) f = f(p \<mapsto> s)"
| "act (RenameFile p q) f = (f(q := f p))(p := None)"
| "act (LinkFile p q) f = f(q := f p)"
| "act (Unlink p) f = f(p := None)"
| "act (RemoveTree p) f = (\<lambda>q. if below p q then None else f q)"

fun run_actions :: "file_action list \<Rightarrow> files \<Rightarrow> files" where
  "run_actions [] f = f"
| "run_actions (a # as) f = run_actions as (act a f)"

record store_env =
  se_mkdir :: "string \<Rightarrow> bool"
  se_lstat :: "string \<Rightarrow> io_err + file_info"
  se_euid :: nat
  se_read :: "string \<Rightarrow> bool"
  se_nonce :: "string option"
  se_write :: "string \<Rightarrow> string option"
  se_rename :: "string \<Rightarrow> bool"
  se_link :: "string \<Rightarrow> bool"
  se_remove :: "string \<Rightarrow> bool"

subsection \<open>Records\<close>

record hook_record =
  hr_dir :: string
  hr_expires_at :: int
  hr_definition :: string
  hr_start_agent_type :: string
  hr_agent_type :: string

definition zero_record :: hook_record where
  "zero_record = \<lparr>hr_dir = [], hr_expires_at = 0, hr_definition = [], hr_start_agent_type = [], hr_agent_type = []\<rparr>"

definition omit_empty :: "string \<Rightarrow> string \<Rightarrow> (string \<times> json) list" where
  "omit_empty k s = (if s = [] then [] else [(k, JStr s)])"

definition record_members :: "hook_record \<Rightarrow> (string \<times> json) list" where
  "record_members r =
     [(''dir'', JStr (hr_dir r)), (''expires_at'', JNum (show_int (hr_expires_at r)))]
     @ omit_empty ''definition'' (hr_definition r)
     @ omit_empty ''start_agent_type'' (hr_start_agent_type r)
     @ omit_empty ''agent_type'' (hr_agent_type r)"

definition int_field :: "int \<Rightarrow> string \<Rightarrow> (string \<times> json) list \<Rightarrow> int option" where
  "int_field old name ms =
     fold (\<lambda>v acc. case acc of None \<Rightarrow> None
         | Some i \<Rightarrow> (case v of JNum n \<Rightarrow> parse_int64 n | JNull \<Rightarrow> Some i | _ \<Rightarrow> None))
       (field_values name ms) (Some old)"

definition record_of_json :: "json \<Rightarrow> hook_record option" where
  "record_of_json v =
     (case v of
        JNull \<Rightarrow> Some zero_record
      | JObj ms \<Rightarrow>
          (case (string_field [] ''dir'' ms, int_field 0 ''expires_at'' ms, string_field [] ''definition'' ms,
                 string_field [] ''start_agent_type'' ms, string_field [] ''agent_type'' ms) of
             (Some d, Some e, Some def, Some st, Some ty) \<Rightarrow>
               Some \<lparr>hr_dir = d, hr_expires_at = e, hr_definition = def, hr_start_agent_type = st, hr_agent_type = ty\<rparr>
           | _ \<Rightarrow> None)
      | _ \<Rightarrow> None)"

definition read_record :: "string \<Rightarrow> hook_record option" where
  "read_record raw = (case json_parse raw of None \<Rightarrow> None | Some v \<Rightarrow> record_of_json v)"

definition write_record :: "hook_record \<Rightarrow> string" where
  "write_record r = json_encode (JObj (record_members r)) @ [CHR 0x0A]"

subsection \<open>Paths\<close>

definition safe_name :: "string \<Rightarrow> bool" where
  "safe_name s = (case s of [] \<Rightarrow> False | c # r \<Rightarrow> is_alnum c \<and> length r \<le> 127 \<and> list_all is_name_char r)"

definition session_file :: string where "session_file = ''session.json''"

definition agent_file :: "string \<Rightarrow> string" where
  "agent_file agent_id = ''agent-'' @ agent_id @ ''.json''"

datatype store_error =
    RootNotAbsolute | DirFailed | NotPrivate | BadSessionId | BadAgentId | ReadFailed | BadRecord
  | WriteFailed | RenameFailed | LinkFailed | RemoveFailed

definition check_private_dir :: "store_env \<Rightarrow> string \<Rightarrow> store_error option" where
  "check_private_dir e path =
     (case se_lstat e path of
        Inl err \<Rightarrow> Some DirFailed
      | Inr fi \<Rightarrow>
          if fi_kind fi \<noteq> Directory then Some NotPrivate
          else if fi_uid fi \<noteq> se_euid e then Some NotPrivate
          else if group_or_other_write (fi_perm fi) then Some NotPrivate
          else None)"

definition ensure_root :: "store_env \<Rightarrow> string \<Rightarrow> store_error option" where
  "ensure_root e root =
     (if \<not> is_abs root then Some RootNotAbsolute
      else if \<not> se_mkdir e root then Some DirFailed
      else check_private_dir e root)"

definition session_dir :: "store_env \<Rightarrow> string \<Rightarrow> string \<Rightarrow> store_error + string" where
  "session_dir e root session_id =
     (if \<not> safe_name session_id then Inl BadSessionId
      else case ensure_root e root of
             Some err \<Rightarrow> Inl err
           | None \<Rightarrow>
               (let dir = path_join [root, session_id]
                in if \<not> se_mkdir e dir then Inl DirFailed
                   else case check_private_dir e dir of Some err \<Rightarrow> Inl err | None \<Rightarrow> Inr dir))"

definition record_path :: "store_env \<Rightarrow> string \<Rightarrow> string \<Rightarrow> string \<Rightarrow> store_error + string" where
  "record_path e root session_id agent_id =
     (if \<not> safe_name session_id then Inl BadSessionId
      else if agent_id \<noteq> [] \<and> \<not> safe_name agent_id then Inl BadAgentId
      else case session_dir e root session_id of
             Inl err \<Rightarrow> Inl err
           | Inr dir \<Rightarrow> Inr (path_join [dir, if agent_id = [] then session_file else agent_file agent_id]))"

subsection \<open>Operations\<close>

definition store_get ::
    "store_env \<Rightarrow> string \<Rightarrow> string \<Rightarrow> string \<Rightarrow> files \<Rightarrow> store_error + hook_record option" where
  "store_get e root session_id agent_id f =
     (case record_path e root session_id agent_id of
        Inl err \<Rightarrow> Inl err
      | Inr path \<Rightarrow>
          (case f path of
             None \<Rightarrow> Inr None
           | Some raw \<Rightarrow>
               if \<not> se_read e path then Inl ReadFailed
               else case read_record raw of None \<Rightarrow> Inl BadRecord | Some r \<Rightarrow> Inr (Some r)))"

text \<open>A temporary file, \<open>None\<close> with what a failed write left when it cannot be written whole.\<close>

definition write_temp :: "store_env \<Rightarrow> string \<Rightarrow> hook_record \<Rightarrow> string option \<times> file_action list" where
  "write_temp e dir r =
     (case se_nonce e of
        None \<Rightarrow> (None, [])
      | Some bytes \<Rightarrow>
          (let tmp = path_join [dir, ''.tmp-'' @ hex_encode bytes]
           in case se_write e tmp of
                Some part \<Rightarrow> (None, [WriteFile tmp part])
              | None \<Rightarrow> (Some tmp, [WriteFile tmp (write_record r)])))"

definition store_put ::
    "store_env \<Rightarrow> string \<Rightarrow> string \<Rightarrow> string \<Rightarrow> hook_record \<Rightarrow> (store_error + unit) \<times> file_action list" where
  "store_put e root session_id agent_id r =
     (case record_path e root session_id agent_id of
        Inl err \<Rightarrow> (Inl err, [])
      | Inr path \<Rightarrow>
          (case write_temp e (path_dir path) r of
             (None, as) \<Rightarrow> (Inl WriteFailed, as)
           | (Some tmp, as) \<Rightarrow>
               if \<not> se_rename e path then (Inl RenameFailed, as @ [Unlink tmp])
               else (Inr (), as @ [RenameFile tmp path])))"

definition store_put_new ::
    "store_env \<Rightarrow> string \<Rightarrow> string \<Rightarrow> string \<Rightarrow> hook_record \<Rightarrow> files \<Rightarrow> (store_error + bool) \<times> file_action list" where
  "store_put_new e root session_id agent_id r f =
     (case record_path e root session_id agent_id of
        Inl err \<Rightarrow> (Inl err, [])
      | Inr path \<Rightarrow>
          (case write_temp e (path_dir path) r of
             (None, as) \<Rightarrow> (Inl WriteFailed, as)
           | (Some tmp, as) \<Rightarrow>
               if \<not> se_link e path then (Inl LinkFailed, as @ [Unlink tmp])
               else if f path \<noteq> None then (Inr False, as @ [Unlink tmp])
               else (Inr True, as @ [LinkFile tmp path, Unlink tmp])))"

definition store_delete ::
    "store_env \<Rightarrow> string \<Rightarrow> string \<Rightarrow> string \<Rightarrow> files \<Rightarrow> (store_error + unit) \<times> file_action list" where
  "store_delete e root session_id agent_id f =
     (case record_path e root session_id agent_id of
        Inl err \<Rightarrow> (Inl err, [])
      | Inr path \<Rightarrow>
          if f path = None then (Inr (), [])
          else if \<not> se_remove e path then (Inl RemoveFailed, [])
          else (Inr (), [Unlink path]))"

text \<open>
  \<open>entries\<close> is the listing of the root, \<open>None\<close> if it cannot be read: a name, whether it is a
  directory, and its modification time in nanoseconds if that can be read.
\<close>

definition store_prune ::
    "store_env \<Rightarrow> string \<Rightarrow> int \<Rightarrow> int \<Rightarrow> (string \<times> bool \<times> int option) list option \<Rightarrow> file_action list" where
  "store_prune e root now max_age entries =
     (case ensure_root e root of
        Some err \<Rightarrow> []
      | None \<Rightarrow>
          (case entries of
             None \<Rightarrow> []
           | Some es \<Rightarrow>
               concat (map (\<lambda>(name, is_dir, mtime).
                 if \<not> is_dir \<or> \<not> safe_name name then []
                 else case mtime of
                        None \<Rightarrow> []
                      | Some t \<Rightarrow>
                          if duration_sub now t \<le> max_age then []
                          else if se_remove e (path_join [root, name]) then [RemoveTree (path_join [root, name])]
                          else []) es)))"

subsection \<open>Records are read back\<close>

definition record_ok :: "hook_record \<Rightarrow> bool" where
  "record_ok r \<longleftrightarrow>
     int64_range (hr_expires_at r)
     \<and> list_all utf8_valid [hr_dir r, hr_definition r, hr_start_agent_type r, hr_agent_type r]"

lemma record_keys [simp]:
  "fold_key ''dir'' = ''dir''" "fold_key ''expires_at'' = ''expires_at''" "fold_key ''definition'' = ''definition''"
  "fold_key ''start_agent_type'' = ''start_agent_type''" "fold_key ''agent_type'' = ''agent_type''"
  by (simp_all add: fold_key.simps lower_char_def char_class_defs)

lemma record_names_utf8:
  "utf8_valid ''dir''" "utf8_valid ''expires_at''" "utf8_valid ''definition''" "utf8_valid ''start_agent_type''"
  "utf8_valid ''agent_type''"
  by (rule utf8_ascii, simp add: code_def)+

lemma record_members_read: "int64_range (hr_expires_at r) \<Longrightarrow> record_of_json (JObj (record_members r)) = Some r"
  by (cases r) (simp add: record_of_json_def record_members_def omit_empty_def string_field_def int_field_def
      field_values_def parse_show_int)

lemma record_roundtrip:
  assumes "record_ok r"
  shows "read_record (write_record r) = Some r"
proof -
  have "tokens [CHR 0x0A] = Some []" by (simp add: tokens.simps(2) json_space_def)
  moreover have "encodable (JObj (record_members r))" "fits 0 (JObj (record_members r))"
    using assms record_names_utf8 by (auto simp: record_members_def omit_empty_def record_ok_def max_depth_def)
  ultimately have "json_parse (write_record r) = Some (JObj (record_members r))"
    unfolding write_record_def by (intro json_parse_object_then)
  then show ?thesis using record_members_read [of r] assms by (simp add: read_record_def record_ok_def)
qed

subsection \<open>Every record has its own file\<close>

type_synonym store_key = "string \<times> string"

definition key_ok :: "store_key \<Rightarrow> bool" where
  "key_ok k \<longleftrightarrow> safe_name (fst k) \<and> (snd k = [] \<or> safe_name (snd k))"

definition key_file :: "store_key \<Rightarrow> string" where
  "key_file k = (if snd k = [] then session_file else agent_file (snd k))"

definition key_path :: "string \<Rightarrow> store_key \<Rightarrow> string" where
  "key_path root k = path_join [path_join [root, fst k], key_file k]"

lemma record_path_Inr:
  assumes "record_path e root s a = Inr p"
  shows "p = key_path root (s, a)" and "is_abs root" and "key_ok (s, a)"
  using assms
  by (auto simp: record_path_def session_dir_def ensure_root_def key_path_def key_file_def key_ok_def Let_def
      split: if_splits sum.splits option.splits)

lemma safe_name_chars:
  assumes "safe_name s"
  shows "s \<noteq> []" and "CHR ''/'' \<notin> set s" and "hd s \<noteq> CHR ''.''"
proof -
  from assms obtain c r where s: "s = c # r" "is_alnum c" "list_all is_name_char r"
    by (auto simp: safe_name_def split: list.splits)
  have c: "c \<noteq> CHR ''.''" "is_name_char c" using s(2) by (auto simp: char_class_defs)
  show "s \<noteq> []" "hd s \<noteq> CHR ''.''" using s c by simp_all
  show "CHR ''/'' \<notin> set s" using s c name_char_not_slash by (auto simp: list_all_iff)
qed

lemma safe_name_plain: "safe_name s \<Longrightarrow> plain_elem s"
  using safe_name_chars [of s] by (auto simp: plain_elem_def)

lemma key_file_plain: "key_ok k \<Longrightarrow> plain_elem (key_file k)"
  using safe_name_chars(2) [of "snd k"]
  by (auto simp: key_ok_def key_file_def session_file_def agent_file_def plain_elem_def)

lemma key_path_elems:
  assumes "is_abs root" and "key_ok k"
  shows "elems_of (key_path root k) = elems_of root @ [fst k, key_file k]"
proof -
  have p: "plain_elem (fst k)" "plain_elem (key_file k)"
    using assms(2) safe_name_plain key_file_plain by (auto simp: key_ok_def)
  have r: "root \<noteq> []" using assms(1) by (auto simp: is_abs_def)
  have "path_join [root, fst k] \<noteq> []"
    using path_join_abs [OF assms(1) p(1)] by (simp add: abs_path_def)
  then show ?thesis using p r by (simp add: key_path_def elems_of_join_plain)
qed

lemma key_path_inj:
  assumes "is_abs root" and "key_ok j" and "key_ok k" and "key_path root j = key_path root k"
  shows "j = k"
proof -
  have "fst j = fst k \<and> key_file j = key_file k"
    using key_path_elems [OF assms(1,2)] key_path_elems [OF assms(1,3)] assms(4) by simp
  then show ?thesis
    by (auto simp: key_file_def session_file_def agent_file_def prod_eq_iff split: if_splits)
qed

lemma key_dir:
  assumes "is_abs root" and "key_ok k"
  shows "is_abs (path_dir (key_path root k))" and "elems_of (path_dir (key_path root k)) = elems_of root @ [fst k]"
proof -
  have p: "plain_elem (fst k)" "plain_elem (key_file k)"
    using assms(2) safe_name_plain key_file_plain by (auto simp: key_ok_def)
  have r: "\<forall>e \<in> set (elems_of root). plain_elem e" using path_clean_abs [OF assms(1)] by blast
  have j: "path_join [root, fst k] = abs_path (elems_of root @ [fst k])" by (rule path_join_abs [OF assms(1) p(1)])
  then have a: "is_abs (path_join [root, fst k])" by (simp add: abs_path_def is_abs_def)
  have "key_path root k = abs_path ((elems_of root @ [fst k]) @ [key_file k])"
    unfolding key_path_def using path_join_abs [OF a p(2)] r p(1) j by (simp add: elems_of_abs_path)
  then have "path_dir (key_path root k) = abs_path (elems_of root @ [fst k])"
    using path_dir_snoc [of "elems_of root @ [fst k]" "key_file k"] r p by simp
  then show "is_abs (path_dir (key_path root k))" "elems_of (path_dir (key_path root k)) = elems_of root @ [fst k]"
    using r p(1) by (simp_all add: elems_of_abs_path) (simp add: abs_path_def is_abs_def)
qed

lemma temp_not_key:
  assumes "is_abs root" and "key_ok j" and "key_ok k"
  shows "path_join [path_dir (key_path root k), ''.tmp-'' @ hex_encode bytes] \<noteq> key_path root j"
proof
  assume eq: "path_join [path_dir (key_path root k), ''.tmp-'' @ hex_encode bytes] = key_path root j"
  have "CHR ''/'' \<notin> set (hex_encode bytes)"
    using hex_encode_lower [of bytes] hex_char_safe by (auto simp: list_all_iff)
  then have "plain_elem (''.tmp-'' @ hex_encode bytes)" by (auto simp: plain_elem_def)
  moreover have "path_dir (key_path root k) \<noteq> []" using key_dir(1) [OF assms(1,3)] by (auto simp: is_abs_def)
  ultimately have "elems_of (key_path root j) = elems_of root @ [fst k, ''.tmp-'' @ hex_encode bytes]"
    using key_dir(2) [OF assms(1,3)] by (simp add: eq [symmetric] elems_of_join_plain)
  then have "key_file j = ''.tmp-'' @ hex_encode bytes" using key_path_elems [OF assms(1,2)] by simp
  then show False by (simp add: key_file_def session_file_def agent_file_def split: if_splits)
qed

subsection \<open>A store of records\<close>

locale record_store =
  fixes get :: "'s \<Rightarrow> 'k \<Rightarrow> 'v option"
    and put :: "'e \<Rightarrow> 'k \<Rightarrow> 'v \<Rightarrow> 's \<Rightarrow> bool \<times> 's"
    and put_new :: "'e \<Rightarrow> 'k \<Rightarrow> 'v \<Rightarrow> 's \<Rightarrow> bool option \<times> 's"
    and delete :: "'e \<Rightarrow> 'k \<Rightarrow> 's \<Rightarrow> bool \<times> 's"
    and key_valid :: "'k \<Rightarrow> bool"
    and value_valid :: "'v \<Rightarrow> bool"
  assumes put_done: "value_valid v \<Longrightarrow> put e k v s = (True, s') \<Longrightarrow> get s' k = Some v"
    and put_other: "key_valid j \<Longrightarrow> put e k v s = (b, s') \<Longrightarrow> b = False \<or> j \<noteq> k \<Longrightarrow> get s' j = get s j"
    and put_new_won: "value_valid v \<Longrightarrow> put_new e k v s = (Some True, s') \<Longrightarrow> get s k = None \<and> get s' k = Some v"
    and put_new_other: "key_valid j \<Longrightarrow> put_new e k v s = (w, s') \<Longrightarrow> w \<noteq> Some True \<or> j \<noteq> k \<Longrightarrow> get s' j = get s j"
    and delete_done: "delete e k s = (True, s') \<Longrightarrow> get s' k = None"
    and delete_other: "key_valid j \<Longrightarrow> delete e k s = (b, s') \<Longrightarrow> b = False \<or> j \<noteq> k \<Longrightarrow> get s' j = get s j"
begin

text \<open>Several writers try to be the first under one key, one after another.\<close>

fun attempts :: "'k \<Rightarrow> ('e \<times> 'v) list \<Rightarrow> 's \<Rightarrow> bool option list \<times> 's" where
  "attempts k [] s = ([], s)"
| "attempts k ((e, v) # ws) s =
     (let (b, s1) = put_new e k v s; (bs, s2) = attempts k ws s1 in (b # bs, s2))"

lemma attempts_taken:
  assumes "get s k = Some w" and "key_valid k" and "\<forall>(e, v) \<in> set ws. value_valid v"
    and "attempts k ws s = (bs, s')"
  shows "get s' k = Some w \<and> Some True \<notin> set bs"
  using assms
proof (induction ws arbitrary: s bs)
  case (Cons x ws)
  obtain e v b s1 bs' where x: "x = (e, v)" and p: "put_new e k v s = (b, s1)"
    and r: "attempts k ws s1 = (bs', s')" "bs = b # bs'"
    using Cons.prems(4) by (cases x) (auto split: prod.splits)
  have b: "b \<noteq> Some True" using put_new_won [of v e k s s1] p Cons.prems(1,3) x by auto
  then have "get s1 k = Some w" using put_new_other [OF Cons.prems(2) p] Cons.prems(1) by simp
  with Cons.IH [OF this Cons.prems(2) _ r(1)] Cons.prems(3) r(2) b show ?case by auto
qed simp

text \<open>At most one of them wins, and what it wrote is what is there afterwards.\<close>

lemma one_winner:
  assumes "key_valid k" and "\<forall>(e, v) \<in> set ws. value_valid v" and "attempts k ws s = (bs, s')"
  shows "length (filter ((=) (Some True)) bs) \<le> 1
    \<and> (\<forall>i < length ws. bs ! i = Some True \<longrightarrow> get s' k = Some (snd (ws ! i)))"
  using assms
proof (induction ws arbitrary: s bs)
  case (Cons x ws)
  obtain e v b s1 bs' where x: "x = (e, v)" and p: "put_new e k v s = (b, s1)"
    and r: "attempts k ws s1 = (bs', s')" "bs = b # bs'"
    using Cons.prems(3) by (cases x) (auto split: prod.splits)
  have vs: "\<forall>(e, v) \<in> set ws. value_valid v" using Cons.prems(2) by simp
  show ?case
  proof (cases "b = Some True")
    case True
    then have "get s1 k = Some v" using put_new_won [of v e k s s1] p Cons.prems(2) x by auto
    from attempts_taken [OF this Cons.prems(1) vs r(1)] have a: "get s' k = Some v" "Some True \<notin> set bs'" by auto
    have l: "length bs' = length ws" using r(1)
      by (induction ws arbitrary: s1 bs') (auto split: prod.splits)
    from a(2) have "filter ((=) (Some True)) bs' = []" by (auto simp: filter_empty_conv)
    moreover have "\<forall>i < length ws. bs' ! i \<noteq> Some True" using a(2) l nth_mem [of _ bs'] by metis
    ultimately show ?thesis using a True r(2) x by (auto simp: nth_Cons split: nat.splits)
  next
    case False
    with Cons.IH [OF Cons.prems(1) vs r(1)] r(2) show ?thesis by (auto simp: nth_Cons split: nat.splits)
  qed
qed simp

end

text \<open>The record under a key, and the operations as the locale sees them.\<close>

definition record_at :: "string \<Rightarrow> files \<Rightarrow> store_key \<Rightarrow> hook_record option" where
  "record_at root f k = (case f (key_path root k) of None \<Rightarrow> None | Some raw \<Rightarrow> read_record raw)"

definition put_at :: "string \<Rightarrow> store_env \<Rightarrow> store_key \<Rightarrow> hook_record \<Rightarrow> files \<Rightarrow> bool \<times> files" where
  "put_at root e k r f = (let (res, as) = store_put e root (fst k) (snd k) r in (is_ok res, run_actions as f))"

definition put_new_at :: "string \<Rightarrow> store_env \<Rightarrow> store_key \<Rightarrow> hook_record \<Rightarrow> files \<Rightarrow> bool option \<times> files" where
  "put_new_at root e k r f =
     (let (res, as) = store_put_new e root (fst k) (snd k) r f
      in ((case res of Inl _ \<Rightarrow> None | Inr won \<Rightarrow> Some won), run_actions as f))"

definition delete_at :: "string \<Rightarrow> store_env \<Rightarrow> store_key \<Rightarrow> files \<Rightarrow> bool \<times> files" where
  "delete_at root e k f = (let (res, as) = store_delete e root (fst k) (snd k) f in (is_ok res, run_actions as f))"

text \<open>An operation touches its record's file and temporary files only.\<close>

definition temp_of :: "string \<Rightarrow> store_key \<Rightarrow> string \<Rightarrow> bool" where
  "temp_of root k p \<longleftrightarrow> (\<exists>bytes. p = path_join [path_dir (key_path root k), ''.tmp-'' @ hex_encode bytes])"

lemma write_temp_cases:
  assumes "write_temp e (path_dir (key_path root k)) r = (t, as)"
  obtains "t = None" "as = []"
  | tmp part where "t = None" "as = [WriteFile tmp part]" "temp_of root k tmp"
  | tmp where "t = Some tmp" "as = [WriteFile tmp (write_record r)]" "temp_of root k tmp"
  using assms by (auto simp: write_temp_def temp_of_def Let_def split: option.splits)

lemma temp_apart: "is_abs root \<Longrightarrow> key_ok k \<Longrightarrow> key_ok j \<Longrightarrow> temp_of root k tmp \<Longrightarrow> tmp \<noteq> key_path root j"
  using temp_not_key [of root j k] by (auto simp: temp_of_def)

lemma key_not_temp: "is_abs root \<Longrightarrow> key_ok k \<Longrightarrow> \<not> temp_of root k (key_path root k)"
  using temp_apart by blast

lemma store_put_cases:
  assumes "store_put e root (fst k) (snd k) r = (res, as)"
  obtains "\<not> is_ok res" "as = []"
  | tmp part where "is_abs root" "key_ok k" "temp_of root k tmp" "\<not> is_ok res" "as = [WriteFile tmp part]"
  | tmp where "is_abs root" "key_ok k" "temp_of root k tmp" "\<not> is_ok res" "as = [WriteFile tmp (write_record r), Unlink tmp]"
  | tmp where "is_abs root" "key_ok k" "temp_of root k tmp" "is_ok res"
      "as = [WriteFile tmp (write_record r), RenameFile tmp (key_path root k)]"
proof (cases "record_path e root (fst k) (snd k)")
  case (Inl err)
  with assms that(1) show ?thesis by (auto simp: store_put_def)
next
  case (Inr p)
  note p = record_path_Inr [OF Inr, simplified]
  obtain t bs where w: "write_temp e (path_dir (key_path root k)) r = (t, bs)" by fastforce
  from w show ?thesis
    by (rule write_temp_cases)
      (use assms Inr p w that in \<open>auto simp: store_put_def split: if_splits\<close>)
qed

lemma store_put_new_cases:
  assumes "store_put_new e root (fst k) (snd k) r f = (res, as)"
  obtains "res \<noteq> Inr True" "as = []"
  | tmp part where "is_abs root" "key_ok k" "temp_of root k tmp" "res \<noteq> Inr True" "as = [WriteFile tmp part]"
  | tmp where "is_abs root" "key_ok k" "temp_of root k tmp" "res \<noteq> Inr True" "as = [WriteFile tmp (write_record r), Unlink tmp]"
  | tmp where "is_abs root" "key_ok k" "temp_of root k tmp" "res = Inr True" "f (key_path root k) = None"
      "as = [WriteFile tmp (write_record r), LinkFile tmp (key_path root k), Unlink tmp]"
proof (cases "record_path e root (fst k) (snd k)")
  case (Inl err)
  with assms that(1) show ?thesis by (auto simp: store_put_new_def)
next
  case (Inr p)
  note p = record_path_Inr [OF Inr, simplified]
  obtain t bs where w: "write_temp e (path_dir (key_path root k)) r = (t, bs)" by fastforce
  from w show ?thesis
    by (rule write_temp_cases)
      (use assms Inr p w that in \<open>auto simp: store_put_new_def split: if_splits\<close>)
qed

lemma store_delete_cases:
  assumes "store_delete e root (fst k) (snd k) f = (res, as)"
  obtains "\<not> is_ok res" "as = []"
  | "is_ok res" "as = []" "f (key_path root k) = None"
  | "is_abs root" "key_ok k" "is_ok res" "as = [Unlink (key_path root k)]"
proof (cases "record_path e root (fst k) (snd k)")
  case (Inl err)
  with assms that(1) show ?thesis by (auto simp: store_delete_def)
next
  case (Inr p)
  note p = record_path_Inr [OF Inr, simplified]
  with assms Inr that show ?thesis by (auto simp: store_delete_def split: if_splits)
qed

lemma record_at_upd:
  assumes "is_abs root" and "key_ok k" and "key_ok j"
  shows "temp_of root k tmp \<Longrightarrow> record_at root (f(tmp := x)) j = record_at root f j"
    and "j \<noteq> k \<Longrightarrow> record_at root (f(key_path root k := x)) j = record_at root f j"
    and "record_at root (f(key_path root k \<mapsto> raw)) k = read_record raw"
    and "record_at root (f(key_path root k := None)) k = None"
  using temp_apart [OF assms] key_path_inj [OF assms(1,3,2)] by (auto simp: record_at_def)

interpretation hook_store: record_store "record_at root" "put_at root" "put_new_at root" "delete_at root" key_ok record_ok
  for root
proof unfold_locales
  fix v e k s s'
  assume v: "record_ok v"
  { assume "put_at root e k v s = (True, s')"
    then obtain res as where p: "store_put e root (fst k) (snd k) v = (res, as)" "is_ok res" "s' = run_actions as s"
      by (auto simp: put_at_def Let_def split: prod.splits)
    from p(1) show "record_at root s' k = Some v"
      by (rule store_put_cases)
        (use p key_not_temp [of root k] record_roundtrip [OF v] in \<open>auto simp: record_at_def\<close>) }
  { assume "put_new_at root e k v s = (Some True, s')"
    then obtain as where p: "store_put_new e root (fst k) (snd k) v s = (Inr True, as)" "s' = run_actions as s"
      by (auto simp: put_new_at_def Let_def split: prod.splits sum.splits)
    from p(1) show "record_at root s k = None \<and> record_at root s' k = Some v"
      by (rule store_put_new_cases)
        (use p key_not_temp [of root k] record_roundtrip [OF v] in \<open>auto simp: record_at_def\<close>) }
next
  fix j e k v s b s'
  assume j: "key_ok j"
  { assume "put_at root e k v s = (b, s')" and b: "b = False \<or> j \<noteq> k"
    then obtain res as where p: "store_put e root (fst k) (snd k) v = (res, as)" "b = is_ok res" "s' = run_actions as s"
      by (auto simp: put_at_def Let_def split: prod.splits)
    from p(1) show "record_at root s' j = record_at root s j"
      by (rule store_put_cases) (use p b j record_at_upd in auto) }
  { assume "delete_at root e k s = (b, s')" and b: "b = False \<or> j \<noteq> k"
    then obtain res as where p: "store_delete e root (fst k) (snd k) s = (res, as)" "b = is_ok res" "s' = run_actions as s"
      by (auto simp: delete_at_def Let_def split: prod.splits)
    from p(1) show "record_at root s' j = record_at root s j"
      by (rule store_delete_cases) (use p b j record_at_upd in auto) }
next
  fix j e k v s w s'
  assume j: "key_ok j" and "put_new_at root e k v s = (w, s')" and b: "w \<noteq> Some True \<or> j \<noteq> k"
  then obtain res as where p: "store_put_new e root (fst k) (snd k) v s = (res, as)" "s' = run_actions as s"
    "res = Inr True \<longrightarrow> w = Some True"
    by (auto simp: put_new_at_def Let_def split: prod.splits)
  from p(1) show "record_at root s' j = record_at root s j"
    by (rule store_put_new_cases) (use p b j record_at_upd in auto)
next
  fix e k s s'
  assume "delete_at root e k s = (True, s')"
  then obtain res as where p: "store_delete e root (fst k) (snd k) s = (res, as)" "is_ok res" "s' = run_actions as s"
    by (auto simp: delete_at_def Let_def split: prod.splits)
  from p(1) show "record_at root s' k = None"
    by (rule store_delete_cases) (use p in \<open>auto simp: record_at_def\<close>)
qed

subsection \<open>Properties\<close>

text \<open>
  What is on disk when a process dies somewhere in a sequence of actions: a whole number of them done,
  and of the next, if it is a write, any content.
\<close>

definition crashed :: "file_action list \<Rightarrow> files \<Rightarrow> files \<Rightarrow> bool" where
  "crashed as f f' \<longleftrightarrow>
     (\<exists>n \<le> length as. f' = run_actions (take n as) f
        \<or> (\<exists>p s part. n < length as \<and> as ! n = WriteFile p s \<and> f' = run_actions (take n as @ [WriteFile p part]) f))"

lemma crashed_Nil: "crashed [] f f' \<longleftrightarrow> f' = f"
  by (auto simp: crashed_def)

lemma crashed_Cons:
  "crashed (a # as) f f' \<Longrightarrow>
     f' = f \<or> (\<exists>p s part. a = WriteFile p s \<and> f' = f(p \<mapsto> part)) \<or> crashed as (act a f) f'"
proof -
  assume "crashed (a # as) f f'"
  then obtain n where n: "n \<le> length (a # as)" and c: "f' = run_actions (take n (a # as)) f
      \<or> (\<exists>p s part. n < length (a # as) \<and> (a # as) ! n = WriteFile p s \<and> f' = run_actions (take n (a # as) @ [WriteFile p part]) f)"
    by (auto simp: crashed_def)
  show ?thesis
  proof (cases n)
    case 0
    with c show ?thesis by auto
  next
    case (Suc m)
    with n c have "crashed as (act a f) f'" by (auto simp: crashed_def intro!: exI [of _ m])
    then show ?thesis by simp
  qed
qed

text \<open>Putting a record is atomic: whenever the process dies, torn writes included, every record of every
  session and agent is the one before or, for the record being put, the new one whole; a reader never
  sees part of a record.\<close>
theorem store_put_atomic:
  assumes "store_put e root session_id agent_id r = (res, as)" and "record_ok r" and "crashed as f f'"
    and "key_ok k"
  shows "record_at root f' k = record_at root f k
    \<or> (k = (session_id, agent_id) \<and> record_at root f' k = Some r)"
proof -
  let ?k = "(session_id, agent_id)"
  have "store_put e root (fst ?k) (snd ?k) r = (res, as)" using assms(1) by simp
  then show ?thesis
  proof (rule store_put_cases)
    assume "as = []"
    with assms(3) show ?thesis by (simp add: crashed_Nil)
  next
    fix tmp part
    assume t: "is_abs root" "key_ok ?k" "temp_of root ?k tmp" and as: "as = [WriteFile tmp part]"
    from record_at_upd(1) [OF t(1,2) assms(4) t(3)] assms(3) as show ?thesis
      by (auto dest!: crashed_Cons simp: crashed_Nil)
  next
    fix tmp
    assume t: "is_abs root" "key_ok ?k" "temp_of root ?k tmp" and as: "as = [WriteFile tmp (write_record r), Unlink tmp]"
    from record_at_upd(1) [OF t(1,2) assms(4) t(3)] assms(3) as show ?thesis
      by (auto dest!: crashed_Cons simp: crashed_Nil)
  next
    fix tmp
    assume t: "is_abs root" "key_ok ?k" "temp_of root ?k tmp"
      and as: "as = [WriteFile tmp (write_record r), RenameFile tmp (key_path root ?k)]"
    note u = record_at_upd [OF t(1,2) assms(4)]
    show ?thesis
    proof (cases "k = ?k")
      case True
      with assms(3) as u t key_not_temp [OF t(1,2)] record_roundtrip [OF assms(2)] show ?thesis
        by (auto dest!: crashed_Cons simp: crashed_Nil)
    next
      case False
      with assms(3) as u t show ?thesis by (auto dest!: crashed_Cons simp: crashed_Nil)
    qed
  qed
qed

definition sample_store_env :: store_env where
  "sample_store_env = \<lparr>se_mkdir = (\<lambda>_. True), se_lstat = (\<lambda>_. Inr \<lparr>fi_kind = Directory, fi_perm = 448, fi_uid = 1000\<rparr>),
     se_euid = 1000, se_read = (\<lambda>_. True), se_nonce = Some ''12345678'', se_write = (\<lambda>_. None), se_rename = (\<lambda>_. True),
     se_link = (\<lambda>_. True), se_remove = (\<lambda>_. True)\<rparr>"

definition sample_record :: hook_record where
  "sample_record = \<lparr>hr_dir = ''/run/d'', hr_expires_at = 200, hr_definition = [], hr_start_agent_type = [], hr_agent_type = []\<rparr>"

lemma sample_record_ok: "record_ok sample_record"
  by (auto simp: record_ok_def sample_record_def int64_range_def code_def intro!: utf8_ascii)

lemma sample_key_ok: "key_ok (''s1'', ''a1'')" "key_ok (''s1'', [])"
  by (simp_all add: key_ok_def safe_name_def char_class_defs)

lemma sample_record_path:
  "key_ok (s, a) \<Longrightarrow> record_path sample_store_env ''/state'' s a = Inr (key_path ''/state'' (s, a))"
  by (auto simp: record_path_def session_dir_def ensure_root_def check_private_dir_def sample_store_env_def Let_def
      is_abs_def key_path_def key_file_def key_ok_def group_or_other_write_def)

lemma sample_put:
  "\<exists>tmp. store_put sample_store_env ''/state'' ''s1'' ''a1'' r =
     (Inr (), [WriteFile tmp (write_record r), RenameFile tmp (key_path ''/state'' (''s1'', ''a1''))])"
  using sample_record_path [OF sample_key_ok(1)]
  by (auto simp: store_put_def write_temp_def sample_store_env_def Let_def)

theorem store_put_atomic_witness:
  "\<exists>tmp. temp_of ''/state'' (''s1'', ''a1'') tmp
     \<and> record_at ''/state'' [tmp \<mapsto> ''{''] (''s1'', ''a1'') \<in> {None, Some sample_record}"
proof -
  let ?tmp = "path_join [path_dir (key_path ''/state'' (''s1'', ''a1'')), ''.tmp-'' @ hex_encode ''12345678'']"
  have p: "store_put sample_store_env ''/state'' ''s1'' ''a1'' sample_record =
     (Inr (), [WriteFile ?tmp (write_record sample_record), RenameFile ?tmp (key_path ''/state'' (''s1'', ''a1''))])"
    using sample_record_path [OF sample_key_ok(1)]
    by (simp add: store_put_def write_temp_def sample_store_env_def Let_def)
  have "crashed [WriteFile ?tmp (write_record sample_record), RenameFile ?tmp (key_path ''/state'' (''s1'', ''a1''))]
      Map.empty [?tmp \<mapsto> ''{'']"
    unfolding crashed_def by (intro exI [of _ 0]) auto
  from store_put_atomic [OF p sample_record_ok this sample_key_ok(1)] have
    "record_at ''/state'' [?tmp \<mapsto> ''{''] (''s1'', ''a1'') \<in> {None, Some sample_record}"
    by (auto simp: record_at_def)
  moreover have "temp_of ''/state'' (''s1'', ''a1'') ?tmp" unfolding temp_of_def by blast
  ultimately show ?thesis by blast
qed

text \<open>C24: Of any number of processes that try to be first under one key, in any order and failing as they may, at
  most one is told it won, the record it wrote is the one there afterwards, and a record that was
  already there stays.\<close>
theorem first_writer_wins:
  assumes "key_ok k" and "\<forall>w \<in> set ws. record_ok (snd w)" and "hook_store.attempts root k ws f = (won, f')"
  shows "length (filter ((=) (Some True)) won) \<le> 1
    \<and> (\<forall>i < length ws. won ! i = Some True \<longrightarrow> record_at root f' k = Some (snd (ws ! i)))
    \<and> (record_at root f k \<noteq> None \<longrightarrow> record_at root f' k = record_at root f k)"
proof -
  have v: "\<forall>(e, r) \<in> set ws. record_ok r" using assms(2) by auto
  show ?thesis
    using hook_store.one_winner [OF assms(1) v assms(3)] hook_store.attempts_taken [OF _ assms(1) v assms(3)] by auto
qed

theorem first_writer_wins_witness:
  "record_at ''/state'' (snd (hook_store.attempts ''/state'' (''s1'', ''a1'')
      [(sample_store_env, sample_record), (sample_store_env, zero_record)] Map.empty)) (''s1'', ''a1'') = Some sample_record"
proof -
  let ?ws = "[(sample_store_env, sample_record), (sample_store_env, zero_record)]" and ?k = "(''s1'', ''a1'')"
  obtain won f' where a: "hook_store.attempts ''/state'' ?k ?ws Map.empty = (won, f')" by fastforce
  have "record_ok zero_record"
    by (auto simp: record_ok_def zero_record_def int64_range_def intro!: utf8_ascii)
  then have v: "\<forall>w \<in> set ?ws. record_ok (snd w)" using sample_record_ok by simp
  have "won ! 0 = Some True"
    using a sample_record_path [OF sample_key_ok(1)]
    by (auto simp: put_new_at_def store_put_new_def write_temp_def sample_store_env_def Let_def split: prod.splits)
  with first_writer_wins [OF sample_key_ok(1) v a] show ?thesis unfolding a by fastforce
qed

end
