(* ===== verification/ReadOnly.thy ===== *)
theory ReadOnly
  imports Prelude
begin

text \<open>
  The commands a delivery is skipped for, \<open>internal/hook/readonly.go\<close>: a scanner that splits a
  command line into simple commands, and the closed set of utilities they may name. The scanner's
  state is the code's four variables; its position is the rest of the command.
\<close>

record shell_word =
  sw_text :: string
  sw_quoted :: bool

record scan =
  sc_segments :: "shell_word list list"
  sc_words :: "shell_word list"
  sc_text :: string
  sc_in_word :: bool
  sc_quoted :: bool

definition scan_start :: scan where
  "scan_start = \<lparr>sc_segments = [], sc_words = [], sc_text = [], sc_in_word = False, sc_quoted = False\<rparr>"

subsection \<open>Redirections\<close>

definition discard_redirects :: "string list" where
  "discard_redirects = [''2>/dev/null'', ''>/dev/null'', ''2>&1'']"

definition ends_word :: "string \<Rightarrow> bool" where
  "ends_word s = (case s of [] \<Rightarrow> True | c # _ \<Rightarrow> c \<in> {CHR '' '', CHR 0x09, CHR '';'', CHR ''|'', CHR ''&''})"

fun redirect_loop :: "string list \<Rightarrow> string \<Rightarrow> nat" where
  "redirect_loop [] s = 0"
| "redirect_loop (r # rs) s =
     (if \<not> has_prefix s r then redirect_loop rs s
      else if ends_word (drop (length r) s) then length r
      else redirect_loop rs s)"

definition discard_redirect_at :: "string \<Rightarrow> nat" where
  "discard_redirect_at s = redirect_loop discard_redirects s"

subsection \<open>The scanner\<close>

definition end_word :: "scan \<Rightarrow> scan" where
  "end_word st =
     st\<lparr>sc_words := (if sc_in_word st then sc_words st @ [\<lparr>sw_text = sc_text st, sw_quoted = sc_quoted st\<rparr>]
                    else sc_words st),
        sc_text := [], sc_in_word := False, sc_quoted := False\<rparr>"

definition end_command :: "scan \<Rightarrow> scan option" where
  "end_command st =
     (let t = end_word st
      in if sc_words t = [] then None
         else Some (t\<lparr>sc_segments := sc_segments t @ [sc_words t], sc_words := []\<rparr>))"

definition add_quoted :: "string \<Rightarrow> scan \<Rightarrow> scan" where
  "add_quoted s st = st\<lparr>sc_text := sc_text st @ s, sc_in_word := True, sc_quoted := True\<rparr>"

definition add_plain :: "char \<Rightarrow> scan \<Rightarrow> scan" where
  "add_plain c st = st\<lparr>sc_text := sc_text st @ [c], sc_in_word := True\<rparr>"

definition expands_in_quotes :: "char \<Rightarrow> bool" where
  "expands_in_quotes c \<longleftrightarrow> c \<in> {CHR ''$'', CHR 0x60, CHR 0x5C}"

definition is_control :: "char \<Rightarrow> bool" where
  "is_control c \<longleftrightarrow> code c < 32 \<or> code c = 127"

definition refused_plain :: "char \<Rightarrow> bool" where
  "refused_plain c \<longleftrightarrow>
     is_control c \<or> expands_in_quotes c \<or> c \<in> {CHR ''('', CHR '')'', CHR ''<'', CHR ''>'', CHR ''*'', CHR ''?'', CHR ''[''}"

text \<open>One character, or one piece, of the command: the new state and what is left.\<close>

definition scan_step :: "scan \<Rightarrow> char \<Rightarrow> string \<Rightarrow> (scan \<times> string) option" where
  "scan_step st c r =
     (if \<not> sc_in_word st \<and> discard_redirect_at (c # r) > 0
      then Some (st, drop (discard_redirect_at (c # r)) (c # r))
      else if c = CHR '' '' \<or> c = CHR 0x09 then Some (end_word st, r)
      else if c = CHR 0x27 then
        (case index_byte r CHR 0x27 of
           None \<Rightarrow> None
         | Some k \<Rightarrow> Some (add_quoted (take k r) st, drop (Suc k) r))
      else if c = CHR 0x22 then
        (let body = takeWhile (\<lambda>d. d \<noteq> CHR 0x22) r
         in if list_ex expands_in_quotes body then None
            else if length body = length r then None
            else Some (add_quoted body st, drop (Suc (length body)) r))
      else if c = CHR '';'' then map_option (\<lambda>st'. (st', r)) (end_command st)
      else if c = CHR ''|'' then
        (case end_command st of
           None \<Rightarrow> None
         | Some st' \<Rightarrow>
             (case r of
                [] \<Rightarrow> Some (st', r)
              | d # r' \<Rightarrow> if d = CHR ''|'' then Some (st', r') else if d = CHR ''&'' then None else Some (st', r)))
      else if c = CHR ''&'' then
        (case r of
           [] \<Rightarrow> None
         | d # r' \<Rightarrow> if d \<noteq> CHR ''&'' then None else map_option (\<lambda>st'. (st', r')) (end_command st))
      else if refused_plain c \<or> (c = CHR ''#'' \<and> \<not> sc_in_word st) then None
      else Some (add_plain c st, r))"

lemma scan_step_shorter: "scan_step st c r = Some (st', r') \<Longrightarrow> length r' \<le> length r"
  by (auto simp: scan_step_def Let_def split: if_splits option.splits list.splits)

function scan_loop :: "scan \<Rightarrow> string \<Rightarrow> scan option" where
  "scan_loop st [] = end_command st"
| "scan_loop st (c # r) =
     (case scan_step st c r of None \<Rightarrow> None | Some (st', r') \<Rightarrow> scan_loop st' r')"
  by pat_completeness auto
termination
  by (relation "measure (length \<circ> snd)") (auto dest: scan_step_shorter)

definition split_simple_commands :: "string \<Rightarrow> shell_word list list option" where
  "split_simple_commands command = map_option sc_segments (scan_loop scan_start command)"

subsection \<open>The closed set\<close>

definition date_options :: "string list" where
  "date_options = [''-u'', ''--utc'', ''--universal'', ''-R'', ''--rfc-email'', ''-I'', ''--iso-8601'']"

fun date_args :: "shell_word list \<Rightarrow> bool" where
  "date_args [] = True"
| "date_args (a # as) =
     (if has_prefix (sw_text a) ''+'' \<or> sw_text a \<in> set date_options then date_args as else False)"

definition read_only_utility :: "string \<Rightarrow> (shell_word list \<Rightarrow> bool) option" where
  "read_only_utility name =
     (if name = ''date'' then Some date_args
      else if name \<in> {''cat'', ''echo'', ''grep'', ''head'', ''ls'', ''pwd'', ''tail'', ''wc''} then Some (\<lambda>_. True)
      else None)"

text \<open>
  \<open>strings.ToLower\<close>, as far as a search for ASCII text sees it: the two code points outside ASCII
  that it maps into ASCII are U+0130 and U+212A; every other code point outside stays outside.
\<close>

fun to_lower :: "string \<Rightarrow> string" where
  "to_lower [] = []"
| "to_lower (c # s) =
     (if has_prefix (c # s) [CHR 0xC4, CHR 0xB0] then CHR ''i'' # to_lower (tl s)
      else if has_prefix (c # s) [CHR 0xE2, CHR 0x84, CHR 0xAA] then CHR ''k'' # to_lower (tl (tl s))
      else (if is_upper c then char_of (code c + 32) else c) # to_lower s)"

definition names_environment :: "string \<Rightarrow> bool" where
  "names_environment s \<longleftrightarrow> contains (to_lower s) ''/proc'' \<or> contains (to_lower s) ''environ''"

definition segment_ok :: "shell_word list \<Rightarrow> bool" where
  "segment_ok words =
     (case words of
        [] \<Rightarrow> False
      | w # args \<Rightarrow>
          (case read_only_utility (sw_text w) of
             None \<Rightarrow> False
           | Some check \<Rightarrow>
               if sw_quoted w then False
               else if list_ex (\<lambda>a. names_environment (sw_text a)) args then False
               else check args))"

definition cannot_use_identity :: "string \<Rightarrow> bool" where
  "cannot_use_identity command =
     (case split_simple_commands command of
        None \<Rightarrow> False
      | Some segments \<Rightarrow> if segments = [] then False else list_all segment_ok segments)"

subsection \<open>How a shell reads the command\<close>

text \<open>
  The quoting state at each character, by the rules of the shell for commands without a backslash:
  a single quote opens and closes literal text, a double quote opens and closes text in which only
  \<open>$\<close> and the backquote act.
\<close>

datatype quoting = Plain | Single | Double

definition quote_step :: "quoting \<Rightarrow> char \<Rightarrow> quoting" where
  "quote_step q c =
     (case q of
        Plain \<Rightarrow> if c = CHR 0x27 then Single else if c = CHR 0x22 then Double else Plain
      | Single \<Rightarrow> if c = CHR 0x27 then Plain else Single
      | Double \<Rightarrow> if c = CHR 0x22 then Plain else Double)"

text \<open>Whether the character at the head of a suffix, in a quoting state, acts on nothing but words.\<close>

definition inert_at :: "quoting \<Rightarrow> string \<Rightarrow> bool" where
  "inert_at q s =
     (case s of
        [] \<Rightarrow> True
      | c # r \<Rightarrow>
          (case q of
             Plain \<Rightarrow> (if c = CHR ''>'' then has_prefix r ''/dev/null'' \<or> has_prefix r ''&1''
                       else c = CHR 0x09 \<or> \<not> refused_plain c)
           | Single \<Rightarrow> True
           | Double \<Rightarrow> \<not> expands_in_quotes c))"

fun inert :: "quoting \<Rightarrow> string \<Rightarrow> bool" where
  "inert q [] = (q = Plain)"
| "inert q (c # s) = (inert_at q (c # s) \<and> inert (quote_step q c) s)"

lemma inert_single:
  "CHR 0x27 \<notin> set body \<Longrightarrow> inert Single (body @ CHR 0x27 # rest) = inert Plain rest"
  by (induction body) (auto simp: inert_at_def quote_step_def)

lemma inert_double:
  "CHR 0x22 \<notin> set body \<Longrightarrow> \<not> list_ex expands_in_quotes body \<Longrightarrow>
     inert Double (body @ CHR 0x22 # rest) = inert Plain rest"
  by (induction body) (auto simp: inert_at_def quote_step_def expands_in_quotes_def)

lemma plain_tail: "inert Plain (c # r) \<longleftrightarrow> inert_at Plain (c # r) \<and> inert Plain r"
  if "c \<noteq> CHR 0x27" "c \<noteq> CHR 0x22"
  using that by (simp add: quote_step_def)

lemma inert_passes:
  assumes "c = CHR 0x09 \<or> \<not> refused_plain c" and "c \<noteq> CHR 0x27" "c \<noteq> CHR 0x22"
  shows "inert Plain (c # r) = inert Plain r"
proof -
  have "c \<noteq> CHR ''>''" using assms(1) by (auto simp: refused_plain_def)
  then show ?thesis using assms by (auto simp: quote_step_def inert_at_def)
qed

lemma separators_pass:
  "c \<in> {CHR '' '', CHR 0x09, CHR '';'', CHR ''|'', CHR ''&''} \<Longrightarrow> inert Plain (c # r) = inert Plain r"
  by (rule inert_passes) (auto simp: refused_plain_def expands_in_quotes_def is_control_def code_def)

lemma step_rest:
  assumes "scan_step st c r = Some (st', r')" and "sc_in_word st \<or> discard_redirect_at (c # r) = 0"
    and "c \<noteq> CHR 0x27" "c \<noteq> CHR 0x22"
  shows "r' = r \<and> (c \<in> {CHR '' '', CHR 0x09, CHR '';'', CHR ''|'', CHR ''&''} \<or> \<not> refused_plain c)
    \<or> (\<exists>d. r = d # r' \<and> d \<in> {CHR ''|'', CHR ''&''} \<and> c \<in> {CHR ''|'', CHR ''&''})"
proof (cases "c \<in> {CHR '' '', CHR 0x09, CHR '';'', CHR ''|'', CHR ''&''}")
  case True
  with assms show ?thesis
    by (elim insertE) (auto simp: scan_step_def split: if_splits option.splits list.splits)
next
  case False
  with assms show ?thesis by (auto simp: scan_step_def split: if_splits)
qed

lemmas inert_chars = inert_at_def refused_plain_def expands_in_quotes_def is_control_def code_def

lemma discard_redirect_cases:
  assumes "discard_redirect_at s > 0"
  obtains r where "s = ''2>/dev/null'' @ r" "discard_redirect_at s = 11"
  | r where "s = ''>/dev/null'' @ r" "discard_redirect_at s = 10"
  | r where "s = ''2>&1'' @ r" "discard_redirect_at s = 4"
  using assms unfolding discard_redirect_at_def discard_redirects_def
  by (auto simp: has_prefix_iff split: if_splits)

lemma redirect_inert:
  assumes "discard_redirect_at s > 0"
  shows "inert Plain s = inert Plain (drop (discard_redirect_at s) s)"
  using assms by (rule discard_redirect_cases) (simp_all add: inert_chars quote_step_def)

lemma takeWhile_all_length: "length (takeWhile P xs) \<noteq> length xs \<Longrightarrow> \<exists>y ys. xs = takeWhile P xs @ y # ys \<and> \<not> P y"
  by (induction xs) auto

lemma step_inert:
  assumes "scan_step st c r = Some (st', r')"
  shows "inert Plain (c # r) = inert Plain r'"
proof (cases "\<not> sc_in_word st \<and> discard_redirect_at (c # r) > 0")
  case True
  with assms redirect_inert [of "c # r"] show ?thesis by (simp add: scan_step_def)
next
  case red: False
  consider "c = CHR 0x27" | "c = CHR 0x22" | "c \<noteq> CHR 0x27" "c \<noteq> CHR 0x22" by blast
  then show ?thesis
  proof cases
    case 1
    with assms red obtain k where k: "index_byte r CHR 0x27 = Some k" "r' = drop (Suc k) r"
      by (auto simp: scan_step_def split: option.splits)
    from index_byte_Some [OF k(1)] have i: "k < length r" "r ! k = CHR 0x27" "CHR 0x27 \<notin> set (take k r)" by auto
    have "r = take k r @ CHR 0x27 # r'" using id_take_nth_drop [OF i(1)] unfolding i(2) k(2) .
    with inert_single [OF i(3), of r'] have "inert Single r = inert Plain r'" by simp
    with 1 show ?thesis by (simp add: inert_chars quote_step_def)
  next
    case 2
    let ?b = "takeWhile (\<lambda>d. d \<noteq> CHR 0x22) r"
    from 2 assms red have b: "\<not> list_ex expands_in_quotes ?b" "length ?b \<noteq> length r" "r' = drop (Suc (length ?b)) r"
      by (auto simp: scan_step_def Let_def split: if_splits)
    from takeWhile_all_length [OF b(2)] obtain y ys where "r = ?b @ y # ys" "y = CHR 0x22" by auto
    moreover from this b(3) have "r' = ys" by (metis append_eq_conv_conj drop_Suc list.sel(3) tl_drop)
    moreover have "CHR 0x22 \<notin> set ?b" by (auto dest: set_takeWhileD)
    ultimately have "inert Double r = inert Plain r'" using inert_double b(1) by metis
    with 2 show ?thesis by (simp add: inert_chars quote_step_def)
  next
    case 3
    from step_rest [OF assms _ this] red consider
      "r' = r" "c \<in> {CHR '' '', CHR 0x09, CHR '';'', CHR ''|'', CHR ''&''} \<or> \<not> refused_plain c"
      | d where "r = d # r'" "d \<in> {CHR ''|'', CHR ''&''}" "c \<in> {CHR ''|'', CHR ''&''}" by auto
    then show ?thesis
      using 3 by cases (auto simp del: inert.simps simp: inert_passes separators_pass)
  qed
qed

lemma loop_inert: "scan_loop st s = Some t \<Longrightarrow> inert Plain s"
proof (induction st s arbitrary: t rule: scan_loop.induct)
  case (2 st c r)
  then obtain st' r' where "scan_step st c r = Some (st', r')" "scan_loop st' r' = Some t"
    by (auto split: option.splits)
  with 2(1) step_inert show ?case by blast
qed simp

text \<open>No segment is empty, so the code's first word always exists.\<close>

definition segments_nonempty :: "scan \<Rightarrow> bool" where
  "segments_nonempty st \<longleftrightarrow> [] \<notin> set (sc_segments st)"

lemma end_word_segments [simp]: "sc_segments (end_word st) = sc_segments st"
  by (simp add: end_word_def)

lemma end_command_nonempty: "end_command st = Some st' \<Longrightarrow> segments_nonempty st \<Longrightarrow> segments_nonempty st'"
  by (auto simp: end_command_def segments_nonempty_def Let_def split: if_splits)

lemma step_nonempty: "scan_step st c r = Some (st', r') \<Longrightarrow> segments_nonempty st \<Longrightarrow> segments_nonempty st'"
  by (auto simp: scan_step_def Let_def add_quoted_def add_plain_def dest: end_command_nonempty
      split: if_splits option.splits list.splits)
    (auto simp: segments_nonempty_def)

lemma loop_nonempty: "scan_loop st s = Some t \<Longrightarrow> segments_nonempty st \<Longrightarrow> segments_nonempty t"
proof (induction st s arbitrary: t rule: scan_loop.induct)
  case (2 st c r)
  then obtain st' r' where s: "scan_step st c r = Some (st', r')" "scan_loop st' r' = Some t"
    by (auto split: option.splits)
  with 2(1) [OF s(1) refl s(2)] step_nonempty [OF s(1) 2(3)] show ?case by blast
qed (auto dest: end_command_nonempty)

subsection \<open>Lines of quoted arguments\<close>

text \<open>A line in the scanner's language: utilities with single-quoted arguments, joined by \<open>;\<close>.\<close>

definition quote_arg :: "string \<Rightarrow> string" where
  "quote_arg a = '' '' @ [CHR 0x27] @ a @ [CHR 0x27]"

definition render_simple :: "string \<times> string list \<Rightarrow> string" where
  "render_simple c = fst c @ concat (map quote_arg (snd c))"

definition words_of :: "string \<times> string list \<Rightarrow> shell_word list" where
  "words_of c = \<lparr>sw_text = fst c, sw_quoted = False\<rparr> # map (\<lambda>a. \<lparr>sw_text = a, sw_quoted = True\<rparr>) (snd c)"

definition renderable :: "string \<times> string list \<Rightarrow> bool" where
  "renderable c \<longleftrightarrow> fst c \<noteq> [] \<and> list_all is_lower (fst c) \<and> list_all (\<lambda>a. CHR 0x27 \<notin> set a) (snd c)"

lemma lower_no_redirect: "is_lower c \<Longrightarrow> discard_redirect_at (c # r) = 0"
  by (auto simp: discard_redirect_at_def discard_redirects_def is_lower_def code_def)

lemma lower_ordinary:
  "is_lower c \<Longrightarrow> c \<notin> {CHR '' '', CHR 0x09, CHR 0x27, CHR 0x22, CHR '';'', CHR ''|'', CHR ''&'', CHR ''#''}"
  "is_lower c \<Longrightarrow> \<not> refused_plain c"
  by (auto simp: refused_plain_def expands_in_quotes_def is_control_def is_lower_def code_def)

lemma lower_step: "is_lower c \<Longrightarrow> scan_step st c r = Some (add_plain c st, r)"
  using lower_no_redirect [of c r] lower_ordinary [of c] by (simp add: scan_step_def)

lemma scan_lower:
  "list_all is_lower u \<Longrightarrow> u \<noteq> [] \<Longrightarrow>
     scan_loop st (u @ r) = scan_loop (st\<lparr>sc_text := sc_text st @ u, sc_in_word := True\<rparr>) r"
proof (induction u arbitrary: st)
  case (Cons c u)
  then show ?case by (cases "u = []") (simp_all add: lower_step add_plain_def)
qed simp

lemma index_byte_append: "c \<notin> set a \<Longrightarrow> index_byte (a @ c # r) c = Some (length a)"
  by (induction a) auto

lemma quote_no_redirect: "discard_redirect_at (CHR 0x27 # r) = 0" "discard_redirect_at (CHR '' '' # r) = 0"
  "discard_redirect_at (CHR '';'' # r) = 0"
  by (simp_all add: discard_redirect_at_def discard_redirects_def)

lemma scan_quoted:
  assumes "CHR 0x27 \<notin> set a"
  shows "scan_loop st (quote_arg a @ r) = scan_loop (add_quoted a (end_word st)) r"
  using assms by (simp add: quote_arg_def scan_step_def quote_no_redirect index_byte_append)

lemma scan_args:
  assumes "list_all (\<lambda>a. CHR 0x27 \<notin> set a) as" and "sc_in_word st"
  shows "\<exists>st'. scan_loop st (concat (map quote_arg as) @ r) = scan_loop st' r
    \<and> end_word st' = (end_word st)\<lparr>sc_words := sc_words (end_word st) @ map (\<lambda>a. \<lparr>sw_text = a, sw_quoted = True\<rparr>) as\<rparr>
    \<and> sc_in_word st'"
  using assms
proof (induction as arbitrary: st)
  case Nil
  then show ?case by (intro exI [of _ st]) simp
next
  case (Cons a as)
  let ?t = "add_quoted a (end_word st)"
  have "sc_in_word ?t" by (simp add: add_quoted_def)
  from Cons.IH [OF _ this] Cons.prems(1) obtain st' where s:
    "scan_loop ?t (concat (map quote_arg as) @ r) = scan_loop st' r"
    "end_word st' = (end_word ?t)\<lparr>sc_words := sc_words (end_word ?t) @ map (\<lambda>a. \<lparr>sw_text = a, sw_quoted = True\<rparr>) as\<rparr>"
    "sc_in_word st'" by auto
  moreover have "end_word ?t = (end_word st)\<lparr>sc_words := sc_words (end_word st) @ [\<lparr>sw_text = a, sw_quoted = True\<rparr>]\<rparr>"
    by (simp add: end_word_def add_quoted_def)
  ultimately show ?case
    using Cons.prems(1) scan_quoted [of a st "concat (map quote_arg as) @ r"]
    by (intro exI [of _ st']) simp
qed

text \<open>The state between two simple commands, with the segments so far.\<close>

definition between :: "shell_word list list \<Rightarrow> scan" where
  "between segs = scan_start\<lparr>sc_segments := segs\<rparr>"

lemma scan_simple:
  assumes "renderable c"
  shows "\<exists>st'. scan_loop (between segs) (render_simple c @ r) = scan_loop st' r
    \<and> end_command st' = Some (between (segs @ [words_of c]))"
proof -
  obtain u as where c: "c = (u, as)" by (cases c)
  let ?t = "(between segs)\<lparr>sc_text := u, sc_in_word := True\<rparr>"
  have u: "list_all is_lower u" "u \<noteq> []" "list_all (\<lambda>a. CHR 0x27 \<notin> set a) as" "sc_in_word ?t"
    using assms by (simp_all add: c renderable_def)
  have "scan_loop (between segs) (render_simple c @ r) = scan_loop ?t (concat (map quote_arg as) @ r)"
    using scan_lower [OF u(1,2)] by (simp add: c render_simple_def between_def scan_start_def)
  moreover from scan_args [OF u(3,4), of r] obtain st' where
    "scan_loop ?t (concat (map quote_arg as) @ r) = scan_loop st' r"
    "end_word st' = (end_word ?t)\<lparr>sc_words := sc_words (end_word ?t) @ map (\<lambda>a. \<lparr>sw_text = a, sw_quoted = True\<rparr>) as\<rparr>"
    by blast
  moreover from this(2) have "end_command st' = Some (between (segs @ [words_of c]))"
    by (simp add: end_command_def Let_def end_word_def between_def scan_start_def words_of_def c)
  ultimately show ?thesis by auto
qed

lemma render_line:
  assumes "list_all renderable cs" and "cs \<noteq> []"
  shows "scan_loop (between segs) (join_with ''; '' (map render_simple cs)) = Some (between (segs @ map words_of cs))"
  using assms
proof (induction cs arbitrary: segs)
  case (Cons c cs)
  show ?case
  proof (cases "cs = []")
    case True
    with Cons.prems scan_simple [of c segs "[]"] show ?thesis by auto
  next
    case False
    then have j: "join_with ''; '' (map render_simple (c # cs)) =
        render_simple c @ CHR '';'' # CHR '' '' # join_with ''; '' (map render_simple cs)"
      by (simp add: join_with_Cons)
    from Cons.prems have "renderable c" by simp
    from scan_simple [OF this, of segs "CHR '';'' # CHR '' '' # join_with ''; '' (map render_simple cs)"]
    obtain st' where
      "scan_loop (between segs) (join_with ''; '' (map render_simple (c # cs))) =
         scan_loop st' (CHR '';'' # CHR '' '' # join_with ''; '' (map render_simple cs))"
      "end_command st' = Some (between (segs @ [words_of c]))"
      unfolding j by blast
    moreover have "end_word (between s) = between s" for s by (simp add: end_word_def between_def scan_start_def)
    ultimately show ?thesis
      using Cons.IH [of "segs @ [words_of c]"] Cons.prems False
      by (simp add: scan_step_def quote_no_redirect)
  qed
qed simp

subsection \<open>Properties\<close>



text \<open>The scanner reads every line of utilities with single-quoted arguments back as it was written, whatever
  the arguments hold.\<close>
theorem quoted_lines_read_back:
  assumes "list_all renderable cs" and "cs \<noteq> []"
  shows "split_simple_commands (join_with ''; '' (map render_simple cs)) = Some (map words_of cs)"
  using render_line [OF assms, of "[]"] by (simp add: split_simple_commands_def between_def scan_start_def)

theorem quoted_lines_read_back_witness:
  "split_simple_commands (render_simple (''grep'', [''$(x) | y'', ''a;b''])) = Some [words_of (''grep'', [''$(x) | y'', ''a;b''])]"
  using quoted_lines_read_back [of "[(''grep'', [''$(x) | y'', ''a;b''])]"]
  by (simp add: renderable_def is_lower_def code_def)

text \<open>
  Braces are not refused: a shell with brace expansion reads this command's words as naming the
  process environment, which the check looks for only in the unexpanded text.
\<close>

lemma brace_expansion_admitted: "cannot_use_identity ''cat /{proc,x}/self/{env,x}iron''"
  by code_simp

end
