(* ===== verification/HookDelivery.thy ===== *)
theory HookDelivery
  imports HookStore ReadOnly Issuer
begin

text \<open>
  Delivery and payloads of the hook: \<open>internal/hook/delivery.go\<close>, \<open>payload.go\<close> and
  \<open>process.go\<close>. A JSON object is its members, of which the last of a name counts.
\<close>

subsection \<open>The export statement\<close>

definition env_dir :: string where "env_dir = ''CLAGENTIC_IDENTITY_DIR''"

definition export_lead :: string where "export_lead = ''export '' @ env_dir @ ''=''"

definition deliverable_char :: "char \<Rightarrow> bool" where
  "deliverable_char c \<longleftrightarrow> is_name_char c \<or> c = CHR ''/'' \<or> c = CHR ''+''"

definition check_deliverable :: "string \<Rightarrow> bool" where
  "check_deliverable dir =
     (if \<not> (has_prefix dir ''/'' \<and> 2 \<le> length dir \<and> list_all deliverable_char (tl dir)) \<or> path_clean dir \<noteq> dir
      then False else True)"

definition export_statement :: "string \<Rightarrow> string option" where
  "export_statement dir = (if \<not> check_deliverable dir then None else Some (export_lead @ dir @ ''; ''))"

definition trim_blank :: "string \<Rightarrow> string" where
  "trim_blank s = dropWhile (\<lambda>c. c = CHR '' '' \<or> c = CHR 0x09) s"

definition already_delivers :: "string \<Rightarrow> bool" where
  "already_delivers command = has_prefix (trim_blank command) export_lead"

subsection \<open>Delivery directories\<close>

definition delivery_file :: string where "delivery_file = ''identity.jwt''"

definition dir_usable :: "host \<Rightarrow> string \<Rightarrow> bool" where
  "dir_usable h dir =
     (case h_lstat h dir of
        Inl e \<Rightarrow> False
      | Inr fi \<Rightarrow>
          if fi_kind fi \<noteq> Directory then False
          else case h_lstat h (path_join [dir, delivery_file]) of
                 Inl e \<Rightarrow> False
               | Inr jwt \<Rightarrow> if fi_kind jwt \<noteq> RegularFile then False else True)"

datatype removal = RemovalRefused | NothingThere | RemovalFailed | Removed

definition remove_delivery :: "host \<Rightarrow> (string \<Rightarrow> bool) \<Rightarrow> string \<Rightarrow> removal" where
  "remove_delivery h remove_all dir =
     (if \<not> check_deliverable dir then RemovalRefused
      else if spawn_created (path_base dir) = None then RemovalRefused
      else case h_lstat h dir of
             Inl e \<Rightarrow> if e = NotExist then NothingThere else RemovalFailed
           | Inr fi \<Rightarrow>
               if fi_kind fi \<noteq> Directory then RemovalRefused
               else if fi_uid fi \<noteq> h_euid h then RemovalRefused
               else (case h_lstat h (path_join [dir, delivery_file]) of
                       Inl e \<Rightarrow> RemovalRefused
                     | Inr jwt \<Rightarrow> if remove_all dir then Removed else RemovalFailed))"

subsection \<open>Payloads\<close>

type_synonym members = "(string \<times> json) list"

definition max_payload_bytes :: nat where "max_payload_bytes = 4194304"

record payload =
  pl_raw :: members
  pl_event :: string
  pl_session_id :: string
  pl_agent_id :: string
  pl_agent_type :: string
  pl_tool_name :: string
  pl_tool_input :: members

definition string_member :: "members \<Rightarrow> string \<Rightarrow> string" where
  "string_member m key = (case lookup key m of Some (JStr s) \<Rightarrow> s | _ \<Rightarrow> [])"

text \<open>\<open>json.Unmarshal\<close> into a map: null gives the nil map, which has no members.\<close>

definition unmarshal_map :: "json \<Rightarrow> members option" where
  "unmarshal_map v = (case v of JNull \<Rightarrow> Some [] | JObj ms \<Rightarrow> Some ms | _ \<Rightarrow> None)"

definition parse_payload :: "string \<Rightarrow> payload option" where
  "parse_payload input =
     (let raw = take (max_payload_bytes + 1) input
      in if length raw > max_payload_bytes then None
         else case json_parse raw of
                None \<Rightarrow> None
              | Some v \<Rightarrow>
                  (case unmarshal_map v of
                     None \<Rightarrow> None
                   | Some m \<Rightarrow>
                       Some \<lparr>pl_raw = m, pl_event = string_member m ''hook_event_name'',
                             pl_session_id = string_member m ''session_id'', pl_agent_id = string_member m ''agent_id'',
                             pl_agent_type = string_member m ''agent_type'', pl_tool_name = string_member m ''tool_name'',
                             pl_tool_input = (case lookup ''tool_input'' m of
                                None \<Rightarrow> []
                              | Some t \<Rightarrow> (case unmarshal_map t of Some ms \<Rightarrow> ms | None \<Rightarrow> []))\<rparr>))"

definition payload_command :: "payload \<Rightarrow> string option" where
  "payload_command p =
     (let s = string_member (pl_tool_input p) ''command'' in if s = [] then None else Some s)"

subsection \<open>Assignments for processes\<close>

datatype assignment_error = OriginHuman | BadDefinitionArg | SessionRefused string | Undeliverable

definition process_assignment ::
    "(session_request \<Rightarrow> string + issued) \<Rightarrow> string \<Rightarrow> string \<Rightarrow> assignment_error + string" where
  "process_assignment issue def_name origin =
     (if origin = ''human'' then Inl OriginHuman
      else if def_name \<noteq> [] \<and> \<not> safe_name def_name then Inl BadDefinitionArg
      else case issue \<lparr>sr_definition = def_name, sr_origin = origin, sr_runtime = None\<rparr> of
             Inl e \<Rightarrow> Inl (SessionRefused e)
           | Inr out \<Rightarrow>
               if \<not> check_deliverable (iss_dir out) then Inl Undeliverable
               else Inr (env_dir @ ''='' @ iss_dir out))"

subsection \<open>Lemmas\<close>

lemma deliverable_chars:
  assumes "check_deliverable dir"
  shows "list_all deliverable_char dir" and "is_abs dir" and "path_clean dir = dir"
proof -
  have "has_prefix dir ''/'' \<and> list_all deliverable_char (tl dir) \<and> path_clean dir = dir"
    using assms by (auto simp: check_deliverable_def split: if_splits)
  then show "list_all deliverable_char dir" "is_abs dir" "path_clean dir = dir"
    by (cases dir; auto simp: is_abs_def deliverable_char_def)+
qed

lemma deliverable_inert: "deliverable_char c \<Longrightarrow> inert Plain (c # s) = inert Plain s"
  by (rule inert_passes)
    (auto simp: deliverable_char_def refused_plain_def expands_in_quotes_def is_control_def char_class_defs)

lemma inert_append: "list_all deliverable_char d \<Longrightarrow> inert Plain (d @ s) = inert Plain s"
  by (induction d) (simp_all add: deliverable_inert del: inert.simps(2))

lemma export_statement_Some:
  "export_statement dir = Some stmt \<longleftrightarrow> check_deliverable dir \<and> stmt = export_lead @ dir @ ''; ''"
  by (auto simp: export_statement_def)

lemma export_lead_inert: "inert Plain (export_lead @ s) = inert Plain s"
proof -
  have "list_all (\<lambda>c. \<not> refused_plain c \<and> c \<noteq> CHR 0x27 \<and> c \<noteq> CHR 0x22) export_lead"
    by code_simp
  moreover have "list_all (\<lambda>c. \<not> refused_plain c \<and> c \<noteq> CHR 0x27 \<and> c \<noteq> CHR 0x22) p \<Longrightarrow>
      inert Plain (p @ s) = inert Plain s" for p
    by (induction p) (simp_all add: inert_passes del: inert.simps(2))
  ultimately show ?thesis by blast
qed

lemma export_already: "already_delivers (export_lead @ s)"
  by (simp add: already_delivers_def trim_blank_def export_lead_def env_dir_def)

subsection \<open>Properties\<close>



text \<open>A delivery directory is removed only if it is a plain absolute path named like the issuer's spawn
  directories, is itself a directory (not a link) of this user, and holds an assertion.\<close>
theorem removed_only_own_delivery:
  assumes "remove_delivery h remove_all dir = Removed"
  shows "check_deliverable dir \<and> spawn_created (path_base dir) \<noteq> None
    \<and> (\<exists>fi. h_lstat h dir = Inr fi \<and> fi_kind fi = Directory \<and> fi_uid fi = h_euid h)
    \<and> is_ok (h_lstat h (path_join [dir, delivery_file]))"
  using assms by (auto simp: remove_delivery_def is_ok_def split: if_splits sum.splits)

definition sample_delivery_host :: host where
  "sample_delivery_host = \<lparr>h_env = (\<lambda>_. None),
     h_lstat = (\<lambda>p. Inr \<lparr>fi_kind = (if path_base p = delivery_file then RegularFile else Directory), fi_perm = 448, fi_uid = 1000\<rparr>),
     h_read = (\<lambda>_. Inl NotExist), h_open_dir = (\<lambda>_. Inl NotExist), h_openat = (\<lambda>_ _. Inl NotExist),
     h_open = (\<lambda>_. Inl NotExist), h_user = None, h_euid = 1000, h_now = 150 * 1000000000\<rparr>"

definition sample_spawn :: string where
  "sample_spawn = ''/run/00000000c8-00112233445566778899aabbccddeeff''"

lemma sample_spawn_ok: "check_deliverable sample_spawn" "spawn_created (path_base sample_spawn) \<noteq> None"
  "path_base sample_spawn \<noteq> delivery_file" "path_base (path_join [sample_spawn, delivery_file]) = delivery_file"
  by code_simp+

theorem removed_only_own_delivery_witness:
  "check_deliverable sample_spawn \<and> is_ok (h_lstat sample_delivery_host (path_join [sample_spawn, delivery_file]))"
proof -
  have "remove_delivery sample_delivery_host (\<lambda>_. True) sample_spawn = Removed"
    using sample_spawn_ok by (simp add: remove_delivery_def sample_delivery_host_def)
  from removed_only_own_delivery [OF this] show ?thesis by blast
qed

end
