(* ===== verification/ClaudeHook.thy ===== *)
theory ClaudeHook
  imports HookDelivery
begin

text \<open>
  The hook of the Claude Code runtime: \<open>internal/hook/claude.go\<close> and the composition with another
  hook of \<open>upstream.go\<close>. The state is the files of the record store; \<open>hook_world\<close> is what one run
  of the hook sees: the clock, the host, the issuer's answers, what may go wrong with each store
  operation, and what other processes do to the files before each (\<open>hw_others\<close>). Logging and
  captures are left out. A reply is the JSON value written, not its bytes.
\<close>

datatype hook_mode = ModeWarn | ModeEnforce

definition parse_mode :: "string \<Rightarrow> hook_mode option" where
  "parse_mode s = (if s = ''warn'' then Some ModeWarn else if s = ''enforce'' then Some ModeEnforce else None)"

record hook_world =
  hw_now :: int
  hw_host :: host
  hw_remove_all :: "string \<Rightarrow> bool"
  hw_read_token :: "string \<Rightarrow> string option"
  hw_issue_session :: "session_request \<Rightarrow> string + issued"
  hw_issue_child :: "child_request \<Rightarrow> string + issued"
  hw_store :: "nat \<Rightarrow> store_env"
  hw_others :: "nat \<Rightarrow> files \<Rightarrow> files"
  hw_entries :: "(string \<times> bool \<times> int option) list option"

record claude_hook =
  hk_root :: string
  hk_mode :: hook_mode
  hk_origin :: string
  hk_refresh_below :: int
  hk_compose :: string

datatype hook_effect =
    SessionAsked session_request | ChildAsked child_request | FileDone file_action | DeliveryRemoved string removal

datatype decision =
    Skipped | IssueFailed | UndeliverableDir | StateFailed | SessionIssued | NoSession | StillFresh | RefreshFailed
  | SessionRefreshed | AgentKnown | ChildIssued | NoRecord | RemoveFailed | AgentRemoved | NotBash | NoCommand
  | AlreadyDelivered | IdentityNotNeeded | AgentlessTypeMismatch | Expired | DirUnusable | WouldDeliver | Delivered
  | UpstreamFailed | UpstreamExit | UpstreamUnparsed | UpstreamDecision | UpstreamPassthrough | UpstreamCommandUnknown
  | UnknownEvent

text \<open>The state a handler threads: how many store operations it did, the files, and its effects so far.\<close>

record hook_state =
  hs_ops :: nat
  hs_files :: files
  hs_effects :: "hook_effect list"

definition hook_start :: "files \<Rightarrow> hook_state" where
  "hook_start f = \<lparr>hs_ops = 0, hs_files = f, hs_effects = []\<rparr>"

definition emit :: "hook_effect \<Rightarrow> hook_state \<Rightarrow> hook_state" where
  "emit e s = s\<lparr>hs_effects := hs_effects s @ [e]\<rparr>"

text \<open>The files as the next store operation finds them, and the state after its actions.\<close>

definition hs_seen :: "hook_world \<Rightarrow> hook_state \<Rightarrow> files" where
  "hs_seen w s = hw_others w (hs_ops s) (hs_files s)"

definition did :: "hook_world \<Rightarrow> file_action list \<Rightarrow> hook_state \<Rightarrow> hook_state" where
  "did w as s =
     s\<lparr>hs_ops := Suc (hs_ops s), hs_files := run_actions as (hs_seen w s),
       hs_effects := hs_effects s @ map FileDone as\<rparr>"

definition do_get ::
    "hook_world \<Rightarrow> claude_hook \<Rightarrow> string \<Rightarrow> string \<Rightarrow> hook_state \<Rightarrow> (store_error + hook_record option) \<times> hook_state" where
  "do_get w h sid aid s =
     (store_get (hw_store w (hs_ops s)) (hk_root h) sid aid (hs_seen w s), did w [] s)"

definition do_put ::
    "hook_world \<Rightarrow> claude_hook \<Rightarrow> string \<Rightarrow> string \<Rightarrow> hook_record \<Rightarrow> hook_state \<Rightarrow> (store_error + unit) \<times> hook_state" where
  "do_put w h sid aid r s =
     (let (res, as) = store_put (hw_store w (hs_ops s)) (hk_root h) sid aid r in (res, did w as s))"

definition do_put_new ::
    "hook_world \<Rightarrow> claude_hook \<Rightarrow> string \<Rightarrow> string \<Rightarrow> hook_record \<Rightarrow> hook_state \<Rightarrow> (store_error + bool) \<times> hook_state" where
  "do_put_new w h sid aid r s =
     (let (res, as) = store_put_new (hw_store w (hs_ops s)) (hk_root h) sid aid r (hs_seen w s) in (res, did w as s))"

definition do_delete ::
    "hook_world \<Rightarrow> claude_hook \<Rightarrow> string \<Rightarrow> string \<Rightarrow> hook_state \<Rightarrow> (store_error + unit) \<times> hook_state" where
  "do_delete w h sid aid s =
     (let (res, as) = store_delete (hw_store w (hs_ops s)) (hk_root h) sid aid (hs_seen w s) in (res, did w as s))"

definition do_prune :: "hook_world \<Rightarrow> claude_hook \<Rightarrow> int \<Rightarrow> hook_state \<Rightarrow> hook_state" where
  "do_prune w h max_age s =
     did w (store_prune (hw_store w (hs_ops s)) (hk_root h) (hw_now w) max_age (hw_entries w)) s"

definition do_remove_delivery :: "hook_world \<Rightarrow> string \<Rightarrow> hook_state \<Rightarrow> removal \<times> hook_state" where
  "do_remove_delivery w dir s =
     (let r = remove_delivery (hw_host w) (hw_remove_all w) dir in (r, emit (DeliveryRemoved dir r) s))"

definition prune_after :: int where "prune_after = 48 * 3600 * 1000000000"

subsection \<open>Sessions\<close>

definition request_session ::
    "hook_world \<Rightarrow> claude_hook \<Rightarrow> string \<Rightarrow> hook_state \<Rightarrow> (string + issued) \<times> hook_state" where
  "request_session w h def_name s =
     (if hk_origin h = ''human'' then (Inl ''origin human'', s)
      else let req = \<lparr>sr_definition = def_name, sr_origin = hk_origin h, sr_runtime = None\<rparr>
        in (hw_issue_session w req, emit (SessionAsked req) s))"

text \<open>A handler's outcome: its decision, whether it reports an error, and the state.\<close>

type_synonym handled = "decision \<times> bool \<times> hook_state"

definition session_start :: "hook_world \<Rightarrow> claude_hook \<Rightarrow> payload \<Rightarrow> hook_state \<Rightarrow> handled" where
  "session_start w h p s =
     (if \<not> safe_name (pl_session_id p) then (Skipped, True, s)
      else
        (let s1 = do_prune w h prune_after s;
             def_name = (if safe_name (pl_agent_type p) then pl_agent_type p else [])
         in case request_session w h def_name s1 of
              (Inl e, s2) \<Rightarrow> (IssueFailed, True, s2)
            | (Inr out, s2) \<Rightarrow>
                if \<not> check_deliverable (iss_dir out) then (UndeliverableDir, True, s2)
                else (case do_put w h (pl_session_id p) []
                        \<lparr>hr_dir = iss_dir out, hr_expires_at = iss_expires_at out, hr_definition = def_name,
                         hr_start_agent_type = pl_agent_type p, hr_agent_type = []\<rparr> s2 of
                        (Inl e, s3) \<Rightarrow> (StateFailed, True, s3)
                      | (Inr _, s3) \<Rightarrow> (SessionIssued, False, s3))))"

text \<open>The code's subtraction of two \<open>int64\<close> values.\<close>

definition int64_sub :: "int \<Rightarrow> int \<Rightarrow> int" where
  "int64_sub a b = sint (word_of_int a - word_of_int b :: int64)"

definition user_prompt_submit :: "hook_world \<Rightarrow> claude_hook \<Rightarrow> payload \<Rightarrow> hook_state \<Rightarrow> handled" where
  "user_prompt_submit w h p s =
     (if hk_refresh_below h \<le> 0 \<or> \<not> safe_name (pl_session_id p) then (Skipped, False, s)
      else case do_get w h (pl_session_id p) [] s of
             (Inl e, s1) \<Rightarrow> (NoSession, True, s1)
           | (Inr None, s1) \<Rightarrow> (NoSession, False, s1)
           | (Inr (Some r), s1) \<Rightarrow>
               if int64_sub (hr_expires_at r) (unix (hw_now w)) > hk_refresh_below h div 1000000000 then (StillFresh, False, s1)
               else (case request_session w h (hr_definition r) s1 of
                       (Inl e, s2) \<Rightarrow> (RefreshFailed, True, s2)
                     | (Inr out, s2) \<Rightarrow>
                         if \<not> check_deliverable (iss_dir out) then (UndeliverableDir, True, s2)
                         else (case do_put w h (pl_session_id p) []
                                 (r\<lparr>hr_dir := iss_dir out, hr_expires_at := iss_expires_at out\<rparr>) s2 of
                                 (Inl e, s3) \<Rightarrow> (StateFailed, True, s3)
                               | (Inr _, s3) \<Rightarrow> (SessionRefreshed, False, s3))))"

subsection \<open>Agents\<close>

text \<open>Keeping a child's record: the winner's record is the one all callers go on with.\<close>

definition keep_child ::
    "hook_world \<Rightarrow> claude_hook \<Rightarrow> payload \<Rightarrow> issued \<Rightarrow> hook_state \<Rightarrow> (decision + decision \<times> hook_record) \<times> hook_state" where
  "keep_child w h p out s =
     (let r = \<lparr>hr_dir = iss_dir out, hr_expires_at = iss_expires_at out, hr_definition = [],
              hr_start_agent_type = [], hr_agent_type = pl_agent_type p\<rparr>
      in case do_put_new w h (pl_session_id p) (pl_agent_id p) r s of
           (Inl e, s1) \<Rightarrow> (Inl StateFailed, snd (do_remove_delivery w (iss_dir out) s1))
         | (Inr won, s1) \<Rightarrow>
             if won then (Inr (ChildIssued, r), s1)
             else (case do_get w h (pl_session_id p) (pl_agent_id p)
                         (snd (do_remove_delivery w (iss_dir out) s1)) of
                     (Inr (Some other), s2) \<Rightarrow> (Inr (AgentKnown, other), s2)
                   | (_, s2) \<Rightarrow> (Inl StateFailed, s2)))"

definition issue_agent ::
    "hook_world \<Rightarrow> claude_hook \<Rightarrow> payload \<Rightarrow> hook_state \<Rightarrow> (decision + decision \<times> hook_record) \<times> hook_state" where
  "issue_agent w h p s =
     (case do_get w h (pl_session_id p) [] s of
        (Inl e, s1) \<Rightarrow> (Inl StateFailed, s1)
      | (Inr None, s1) \<Rightarrow> (Inl NoSession, s1)
      | (Inr (Some parent), s1) \<Rightarrow>
          (case hw_read_token w (path_join [hr_dir parent, delivery_file]) of
             None \<Rightarrow> (Inl NoSession, s1)
           | Some token \<Rightarrow>
               (let req = \<lparr>cr_parent_token = trim_space token, cr_agent_type = pl_agent_type p, cr_agent_id = pl_agent_id p\<rparr>;
                    s2 = emit (ChildAsked req) s1
                in case hw_issue_child w req of
                     Inl e \<Rightarrow> (Inl IssueFailed, s2)
                   | Inr out \<Rightarrow>
                       if \<not> check_deliverable (iss_dir out) then (Inl UndeliverableDir, s2)
                       else keep_child w h p out s2)))"

definition ensure_agent ::
    "hook_world \<Rightarrow> claude_hook \<Rightarrow> payload \<Rightarrow> hook_state \<Rightarrow> (decision + decision \<times> hook_record) \<times> hook_state" where
  "ensure_agent w h p s =
     (if \<not> safe_name (pl_session_id p) then (Inl Skipped, s)
      else if \<not> safe_name (pl_agent_id p) then (Inl Skipped, s)
      else case do_get w h (pl_session_id p) (pl_agent_id p) s of
             (Inl e, s1) \<Rightarrow> (Inl StateFailed, s1)
           | (Inr (Some r), s1) \<Rightarrow> (Inr (AgentKnown, r), s1)
           | (Inr None, s1) \<Rightarrow>
               if \<not> safe_name (pl_agent_type p) then (Inl Skipped, s1) else issue_agent w h p s1)"

definition subagent_start :: "hook_world \<Rightarrow> claude_hook \<Rightarrow> payload \<Rightarrow> hook_state \<Rightarrow> handled" where
  "subagent_start w h p s =
     (case ensure_agent w h p s of (Inl d, s1) \<Rightarrow> (d, True, s1) | (Inr (d, r), s1) \<Rightarrow> (d, False, s1))"

definition subagent_stop :: "hook_world \<Rightarrow> claude_hook \<Rightarrow> payload \<Rightarrow> hook_state \<Rightarrow> handled" where
  "subagent_stop w h p s =
     (if \<not> safe_name (pl_session_id p) \<or> \<not> safe_name (pl_agent_id p) then (Skipped, True, s)
      else case do_get w h (pl_session_id p) (pl_agent_id p) s of
             (Inl e, s1) \<Rightarrow> (StateFailed, True, s1)
           | (Inr None, s1) \<Rightarrow> (NoRecord, False, s1)
           | (Inr (Some r), s1) \<Rightarrow>
               (case do_delete w h (pl_session_id p) (pl_agent_id p) s1 of
                  (Inl e, s2) \<Rightarrow> (StateFailed, True, s2)
                | (Inr _, s2) \<Rightarrow>
                    (case do_remove_delivery w (hr_dir r) s2 of
                       (res, s3) \<Rightarrow>
                         if res \<in> {Removed, NothingThere} then (AgentRemoved, False, s3) else (RemoveFailed, True, s3))))"

subsection \<open>The rewrite\<close>

text \<open>The rewritten command or the reason there is none.\<close>

definition prefix_with ::
    "hook_world \<Rightarrow> claude_hook \<Rightarrow> string \<Rightarrow> hook_record \<Rightarrow> (decision \<times> bool) + string" where
  "prefix_with w h command r =
     (if hr_expires_at r \<le> unix (hw_now w) then Inl (Expired, False)
      else if \<not> dir_usable (hw_host w) (hr_dir r) then Inl (DirUnusable, True)
      else case export_statement (hr_dir r) of
             None \<Rightarrow> Inl (UndeliverableDir, True)
           | Some stmt \<Rightarrow> if hk_mode h \<noteq> ModeEnforce then Inl (WouldDeliver, False) else Inr (stmt @ command))"

definition rewrite_prefix ::
    "hook_world \<Rightarrow> claude_hook \<Rightarrow> payload \<Rightarrow> string \<Rightarrow> hook_state \<Rightarrow> ((decision \<times> bool) + string) \<times> hook_state" where
  "rewrite_prefix w h p command s =
     (if already_delivers command then (Inl (AlreadyDelivered, False), s)
      else if cannot_use_identity command then (Inl (IdentityNotNeeded, False), s)
      else if pl_agent_id p \<noteq> [] then
        (case ensure_agent w h p s of
           (Inl d, s1) \<Rightarrow> (Inl (d, True), s1)
         | (Inr (d, r), s1) \<Rightarrow> (prefix_with w h command r, s1))
      else
        (case do_get w h (pl_session_id p) [] s of
           (Inl e, s1) \<Rightarrow> (Inl (NoSession, True), s1)
         | (Inr None, s1) \<Rightarrow> (Inl (NoSession, False), s1)
         | (Inr (Some r), s1) \<Rightarrow>
             if pl_agent_type p \<noteq> [] \<and> pl_agent_type p \<noteq> hr_start_agent_type r
             then (Inl (AgentlessTypeMismatch, False), s1)
             else (prefix_with w h command r, s1)))"

subsection \<open>Replies\<close>

datatype hook_output = NoOutput | RawOutput string | JsonOutput members

record hook_result =
  hx_stdout :: hook_output
  hx_stderr :: string
  hx_exit :: int

definition empty_result :: hook_result where
  "empty_result = \<lparr>hx_stdout = NoOutput, hx_stderr = [], hx_exit = 0\<rparr>"

definition set_member :: "members \<Rightarrow> string \<Rightarrow> json \<Rightarrow> members" where
  "set_member m k v = filter (\<lambda>(n, _). n \<noteq> k) m @ [(k, v)]"

definition merge_rewrite :: "members \<Rightarrow> members \<Rightarrow> members \<Rightarrow> string \<Rightarrow> members" where
  "merge_rewrite reply specific base command =
     (let updated = set_member base ''command'' (JStr command);
          specific1 = set_member specific ''updatedInput'' (JObj updated);
          specific2 = (if lookup ''hookEventName'' specific1 = None
                       then set_member specific1 ''hookEventName'' (JStr ''PreToolUse'') else specific1)
      in set_member reply ''hookSpecificOutput'' (JObj specific2))"

definition standalone :: "hook_world \<Rightarrow> claude_hook \<Rightarrow> payload \<Rightarrow> hook_state \<Rightarrow> hook_result \<times> handled" where
  "standalone w h p s =
     (case payload_command p of
        None \<Rightarrow> (empty_result, NoCommand, False, s)
      | Some command \<Rightarrow>
          (case rewrite_prefix w h p command s of
             (Inl (d, err), s1) \<Rightarrow> (empty_result, d, err, s1)
           | (Inr rewritten, s1) \<Rightarrow>
               (empty_result\<lparr>hx_stdout := JsonOutput (merge_rewrite [] [] (pl_tool_input p) rewritten)\<rparr>,
                Delivered, False, s1)))"

definition pre_tool_use_bash :: "hook_world \<Rightarrow> claude_hook \<Rightarrow> payload \<Rightarrow> hook_state \<Rightarrow> hook_result \<times> handled" where
  "pre_tool_use_bash w h p s =
     (if pl_tool_name p \<noteq> ''Bash'' then (empty_result, NotBash, False, s) else standalone w h p s)"

subsection \<open>Composition with another hook\<close>

record upstream_result =
  up_stdout :: string
  up_stderr :: string
  up_exit :: int

definition up_out :: "upstream_result \<Rightarrow> hook_result" where
  "up_out u = \<lparr>hx_stdout = (if up_stdout u = [] then NoOutput else RawOutput (up_stdout u)),
     hx_stderr = up_stderr u, hx_exit = up_exit u\<rparr>"

text \<open>How the wait for the other hook ended: \<open>RunExit\<close> with its code, negative when a signal ended it.\<close>

datatype run_end = RunOk | RunWaitDelay | RunExit int | RunError

definition upstream_outcome :: "upstream_result \<Rightarrow> run_end \<Rightarrow> bool \<Rightarrow> upstream_result option" where
  "upstream_outcome u run expired =
     (case run of
        RunOk \<Rightarrow> Some u
      | RunWaitDelay \<Rightarrow> Some u
      | RunExit n \<Rightarrow>
          if 0 \<le> n then Some (u\<lparr>up_exit := n\<rparr>)
          else if expired then None
          else Some (u\<lparr>up_exit := 1\<rparr>)
      | RunError \<Rightarrow> None)"

definition classify_upstream :: "upstream_result \<Rightarrow> run_end \<Rightarrow> bool \<Rightarrow> bool \<Rightarrow> upstream_result option" where
  "classify_upstream u run expired killed = (if killed then None else upstream_outcome u run expired)"

definition default_upstream_timeout :: int where "default_upstream_timeout = 5 * 1000000000"

definition upstream_budget :: "int \<Rightarrow> int" where
  "upstream_budget d = (if d > 0 then d else default_upstream_timeout)"

definition check_upstream :: "string \<Rightarrow> io_err + file_info \<Rightarrow> bool" where
  "check_upstream exe st =
     (if \<not> is_abs exe then False
      else case st of Inl e \<Rightarrow> False | Inr fi \<Rightarrow> if fi_kind fi \<noteq> RegularFile then False else True)"

definition stops_or_decides :: "members \<Rightarrow> bool" where
  "stops_or_decides reply =
     (if string_member reply ''decision'' \<noteq> [] then True
      else case lookup ''continue'' reply of
             Some (JBool b) \<Rightarrow> \<not> b
           | Some JNull \<Rightarrow> True
           | _ \<Rightarrow> False)"

text \<open>Reading the other hook's reply: the reply, its specific output and the input it settles on.\<close>

definition upstream_reply :: "string \<Rightarrow> decision + members" where
  "upstream_reply stdout =
     (let body = trim_space stdout
      in if body = [] then Inr []
         else case json_parse body of
                Some (JObj ms) \<Rightarrow> Inr ms
              | _ \<Rightarrow> Inl UpstreamUnparsed)"

definition upstream_specific :: "members \<Rightarrow> decision + members" where
  "upstream_specific reply =
     (if stops_or_decides reply then Inl UpstreamDecision
      else case lookup ''hookSpecificOutput'' reply of
             None \<Rightarrow> Inr []
           | Some (JObj ms) \<Rightarrow> Inr ms
           | Some _ \<Rightarrow> Inl UpstreamPassthrough)"

definition upstream_base :: "payload \<Rightarrow> members \<Rightarrow> decision + members" where
  "upstream_base p specific =
     (if \<not> (case lookup ''permissionDecision'' specific of
              None \<Rightarrow> True | Some JNull \<Rightarrow> True | Some (JStr d) \<Rightarrow> d = [] \<or> d = ''allow'' | Some _ \<Rightarrow> False)
      then Inl UpstreamDecision
      else case lookup ''updatedInput'' specific of
             None \<Rightarrow> Inr (pl_tool_input p)
           | Some (JObj ms) \<Rightarrow> Inr ms
           | Some _ \<Rightarrow> Inl UpstreamPassthrough)"

definition sum_bind :: "'e + 'a \<Rightarrow> ('a \<Rightarrow> 'e + 'b) \<Rightarrow> 'e + 'b" where
  "sum_bind x f = (case x of Inl e \<Rightarrow> Inl e | Inr y \<Rightarrow> f y)"

definition upstream_parts :: "payload \<Rightarrow> upstream_result \<Rightarrow> decision + members \<times> members \<times> members" where
  "upstream_parts p u =
     (if up_exit u \<noteq> 0 then Inl UpstreamExit
      else sum_bind (upstream_reply (up_stdout u)) (\<lambda>reply.
           sum_bind (upstream_specific reply) (\<lambda>specific.
           sum_bind (upstream_base p specific) (\<lambda>base.
             if string_member base ''command'' = [] then Inl UpstreamCommandUnknown
             else Inr (reply, specific, base)))))"

definition composed_pre_tool_use ::
    "hook_world \<Rightarrow> claude_hook \<Rightarrow> payload \<Rightarrow> upstream_result \<Rightarrow> hook_state \<Rightarrow> hook_result \<times> handled" where
  "composed_pre_tool_use w h p u s =
     (case upstream_parts p u of
        Inl d \<Rightarrow> (up_out u, d, False, s)
      | Inr (reply, specific, base) \<Rightarrow>
          (case rewrite_prefix w h p (string_member base ''command'') s of
             (Inl (d, err), s1) \<Rightarrow> (up_out u, d, err, s1)
           | (Inr rewritten, s1) \<Rightarrow>
               (\<lparr>hx_stdout = JsonOutput (merge_rewrite reply specific base rewritten), hx_stderr = up_stderr u, hx_exit = 0\<rparr>,
                Delivered, False, s1)))"

text \<open>\<open>up\<close> is \<open>None\<close> when the other hook had no verdict.\<close>

definition handle_composed ::
    "hook_world \<Rightarrow> claude_hook \<Rightarrow> string \<Rightarrow> upstream_result option \<Rightarrow> hook_state \<Rightarrow> hook_result \<times> hook_state" where
  "handle_composed w h raw up s =
     (let fallback = (case up of None \<Rightarrow> empty_result | Some u \<Rightarrow> up_out u)
      in if length raw > max_payload_bytes then (fallback, s)
         else case parse_payload raw of
                None \<Rightarrow> (fallback, s)
              | Some p \<Rightarrow>
                  if pl_tool_name p \<noteq> ''Bash'' then (fallback, s)
                  else (case up of
                          None \<Rightarrow> (fallback, s)
                        | Some u \<Rightarrow>
                            (case composed_pre_tool_use w h p u s of (res, d, err, s1) \<Rightarrow> (res, s1))))"

subsection \<open>Events\<close>

definition handle_event :: "hook_world \<Rightarrow> claude_hook \<Rightarrow> string \<Rightarrow> payload \<Rightarrow> hook_state \<Rightarrow> hook_result \<times> handled" where
  "handle_event w h event p s =
     (if event = ''session-start'' then (empty_result, session_start w h p s)
      else if event = ''user-prompt-submit'' then (empty_result, user_prompt_submit w h p s)
      else if event = ''subagent-start'' then (empty_result, subagent_start w h p s)
      else if event = ''subagent-stop'' then (empty_result, subagent_stop w h p s)
      else if event = ''pre-tool-use-bash'' then pre_tool_use_bash w h p s
      else (empty_result, UnknownEvent, True, s))"

text \<open>
  One run of the hook: \<open>upstream\<close> is what running the other hook yields, the bytes of the payload it
  left to be read and its verdict.
\<close>

definition handle ::
    "hook_world \<Rightarrow> claude_hook \<Rightarrow> string \<Rightarrow> string \<Rightarrow> string \<times> upstream_result option \<Rightarrow> hook_state
      \<Rightarrow> hook_result \<times> hook_state" where
  "handle w h event input upstream s =
     (if event = ''pre-tool-use-bash'' \<and> hk_compose h \<noteq> [] then handle_composed w h (fst upstream) (snd upstream) s
      else if length (take (max_payload_bytes + 1) input) > max_payload_bytes then (empty_result, s)
      else case parse_payload (take (max_payload_bytes + 1) input) of
             None \<Rightarrow> (empty_result, s)
           | Some p \<Rightarrow> (case handle_event w h event p s of (res, d, err, s1) \<Rightarrow> (res, s1)))"

subsection \<open>Records the handlers see\<close>

lemma store_get_at:
  "store_get e root sid aid f = Inr (Some r) \<Longrightarrow> record_at root f (sid, aid) = Some r"
  "store_get e root sid aid f = Inr None \<Longrightarrow> record_at root f (sid, aid) = None"
  using record_path_Inr(1)
  by (fastforce simp: store_get_def record_at_def split: sum.splits option.splits if_splits)+

lemma did_fields [simp]:
  "hs_files (did w as s) = run_actions as (hs_seen w s)" "hs_effects (did w as s) = hs_effects s @ map FileDone as"
  "hs_files (emit x s) = hs_files s" "hs_effects (emit x s) = hs_effects s @ [x]"
  by (simp_all add: did_def emit_def)

lemma do_get_at:
  assumes "do_get w h sid aid s = (Inr r, s')"
  shows "record_at (hk_root h) (hs_files s') (sid, aid) = r" and "hs_files s' = hs_seen w s"
    and "hs_effects s' = hs_effects s"
  using assms store_get_at [of "hw_store w (hs_ops s)" "hk_root h" sid aid "hs_seen w s"]
  by (cases r; auto simp: do_get_def)+

lemma do_put_new_at:
  assumes "do_put_new w h sid aid r s = (Inr True, s')" and "record_ok r"
  shows "record_at (hk_root h) (hs_files s') (sid, aid) = Some r"
proof -
  let ?e = "hw_store w (hs_ops s)" and ?k = "(sid, aid)"
  obtain as where p: "store_put_new ?e (hk_root h) sid aid r (hs_seen w s) = (Inr True, as)" "s' = did w as s"
    using assms(1) by (auto simp: do_put_new_def Let_def split: prod.splits)
  then have "put_new_at (hk_root h) ?e ?k r (hs_seen w s) = (Some True, hs_files s')"
    by (simp add: put_new_at_def)
  from hook_store.put_new_won [OF assms(2) this] show ?thesis by blast
qed

lemma do_delete_at:
  assumes "do_delete w h sid aid s = (Inr u, s')"
  shows "record_at (hk_root h) (hs_files s') (sid, aid) = None"
proof -
  let ?e = "hw_store w (hs_ops s)" and ?k = "(sid, aid)"
  obtain as where p: "store_delete ?e (hk_root h) sid aid (hs_seen w s) = (Inr u, as)" "s' = did w as s"
    using assms(1) by (auto simp: do_delete_def Let_def split: prod.splits)
  then have "delete_at (hk_root h) ?e ?k (hs_seen w s) = (True, hs_files s')"
    by (simp add: delete_at_def is_ok_def)
  from hook_store.delete_done [OF this] show ?thesis .
qed

lemma do_remove_delivery_files: "do_remove_delivery w dir s = (r, s') \<Longrightarrow> hs_files s' = hs_files s"
  by (auto simp: do_remove_delivery_def Let_def)

text \<open>The expiry times an issuer answers with are \<open>int64\<close> values.\<close>

definition issuer_typed :: "hook_world \<Rightarrow> bool" where
  "issuer_typed w \<longleftrightarrow> (\<forall>req out. hw_issue_child w req = Inr out \<longrightarrow> int64_range (iss_expires_at out))"

lemma deliverable_utf8: "check_deliverable dir \<Longrightarrow> utf8_valid dir"
  using deliverable_chars(1) [of dir]
  by (auto simp: list_all_iff deliverable_char_def code_def intro!: utf8_ascii dest!: name_char_printable)

lemma safe_name_utf8: "safe_name s \<Longrightarrow> utf8_valid s"
  by (rule utf8_ascii)
    (auto simp: safe_name_def list_all_iff char_class_defs split: list.splits dest!: name_char_printable)

lemma child_record_ok:
  assumes "check_deliverable dir" and "int64_range x" and "safe_name ty"
  shows "record_ok \<lparr>hr_dir = dir, hr_expires_at = x, hr_definition = [], hr_start_agent_type = [], hr_agent_type = ty\<rparr>"
  using assms deliverable_utf8 safe_name_utf8 utf8_ascii [of "[]"] by (simp add: record_ok_def)

lemma keep_child_kept:
  assumes "keep_child w h p out s = (Inr (d, r), s')" and "check_deliverable (iss_dir out)"
    and "int64_range (iss_expires_at out)" and "safe_name (pl_agent_type p)"
  shows "record_at (hk_root h) (hs_files s') (pl_session_id p, pl_agent_id p) = Some r"
  using assms child_record_ok [OF assms(2-4)]
  by (auto simp: keep_child_def Let_def do_put_new_at do_get_at(1)
      split: prod.splits sum.splits if_splits option.splits dest: do_get_at(1))

lemma ensure_agent_kept:
  assumes "ensure_agent w h p s = (Inr (d, r), s')" and "issuer_typed w"
  shows "record_at (hk_root h) (hs_files s') (pl_session_id p, pl_agent_id p) = Some r"
proof -
  obtain g s1 where g: "do_get w h (pl_session_id p) (pl_agent_id p) s = (Inr g, s1)"
    using assms(1) by (cases "do_get w h (pl_session_id p) (pl_agent_id p) s")
      (auto simp: ensure_agent_def split: if_splits sum.splits)
  show ?thesis
  proof (cases g)
    case (Some r')
    with assms(1) g do_get_at(1) [OF g] show ?thesis by (auto simp: ensure_agent_def split: if_splits)
  next
    case None
    with assms(1) g have t: "safe_name (pl_agent_type p)" and i: "issue_agent w h p s1 = (Inr (d, r), s')"
      by (auto simp: ensure_agent_def split: if_splits)
    from i obtain req out s2 where "hw_issue_child w req = Inr out" "check_deliverable (iss_dir out)"
      "keep_child w h p out s2 = (Inr (d, r), s')"
      by (auto simp: issue_agent_def Let_def split: prod.splits sum.splits option.splits if_splits)
    with t assms(2) keep_child_kept show ?thesis by (auto simp: issuer_typed_def)
  qed
qed

subsection \<open>The one addition\<close>

lemma prefix_with_Inr:
  "prefix_with w h command r = Inr rewritten \<longleftrightarrow>
     hk_mode h = ModeEnforce \<and> unix (hw_now w) < hr_expires_at r \<and> dir_usable (hw_host w) (hr_dir r)
     \<and> check_deliverable (hr_dir r) \<and> rewritten = export_lead @ hr_dir r @ ''; '' @ command"
  by (auto simp: prefix_with_def export_statement_def)

lemma lookup_set_member: "lookup n (set_member m k v) = (if n = k then Some v else lookup n m)"
proof -
  have "map_of (rev (filter (\<lambda>(a, b). a \<noteq> k) m)) n = map_of (rev m) n" if "n \<noteq> k"
    using that by (induction m rule: rev_induct) auto
  then show ?thesis by (simp add: set_member_def lookup.simps)
qed

text \<open>
  Two objects agree but for some names; \<open>adds_statement\<close> says that a reply is another with one
  statement in front of the command, the event's name filled in where it was missing, and
  everything else as it was.
\<close>

definition agree_but :: "string list \<Rightarrow> members \<Rightarrow> members \<Rightarrow> bool" where
  "agree_but names m m' \<longleftrightarrow> (\<forall>n. n \<notin> set names \<longrightarrow> lookup n m = lookup n m')"

definition adds_statement :: "string \<Rightarrow> members \<Rightarrow> members \<Rightarrow> members \<Rightarrow> members \<Rightarrow> bool" where
  "adds_statement stmt reply specific base new \<longleftrightarrow>
     (\<exists>specific' updated. agree_but [''hookSpecificOutput''] new reply
        \<and> lookup ''hookSpecificOutput'' new = Some (JObj specific')
        \<and> agree_but [''updatedInput'', ''hookEventName''] specific' specific
        \<and> (lookup ''hookEventName'' specific' = lookup ''hookEventName'' specific
           \<or> (lookup ''hookEventName'' specific = None \<and> lookup ''hookEventName'' specific' = Some (JStr ''PreToolUse'')))
        \<and> lookup ''updatedInput'' specific' = Some (JObj updated)
        \<and> agree_but [''command''] updated base
        \<and> lookup ''command'' updated = Some (JStr (stmt @ string_member base ''command'')))"

lemma merge_adds:
  "adds_statement stmt reply specific base (merge_rewrite reply specific base (stmt @ string_member base ''command''))"
proof -
  let ?updated = "set_member base ''command'' (JStr (stmt @ string_member base ''command''))"
  let ?s1 = "set_member specific ''updatedInput'' (JObj ?updated)"
  let ?s2 = "if lookup ''hookEventName'' specific = None
     then set_member ?s1 ''hookEventName'' (JStr ''PreToolUse'') else ?s1"
  have new: "merge_rewrite reply specific base (stmt @ string_member base ''command'')
      = set_member reply ''hookSpecificOutput'' (JObj ?s2)"
    by (auto simp: merge_rewrite_def Let_def lookup_set_member split: option.splits)
  show ?thesis
    unfolding adds_statement_def new
    by (rule exI [of _ ?s2], rule exI [of _ ?updated]) (simp add: agree_but_def lookup_set_member)
qed

lemma rewrite_prefix_Inr:
  assumes "rewrite_prefix w h p command s = (Inr rewritten, s')"
  obtains r where "prefix_with w h command r = Inr rewritten" "\<not> already_delivers command" "\<not> cannot_use_identity command"
    "pl_agent_id p \<noteq> [] \<Longrightarrow> \<exists>d. ensure_agent w h p s = (Inr (d, r), s')"
    "pl_agent_id p = [] \<Longrightarrow> do_get w h (pl_session_id p) [] s = (Inr (Some r), s')
       \<and> (pl_agent_type p = [] \<or> pl_agent_type p = hr_start_agent_type r)"
  using assms
  by (auto simp: rewrite_prefix_def split: if_splits prod.splits sum.splits option.splits)

text \<open>What a reply to another hook's output may be.\<close>

definition transparent :: "hook_mode \<Rightarrow> payload option \<Rightarrow> upstream_result \<Rightarrow> hook_result \<Rightarrow> bool" where
  "transparent mode payload u res \<longleftrightarrow>
     res = up_out u
     \<or> (\<exists>p dir reply specific base new. payload = Some p \<and> mode = ModeEnforce \<and> up_exit u = 0
          \<and> upstream_parts p u = Inr (reply, specific, base) \<and> check_deliverable dir
          \<and> adds_statement (export_lead @ dir @ ''; '') reply specific base new
          \<and> res = \<lparr>hx_stdout = JsonOutput new, hx_stderr = up_stderr u, hx_exit = up_exit u\<rparr>)"

lemma upstream_parts_exit: "upstream_parts p u = Inr x \<Longrightarrow> up_exit u = 0"
  by (simp add: upstream_parts_def split: if_splits)

lemma composed_transparent:
  "transparent (hk_mode h) (Some p) u (fst (composed_pre_tool_use w h p u s))"
proof (cases "upstream_parts p u")
  case (Inl d)
  then show ?thesis by (simp add: composed_pre_tool_use_def transparent_def)
next
  case (Inr x)
  obtain reply specific base where x: "x = (reply, specific, base)" by (cases x)
  let ?c = "string_member base ''command''"
  show ?thesis
  proof (cases "rewrite_prefix w h p ?c s")
    case (Pair o1 s1)
    show ?thesis
    proof (cases o1)
      case (Inl e)
      with Pair Inr x show ?thesis by (cases e) (simp add: composed_pre_tool_use_def transparent_def)
    next
      case o: (Inr rewritten)
      from Pair obtain r where "prefix_with w h ?c r = Inr rewritten"
        unfolding o by (rule rewrite_prefix_Inr)
      then have r: "hk_mode h = ModeEnforce" "check_deliverable (hr_dir r)"
        "rewritten = (export_lead @ hr_dir r @ ''; '') @ ?c"
        by (auto simp: prefix_with_Inr)
      have "fst (composed_pre_tool_use w h p u s) =
          \<lparr>hx_stdout = JsonOutput (merge_rewrite reply specific base rewritten), hx_stderr = up_stderr u, hx_exit = 0\<rparr>"
        using Pair o Inr x by (simp add: composed_pre_tool_use_def)
      then show ?thesis
        using r merge_adds [of "export_lead @ hr_dir r @ ''; ''" reply specific base] Inr x upstream_parts_exit [OF Inr]
        unfolding transparent_def by auto
    qed
  qed
qed

lemma handle_composed_transparent:
  "transparent (hk_mode h) (parse_payload raw) u (fst (handle_composed w h raw (Some u) s))"
  "fst (handle_composed w h raw None s) = empty_result"
proof -
  show "transparent (hk_mode h) (parse_payload raw) u (fst (handle_composed w h raw (Some u) s))"
  proof (cases "length raw > max_payload_bytes \<or> parse_payload raw = None")
    case True
    then show ?thesis by (cases "length raw > max_payload_bytes") (simp_all add: handle_composed_def transparent_def Let_def)
  next
    case False
    then obtain p where p: "parse_payload raw = Some p" "\<not> length raw > max_payload_bytes" by auto
    show ?thesis
    proof (cases "pl_tool_name p = ''Bash''")
      case False
      with p show ?thesis by (simp add: handle_composed_def transparent_def)
    next
      case True
      with p have "fst (handle_composed w h raw (Some u) s) = fst (composed_pre_tool_use w h p u s)"
        by (simp add: handle_composed_def split: prod.split)
      with composed_transparent [of h p u w s] p show ?thesis by simp
    qed
  qed
  show "fst (handle_composed w h raw None s) = empty_result"
    by (simp add: handle_composed_def split: option.split)
qed

subsection \<open>What a run asks for\<close>

text \<open>A predicate that every effect of a run keeps to.\<close>

definition effects_in :: "(hook_effect \<Rightarrow> bool) \<Rightarrow> hook_state \<Rightarrow> bool" where
  "effects_in P s \<longleftrightarrow> list_all P (hs_effects s)"

text \<open>A session is asked for only with the configured origin, and never with a person's.\<close>

definition origin_kept :: "claude_hook \<Rightarrow> hook_effect \<Rightarrow> bool" where
  "origin_kept h e \<longleftrightarrow> (case e of SessionAsked req \<Rightarrow> sr_origin req = hk_origin h \<and> hk_origin h \<noteq> ''human'' | _ \<Rightarrow> True)"

definition neutral :: "(hook_effect \<Rightarrow> bool) \<Rightarrow> bool" where
  "neutral P \<longleftrightarrow> (\<forall>a. P (FileDone a)) \<and> (\<forall>d r. P (DeliveryRemoved d r))"

definition not_child :: "hook_effect \<Rightarrow> bool" where
  "not_child e \<longleftrightarrow> (case e of ChildAsked c \<Rightarrow> False | _ \<Rightarrow> True)"

lemma neutral_kept [simp]: "neutral (origin_kept h)" "neutral not_child"
  by (simp_all add: neutral_def origin_kept_def not_child_def)

lemma effects_in_did: "neutral P \<Longrightarrow> effects_in P (did w as s) = effects_in P s"
  by (auto simp: effects_in_def neutral_def list_all_iff)

lemma effects_in_store [simp]:
  assumes "neutral P"
  shows "effects_in P (snd (do_get w h' sid aid s)) = effects_in P s"
    "effects_in P (snd (do_put w h' sid aid r s)) = effects_in P s"
    "effects_in P (snd (do_put_new w h' sid aid r s)) = effects_in P s"
    "effects_in P (snd (do_delete w h' sid aid s)) = effects_in P s"
    "effects_in P (do_prune w h' age s) = effects_in P s"
    "effects_in P (snd (do_remove_delivery w d s)) = effects_in P s"
  using assms
  by (simp_all add: do_get_def do_put_def do_put_new_def do_delete_def do_prune_def do_remove_delivery_def
      effects_in_did Let_def split: prod.split)
    (simp_all add: effects_in_def neutral_def)

lemma effects_in_asked [simp]: "effects_in (origin_kept h) (emit (ChildAsked c) s) = effects_in (origin_kept h) s"
  by (simp add: effects_in_def origin_kept_def)

lemma snd_pair: "f = (a, b) \<Longrightarrow> b = snd f" by simp

lemma snd_last: "snd (case x of (a, b, c, d) \<Rightarrow> (a, d)) = snd (snd (snd x))"
  by (simp split: prod.split)

lemma request_session_origin:
  "effects_in (origin_kept h) s \<Longrightarrow> effects_in (origin_kept h) (snd (request_session w h d s))"
  by (auto simp: request_session_def Let_def effects_in_def origin_kept_def)

lemma session_start_origin:
  "effects_in (origin_kept h) s \<Longrightarrow> effects_in (origin_kept h) (snd (snd (session_start w h p s)))"
  by (auto simp: session_start_def Let_def request_session_origin split: prod.splits sum.splits dest!: snd_pair)

lemma user_prompt_submit_origin:
  "effects_in (origin_kept h) s \<Longrightarrow> effects_in (origin_kept h) (snd (snd (user_prompt_submit w h p s)))"
  by (auto simp: user_prompt_submit_def Let_def request_session_origin
      split: prod.splits sum.splits option.splits dest!: snd_pair)

lemma keep_child_origin:
  "effects_in (origin_kept h) s \<Longrightarrow> effects_in (origin_kept h) (snd (keep_child w h p out s))"
  by (auto simp: keep_child_def Let_def split: prod.splits sum.splits option.splits dest!: snd_pair)

lemma ensure_agent_origin:
  "effects_in (origin_kept h) s \<Longrightarrow> effects_in (origin_kept h) (snd (ensure_agent w h p s))"
  by (auto simp: ensure_agent_def issue_agent_def Let_def keep_child_origin
      split: prod.splits sum.splits option.splits dest!: snd_pair)

lemma rewrite_prefix_origin:
  "effects_in (origin_kept h) s \<Longrightarrow> effects_in (origin_kept h) (snd (rewrite_prefix w h p c s))"
  by (auto simp: rewrite_prefix_def ensure_agent_origin split: prod.splits sum.splits option.splits dest!: snd_pair)

lemma stop_origin:
  "effects_in (origin_kept h) s \<Longrightarrow> effects_in (origin_kept h) (snd (snd (subagent_stop w h p s)))"
  by (auto simp: subagent_stop_def split: prod.splits sum.splits option.splits dest!: snd_pair)

lemma start_origin:
  "effects_in (origin_kept h) s \<Longrightarrow> effects_in (origin_kept h) (snd (snd (subagent_start w h p s)))"
  by (auto simp: subagent_start_def ensure_agent_origin split: prod.splits sum.splits dest!: snd_pair)

lemma standalone_origin:
  "effects_in (origin_kept h) s \<Longrightarrow> effects_in (origin_kept h) (snd (snd (snd (standalone w h p s))))"
  by (auto simp: standalone_def rewrite_prefix_origin split: prod.splits sum.splits option.splits dest!: snd_pair)

lemma composed_origin:
  "effects_in (origin_kept h) s \<Longrightarrow> effects_in (origin_kept h) (snd (handle_composed w h raw up s))"
  by (auto simp: handle_composed_def composed_pre_tool_use_def Let_def rewrite_prefix_origin
      split: prod.splits sum.splits option.splits dest!: snd_pair)

subsection \<open>What becomes of a child's delivery\<close>

text \<open>
  A directory the issuer made for a child is accounted for when some record names it or its removal was
  attempted.
\<close>

definition no_child :: "hook_state \<Rightarrow> bool" where
  "no_child s \<longleftrightarrow> effects_in not_child s"

lemma no_child_asked: "no_child s \<Longrightarrow> ChildAsked req \<notin> set (hs_effects s)"
  by (auto simp: no_child_def effects_in_def list_all_iff not_child_def)

definition settled :: "claude_hook \<Rightarrow> string \<Rightarrow> hook_state \<Rightarrow> bool" where
  "settled h dir s \<longleftrightarrow> (\<exists>r. DeliveryRemoved dir r \<in> set (hs_effects s))
     \<or> (\<exists>k r. record_at (hk_root h) (hs_files s) k = Some r \<and> hr_dir r = dir)"

definition accounted :: "hook_world \<Rightarrow> claude_hook \<Rightarrow> hook_state \<Rightarrow> bool" where
  "accounted w h s \<longleftrightarrow> (\<forall>req out. ChildAsked req \<in> set (hs_effects s) \<longrightarrow> hw_issue_child w req = Inr out
     \<longrightarrow> check_deliverable (iss_dir out) \<longrightarrow> settled h (iss_dir out) s)"

lemma no_child_store [simp]:
  "no_child (snd (do_get w h sid aid s)) = no_child s" "no_child (snd (do_put w h sid aid r s)) = no_child s"
  "no_child (snd (do_delete w h sid aid s)) = no_child s" "no_child (do_prune w h age s) = no_child s"
  "no_child (snd (do_remove_delivery w d s)) = no_child s" "no_child (snd (request_session w h d s)) = no_child s"
  by (simp_all add: no_child_def request_session_def Let_def) (simp add: effects_in_def not_child_def)

lemma no_child_accounted: "no_child s \<Longrightarrow> accounted w h s"
  by (auto simp: accounted_def no_child_asked)

lemma keep_child_settled:
  assumes "keep_child w h p out s = (res, s')" and "record_ok \<lparr>hr_dir = iss_dir out, hr_expires_at = iss_expires_at out,
      hr_definition = [], hr_start_agent_type = [], hr_agent_type = pl_agent_type p\<rparr>"
  shows "settled h (iss_dir out) s'"
proof -
  let ?r = "\<lparr>hr_dir = iss_dir out, hr_expires_at = iss_expires_at out, hr_definition = [],
    hr_start_agent_type = [], hr_agent_type = pl_agent_type p\<rparr>"
  obtain o1 s1 where o: "do_put_new w h (pl_session_id p) (pl_agent_id p) ?r s = (o1, s1)" by force
  have removed: "\<exists>r. DeliveryRemoved (iss_dir out) r \<in> set (hs_effects (snd (do_remove_delivery w (iss_dir out) s1)))"
    by (auto simp: do_remove_delivery_def Let_def)
  show ?thesis
  proof (cases "o1 = Inr True")
    case True
    with assms(1) o have "s' = s1" by (simp add: keep_child_def)
    moreover have "record_at (hk_root h) (hs_files s1) (pl_session_id p, pl_agent_id p) = Some ?r"
      using do_put_new_at [OF o [unfolded True] assms(2)] .
    ultimately show ?thesis by (force simp: settled_def)
  next
    case False
    with assms(1) o have "s' = snd (do_remove_delivery w (iss_dir out) s1)
        \<or> s' = snd (do_get w h (pl_session_id p) (pl_agent_id p) (snd (do_remove_delivery w (iss_dir out) s1)))"
      by (cases o1) (auto simp: keep_child_def split: prod.splits sum.splits option.splits)
    then have "hs_effects s' = hs_effects (snd (do_remove_delivery w (iss_dir out) s1))"
      by (auto simp: do_get_def)
    with removed show ?thesis by (simp add: settled_def)
  qed
qed

lemma store_asked [simp]:
  "ChildAsked req \<in> set (hs_effects (snd (do_get w h sid aid s))) \<longleftrightarrow> ChildAsked req \<in> set (hs_effects s)"
  "ChildAsked req \<in> set (hs_effects (snd (do_put_new w h sid aid r s))) \<longleftrightarrow> ChildAsked req \<in> set (hs_effects s)"
  "ChildAsked req \<in> set (hs_effects (snd (do_remove_delivery w d s))) \<longleftrightarrow> ChildAsked req \<in> set (hs_effects s)"
  by (auto simp: do_get_def do_put_new_def do_remove_delivery_def Let_def split: prod.split)

lemma keep_child_state:
  obtains r s1 where "s1 = snd (do_put_new w h (pl_session_id p) (pl_agent_id p) r s)"
    and "snd (keep_child w h p out s) \<in>
      {s1, snd (do_remove_delivery w (iss_dir out) s1),
       snd (do_get w h (pl_session_id p) (pl_agent_id p) (snd (do_remove_delivery w (iss_dir out) s1)))}"
proof -
  let ?r = "\<lparr>hr_dir = iss_dir out, hr_expires_at = iss_expires_at out, hr_definition = [],
    hr_start_agent_type = [], hr_agent_type = pl_agent_type p\<rparr>"
  obtain o1 s1 where o: "do_put_new w h (pl_session_id p) (pl_agent_id p) ?r s = (o1, s1)" by force
  obtain o2 s2 where o2: "do_get w h (pl_session_id p) (pl_agent_id p) (snd (do_remove_delivery w (iss_dir out) s1)) = (o2, s2)"
    by force
  show ?thesis
    by (rule that [of s1 ?r])
      (simp_all add: keep_child_def Let_def o o2 split: sum.split option.split)
qed

lemma keep_child_asked:
  "ChildAsked req \<in> set (hs_effects (snd (keep_child w h p out s))) \<longleftrightarrow> ChildAsked req \<in> set (hs_effects s)"
  by (rule keep_child_state [of w h p s out]) (elim insertE; simp)

lemma issue_agent_accounted:
  assumes "no_child s" and "issuer_typed w" and ty: "safe_name (pl_agent_type p)"
  shows "accounted w h (snd (issue_agent w h p s))"
proof -
  obtain g s1 where g: "do_get w h (pl_session_id p) [] s = (g, s1)" by force
  have n: "no_child s1" using assms(1) g by (metis no_child_store(1) snd_conv)
  show ?thesis
  proof (cases g)
    case (Inl e)
    with g n show ?thesis by (simp add: issue_agent_def no_child_accounted)
  next
    case parent: (Inr found)
    show ?thesis
    proof (cases found)
      case None
      with g n parent show ?thesis by (simp add: issue_agent_def no_child_accounted)
    next
      case (Some parent)
      show ?thesis
      proof (cases "hw_read_token w (path_join [hr_dir parent, delivery_file])")
        case None
        with g n \<open>g = Inr found\<close> Some show ?thesis by (simp add: issue_agent_def no_child_accounted)
      next
        case token: (Some token)
        let ?req = "\<lparr>cr_parent_token = trim_space token, cr_agent_type = pl_agent_type p, cr_agent_id = pl_agent_id p\<rparr>"
        let ?s2 = "emit (ChildAsked ?req) s1"
        have only: "ChildAsked req \<in> set (hs_effects ?s2) \<longleftrightarrow> req = ?req" for req
          using no_child_asked [OF n] by auto
        show ?thesis
        proof (cases "hw_issue_child w ?req")
          case (Inl e)
          with g \<open>g = Inr found\<close> Some token have "issue_agent w h p s = (Inl IssueFailed, ?s2)"
            by (simp add: issue_agent_def)
          with Inl show ?thesis by (simp add: accounted_def only del: did_fields)
        next
          case out: (Inr out)
          with g \<open>g = Inr found\<close> Some token have i: "issue_agent w h p s =
              (if \<not> check_deliverable (iss_dir out) then (Inl UndeliverableDir, ?s2) else keep_child w h p out ?s2)"
            by (simp add: issue_agent_def)
          have "settled h (iss_dir out) (snd (keep_child w h p out ?s2))" if "check_deliverable (iss_dir out)"
            by (rule keep_child_settled [of w h p out ?s2 "fst (keep_child w h p out ?s2)"])
              (use child_record_ok [OF that _ ty] assms(2) out in \<open>simp_all add: issuer_typed_def\<close>)
          with out show ?thesis by (simp add: accounted_def i keep_child_asked only del: did_fields)
        qed
      qed
    qed
  qed
qed

lemma ensure_agent_accounted:
  assumes "no_child s" and "issuer_typed w"
  shows "accounted w h (snd (ensure_agent w h p s))"
proof -
  obtain g s1 where g: "do_get w h (pl_session_id p) (pl_agent_id p) s = (g, s1)" by force
  have "no_child s1" using assms(1) g by (metis no_child_store(1) snd_conv)
  with assms g show ?thesis
    by (auto simp: ensure_agent_def no_child_accounted issue_agent_accounted split: sum.splits option.splits)
qed

lemma rewrite_prefix_accounted:
  assumes "no_child s" and "issuer_typed w"
  shows "accounted w h (snd (rewrite_prefix w h p c s))"
proof (cases "pl_agent_id p = []")
  case True
  with assms show ?thesis
    by (auto simp: rewrite_prefix_def no_child_accounted split: prod.splits sum.splits option.splits dest!: snd_pair)
next
  case False
  with assms ensure_agent_accounted [OF assms, of h p] show ?thesis
    by (auto simp: rewrite_prefix_def no_child_accounted split: prod.splits sum.splits)
qed

lemma rewriting_accounted:
  assumes "no_child s" and "issuer_typed w"
  shows "accounted w h (snd (snd (snd (standalone w h p s))))"
    and "accounted w h (snd (handle_composed w h raw up s))"
proof -
  have r: "accounted w h s1" if "rewrite_prefix w h q c s = (o1, s1)" for q c o1 s1
    using rewrite_prefix_accounted [OF assms, of h q c] that by simp
  have n: "accounted w h s" using no_child_accounted [OF assms(1)] .
  show "accounted w h (snd (snd (snd (standalone w h p s))))"
    using n r by (auto simp: standalone_def split: prod.splits sum.splits option.splits)
  have "accounted w h (snd (snd (snd (composed_pre_tool_use w h q u s))))" for q u
    using n r by (auto simp: composed_pre_tool_use_def split: prod.splits sum.splits)
  with n show "accounted w h (snd (handle_composed w h raw up s))"
    by (simp add: handle_composed_def Let_def snd_last split: option.split)
qed

lemma sessions_no_child:
  assumes "no_child s"
  shows "no_child (snd (snd (session_start w h p s)))"
    and "no_child (snd (snd (user_prompt_submit w h p s)))"
    and "no_child (snd (snd (subagent_stop w h p s)))"
  using assms
  by (auto simp: session_start_def Let_def split: prod.splits sum.splits dest!: snd_pair)
    (auto simp: user_prompt_submit_def subagent_stop_def split: prod.splits sum.splits option.splits dest!: snd_pair)

lemma subagent_start_accounted:
  assumes "no_child s" and "issuer_typed w"
  shows "accounted w h (snd (snd (subagent_start w h p s)))"
  using ensure_agent_accounted [OF assms, of h p] by (auto simp: subagent_start_def split: prod.splits sum.splits)

subsection \<open>A sample run\<close>

definition sample_world :: hook_world where
  "sample_world = \<lparr>hw_now = 100 * 1000000000, hw_host = sample_delivery_host, hw_remove_all = (\<lambda>_. True),
     hw_read_token = (\<lambda>_. Some ''token''), hw_issue_session = (\<lambda>_. Inl ''refused''),
     hw_issue_child = (\<lambda>_. Inr \<lparr>iss_token = ''t'', iss_dir = sample_spawn, iss_expires_at = 200,
       iss_sub = ''agent:scout'', iss_actor = ''unattended:claude-code'', iss_grade = ''asserted'', iss_roles = [], iss_narrowed = None\<rparr>),
     hw_store = (\<lambda>_. sample_store_env), hw_others = (\<lambda>_ f. f), hw_entries = None\<rparr>"

definition sample_hook :: claude_hook where
  "sample_hook = \<lparr>hk_root = ''/state'', hk_mode = ModeEnforce, hk_origin = ''unattended'', hk_refresh_below = 0, hk_compose = []\<rparr>"

definition sample_payload :: "string \<Rightarrow> payload" where
  "sample_payload aid = \<lparr>pl_raw = [], pl_event = [], pl_session_id = ''s1'', pl_agent_id = aid, pl_agent_type = [],
     pl_tool_name = ''Bash'', pl_tool_input = [(''command'', JStr ''make test'')]\<rparr>"

definition sample_files :: files where
  "sample_files = (\<lambda>p. Some (write_record sample_record))"

lemma read_sample: "read_record (write_record sample_record) = Some sample_record"
  using record_roundtrip [OF sample_record_ok] .

lemma sample_get:
  "key_ok (sid, aid) \<Longrightarrow> do_get sample_world sample_hook sid aid (hook_start sample_files)
     = (Inr (Some sample_record), did sample_world [] (hook_start sample_files))"
  using sample_record_path [of sid aid]
  by (auto simp: do_get_def sample_world_def sample_hook_def store_get_def sample_store_env_def hs_seen_def sample_files_def
      hook_start_def read_sample)

lemma sample_rewrite:
  "rewrite_prefix sample_world sample_hook (sample_payload []) ''make test'' (hook_start sample_files)
     = (Inr (export_lead @ ''/run/d'' @ ''; '' @ ''make test''), did sample_world [] (hook_start sample_files))"
proof -
  have "check_deliverable ''/run/d''" "\<not> already_delivers ''make test''" "\<not> cannot_use_identity ''make test''"
    "dir_usable sample_delivery_host ''/run/d''"
    by code_simp+
  then show ?thesis
    using sample_get [OF sample_key_ok(2)]
    by (simp add: rewrite_prefix_def sample_payload_def prefix_with_def export_statement_def sample_record_def
        sample_world_def sample_hook_def unix_def)
qed

subsection \<open>Properties\<close>

text \<open>C20: Composing with another hook is transparent: whatever that hook answers and whatever goes wrong, the
  reply is that hook's own, byte for byte and with its exit code, or, in enforce mode and only for an
  exit code of zero, its reply with the export statement of one plain directory put in front of the
  command and nothing else changed: its decision, its other output and the rest of its updated input
  stay. Without a verdict of that hook nothing is written.\<close>
theorem composition_is_transparent:
  "transparent (hk_mode h) (parse_payload raw) u (fst (handle_composed w h raw (Some u) s))
   \<and> fst (handle_composed w h raw None s) = empty_result"
  by (intro conjI handle_composed_transparent)

text \<open>C26: A command is rewritten only in enforce mode and only to deliver a recorded identity: the statement
  names the directory of the record kept for exactly this session and agent (the session's own record
  for a call without an agent, and then only if it names no other agent type), which has not expired and
  still holds an assertion; the command follows the statement unchanged.\<close>
theorem rewrite_delivers_recorded:
  assumes "rewrite_prefix w h p command s = (Inr rewritten, s')" and "issuer_typed w"
  shows "hk_mode h = ModeEnforce \<and> \<not> already_delivers command \<and> \<not> cannot_use_identity command
    \<and> (\<exists>r. record_at (hk_root h) (hs_files s') (pl_session_id p, pl_agent_id p) = Some r
        \<and> rewritten = export_lead @ hr_dir r @ ''; '' @ command \<and> check_deliverable (hr_dir r)
        \<and> unix (hw_now w) < hr_expires_at r \<and> dir_usable (hw_host w) (hr_dir r)
        \<and> (pl_agent_id p \<noteq> [] \<or> pl_agent_type p = [] \<or> pl_agent_type p = hr_start_agent_type r))"
  using assms(1)
proof (rule rewrite_prefix_Inr)
  fix r
  assume r: "prefix_with w h command r = Inr rewritten" "\<not> already_delivers command" "\<not> cannot_use_identity command"
    and a: "pl_agent_id p \<noteq> [] \<Longrightarrow> \<exists>d. ensure_agent w h p s = (Inr (d, r), s')"
    and n: "pl_agent_id p = [] \<Longrightarrow> do_get w h (pl_session_id p) [] s = (Inr (Some r), s')
       \<and> (pl_agent_type p = [] \<or> pl_agent_type p = hr_start_agent_type r)"
  have "record_at (hk_root h) (hs_files s') (pl_session_id p, pl_agent_id p) = Some r"
    using a n ensure_agent_kept [OF _ assms(2)] do_get_at(1) by (cases "pl_agent_id p = []") fastforce+
  with r n show ?thesis by (auto simp: prefix_with_Inr)
qed


theorem rewrite_delivers_recorded_witness:
  "record_at ''/state'' (hs_files (did sample_world [] (hook_start sample_files))) (''s1'', []) \<noteq> None"
proof -
  have "issuer_typed sample_world" by (simp add: issuer_typed_def sample_world_def int64_range_def)
  from rewrite_delivers_recorded [OF sample_rewrite this] show ?thesis
    by (auto simp: sample_payload_def sample_hook_def)
qed

text \<open>C27: Whatever the event, the payload and the answers of the issuer, a run of the hook asks for sessions only
  with the origin it is configured with, and never with the origin of a person.\<close>
theorem hook_never_claims_human:
  "effects_in (origin_kept h) (snd (handle w h event input upstream (hook_start f)))"
proof -
  have s: "effects_in (origin_kept h) (hook_start f)" by (simp add: effects_in_def hook_start_def)
  have "effects_in (origin_kept h) (snd (snd (snd (handle_event w h event p (hook_start f)))))" for p
    using s by (simp add: handle_event_def pre_tool_use_bash_def session_start_origin user_prompt_submit_origin
        start_origin stop_origin standalone_origin)
  with s show ?thesis
    by (simp add: handle_def composed_origin snd_last split: option.split)
qed

text \<open>C28: No delivery directory of a child is lost: whatever the event and whoever else writes the store, a
  directory the issuer made for a child and that can be delivered is named by the record kept, or its
  removal was attempted, when the run ends.\<close>
theorem child_delivery_accounted:
  assumes "issuer_typed w"
  shows "accounted w h (snd (handle w h event input upstream (hook_start f)))"
proof -
  have s: "no_child (hook_start f)" by (simp add: no_child_def effects_in_def hook_start_def)
  have "accounted w h (snd (snd (snd (handle_event w h event p (hook_start f)))))" for p
    using s assms by (simp add: handle_event_def pre_tool_use_bash_def no_child_accounted sessions_no_child
        subagent_start_accounted rewriting_accounted)
  with s assms show ?thesis
    by (simp add: handle_def rewriting_accounted no_child_accounted snd_last split: option.split)
qed

theorem child_delivery_accounted_witness:
  "accounted sample_world sample_hook
     (snd (handle sample_world sample_hook ''subagent-start''
        ''{\"session_id\":\"s1\",\"agent_id\":\"a1\",\"agent_type\":\"scout\"}'' ([], None) (hook_start sample_files)))"
  by (rule child_delivery_accounted) (simp add: issuer_typed_def sample_world_def int64_range_def)

text \<open>A stopped agent loses its record before its directory: when the directory's removal was attempted, no
  record of the agent is left to deliver it, whatever came of the removal.\<close>
theorem stopped_agent_unrecorded:
  assumes "subagent_stop w h p s = (d, err, s')" and "d = AgentRemoved \<or> d = RemoveFailed"
  shows "record_at (hk_root h) (hs_files s') (pl_session_id p, pl_agent_id p) = None"
  using assms
  by (auto simp: subagent_stop_def dest!: do_delete_at do_remove_delivery_files
      split: prod.splits sum.splits option.splits if_splits)

lemma sample_sees:
  "hw_store sample_world n = sample_store_env" "hw_host sample_world = sample_delivery_host"
  "hw_remove_all sample_world = (\<lambda>_. True)" "hk_root sample_hook = ''/state''"
  "hs_seen sample_world (did sample_world [] (hook_start sample_files)) = sample_files"
  by (simp_all add: sample_world_def sample_hook_def hs_seen_def did_def hook_start_def)

lemma sample_stop:
  "\<exists>s'. subagent_stop sample_world sample_hook (sample_payload ''a1'') (hook_start sample_files) = (RemoveFailed, True, s')"
proof -
  have k: "safe_name ''s1''" "safe_name ''a1''" using sample_key_ok by (simp_all add: key_ok_def)
  have r: "remove_delivery sample_delivery_host (\<lambda>_. True) ''/run/d'' = RemovalRefused" by code_simp
  have d: "store_delete sample_store_env ''/state'' ''s1'' ''a1'' f = (Inr (), [Unlink (key_path ''/state'' (''s1'', ''a1''))])"
    if "f (key_path ''/state'' (''s1'', ''a1'')) \<noteq> None" for f
    using sample_record_path [OF sample_key_ok(1)] that by (auto simp: store_delete_def sample_store_env_def)
  show ?thesis
    using k sample_get [OF sample_key_ok(1)] d [of sample_files] r
    by (simp add: subagent_stop_def sample_payload_def do_delete_def do_remove_delivery_def sample_sees sample_record_def)
      (simp add: sample_files_def do_remove_delivery_def sample_sees)
qed

theorem stopped_agent_unrecorded_witness:
  "\<exists>s'. subagent_stop sample_world sample_hook (sample_payload ''a1'') (hook_start sample_files) = (RemoveFailed, True, s')
     \<and> record_at ''/state'' (hs_files s') (''s1'', ''a1'') = None"
proof -
  obtain s' where s: "subagent_stop sample_world sample_hook (sample_payload ''a1'') (hook_start sample_files) = (RemoveFailed, True, s')"
    using sample_stop by blast
  from stopped_agent_unrecorded [OF s] have "record_at ''/state'' (hs_files s') (''s1'', ''a1'') = None"
    by (simp add: sample_payload_def sample_hook_def)
  with s show ?thesis by blast
qed

end
