(* ===== verification/InstallSettings.thy ===== *)
theory InstallSettings
  imports ClaudeHook "HOL-Library.Finite_Map"
begin

text \<open>
  Registration of the hooks in a settings object: \<open>internal/hook/install.go\<close> (\<open>Apply\<close>,
  \<open>Remove\<close>) and \<open>permission_rule.go\<close>. A settings value is a JSON value whose objects are finite
  maps, as the Go maps are; the in-place edits of the code return the edited value.
\<close>

datatype sval =
    SNull | SBool bool | SNum string | SStr string | SArr "sval list" | SObj "(string, sval) fmap"

type_synonym settings = "(string, sval) fmap"

fun sval_of_json :: "json \<Rightarrow> sval" where
  "sval_of_json JNull = SNull"
| "sval_of_json (JBool b) = SBool b"
| "sval_of_json (JNum n) = SNum n"
| "sval_of_json (JStr s) = SStr s"
| "sval_of_json (JArr vs) = SArr (map sval_of_json vs)"
| "sval_of_json (JObj ms) = SObj (fmap_of_list (rev (map (map_prod id sval_of_json) ms)))"

definition text_of :: "sval option \<Rightarrow> string" where
  "text_of v = (case v of Some (SStr s) \<Rightarrow> s | _ \<Rightarrow> [])"

definition number_of :: "sval option \<Rightarrow> string" where
  "number_of v = (case v of Some (SNum s) \<Rightarrow> s | _ \<Rightarrow> [])"

lemma text_of_simps [simp]: "text_of None = []" "text_of (Some (SStr s)) = s" "number_of (Some (SNum s)) = s"
  by (simp_all add: text_of_def number_of_def)

subsection \<open>The registration\<close>

record install =
  in_binary :: string
  in_socket :: string
  in_state_dir :: string
  in_mode :: string
  in_origin :: string
  in_refresh_below :: int
  in_compose :: string
  in_timeout :: int

definition compose_allowance :: int where "compose_allowance = 8"

definition bash_event :: string where "bash_event = ''pre-tool-use-bash''"

definition timeout_for :: "install \<Rightarrow> string \<Rightarrow> int" where
  "timeout_for i event =
     (if event = bash_event \<and> in_compose i \<noteq> []
      then sint (word_of_int (in_timeout i) + word_of_int compose_allowance :: int64)
      else in_timeout i)"

text \<open>The event, the runtime's name of it, and the matcher.\<close>

type_synonym registration = "string \<times> string \<times> string"

definition registrations :: "registration list" where
  "registrations =
     [(''session-start'', ''SessionStart'', ''''), (''user-prompt-submit'', ''UserPromptSubmit'', ''''),
      (''subagent-start'', ''SubagentStart'', ''''), (bash_event, ''PreToolUse'', ''Bash''),
      (''subagent-stop'', ''SubagentStop'', '''')]"

definition plain_arg_char :: "char \<Rightarrow> bool" where
  "plain_arg_char c \<longleftrightarrow> is_alnum c \<or> c \<in> set ''_@%+=:,./-''"

definition shell_quote :: "string \<Rightarrow> string" where
  "shell_quote s =
     (if s \<noteq> [] \<and> list_all plain_arg_char s then s
      else [CHR 0x27] @ concat (map (\<lambda>c. if c = CHR 0x27 then [CHR 0x27, CHR 0x5C, CHR 0x27, CHR 0x27] else [c]) s)
        @ [CHR 0x27])"

datatype install_error =
    BadBinary | BadSocket | BadStateDir | BadCompose | InstallOriginHuman | BadMode | BadTimeout
  | HooksNotObject | GroupsNotArray string | PermissionsNotObject | AllowNotArray

definition validate_install :: "install \<Rightarrow> install_error option" where
  "validate_install i =
     (if \<not> is_abs (in_binary i) then Some BadBinary
      else if in_socket i = [] \<or> \<not> is_abs (in_socket i) then Some BadSocket
      else if \<not> is_abs (in_state_dir i) then Some BadStateDir
      else if in_compose i \<noteq> [] \<and> \<not> is_abs (in_compose i) then Some BadCompose
      else if in_origin i = ''human'' then Some InstallOriginHuman
      else if parse_mode (in_mode i) = None then Some BadMode
      else if in_timeout i \<le> 0 then Some BadTimeout
      else None)"

text \<open>
  \<open>time.Duration.String\<close> of a positive duration in nanoseconds: below a second the largest unit that
  leaves a whole part, from a second on hours, minutes and seconds; a fraction without its trailing
  zeros.
\<close>

definition fraction_text :: "nat \<Rightarrow> nat \<Rightarrow> string" where
  "fraction_text digits v =
     (let s = show_nat v;
          padded = replicate (digits - length s) CHR ''0'' @ s;
          kept = rev (dropWhile (\<lambda>c. c = CHR ''0'') (rev padded))
      in if kept = [] then [] else CHR ''.'' # kept)"

definition duration_text :: "nat \<Rightarrow> string" where
  "duration_text u =
     (if u = 0 then ''0s''
      else if u < 1000 then show_nat u @ ''ns''
      else if u < 1000000 then show_nat (u div 1000) @ fraction_text 3 (u mod 1000) @ [CHR 0xC2, CHR 0xB5, CHR ''s'']
      else if u < 1000000000 then show_nat (u div 1000000) @ fraction_text 6 (u mod 1000000) @ ''ms''
      else
        (let secs = u div 1000000000;
             frac = fraction_text 9 (u mod 1000000000);
             mins = secs div 60;
             hours = mins div 60
         in (if hours > 0 then show_nat hours @ ''h'' else [])
            @ (if mins > 0 then show_nat (mins mod 60) @ ''m'' else [])
            @ show_nat (secs mod 60) @ frac @ ''s''))"

definition hook_command :: "install \<Rightarrow> string \<Rightarrow> string" where
  "hook_command i event =
     join_with '' ''
       ([shell_quote (in_binary i), ''hook'', ''claude-code'', event]
        @ (if event = bash_event \<and> in_compose i \<noteq> []
           then [''--compose'', shell_quote (in_compose i), ''--upstream-timeout'', show_int (in_timeout i) @ ''s'']
           else [])
        @ [''--socket'', shell_quote (in_socket i), ''--state-dir'', shell_quote (in_state_dir i), ''--mode'', in_mode i]
        @ (if in_origin i \<noteq> [] then [''--origin'', shell_quote (in_origin i)] else [])
        @ (if event = ''user-prompt-submit'' \<and> in_refresh_below i > 0
           then [''--refresh-below'', duration_text (nat (in_refresh_below i))] else []))"

text \<open>What follows the first occurrence of a text.\<close>

fun after_first :: "string \<Rightarrow> string \<Rightarrow> string option" where
  "after_first m s =
     (if has_prefix s m then Some (drop (length m) s)
      else case s of [] \<Rightarrow> None | _ # t \<Rightarrow> after_first m t)"

declare after_first.simps [simp del]

definition marker :: "string \<Rightarrow> string" where "marker event = '' hook claude-code '' @ event"

definition ours :: "string \<Rightarrow> string \<Rightarrow> bool" where
  "ours command event =
     (case after_first (marker event) command of
        None \<Rightarrow> False
      | Some rest \<Rightarrow> (case rest of [] \<Rightarrow> True | c # _ \<Rightarrow> c = CHR '' ''))"

definition any_ours :: "string \<Rightarrow> bool" where
  "any_ours command = list_ex (\<lambda>(event, _). ours command event) registrations"

subsection \<open>Reading the settings\<close>

definition hooks_of :: "settings \<Rightarrow> bool \<Rightarrow> install_error + settings option" where
  "hooks_of root create =
     (case fmlookup root ''hooks'' of
        None \<Rightarrow> if \<not> create then Inr None else Inr (Some fmempty)
      | Some (SObj h) \<Rightarrow> Inr (Some h)
      | Some _ \<Rightarrow> Inl HooksNotObject)"

definition groups_of :: "settings \<Rightarrow> string \<Rightarrow> install_error + sval list" where
  "groups_of h name =
     (case fmlookup h name of
        None \<Rightarrow> Inr []
      | Some (SArr groups) \<Rightarrow> Inr groups
      | Some _ \<Rightarrow> Inl (GroupsNotArray name))"

definition entries_of :: "sval \<Rightarrow> settings option \<times> sval list" where
  "entries_of grp =
     (case grp of
        SObj g \<Rightarrow> (Some g, case fmlookup g ''hooks'' of Some (SArr es) \<Rightarrow> es | _ \<Rightarrow> [])
      | _ \<Rightarrow> (None, []))"

definition entry_command :: "sval \<Rightarrow> settings option \<times> string" where
  "entry_command entry =
     (case entry of SObj e \<Rightarrow> (Some e, text_of (fmlookup e ''command'')) | _ \<Rightarrow> (None, []))"

text \<open>
  A group after its entries were replaced; without entries there is nothing to replace. Where the
  code leaves the array because no entry was dropped, the entries in it have been edited in place.
\<close>

definition put_entries :: "sval \<Rightarrow> sval list \<Rightarrow> sval" where
  "put_entries grp kept =
     (case entries_of grp of
        (Some g, entries) \<Rightarrow> if entries = [] then grp else SObj (fmupd ''hooks'' (SArr kept) g)
      | (None, _) \<Rightarrow> grp)"

definition group_emptied :: "sval \<Rightarrow> sval list \<Rightarrow> bool" where
  "group_emptied grp kept \<longleftrightarrow> fst (entries_of grp) \<noteq> None \<and> snd (entries_of grp) \<noteq> [] \<and> kept = []"

subsection \<open>Apply\<close>

definition refresh_entry :: "string \<Rightarrow> string \<Rightarrow> settings \<Rightarrow> bool \<times> settings" where
  "refresh_entry want timeout e =
     (let (c1, e1) = (if text_of (fmlookup e ''command'') \<noteq> want then (True, fmupd ''command'' (SStr want) e) else (False, e))
      in if number_of (fmlookup e1 ''timeout'') \<noteq> timeout then (True, fmupd ''timeout'' (SNum timeout) e1) else (c1, e1))"

text \<open>The entries of one group: whether the registration has been found, whether something changed, what is kept.\<close>

fun apply_entries :: "string \<Rightarrow> string \<Rightarrow> string \<Rightarrow> bool \<Rightarrow> sval list \<Rightarrow> bool \<times> bool \<times> sval list" where
  "apply_entries event want timeout found [] = (found, False, [])"
| "apply_entries event want timeout found (entry # entries) =
     (case entry_command entry of
        (None, _) \<Rightarrow>
          (case apply_entries event want timeout found entries of (f, c, kept) \<Rightarrow> (f, c, entry # kept))
      | (Some e, cmd) \<Rightarrow>
          if \<not> ours cmd event then
            (case apply_entries event want timeout found entries of (f, c, kept) \<Rightarrow> (f, c, entry # kept))
          else if found then
            (case apply_entries event want timeout found entries of (f, c, kept) \<Rightarrow> (f, True, kept))
          else
            (case refresh_entry want timeout e of
               (c1, e') \<Rightarrow>
                 (case apply_entries event want timeout True entries of
                    (f, c, kept) \<Rightarrow> (f, c1 \<or> c, SObj e' # kept))))"

fun apply_groups :: "string \<Rightarrow> string \<Rightarrow> string \<Rightarrow> bool \<Rightarrow> sval list \<Rightarrow> bool \<times> bool \<times> sval list" where
  "apply_groups event want timeout found [] = (found, False, [])"
| "apply_groups event want timeout found (grp # groups) =
     (case apply_entries event want timeout found (snd (entries_of grp)) of
        (f1, c1, kept) \<Rightarrow>
          (case apply_groups event want timeout f1 groups of
             (f2, c2, keptGroups) \<Rightarrow>
               (f2, c1 \<or> c2,
                if group_emptied grp kept then keptGroups else put_entries grp kept # keptGroups)))"

definition new_entry :: "string \<Rightarrow> string \<Rightarrow> sval" where
  "new_entry want timeout =
     SObj (fmupd ''timeout'' (SNum timeout) (fmupd ''command'' (SStr want) (fmupd ''type'' (SStr ''command'') fmempty)))"

definition new_group :: "string \<Rightarrow> string \<Rightarrow> string \<Rightarrow> sval" where
  "new_group want timeout matcher =
     (let grp = fmupd ''hooks'' (SArr [new_entry want timeout]) fmempty
      in SObj (if matcher \<noteq> [] then fmupd ''matcher'' (SStr matcher) grp else grp))"

definition event_groups :: "install \<Rightarrow> registration \<Rightarrow> sval list \<Rightarrow> bool \<times> sval list" where
  "event_groups i r groups =
     (case r of (event, runtime, matcher) \<Rightarrow>
        (let want = hook_command i event; timeout = show_int (timeout_for i event)
         in case apply_groups event want timeout False groups of
              (found, changed, kept) \<Rightarrow>
                if \<not> found then (True, kept @ [new_group want timeout matcher]) else (changed, kept)))"

fun apply_events :: "install \<Rightarrow> registration list \<Rightarrow> settings \<Rightarrow> install_error + bool \<times> settings" where
  "apply_events i [] h = Inr (False, h)"
| "apply_events i (r # rs) h =
     (case groups_of h (fst (snd r)) of
        Inl e \<Rightarrow> Inl e
      | Inr groups \<Rightarrow>
          (case event_groups i r groups of
             (c1, groups') \<Rightarrow>
               (case apply_events i rs (fmupd (fst (snd r)) (SArr groups') h) of
                  Inl e \<Rightarrow> Inl e
                | Inr (c2, h') \<Rightarrow> Inr (c1 \<or> c2, h'))))"

subsection \<open>The allow rule\<close>

definition allow_rule :: string where "allow_rule = ''Bash(export '' @ env_dir @ ''=*)''"

definition permissions_of :: "settings \<Rightarrow> install_error + settings option" where
  "permissions_of root =
     (case fmlookup root ''permissions'' of
        None \<Rightarrow> Inr None
      | Some (SObj p) \<Rightarrow> Inr (Some p)
      | Some _ \<Rightarrow> Inl PermissionsNotObject)"

definition allow_of :: "settings \<Rightarrow> install_error + sval list" where
  "allow_of p =
     (case fmlookup p ''allow'' of
        None \<Rightarrow> Inr []
      | Some (SArr allow) \<Rightarrow> Inr allow
      | Some _ \<Rightarrow> Inl AllowNotArray)"

definition add_allow_rule :: "settings \<Rightarrow> install_error + bool \<times> settings" where
  "add_allow_rule root =
     (case permissions_of root of
        Inl e \<Rightarrow> Inl e
      | Inr po \<Rightarrow>
          (case (case po of None \<Rightarrow> Inr [] | Some p \<Rightarrow> allow_of p) of
             Inl e \<Rightarrow> Inl e
           | Inr allow \<Rightarrow>
               if SStr allow_rule \<in> set allow then Inr (False, root)
               else
                 (let p = (case po of None \<Rightarrow> fmempty | Some p \<Rightarrow> p)
                  in Inr (True, fmupd ''permissions'' (SObj (fmupd ''allow'' (SArr (allow @ [SStr allow_rule])) p)) root))))"

definition remove_allow_rule :: "settings \<Rightarrow> install_error + bool \<times> settings" where
  "remove_allow_rule root =
     (case permissions_of root of
        Inl e \<Rightarrow> Inl e
      | Inr None \<Rightarrow> Inr (False, root)
      | Inr (Some p) \<Rightarrow>
          (case allow_of p of
             Inl e \<Rightarrow> Inl e
           | Inr allow \<Rightarrow>
               (let kept = filter (\<lambda>r. r \<noteq> SStr allow_rule) allow
                in if length kept = length allow then Inr (False, root)
                   else
                     (let p' = (if kept = [] then fmdrop ''allow'' p else fmupd ''allow'' (SArr kept) p)
                      in Inr (True, if p' = fmempty then fmdrop ''permissions'' root
                                    else fmupd ''permissions'' (SObj p') root)))))"

definition apply_install :: "install \<Rightarrow> settings \<Rightarrow> install_error + bool \<times> settings" where
  "apply_install i root =
     (case validate_install i of
        Some e \<Rightarrow> Inl e
      | None \<Rightarrow>
          (case hooks_of root True of
             Inl e \<Rightarrow> Inl e
           | Inr ho \<Rightarrow>
               (case apply_events i registrations (case ho of Some h \<Rightarrow> h | None \<Rightarrow> fmempty) of
                  Inl e \<Rightarrow> Inl e
                | Inr (changed, h') \<Rightarrow>
                    (case add_allow_rule (fmupd ''hooks'' (SObj h') root) of
                       Inl e \<Rightarrow> Inl e
                     | Inr (ruleAdded, root') \<Rightarrow> Inr (changed \<or> ruleAdded, root')))))"

subsection \<open>Remove\<close>

definition entry_ours :: "sval \<Rightarrow> bool" where
  "entry_ours entry \<longleftrightarrow> any_ours (snd (entry_command entry))"

fun remove_groups :: "sval list \<Rightarrow> bool \<times> sval list" where
  "remove_groups [] = (False, [])"
| "remove_groups (grp # groups) =
     (let entries = snd (entries_of grp);
          kept = filter (\<lambda>e. \<not> entry_ours e) entries
      in case remove_groups groups of
           (c, keptGroups) \<Rightarrow>
             (list_ex entry_ours entries \<or> c,
              if group_emptied grp kept then keptGroups
              else (if length kept \<noteq> length entries then put_entries grp kept else grp) # keptGroups))"

fun remove_events :: "registration list \<Rightarrow> settings \<Rightarrow> install_error + bool \<times> settings" where
  "remove_events [] h = Inr (False, h)"
| "remove_events (r # rs) h =
     (case groups_of h (fst (snd r)) of
        Inl e \<Rightarrow> Inl e
      | Inr groups \<Rightarrow>
          (case remove_groups groups of
             (c1, kept) \<Rightarrow>
               (let runtime = fst (snd r);
                    h1 = (if fmlookup h runtime = None then h
                          else if kept = [] \<and> groups \<noteq> [] then fmdrop runtime h
                          else fmupd runtime (SArr kept) h)
                in case remove_events rs h1 of
                     Inl e \<Rightarrow> Inl e
                   | Inr (c2, h') \<Rightarrow> Inr (c1 \<or> c2, h'))))"

definition remove_install :: "settings \<Rightarrow> install_error + bool \<times> settings" where
  "remove_install root =
     (case remove_allow_rule root of
        Inl e \<Rightarrow> Inl e
      | Inr (ruleRemoved, root1) \<Rightarrow>
          (case hooks_of root1 False of
             Inl e \<Rightarrow> Inl e
           | Inr None \<Rightarrow> Inr (ruleRemoved, root1)
           | Inr (Some h) \<Rightarrow>
               (case remove_events registrations h of
                  Inl e \<Rightarrow> Inl e
                | Inr (changed, h') \<Rightarrow>
                    Inr (changed \<or> ruleRemoved,
                         if changed \<and> h' = fmempty then fmdrop ''hooks'' root1
                         else fmupd ''hooks'' (SObj h') root1))))"

subsection \<open>Entries\<close>

lemma fmupd_same: "fmlookup m k = Some v \<Longrightarrow> fmupd k v m = m"
  by (rule fmap_ext) auto

lemma fmdrop_upd_new: "fmlookup m k = None \<Longrightarrow> fmdrop k (fmupd k v m) = m"
  by (rule fmap_ext) auto

lemma refresh_entry_result:
  assumes "refresh_entry want timeout e = (c, e')"
  shows "entry_command (SObj e') = (Some e', want)" and "refresh_entry want timeout e' = (False, e')"
  using assms by (auto simp: refresh_entry_def entry_command_def text_of_def Let_def split: if_splits)

text \<open>One run leaves at most one registration, which a second run leaves as it is.\<close>

lemma apply_entries_again:
  assumes "ours want event"
  shows "apply_entries event want timeout found entries = (f, c, kept)
    \<Longrightarrow> apply_entries event want timeout found kept = (f, False, kept) \<and> (kept = [] \<longrightarrow> f = found)"
proof (induction entries arbitrary: found f c kept)
  case Nil
  then show ?case by simp
next
  case (Cons entry entries)
  obtain m cmd where m: "entry_command entry = (m, cmd)" by force
  show ?case
  proof (cases "m = None \<or> \<not> ours cmd event")
    case True
    with Cons.prems m obtain kept' where "apply_entries event want timeout found entries = (f, c, kept')"
      "kept = entry # kept'" by (auto split: option.splits prod.splits)
    with Cons.IH True m show ?thesis by (fastforce split: option.splits)
  next
    case o: False
    then obtain e where e: "m = Some e" by auto
    show ?thesis
    proof (cases found)
      case True
      with Cons.prems m e o obtain c' where "apply_entries event want timeout found entries = (f, c', kept)"
        by (auto split: prod.splits)
      with Cons.IH show ?thesis by blast
    next
      case False
      with Cons.prems m e o obtain c1 e' c' kept' where k: "refresh_entry want timeout e = (c1, e')"
        "apply_entries event want timeout True entries = (f, c', kept')" "kept = SObj e' # kept'"
        by (auto split: prod.splits)
      with Cons.IH [OF k(2)] refresh_entry_result [OF k(1)] assms False show ?thesis by simp
    qed
  qed
qed

lemma apply_entries_foreign:
  assumes "any_ours want" and "\<And>cmd. ours cmd event \<Longrightarrow> any_ours cmd"
  shows "apply_entries event want timeout found entries = (f, c, kept)
    \<Longrightarrow> filter (\<lambda>e. \<not> entry_ours e) kept = filter (\<lambda>e. \<not> entry_ours e) entries"
proof (induction entries arbitrary: found f c kept)
  case Nil
  then show ?case by simp
next
  case (Cons entry entries)
  obtain m cmd where m: "entry_command entry = (m, cmd)" by force
  show ?case
  proof (cases "m = None \<or> \<not> ours cmd event")
    case True
    with Cons.prems m obtain kept' where "apply_entries event want timeout found entries = (f, c, kept')"
      "kept = entry # kept'" by (auto split: option.splits prod.splits)
    with Cons.IH show ?thesis by simp
  next
    case o: False
    then obtain e where e: "m = Some e" by auto
    from o have mine: "entry_ours entry" using assms(2) m by (simp add: entry_ours_def)
    show ?thesis
    proof (cases found)
      case True
      with Cons.prems m e o obtain c' where "apply_entries event want timeout found entries = (f, c', kept)"
        by (auto split: prod.splits)
      with Cons.IH mine show ?thesis by simp
    next
      case False
      with Cons.prems m e o obtain c1 e' c' kept' where k: "refresh_entry want timeout e = (c1, e')"
        "apply_entries event want timeout True entries = (f, c', kept')" "kept = SObj e' # kept'"
        by (auto split: prod.splits)
      with Cons.IH [OF k(2)] refresh_entry_result(1) [OF k(1)] assms(1) mine show ?thesis
        by (simp add: entry_ours_def)
    qed
  qed
qed

lemma apply_entries_length: "apply_entries event want timeout found entries = (f, c, kept) \<Longrightarrow> length kept \<le> length entries"
  by (induction entries arbitrary: found f c kept)
    (fastforce split: prod.splits option.splits if_splits)+

subsection \<open>Groups\<close>

lemma entries_of_cases:
  obtains "entries_of grp = (None, [])" | g es where "grp = SObj g" "entries_of grp = (Some g, es)"
  by (cases grp) (auto simp: entries_of_def)

lemma entries_of_SObj:
  "entries_of (SObj g) = (Some g, case fmlookup g ''hooks'' of Some (SArr es) \<Rightarrow> es | _ \<Rightarrow> [])"
  by (simp add: entries_of_def)

lemma entries_of_put:
  "entries_of (put_entries grp kept) =
     (if snd (entries_of grp) = [] then entries_of grp
      else (map_option (fmupd ''hooks'' (SArr kept)) (fst (entries_of grp)), kept))"
  by (rule entries_of_cases [of grp]) (auto simp: put_entries_def entries_of_def split: option.splits)

lemma entries_of_fst: "snd (entries_of grp) \<noteq> [] \<Longrightarrow> fst (entries_of grp) \<noteq> None"
  by (rule entries_of_cases [of grp]) auto

lemma put_entries_same: "put_entries (put_entries grp kept) kept = put_entries grp kept"
  by (rule entries_of_cases [of grp]) (auto simp: put_entries_def entries_of_def split: option.splits)

lemma put_entries_own: "put_entries grp (snd (entries_of grp)) = grp"
proof (rule entries_of_cases [of grp])
  fix g es
  assume g: "grp = SObj g" "entries_of grp = (Some g, es)"
  show ?thesis
  proof (cases "es = []")
    case True
    with g show ?thesis by (simp add: put_entries_def)
  next
    case False
    with g have "fmlookup g ''hooks'' = Some (SArr es)"
      by (auto simp: entries_of_def split: option.splits sval.splits)
    with g False show ?thesis by (simp add: put_entries_def fmupd_same)
  qed
qed (simp add: put_entries_def)

lemma put_entries_put: "put_entries (put_entries grp kept) kept' = (if kept = [] then put_entries grp [] else put_entries grp kept')"
  if "kept = [] \<Longrightarrow> kept' = []"
  using that by (cases "entries_of grp") (auto simp: put_entries_def entries_of_SObj split: option.splits)

lemma apply_groups_again:
  assumes "ours want event"
  shows "apply_groups event want timeout found groups = (f, c, kept)
    \<Longrightarrow> apply_groups event want timeout found kept = (f, False, kept)"
proof (induction groups arbitrary: found f c kept)
  case Nil
  then show ?case by simp
next
  case (Cons grp groups)
  let ?es = "snd (entries_of grp)"
  obtain f1 c1 k where e: "apply_entries event want timeout found ?es = (f1, c1, k)"
    by (rule prod_cases3)
  obtain f2 c2 ks where g: "apply_groups event want timeout f1 groups = (f2, c2, ks)"
    by (rule prod_cases3)
  have again: "apply_entries event want timeout found k = (f1, False, k)" "k = [] \<Longrightarrow> f1 = found"
    "apply_groups event want timeout f1 ks = (f2, False, ks)"
    using apply_entries_again [OF assms e] Cons.IH [OF g] by blast+
  have r: "f = f2" "kept = (if group_emptied grp k then ks else put_entries grp k # ks)"
    using Cons.prems e g by simp_all
  show ?case
  proof (cases "group_emptied grp k")
    case True
    then have "k = []" by (simp add: group_emptied_def)
    with again(2,3) True r show ?thesis by simp
  next
    case False
    have es: "snd (entries_of (put_entries grp k)) = k"
      using e by (cases "?es = []") (simp_all add: entries_of_put)
    have "\<not> group_emptied (put_entries grp k) k"
      unfolding group_emptied_def es by simp
    then show ?thesis
      using again(1,3) r False by (simp add: es put_entries_same)
  qed
qed

lemma apply_groups_append:
  "apply_groups event want timeout found (gs @ gs') =
     (case apply_groups event want timeout found gs of
        (f1, c1, k1) \<Rightarrow> (case apply_groups event want timeout f1 gs' of (f2, c2, k2) \<Rightarrow> (f2, c1 \<or> c2, k1 @ k2)))"
  by (induction gs arbitrary: found) (auto split: prod.splits)

subsection \<open>Events\<close>

definition recognised :: "install \<Rightarrow> bool" where
  "recognised i \<longleftrightarrow> list_all (\<lambda>(event, _). ours (hook_command i event) event) registrations"

lemma recognisedD: "recognised i \<Longrightarrow> (event, r) \<in> set registrations \<Longrightarrow> ours (hook_command i event) event"
  by (auto simp: recognised_def list_all_iff)

lemma any_oursI: "(event, r) \<in> set registrations \<Longrightarrow> ours cmd event \<Longrightarrow> any_ours cmd"
  by (auto simp: any_ours_def list_ex_iff)

lemma new_group_entries: "entries_of (new_group want timeout matcher) =
   (Some (if matcher \<noteq> [] then fmupd ''matcher'' (SStr matcher) (fmupd ''hooks'' (SArr [new_entry want timeout]) fmempty)
          else fmupd ''hooks'' (SArr [new_entry want timeout]) fmempty), [new_entry want timeout])"
  by (simp add: new_group_def Let_def entries_of_SObj)

lemma new_group_again:
  assumes "ours want event"
  shows "apply_groups event want timeout False [new_group want timeout matcher] = (True, False, [new_group want timeout matcher])"
proof -
  have "apply_entries event want timeout False [new_entry want timeout] = (True, False, [new_entry want timeout])"
    using assms by (simp add: new_entry_def entry_command_def refresh_entry_def Let_def)
  then show ?thesis
    using put_entries_own [of "new_group want timeout matcher"]
    by (simp add: new_group_entries group_emptied_def)
qed

lemma event_groups_again:
  assumes "ours (hook_command i (fst r)) (fst r)" and "event_groups i r groups = (c, groups')"
  shows "event_groups i r groups' = (False, groups')"
proof -
  obtain event runtime matcher where r: "r = (event, runtime, matcher)" by (rule prod_cases3)
  let ?want = "hook_command i event" and ?timeout = "show_int (timeout_for i event)"
  obtain f c1 kept where g: "apply_groups event ?want ?timeout False groups = (f, c1, kept)" by (rule prod_cases3)
  have w: "ours ?want event" using assms(1) r by simp
  note again = apply_groups_again [OF w g]
  show ?thesis
  proof (cases f)
    case True
    with assms(2) r g again show ?thesis by (simp add: event_groups_def)
  next
    case False
    with assms(2) r g have "groups' = kept @ [new_group ?want ?timeout matcher]"
      by (simp add: event_groups_def)
    with again False r new_group_again [OF w, of ?timeout matcher] show ?thesis
      by (simp add: event_groups_def apply_groups_append)
  qed
qed

abbreviation runtime_of :: "registration \<Rightarrow> string" where "runtime_of r \<equiv> fst (snd r)"

lemma apply_events_other:
  "apply_events i rs h = Inr (c, h') \<Longrightarrow> n \<notin> runtime_of ` set rs \<Longrightarrow> fmlookup h' n = fmlookup h n"
  by (induction rs arbitrary: h c) (fastforce split: sum.splits prod.splits)+

text \<open>An event is settled when another run would leave its groups.\<close>

definition settled_event :: "install \<Rightarrow> settings \<Rightarrow> registration \<Rightarrow> bool" where
  "settled_event i h r \<longleftrightarrow>
     (\<exists>groups. fmlookup h (runtime_of r) = Some (SArr groups) \<and> event_groups i r groups = (False, groups))"

lemma apply_events_settled:
  assumes "distinct (map runtime_of rs)" and "\<forall>r \<in> set rs. ours (hook_command i (fst r)) (fst r)"
  shows "apply_events i rs h = Inr (c, h') \<Longrightarrow> \<forall>r \<in> set rs. settled_event i h' r"
  using assms
proof (induction rs arbitrary: h c)
  case Nil
  then show ?case by simp
next
  case (Cons r rs)
  from Cons.prems(1) obtain groups c1 groups' c2 where
    e: "event_groups i r groups = (c1, groups')"
      "apply_events i rs (fmupd (runtime_of r) (SArr groups') h) = Inr (c2, h')"
    by (auto split: sum.splits prod.splits)
  have "fmlookup h' (runtime_of r) = Some (SArr groups')"
    using apply_events_other [OF e(2), of "runtime_of r"] Cons.prems(2) by simp
  with event_groups_again [OF _ e(1)] Cons.prems(3) have "settled_event i h' r"
    by (auto simp: settled_event_def)
  with Cons.IH [OF e(2)] Cons.prems(2,3) show ?case by simp
qed

lemma apply_events_stable: "\<forall>r \<in> set rs. settled_event i h r \<Longrightarrow> apply_events i rs h = Inr (False, h)"
  by (induction rs) (auto simp: settled_event_def groups_of_def fmupd_same)

lemma registrations_distinct: "distinct (map runtime_of registrations)"
  by (simp add: registrations_def)

lemma apply_events_again:
  assumes "recognised i" and "apply_events i registrations h = Inr (c, h')"
  shows "apply_events i registrations h' = Inr (False, h')"
proof (rule apply_events_stable)
  have "\<forall>r \<in> set registrations. ours (hook_command i (fst r)) (fst r)"
    using assms(1) recognisedD by (metis prod.collapse)
  with apply_events_settled [OF registrations_distinct _ assms(2)]
  show "\<forall>r \<in> set registrations. settled_event i h' r" .
qed

subsection \<open>The rule\<close>

lemma add_allow_rule_cases:
  assumes "add_allow_rule root = Inr (c, root')"
  obtains po allow where "permissions_of root = Inr po" "(case po of None \<Rightarrow> Inr [] | Some p \<Rightarrow> allow_of p) = Inr allow"
    "c = (SStr allow_rule \<notin> set allow)"
    "root' = (if c then fmupd ''permissions'' (SObj (fmupd ''allow'' (SArr (allow @ [SStr allow_rule]))
        (case po of None \<Rightarrow> fmempty | Some p \<Rightarrow> p))) root else root)"
proof (cases "permissions_of root")
  case (Inl e)
  with assms show ?thesis by (simp add: add_allow_rule_def)
next
  case (Inr po)
  show ?thesis
  proof (cases "case po of None \<Rightarrow> Inr [] | Some p \<Rightarrow> allow_of p")
    case (Inl e)
    with assms Inr show ?thesis by (simp add: add_allow_rule_def)
  next
    case a: (Inr allow)
    with assms Inr show ?thesis
      by (intro that [OF Inr a]) (auto simp: add_allow_rule_def Let_def split: if_splits)
  qed
qed

lemma add_allow_rule_again:
  assumes "add_allow_rule root = Inr (c, root')"
  shows "add_allow_rule root' = Inr (False, root')"
  using assms
proof (rule add_allow_rule_cases)
  fix po allow
  assume a: "permissions_of root = Inr po" "(case po of None \<Rightarrow> Inr [] | Some p \<Rightarrow> allow_of p) = Inr allow"
    "c = (SStr allow_rule \<notin> set allow)"
    "root' = (if c then fmupd ''permissions'' (SObj (fmupd ''allow'' (SArr (allow @ [SStr allow_rule]))
        (case po of None \<Rightarrow> fmempty | Some p \<Rightarrow> p))) root else root)"
  show ?thesis
  proof (cases c)
    case True
    with a show ?thesis by (simp add: add_allow_rule_def permissions_of_def allow_of_def)
  next
    case False
    with a show ?thesis by (simp add: add_allow_rule_def)
  qed
qed

lemma add_allow_rule_other:
  "add_allow_rule root = Inr (c, root') \<Longrightarrow> n \<noteq> ''permissions'' \<Longrightarrow> fmlookup root' n = fmlookup root n"
  by (erule add_allow_rule_cases) simp

lemma hooks_of_create: "hooks_of root True \<noteq> Inr None"
  by (simp add: hooks_of_def split: option.split sval.split)

lemma apply_install_Inr:
  assumes "apply_install i root = Inr (c, root')"
  obtains ho c1 h' c2 where "validate_install i = None" "hooks_of root True = Inr (Some ho)"
    "apply_events i registrations ho = Inr (c1, h')"
    "add_allow_rule (fmupd ''hooks'' (SObj h') root) = Inr (c2, root')" "c = (c1 \<or> c2)"
proof -
  have v: "validate_install i = None"
    using assms by (cases "validate_install i") (simp_all add: apply_install_def)
  then obtain hx where "hooks_of root True = Inr hx"
    using assms by (cases "hooks_of root True") (simp_all add: apply_install_def)
  with hooks_of_create obtain ho where h: "hooks_of root True = Inr (Some ho)" by (cases hx) auto
  with v assms obtain c1 h' where e: "apply_events i registrations ho = Inr (c1, h')"
    by (cases "apply_events i registrations ho") (auto simp: apply_install_def)
  with v h assms obtain c2 r where r: "add_allow_rule (fmupd ''hooks'' (SObj h') root) = Inr (c2, r)"
    by (cases "add_allow_rule (fmupd ''hooks'' (SObj h') root)") (auto simp: apply_install_def)
  with v h e assms have "r = root'" "c = (c1 \<or> c2)" by (auto simp: apply_install_def)
  with that v h e r show ?thesis by blast
qed

lemma apply_install_again:
  assumes "recognised i" and "apply_install i root = Inr (c, root')"
  shows "apply_install i root' = Inr (False, root')"
  using assms(2)
proof (rule apply_install_Inr)
  fix ho c1 h' c2
  assume a: "validate_install i = None" "apply_events i registrations ho = Inr (c1, h')"
    "add_allow_rule (fmupd ''hooks'' (SObj h') root) = Inr (c2, root')"
  have h: "fmlookup root' ''hooks'' = Some (SObj h')"
    using add_allow_rule_other [OF a(3), of "''hooks''"] by simp
  with a(1) apply_events_again [OF assms(1) a(2)] add_allow_rule_again [OF a(3)] fmupd_same [OF h]
  show ?thesis by (simp add: apply_install_def hooks_of_def)
qed

end
