(* ===== verification/InstallRoundtrip.thy ===== *)
theory InstallRoundtrip
  imports InstallSettings
begin

text \<open>
  Removal takes back what registration did: what \<open>Remove\<close> leaves of a settings object does not
  depend on whether \<open>Apply\<close> ran first. Also the command line: \<open>ours\<close> recognises what
  \<open>Command\<close> writes.
\<close>

subsection \<open>Groups\<close>

definition left_of :: "sval \<Rightarrow> sval list" where
  "left_of grp = filter (\<lambda>e. \<not> entry_ours e) (snd (entries_of grp))"

lemma remove_groups_Cons:
  "snd (remove_groups (grp # groups)) =
     (if group_emptied grp (left_of grp) then snd (remove_groups groups)
      else put_entries grp (left_of grp) # snd (remove_groups groups))"
proof -
  have "left_of grp = snd (entries_of grp)" if "length (left_of grp) = length (snd (entries_of grp))"
    using that unfolding left_of_def by (metis filter_id_conv length_filter_less less_irrefl)
  then show ?thesis
    using put_entries_own [of grp] by (auto simp: left_of_def [symmetric] Let_def split: prod.split)
qed

lemma remove_groups_append: "snd (remove_groups (gs @ gs')) = snd (remove_groups gs) @ snd (remove_groups gs')"
  by (induction gs) (simp_all add: remove_groups_Cons del: remove_groups.simps(2))

lemma remove_groups_fst: "fst (remove_groups groups) \<longleftrightarrow> (\<exists>g \<in> set groups. \<exists>e \<in> set (snd (entries_of g)). entry_ours e)"
  by (induction groups) (auto simp: Let_def list_ex_iff split: prod.splits)

lemma remove_groups_fst_append: "fst (remove_groups (gs @ gs')) \<longleftrightarrow> fst (remove_groups gs) \<or> fst (remove_groups gs')"
  by (auto simp: remove_groups_fst)

lemma remove_groups_none: "\<not> fst (remove_groups groups) \<Longrightarrow> snd (remove_groups groups) = groups"
proof (induction groups)
  case (Cons grp groups)
  then have l: "left_of grp = snd (entries_of grp)" and "\<not> fst (remove_groups groups)"
    unfolding remove_groups_fst left_of_def by auto
  with Cons.IH show ?case
    by (simp add: remove_groups_Cons l put_entries_own group_emptied_def del: remove_groups.simps)
qed simp

lemma remove_after_apply:
  assumes "any_ours want" and "\<And>cmd. ours cmd event \<Longrightarrow> any_ours cmd"
  shows "apply_groups event want timeout found groups = (f, c, kept)
    \<Longrightarrow> snd (remove_groups kept) = snd (remove_groups groups)"
proof (induction groups arbitrary: found f c kept)
  case Nil
  then show ?case by simp
next
  case (Cons grp groups)
  let ?es = "snd (entries_of grp)"
  obtain f1 c1 k where e: "apply_entries event want timeout found ?es = (f1, c1, k)"
    by (rule prod_cases3)
  obtain f2 c2 ks where g: "apply_groups event want timeout f1 groups = (f2, c2, ks)"
    by (rule prod_cases3)
  have r: "kept = (if group_emptied grp k then ks else put_entries grp k # ks)"
    using Cons.prems e g by simp
  have v: "filter (\<lambda>e. \<not> entry_ours e) k = left_of grp"
    using apply_entries_foreign [OF assms e] by (simp add: left_of_def)
  note IH = Cons.IH [OF g]
  show ?case
  proof (cases "group_emptied grp k")
    case True
    with v have "group_emptied grp (left_of grp)" by (auto simp: group_emptied_def)
    with True r IH show ?thesis by (simp add: remove_groups_Cons del: remove_groups.simps)
  next
    case False
    let ?g = "put_entries grp k"
    have es: "snd (entries_of ?g) = k"
      using e by (cases "?es = []") (simp_all add: entries_of_put)
    with v have l: "left_of ?g = left_of grp" by (simp add: left_of_def)
    have "group_emptied ?g (left_of grp) = group_emptied grp (left_of grp)"
      using False v e by (cases "?es = []") (auto simp: group_emptied_def entries_of_put dest: entries_of_fst)
    moreover have "put_entries ?g (left_of grp) = put_entries grp (left_of grp)"
      using v by (subst put_entries_put) auto
    ultimately show ?thesis using False r IH l by (simp add: remove_groups_Cons del: remove_groups.simps)
  qed
qed

lemma apply_entries_found:
  assumes "any_ours want"
  shows "apply_entries event want timeout False es = (True, c, kept) \<Longrightarrow> list_ex entry_ours kept"
proof (induction es arbitrary: c kept)
  case Nil
  then show ?case by simp
next
  case (Cons entry es)
  obtain m cmd where m: "entry_command entry = (m, cmd)" by force
  show ?case
  proof (cases "m = None \<or> \<not> ours cmd event")
    case True
    with Cons.prems m obtain c' kept' where "apply_entries event want timeout False es = (True, c', kept')"
      "kept = entry # kept'" by (auto split: option.splits prod.splits)
    with Cons.IH show ?thesis by simp
  next
    case False
    then obtain e where e: "m = Some e" by auto
    with Cons.prems m False obtain c1 e' kept' where "refresh_entry want timeout e = (c1, e')" "kept = SObj e' # kept'"
      by (auto split: prod.splits)
    with refresh_entry_result(1) assms show ?thesis by (simp add: entry_ours_def)
  qed
qed

lemma apply_groups_found:
  assumes "any_ours want"
  shows "apply_groups event want timeout False groups = (True, c, kept) \<Longrightarrow> fst (remove_groups kept)"
proof (induction groups arbitrary: c kept)
  case Nil
  then show ?case by simp
next
  case (Cons grp groups)
  let ?es = "snd (entries_of grp)"
  obtain f1 c1 k where e: "apply_entries event want timeout False ?es = (f1, c1, k)"
    by (rule prod_cases3)
  obtain f2 c2 ks where g: "apply_groups event want timeout f1 groups = (f2, c2, ks)"
    by (rule prod_cases3)
  have r: "f2 = True" "kept = (if group_emptied grp k then ks else put_entries grp k # ks)"
    using Cons.prems e g by simp_all
  show ?case
  proof (cases f1)
    case True
    have k: "list_ex entry_ours k" using apply_entries_found [OF assms, of event timeout ?es c1 k] e True by simp
    have "snd (entries_of (put_entries grp k)) = k"
      using e by (cases "?es = []") (simp_all add: entries_of_put)
    moreover have "\<not> group_emptied grp k" using k by (auto simp: group_emptied_def)
    ultimately show ?thesis using k r(2) by (auto simp: remove_groups_fst list_ex_iff simp del: remove_groups.simps)
  next
    case False
    with g r(1) Cons.IH [of c2 ks] have "fst (remove_groups ks)" by simp
    with r(2) show ?thesis by (auto simp: remove_groups_fst)
  qed
qed

lemma event_groups_removed:
  assumes "(event, r) \<in> set registrations" and "ours (hook_command i event) event"
    and "event_groups i (event, r) groups = (c, groups')"
  shows "snd (remove_groups groups') = snd (remove_groups groups)" and "fst (remove_groups groups')"
proof -
  obtain runtime matcher where r: "r = (runtime, matcher)" by force
  let ?want = "hook_command i event" and ?timeout = "show_int (timeout_for i event)"
  have any: "any_ours ?want" using any_oursI [OF assms(1,2)] .
  have event: "ours cmd event \<Longrightarrow> any_ours cmd" for cmd using any_oursI [OF assms(1)] .
  obtain f c1 kept where g: "apply_groups event ?want ?timeout False groups = (f, c1, kept)" by (rule prod_cases3)
  have new: "remove_groups [new_group ?want ?timeout matcher] = (True, [])"
  proof -
    have "entry_ours (new_entry ?want ?timeout)"
      using any by (simp add: entry_ours_def new_entry_def entry_command_def)
    then show ?thesis by (simp add: new_group_entries group_emptied_def)
  qed
  have "snd (remove_groups groups') = snd (remove_groups groups) \<and> fst (remove_groups groups')"
  proof (cases f)
    case True
    with assms(3) r g have "groups' = kept" by (simp add: event_groups_def)
    with remove_after_apply [OF any event g] apply_groups_found [OF any, of event ?timeout groups c1 kept] g True show ?thesis by simp
  next
    case False
    with assms(3) r g have "groups' = kept @ [new_group ?want ?timeout matcher]" by (simp add: event_groups_def)
    moreover have "fst (remove_groups [new_group ?want ?timeout matcher])" using new by simp
    ultimately show ?thesis
      using remove_after_apply [OF any event g] new
      by (simp add: remove_groups_append remove_groups_fst_append del: remove_groups.simps)
  qed
  then show "snd (remove_groups groups') = snd (remove_groups groups)" "fst (remove_groups groups')" by auto
qed

subsection \<open>Events\<close>

definition remaining :: "sval option \<Rightarrow> sval option" where
  "remaining v = (case v of
     Some (SArr groups) \<Rightarrow>
       if snd (remove_groups groups) = [] \<and> groups \<noteq> [] then None else Some (SArr (snd (remove_groups groups)))
   | other \<Rightarrow> other)"

definition holds_ours :: "sval option \<Rightarrow> bool" where
  "holds_ours v = (case v of Some (SArr groups) \<Rightarrow> fst (remove_groups groups) | _ \<Rightarrow> False)"

definition readable :: "settings \<Rightarrow> registration \<Rightarrow> bool" where
  "readable h r \<longleftrightarrow> is_ok (groups_of h (runtime_of r))"

lemma groups_of_Inr:
  assumes "groups_of h n = Inr groups"
  obtains "fmlookup h n = None" "groups = []" | "fmlookup h n = Some (SArr groups)"
  using assms by (auto simp: groups_of_def split: option.splits sval.splits)

lemma remove_events_result:
  assumes "distinct (map runtime_of rs)" and "\<forall>r \<in> set rs. readable h r"
  shows "\<exists>h'. remove_events rs h = Inr (list_ex (\<lambda>r. holds_ours (fmlookup h (runtime_of r))) rs, h')
    \<and> (\<forall>n. fmlookup h' n = (if n \<in> runtime_of ` set rs then remaining (fmlookup h n) else fmlookup h n))"
  using assms
proof (induction rs arbitrary: h)
  case Nil
  then show ?case by simp
next
  case (Cons r rs)
  let ?n = "runtime_of r"
  from Cons.prems(2) obtain groups where g: "groups_of h ?n = Inr groups"
    by (auto simp: readable_def is_ok_def split: sum.splits)
  obtain c1 kept where k: "remove_groups groups = (c1, kept)" by force
  let ?h = "if fmlookup h ?n = None then h else if kept = [] \<and> groups \<noteq> [] then fmdrop ?n h else fmupd ?n (SArr kept) h"
  have here: "fmlookup ?h ?n = remaining (fmlookup h ?n)" "c1 = holds_ours (fmlookup h ?n)"
    using g k by (auto elim!: groups_of_Inr simp: remaining_def holds_ours_def)
  have other: "fmlookup ?h n = fmlookup h n" if "n \<noteq> ?n" for n
    using that by auto
  have "\<forall>r \<in> set rs. readable ?h r"
    using Cons.prems other by (auto simp: readable_def groups_of_def rev_image_eqI)
  from Cons.IH [OF _ this] Cons.prems(1) obtain h' where
    i: "remove_events rs ?h = Inr (list_ex (\<lambda>r. holds_ours (fmlookup ?h (runtime_of r))) rs, h')"
      "\<And>n. fmlookup h' n = (if n \<in> runtime_of ` set rs then remaining (fmlookup ?h n) else fmlookup ?h n)"
    by auto
  have n: "?n \<notin> runtime_of ` set rs" using Cons.prems(1) by auto
  have "list_ex (\<lambda>r. holds_ours (fmlookup ?h (runtime_of r))) rs = list_ex (\<lambda>r. holds_ours (fmlookup h (runtime_of r))) rs"
    using n other by (auto simp: list_ex_iff rev_image_eqI)
  then have "remove_events (r # rs) h = Inr (list_ex (\<lambda>r. holds_ours (fmlookup h (runtime_of r))) (r # rs), h')"
    using g k i(1) here(2) by (simp add: Let_def del: if_split)
  moreover have "fmlookup h' n = (if n \<in> runtime_of ` set (r # rs) then remaining (fmlookup h n) else fmlookup h n)" for n
    using i(2) [of n] n here(1) other [of n] by (cases "n = ?n") (simp_all del: if_split add: if_split)
  ultimately show ?case by blast
qed

lemma apply_events_lookup:
  assumes "distinct (map runtime_of rs)"
  shows "apply_events i rs h = Inr (c, h') \<Longrightarrow> r \<in> set rs
    \<Longrightarrow> \<exists>groups. groups_of h (runtime_of r) = Inr groups
      \<and> fmlookup h' (runtime_of r) = Some (SArr (snd (event_groups i r groups)))"
  using assms
proof (induction rs arbitrary: h c)
  case Nil
  then show ?case by simp
next
  case (Cons r1 rs)
  from Cons.prems(1) obtain groups c1 groups' c2 where
    e: "groups_of h (runtime_of r1) = Inr groups" "event_groups i r1 groups = (c1, groups')"
      "apply_events i rs (fmupd (runtime_of r1) (SArr groups') h) = Inr (c2, h')"
    by (auto split: sum.splits prod.splits)
  show ?case
  proof (cases "r = r1")
    case True
    with e apply_events_other [OF e(3), of "runtime_of r1"] Cons.prems(3) show ?thesis by simp
  next
    case False
    with Cons.prems(2,3) have r: "r \<in> set rs" "runtime_of r \<noteq> runtime_of r1" by (auto simp: rev_image_eqI)
    with Cons.IH [OF e(3)] Cons.prems(3) show ?thesis by (simp add: groups_of_def)
  qed
qed

text \<open>Registration and removal of the events, on settings with no event listed empty.\<close>

lemma remove_after_apply_events:
  assumes "recognised i" and "apply_events i registrations h = Inr (c, h')"
    and "\<forall>r \<in> set registrations. fmlookup h (runtime_of r) \<noteq> Some (SArr [])"
  obtains c0 h2 where "remove_events registrations h = Inr (c0, h2)" "remove_events registrations h' = Inr (True, h2)"
    "\<not> c0 \<Longrightarrow> h2 = h"
proof -
  note look = apply_events_lookup [OF registrations_distinct assms(2)]
  have r: "\<forall>r \<in> set registrations. readable h r" "\<forall>r \<in> set registrations. readable h' r"
    using look by (fastforce simp: readable_def is_ok_def groups_of_def)+
  from remove_events_result [OF registrations_distinct r(1)] obtain h2 where
    h2: "remove_events registrations h = Inr (list_ex (\<lambda>r. holds_ours (fmlookup h (runtime_of r))) registrations, h2)"
      "\<And>n. fmlookup h2 n = (if n \<in> runtime_of ` set registrations then remaining (fmlookup h n) else fmlookup h n)"
    by blast
  from remove_events_result [OF registrations_distinct r(2)] obtain h3 where
    h3: "remove_events registrations h' = Inr (list_ex (\<lambda>r. holds_ours (fmlookup h' (runtime_of r))) registrations, h3)"
      "\<And>n. fmlookup h3 n = (if n \<in> runtime_of ` set registrations then remaining (fmlookup h' n) else fmlookup h' n)"
    by blast
  have same: "remaining (fmlookup h' (runtime_of r)) = remaining (fmlookup h (runtime_of r))
      \<and> holds_ours (fmlookup h' (runtime_of r))" if in_regs: "r \<in> set registrations" for r
  proof -
    obtain event r' where r': "r = (event, r')" by (cases r)
    obtain groups where g: "groups_of h (runtime_of r) = Inr groups"
      "fmlookup h' (runtime_of r) = Some (SArr (snd (event_groups i r groups)))"
      using look [OF in_regs] by blast
    obtain c1 groups' where e: "event_groups i r groups = (c1, groups')" by force
    note rm = event_groups_removed [OF in_regs [unfolded r'] recognisedD [OF assms(1) in_regs [unfolded r']] e [unfolded r']]
    have ne: "groups' \<noteq> []" using rm(2) by auto
    show ?thesis using g(1)
    proof (rule groups_of_Inr, goal_cases)
      case 1
      with g(2) e rm ne show ?case by (simp add: remaining_def holds_ours_def)
    next
      case 2
      with assms(3) in_regs have "groups \<noteq> []" by auto
      with 2 g(2) e rm ne show ?case by (simp add: remaining_def holds_ours_def)
    qed
  qed
  have "h3 = h2"
  proof (rule fmap_ext)
    fix n
    show "fmlookup h3 n = fmlookup h2 n"
      using h2(2) h3(2) same apply_events_other [OF assms(2)] by auto
  qed
  moreover have "list_ex (\<lambda>r. holds_ours (fmlookup h' (runtime_of r))) registrations"
  proof -
    have "hd registrations \<in> set registrations" by (simp add: registrations_def)
    with same show ?thesis unfolding list_ex_iff by blast
  qed
  moreover have "h2 = h" if "\<not> list_ex (\<lambda>r. holds_ours (fmlookup h (runtime_of r))) registrations"
  proof (rule fmap_ext)
    fix n
    show "fmlookup h2 n = fmlookup h n"
      using that h2(2) by (auto simp: list_ex_iff holds_ours_def remaining_def remove_groups_none
          split: option.splits sval.splits)
  qed
  ultimately show ?thesis using that h2(1) h3(1) by auto
qed

subsection \<open>The command line\<close>

definition marker_lead :: string where "marker_lead = '' hook claude-code''"

lemma after_first_at:
  "\<forall>k < length q. \<not> has_prefix (drop k (q @ m @ rest)) m \<Longrightarrow> after_first m (q @ m @ rest) = Some rest"
proof (induction q)
  case Nil
  then show ?case by (simp add: after_first.simps)
next
  case (Cons c q)
  have "\<not> has_prefix (c # q @ m @ rest) m" using Cons.prems by force
  moreover have "\<forall>k < length q. \<not> has_prefix (drop k (q @ m @ rest)) m"
    using Cons.prems by force
  ultimately show ?case using Cons.IH by (simp add: after_first.simps [of m "c # q @ m @ rest"])
qed

lemma marker_no_border: "\<forall>j \<in> set [1..<17]. drop j marker_lead \<noteq> take (17 - j) marker_lead"
  by code_simp

lemma hook_command_parts:
  "\<exists>rest. hook_command i event = shell_quote (in_binary i) @ marker event @ CHR '' '' # rest"
  by (simp add: hook_command_def marker_def)

lemma command_ours:
  assumes "\<not> contains (shell_quote (in_binary i)) marker_lead"
  shows "ours (hook_command i event) event"
proof -
  let ?q = "shell_quote (in_binary i)" and ?m = "marker event"
  obtain rest where h: "hook_command i event = ?q @ ?m @ CHR '' '' # rest" using hook_command_parts by blast
  have m: "?m = marker_lead @ CHR '' '' # event" "length marker_lead = 17" by (simp_all add: marker_def marker_lead_def)
  have "\<not> has_prefix (drop k (?q @ ?m @ CHR '' '' # rest)) ?m" if k: "k < length ?q" for k
  proof
    assume "has_prefix (drop k (?q @ ?m @ CHR '' '' # rest)) ?m"
    then obtain t where t: "drop k ?q @ ?m @ CHR '' '' # rest = ?m @ t"
      using k by (auto simp: has_prefix_iff)
    let ?j = "length (drop k ?q)"
    show False
    proof (cases "17 \<le> ?j")
      case True
      have "take 17 (drop k ?q) = take 17 (?m @ t)" using arg_cong [OF t, of "take 17"] True by simp
      also have "\<dots> = marker_lead" using m by simp
      finally have "?q = take k ?q @ marker_lead @ drop 17 (drop k ?q)"
        by (metis append_take_drop_id)
      with assms show False by (metis contains_iff)
    next
      case False
      have "take (17 - ?j) (drop ?j (drop k ?q @ ?m @ CHR '' '' # rest)) = take (17 - ?j) (drop ?j (?m @ t))"
        using t by simp
      then have "take (17 - ?j) marker_lead = drop ?j marker_lead" using m False by simp
      moreover have "?j \<in> set [1..<17]" using k False by simp
      ultimately show False using marker_no_border by (metis (no_types))
    qed
  qed
  with after_first_at [of ?q ?m "CHR '' '' # rest"] h show ?thesis by (simp add: ours_def)
qed

lemma recognised_binary: "\<not> contains (shell_quote (in_binary i)) marker_lead \<Longrightarrow> recognised i"
  using command_ours by (simp add: recognised_def list_all_iff split: prod.split)

subsection \<open>The whole object\<close>

text \<open>No object or array the removal would drop for being empty.\<close>

definition tidy :: "settings \<Rightarrow> bool" where
  "tidy root \<longleftrightarrow>
     (\<forall>h. fmlookup root ''hooks'' = Some (SObj h) \<longrightarrow>
        h \<noteq> fmempty \<and> (\<forall>r \<in> set registrations. fmlookup h (runtime_of r) \<noteq> Some (SArr [])))
     \<and> (\<forall>p. fmlookup root ''permissions'' = Some (SObj p) \<longrightarrow>
        p \<noteq> fmempty \<and> fmlookup p ''allow'' \<noteq> Some (SArr []))"

lemma filter_rule: "SStr allow_rule \<notin> set allow \<Longrightarrow> filter (\<lambda>r. r \<noteq> SStr allow_rule) allow = allow"
  by (auto intro: filter_True)

lemma filter_rule_less:
  "SStr allow_rule \<in> set allow \<Longrightarrow> length (filter (\<lambda>r. r \<noteq> SStr allow_rule) allow) \<noteq> length allow"
  using length_filter_less [of "SStr allow_rule" allow "\<lambda>r. r \<noteq> SStr allow_rule"] by auto

lemma rule_taken_back:
  assumes "add_allow_rule (fmupd ''hooks'' h root) = Inr (c, root')" and "tidy root"
  obtains c0 root0 c1 where "remove_allow_rule root = Inr (c0, root0)" "\<not> c0 \<Longrightarrow> root0 = root"
    "remove_allow_rule root' = Inr (c1, fmupd ''hooks'' h root0)"
    "fmlookup root0 ''hooks'' = fmlookup root ''hooks''"
  using assms(1)
proof (rule add_allow_rule_cases)
  let ?hr = "fmupd ''hooks'' h root"
  fix po allow
  assume a: "permissions_of ?hr = Inr po" "(case po of None \<Rightarrow> Inr [] | Some p \<Rightarrow> allow_of p) = Inr allow"
    "c = (SStr allow_rule \<notin> set allow)"
    "root' = (if c then fmupd ''permissions'' (SObj (fmupd ''allow'' (SArr (allow @ [SStr allow_rule]))
        (case po of None \<Rightarrow> fmempty | Some p \<Rightarrow> p))) ?hr else ?hr)"
  have pr: "permissions_of root = Inr po" using a(1) by (simp add: permissions_of_def)
  have swap: "fmupd ''permissions'' x (fmupd ''hooks'' h r) = fmupd ''hooks'' h (fmupd ''permissions'' x r)"
    "fmdrop ''permissions'' (fmupd ''hooks'' h r) = fmupd ''hooks'' h (fmdrop ''permissions'' r)" for x r
    by (rule fmap_ext; auto)+
  show ?thesis
  proof (cases po)
    case None
    with a have root': "root' = fmupd ''permissions'' (SObj (fmupd ''allow'' (SArr [SStr allow_rule]) fmempty)) ?hr"
      by simp
    have n: "fmlookup root ''permissions'' = None"
      using pr None by (auto simp: permissions_of_def split: option.splits sval.splits)
    have "remove_allow_rule root' = Inr (True, fmupd ''hooks'' h root)"
      using n by (simp add: root' remove_allow_rule_def permissions_of_def allow_of_def Let_def swap fmdrop_upd_new)
    moreover have "remove_allow_rule root = Inr (False, root)"
      using pr None by (simp add: remove_allow_rule_def)
    ultimately show ?thesis using that by blast
  next
    case (Some p)
    have p: "fmlookup root ''permissions'' = Some (SObj p)"
      using pr Some by (auto simp: permissions_of_def split: option.splits sval.splits)
    have al: "allow_of p = Inr allow" using a(2) Some by simp
    show ?thesis
    proof (cases c)
      case False
      with a(3) have f: "length (filter (\<lambda>r. r \<noteq> SStr allow_rule) allow) \<noteq> length allow"
        using filter_rule_less by blast
      let ?kept = "filter (\<lambda>r. r \<noteq> SStr allow_rule) allow"
      let ?p = "if ?kept = [] then fmdrop ''allow'' p else fmupd ''allow'' (SArr ?kept) p"
      let ?drop = "\<lambda>r. if ?p = fmempty then fmdrop ''permissions'' r else fmupd ''permissions'' (SObj ?p) r"
      have drop: "remove_allow_rule r = Inr (True, ?drop r)" if "fmlookup r ''permissions'' = Some (SObj p)" for r
        using that al f by (simp add: remove_allow_rule_def permissions_of_def Let_def)
      have "root' = ?hr" using False a(4) by simp
      then have d2: "remove_allow_rule root' = Inr (True, ?drop ?hr)" using drop [of ?hr] p by simp
      have d3: "?drop ?hr = fmupd ''hooks'' h (?drop root)" by (simp add: swap)
      have d4: "fmlookup (?drop root) ''hooks'' = fmlookup root ''hooks''" by simp
      show ?thesis by (rule that [OF drop [OF p] _ d2 [unfolded d3] d4]) simp
    next
      case True
      with a(3) have nin: "SStr allow_rule \<notin> set allow" by simp
      note f = filter_rule [OF nin]
      let ?p = "fmupd ''allow'' (SArr (allow @ [SStr allow_rule])) p"
      have root': "root' = fmupd ''permissions'' (SObj ?p) ?hr" using a(4) Some True by simp
      have tp: "p \<noteq> fmempty" "fmlookup p ''allow'' \<noteq> Some (SArr [])" using assms(2) p by (auto simp: tidy_def)
      have undo: "(if allow = [] then fmdrop ''allow'' ?p else fmupd ''allow'' (SArr allow) ?p) = p"
      proof (cases "allow = []")
        case True
        with al tp(2) have "fmlookup p ''allow'' = None" by (auto simp: allow_of_def split: option.splits sval.splits)
        with True show ?thesis by (simp add: fmdrop_upd_new)
      next
        case False
        with al have "fmlookup p ''allow'' = Some (SArr allow)" by (auto simp: allow_of_def split: option.splits sval.splits)
        with False show ?thesis by (intro fmap_ext) auto
      qed
      have "remove_allow_rule root' = Inr (True, fmupd ''permissions'' (SObj p) root')"
        using f undo tp(1) by (simp add: root' remove_allow_rule_def permissions_of_def allow_of_def Let_def)
      moreover have "fmupd ''permissions'' (SObj p) root' = ?hr"
        unfolding root' by (rule fmap_ext) (use p in auto)
      ultimately have r1: "remove_allow_rule root' = Inr (True, ?hr)" by simp
      have r2: "remove_allow_rule root = Inr (False, root)"
        using pr Some al f by (simp add: remove_allow_rule_def)
      show ?thesis by (rule that [OF r2 _ r1 refl]) simp
    qed
  qed
qed

subsection \<open>A sample registration\<close>

definition sample_install :: install where
  "sample_install = \<lparr>in_binary = ''/usr/bin/gatekeeper'', in_socket = ''/run/id.sock'', in_state_dir = ''/state'',
     in_mode = ''enforce'', in_origin = [], in_refresh_below = 0, in_compose = [], in_timeout = 5\<rparr>"

lemma apply_events_defined:
  "distinct (map runtime_of rs) \<Longrightarrow> \<forall>r \<in> set rs. readable h r \<Longrightarrow> \<exists>c h'. apply_events i rs h = Inr (c, h')"
proof (induction rs arbitrary: h)
  case (Cons r rs)
  from Cons.prems(2) obtain groups where g: "groups_of h (runtime_of r) = Inr groups"
    by (auto simp: readable_def is_ok_def split: sum.splits)
  obtain c1 groups' where e: "event_groups i r groups = (c1, groups')" by force
  have "\<forall>q \<in> set rs. readable (fmupd (runtime_of r) (SArr groups') h) q"
    using Cons.prems by (auto simp: readable_def groups_of_def rev_image_eqI)
  from Cons.IH [OF _ this] Cons.prems(1) obtain c2 h' where
    "apply_events i rs (fmupd (runtime_of r) (SArr groups') h) = Inr (c2, h')" by auto
  with g e have "apply_events i (r # rs) h = Inr (c1 \<or> c2, h')" by simp
  then show ?case by blast
next
  case Nil
  show ?case unfolding apply_events.simps by blast
qed

lemma sample_install_applies: "\<exists>c root'. apply_install sample_install fmempty = Inr (c, root')"
proof -
  have v: "validate_install sample_install = None"
    by (simp add: validate_install_def sample_install_def is_abs_def parse_mode_def)
  have "\<forall>r \<in> set registrations. readable fmempty r" by (simp add: readable_def groups_of_def)
  from apply_events_defined [OF registrations_distinct this] obtain c h' where
    "apply_events sample_install registrations fmempty = Inr (c, h')" by blast
  with v show ?thesis
    by (cases c) (auto simp: apply_install_def hooks_of_def add_allow_rule_def permissions_of_def)
qed

lemma sample_install_plain: "\<not> contains (shell_quote (in_binary sample_install)) marker_lead"
  by code_simp

text \<open>C21: Removing the hooks takes back registering them: on settings without empty containers, what is left after
  registering and removing is what removing alone would have left, and that is the settings as they
  were when they held nothing of the adapter. In particular everything a user wrote stays.\<close>
theorem remove_undoes_apply:
  assumes "apply_install i root = Inr (c, root')" and "tidy root"
    and "\<not> contains (shell_quote (in_binary i)) marker_lead"
  shows "\<exists>c0 r. remove_install root = Inr (c0, r) \<and> remove_install root' = Inr (True, r) \<and> (\<not> c0 \<longrightarrow> r = root)"
  using assms(1)
proof (rule apply_install_Inr)
  fix ho c1 h' c2
  assume a: "hooks_of root True = Inr (Some ho)" "apply_events i registrations ho = Inr (c1, h')"
    "add_allow_rule (fmupd ''hooks'' (SObj h') root) = Inr (c2, root')"
  note rec = recognised_binary [OF assms(3)]
  from rule_taken_back [OF a(3) assms(2)] obtain cr root0 cr' where
    r: "remove_allow_rule root = Inr (cr, root0)" "\<not> cr \<Longrightarrow> root0 = root"
      "remove_allow_rule root' = Inr (cr', fmupd ''hooks'' (SObj h') root0)"
      "fmlookup root0 ''hooks'' = fmlookup root ''hooks''" by blast
  have "\<forall>r \<in> set registrations. fmlookup ho (runtime_of r) \<noteq> Some (SArr [])"
    using a(1) assms(2) by (auto simp: hooks_of_def tidy_def split: option.splits sval.splits)
  from remove_after_apply_events [OF rec a(2) this] obtain c0 h2 where
    e: "remove_events registrations ho = Inr (c0, h2)" "remove_events registrations h' = Inr (True, h2)"
      "\<not> c0 \<Longrightarrow> h2 = ho" by blast
  have left: "remove_install root' = Inr (True, if h2 = fmempty then fmdrop ''hooks'' root0
      else fmupd ''hooks'' (SObj h2) root0)"
  proof -
    have "fmdrop ''hooks'' (fmupd ''hooks'' x root0) = fmdrop ''hooks'' root0"
      "fmupd ''hooks'' y (fmupd ''hooks'' x root0) = fmupd ''hooks'' y root0" for x y
      by (rule fmap_ext; auto)+
    then show ?thesis using r(3) e(2) by (simp add: remove_install_def hooks_of_def)
  qed
  show ?thesis
  proof (cases "fmlookup root ''hooks''")
    case None
    with a(1) have "ho = fmempty" by (simp add: hooks_of_def)
    with e(1) have "h2 = fmempty" by (auto simp: registrations_def groups_of_def)
    moreover have "fmdrop ''hooks'' root0 = root0" using r(4) None by (intro fmap_ext) auto
    moreover have "remove_install root = Inr (cr, root0)"
      using r(1,4) None by (simp add: remove_install_def hooks_of_def)
    ultimately show ?thesis using left r(2) by auto
  next
    case (Some v)
    with a(1) have v: "fmlookup root ''hooks'' = Some (SObj ho)" by (auto simp: hooks_of_def split: sval.splits)
    with assms(2) have "ho \<noteq> fmempty" by (auto simp: tidy_def)
    with e(3) have "(c0 \<and> h2 = fmempty) = (h2 = fmempty)" by auto
    with r(1,4) v e(1) have "remove_install root = Inr (c0 \<or> cr, if h2 = fmempty then fmdrop ''hooks'' root0
      else fmupd ''hooks'' (SObj h2) root0)"
      by (simp add: remove_install_def hooks_of_def)
    moreover have "(if h2 = fmempty then fmdrop ''hooks'' root0 else fmupd ''hooks'' (SObj h2) root0) = root"
      if "\<not> (c0 \<or> cr)"
      using that e(3) r(2) v \<open>ho \<noteq> fmempty\<close> by (auto intro: fmupd_same)
    ultimately show ?thesis using left by blast
  qed
qed

theorem remove_undoes_apply_witness:
  "\<exists>c root'. apply_install sample_install fmempty = Inr (c, root') \<and> remove_install root' = Inr (True, fmempty)"
proof -
  obtain c root' where a: "apply_install sample_install fmempty = Inr (c, root')"
    using sample_install_applies by blast
  have t: "tidy fmempty" by (simp add: tidy_def)
  have "remove_install fmempty = Inr (False, fmempty)"
    by (simp add: remove_install_def remove_allow_rule_def permissions_of_def hooks_of_def)
  with remove_undoes_apply [OF a t sample_install_plain] have "remove_install root' = Inr (True, fmempty)" by auto
  with a show ?thesis by blast
qed

text \<open>Registering twice is registering once: the second run of the same registration finds nothing to do and
  leaves the settings as they are.\<close>
theorem apply_idempotent:
  assumes "apply_install i root = Inr (c, root')"
    and "\<not> contains (shell_quote (in_binary i)) marker_lead"
  shows "apply_install i root' = Inr (False, root')"
  using apply_install_again [OF recognised_binary [OF assms(2)] assms(1)] .

theorem apply_idempotent_witness:
  "\<exists>c root'. apply_install sample_install fmempty = Inr (c, root') \<and> apply_install sample_install root' = Inr (False, root')"
proof -
  obtain c root' where a: "apply_install sample_install fmempty = Inr (c, root')"
    using sample_install_applies by blast
  from a apply_idempotent [OF a sample_install_plain] show ?thesis by blast
qed

end
