(* ===== verification/InstallFile.thy ===== *)
theory InstallFile
  imports InstallRoundtrip
begin

text \<open>
  The settings file and rendered agents: \<open>ApplySettingsFile\<close>, \<open>resolveTarget\<close> and
  \<open>writeAtomic\<close> of \<open>internal/hook/install.go\<close> with \<open>owner_unix.go\<close>, and \<open>render.go\<close>. What the
  operating system answers is \<open>settings_env\<close>; the JSON encoder (indented, without escapes for HTML)
  and the YAML library are parameters.
\<close>

subsection \<open>The file that is edited\<close>

record settings_env =
  st_link :: "string \<Rightarrow> io_err + string option"
  st_read :: "string \<Rightarrow> io_err + string"
  st_stat :: "string \<Rightarrow> (nat \<times> nat) option"
  st_temp :: "string option"
  st_euid :: nat
  st_egid :: nat
  st_chown :: bool
  st_chmod :: bool
  st_write :: "string option"
  st_sync :: bool
  st_close :: bool
  st_rename :: bool
  st_sync_dir :: bool
  st_encode :: "settings \<Rightarrow> string option"

definition max_link_hops :: nat where "max_link_hops = 40"

text \<open>\<open>st_link\<close> is \<open>Lstat\<close> and \<open>Readlink\<close>: the destination if the path is a link.\<close>

fun resolve_loop :: "settings_env \<Rightarrow> nat \<Rightarrow> string \<Rightarrow> string option" where
  "resolve_loop e 0 p = None"
| "resolve_loop e (Suc hops) p =
     (case st_link e p of
        Inl err \<Rightarrow> if err = NotExist then Some p else None
      | Inr None \<Rightarrow> Some p
      | Inr (Some dest) \<Rightarrow>
          resolve_loop e hops (if \<not> is_abs dest then path_join [path_dir p, dest] else dest))"

definition resolve_target :: "settings_env \<Rightarrow> string \<Rightarrow> string option" where
  "resolve_target e path = resolve_loop e max_link_hops path"

definition decode_settings :: "string \<Rightarrow> settings option" where
  "decode_settings raw =
     (case json_parse raw of
        Some (JObj ms) \<Rightarrow> (case sval_of_json (JObj ms) of SObj m \<Rightarrow> Some m | _ \<Rightarrow> None)
      | _ \<Rightarrow> None)"

text \<open>\<open>owner\<close> is the owner and group of the file that is replaced.\<close>

definition chown_like :: "settings_env \<Rightarrow> nat \<times> nat \<Rightarrow> bool" where
  "chown_like e owner =
     (if fst owner = st_euid e \<and> snd owner = st_egid e then True else st_chown e)"

definition temp_name :: "string \<Rightarrow> string \<Rightarrow> string" where
  "temp_name path random = path_join [path_dir path, ''.settings-'' @ random @ ''.tmp'']"

definition write_atomic :: "settings_env \<Rightarrow> string \<Rightarrow> string \<Rightarrow> (nat \<times> nat) option \<Rightarrow> bool \<times> file_action list" where
  "write_atomic e path content existing =
     (case st_temp e of
        None \<Rightarrow> (False, [])
      | Some random \<Rightarrow>
          (let name = temp_name path random;
               created = [WriteFile name []]
           in if (case existing of None \<Rightarrow> False | Some owner \<Rightarrow> \<not> chown_like e owner) then (False, created @ [Unlink name])
              else if \<not> st_chmod e then (False, created @ [Unlink name])
              else case st_write e of
                     Some part \<Rightarrow> (False, created @ [WriteFile name part, Unlink name])
                   | None \<Rightarrow>
                       (let written = created @ [WriteFile name content]
                        in if \<not> st_sync e then (False, written @ [Unlink name])
                           else if \<not> st_close e then (False, written @ [Unlink name])
                           else if \<not> st_rename e then (False, written @ [Unlink name])
                           else (st_sync_dir e, written @ [RenameFile name path]))))"

datatype file_result =
    FileRefused
  | FileUnchanged
  | FileChanged string bool

text \<open>The result and what was done to the files; \<open>FileChanged\<close> has the new content and whether writing it succeeded.\<close>

definition apply_settings_file ::
    "settings_env \<Rightarrow> string \<Rightarrow> install \<Rightarrow> bool \<Rightarrow> bool \<Rightarrow> file_result \<times> file_action list" where
  "apply_settings_file e path i remove dry_run =
     (case resolve_target e path of
        None \<Rightarrow> (FileRefused, [])
      | Some target \<Rightarrow>
          (let write = (\<lambda>root existing.
             (case (if remove then remove_install root else apply_install i root) of
                Inl _ \<Rightarrow> (FileRefused, [])
              | Inr (changed, root') \<Rightarrow>
                  if \<not> changed then (FileUnchanged, [])
                  else (case st_encode e root' of
                          None \<Rightarrow> (FileRefused, [])
                        | Some content \<Rightarrow>
                            if dry_run then (FileChanged content True, [])
                            else (case write_atomic e target content existing of
                                    (done, as) \<Rightarrow> (FileChanged content done, as)))))
           in case st_read e target of
                Inr raw \<Rightarrow>
                  (case st_stat e target of
                     None \<Rightarrow> (FileRefused, [])
                   | Some owner \<Rightarrow>
                       (case decode_settings raw of
                          None \<Rightarrow> (FileRefused, [])
                        | Some root \<Rightarrow> write root (Some owner)))
              | Inl err \<Rightarrow>
                  if err = NotExist then (if remove then (FileUnchanged, []) else write fmempty None)
                  else (FileRefused, [])))"

subsection \<open>Rendered agents\<close>

datatype yaml_node = YamlAbsent | YamlScalar string | YamlSequence "string option list" | YamlOther

record canonical =
  cn_name :: string
  cn_description :: string
  cn_tools :: yaml_node
  cn_model :: string

text \<open>An item of a sequence is its scalar value, \<open>None\<close> if it is no scalar.\<close>

fun tool_names :: "string option list \<Rightarrow> string list option" where
  "tool_names [] = Some []"
| "tool_names (item # items) =
     (case item of
        None \<Rightarrow> None
      | Some v \<Rightarrow>
          if trim_space v = [] then None
          else map_option ((#) (trim_space v)) (tool_names items))"

definition tool_list :: "yaml_node \<Rightarrow> string option" where
  "tool_list n =
     (case n of
        YamlAbsent \<Rightarrow> Some []
      | YamlScalar v \<Rightarrow> Some (trim_space v)
      | YamlSequence items \<Rightarrow> map_option (join_with '', '') (tool_names items)
      | YamlOther \<Rightarrow> None)"

definition fence :: string where "fence = ''---'' @ [CHR 0x0A]"

text \<open>\<open>decode\<close> and \<open>encode\<close> are the YAML library on the frontmatter and on a mapping of strings.\<close>

definition render_claude_code ::
    "(string \<Rightarrow> canonical option) \<Rightarrow> ((string \<times> string) list \<Rightarrow> string option) \<Rightarrow> string \<Rightarrow> string option" where
  "render_claude_code decode encode raw =
     (case split_frontmatter raw of
        None \<Rightarrow> None
      | Some (front, body) \<Rightarrow>
          (case decode front of
             None \<Rightarrow> None
           | Some c \<Rightarrow>
               if \<not> safe_name (cn_name c) then None
               else if trim_space (cn_description c) = [] then None
               else (case tool_list (cn_tools c) of
                       None \<Rightarrow> None
                     | Some tools \<Rightarrow>
                         map_option (\<lambda>head. fence @ head @ fence @ body)
                           (encode
                             ([(''name'', cn_name c), (''description'', cn_description c)]
                              @ (if tools \<noteq> [] then [(''tools'', tools)] else [])
                              @ (if cn_model c \<noteq> [] then [(''model'', cn_model c)] else []))))))"

definition max_definition_bytes :: nat where "max_definition_bytes = 65536"

text \<open>\<open>read\<close> opens a path through one handle and yields the whole regular file, \<open>None\<close> if it cannot.\<close>

definition read_definition :: "(string \<Rightarrow> string option) \<Rightarrow> string \<Rightarrow> string \<Rightarrow> string option" where
  "read_definition read dir arg =
     (if dir \<noteq> [] \<and> \<not> safe_name arg then None
      else
        (case read (if dir \<noteq> [] then path_join [dir, arg @ ''.md''] else arg) of
           None \<Rightarrow> None
         | Some whole \<Rightarrow>
             (let raw = take (max_definition_bytes + 1) whole
              in if length raw > max_definition_bytes then None else Some raw)))"

subsection \<open>Lemmas\<close>

lemma resolve_loop_no_link:
  "resolve_loop e hops p = Some q \<Longrightarrow> st_link e q = Inl NotExist \<or> st_link e q = Inr None"
  by (induction e hops p rule: resolve_loop.induct) (auto split: sum.splits option.splits if_splits)

lemma write_atomic_cases:
  assumes "write_atomic e path content existing = (ok, as)"
  obtains "ok = False" "as = []" "st_temp e = None"
  | random where "st_temp e = Some random" "ok = False" "as = [WriteFile (temp_name path random) [], Unlink (temp_name path random)]"
  | random part where "st_temp e = Some random" "ok = False"
      "as = [WriteFile (temp_name path random) [], WriteFile (temp_name path random) part, Unlink (temp_name path random)]"
  | random where "st_temp e = Some random" "ok = st_sync_dir e"
      "as = [WriteFile (temp_name path random) [], WriteFile (temp_name path random) content, RenameFile (temp_name path random) path]"
proof (cases "st_temp e")
  case None
  with assms that(1) show ?thesis by (simp add: write_atomic_def)
next
  case (Some random)
  consider "(case existing of None \<Rightarrow> False | Some owner \<Rightarrow> \<not> chown_like e owner) \<or> \<not> st_chmod e"
    | part where "\<not> (case existing of None \<Rightarrow> False | Some owner \<Rightarrow> \<not> chown_like e owner)" "st_chmod e" "st_write e = Some part"
    | "\<not> (case existing of None \<Rightarrow> False | Some owner \<Rightarrow> \<not> chown_like e owner)" "st_chmod e" "st_write e = None"
    by (cases "st_write e") auto
  then show ?thesis
  proof cases
    case 1
    with assms Some that(2) show ?thesis by (simp add: write_atomic_def Let_def split: if_splits)
  next
    case (2 part)
    with assms Some have "ok = False"
      "as = [WriteFile (temp_name path random) [], WriteFile (temp_name path random) part, Unlink (temp_name path random)]"
      by (auto simp: write_atomic_def Let_def)
    then show ?thesis by (rule that(3) [OF Some])
  next
    case 3
    with assms Some that(3) [of random content] that(4) show ?thesis
      by (simp add: write_atomic_def Let_def split: if_splits)
  qed
qed

lemma crashed_writes:
  assumes "crashed as f f'" and "q \<noteq> n"
    and "as = [] \<or> as = [WriteFile n a, Unlink n] \<or> as = [WriteFile n a, WriteFile n b, Unlink n]
      \<or> as = [WriteFile n a, WriteFile n b, RenameFile n p]"
  shows "f' q = f q \<or> (q = p \<and> f' q = Some b)"
  using assms by (auto dest!: crashed_Cons simp: crashed_Nil split: if_splits)

subsection \<open>Properties\<close>

text \<open>Replacing the settings file is atomic: whenever the process dies, torn writes included, the file is the
  old one or the new one whole and no other file but the temporary one is touched; a replacement that
  fails before the rename leaves the files as they were.\<close>
theorem settings_write_atomic:
  assumes "write_atomic e path content existing = (ok, as)" and "crashed as f f'"
    and "st_temp e = Some random" and "f (temp_name path random) = None"
    and "path \<noteq> temp_name path random" and "q \<noteq> temp_name path random"
  shows "(f' q = f q \<or> (q = path \<and> f' q = Some content))
    \<and> (run_actions as f = f \<or> run_actions as f = f(path \<mapsto> content))"
  using assms(1)
proof (rule write_atomic_cases)
  note w = crashed_writes [OF assms(2,6)]
  fix r assume r: "st_temp e = Some r"
  then have r: "r = random" using assms(3) by simp
  {
    assume "as = [WriteFile (temp_name path r) [], Unlink (temp_name path r)]"
    with w [of "[]" content path] assms(4) r show ?thesis by (auto simp: fun_eq_iff)
  next
    fix part
    assume "as = [WriteFile (temp_name path r) [], WriteFile (temp_name path r) part, Unlink (temp_name path r)]"
    with w [of "[]" part "temp_name path r"] assms(4,6) r show ?thesis by (auto simp: fun_eq_iff)
  next
    assume "as = [WriteFile (temp_name path r) [], WriteFile (temp_name path r) content, RenameFile (temp_name path r) path]"
    with w [of "[]" content path] assms(4,5) r show ?thesis by (auto simp: fun_eq_iff)
  }
qed (use assms(2) in \<open>simp add: crashed_Nil\<close>)

definition sample_settings_env :: settings_env where
  "sample_settings_env = \<lparr>st_link = (\<lambda>_. Inr None), st_read = (\<lambda>_. Inr ''{}''), st_stat = (\<lambda>_. Some (1000, 1000)),
     st_temp = Some ''123'', st_euid = 1000, st_egid = 1000, st_chown = True, st_chmod = True, st_write = None, st_sync = True,
     st_close = True, st_rename = True, st_sync_dir = True, st_encode = (\<lambda>_. Some ''{}'')\<rparr>"

theorem settings_write_atomic_witness:
  "let tmp = temp_name ''/h/settings.json'' ''123''; f = [''/h/settings.json'' \<mapsto> ''old''] in
     (f(tmp \<mapsto> ''ne'')) ''/h/settings.json'' \<in> {Some ''old'', Some ''new''}"
proof -
  let ?p = "''/h/settings.json''" and ?tmp = "temp_name ''/h/settings.json'' ''123''" and ?f = "[''/h/settings.json'' \<mapsto> ''old'']"
  have n: "?tmp \<noteq> ?p" by code_simp
  have w: "write_atomic sample_settings_env ?p ''new'' (Some (1000, 1000)) =
      (True, [WriteFile ?tmp [], WriteFile ?tmp ''new'', RenameFile ?tmp ?p])"
    by (simp add: write_atomic_def sample_settings_env_def chown_like_def Let_def)
  have c: "crashed [WriteFile ?tmp [], WriteFile ?tmp ''new'', RenameFile ?tmp ?p] ?f (?f(?tmp \<mapsto> ''ne''))"
    unfolding crashed_def by (intro exI [of _ 1]) auto
  have t: "st_temp sample_settings_env = Some ''123''" by (simp add: sample_settings_env_def)
  have f: "?f ?tmp = None" using n by simp
  from settings_write_atomic [OF w c t f n [symmetric] n [symmetric]] show ?thesis
    unfolding Let_def using n by auto
qed

subsection \<open>Links that run in a circle\<close>

definition link_step :: "settings_env \<Rightarrow> string \<Rightarrow> string option" where
  "link_step e p =
     (case st_link e p of
        Inr (Some dest) \<Rightarrow> Some (if \<not> is_abs dest then path_join [path_dir p, dest] else dest)
      | _ \<Rightarrow> None)"

fun follow :: "settings_env \<Rightarrow> nat \<Rightarrow> string \<Rightarrow> string option" where
  "follow e 0 p = Some p"
| "follow e (Suc n) p = Option.bind (link_step e p) (follow e n)"

lemma follow_add: "follow e (m + n) p = Option.bind (follow e m p) (follow e n)"
  by (induction m arbitrary: p) (simp_all split: Option.bind_split)

lemma resolve_loop_follows:
  "resolve_loop e hops p = Some q \<Longrightarrow> \<exists>n < hops. follow e n p = Some q \<and> link_step e q = None"
proof (induction e hops p rule: resolve_loop.induct)
  case (2 e hops p)
  show ?case
  proof (cases "st_link e p")
    case (Inl err)
    with 2(2) have "follow e 0 p = Some q \<and> link_step e q = None" by (auto simp: link_step_def split: if_splits)
    then show ?thesis by blast
  next
    case (Inr l)
    show ?thesis
    proof (cases l)
      case None
      with Inr 2(2) have "follow e 0 p = Some q \<and> link_step e q = None" by (auto simp: link_step_def)
      then show ?thesis by blast
    next
      case (Some dest)
      let ?d = "if \<not> is_abs dest then path_join [path_dir p, dest] else dest"
      from Inr Some 2(2) have "resolve_loop e hops ?d = Some q" by simp
      with 2(1) [OF Inr Some] obtain n where n: "n < hops" "follow e n ?d = Some q" "link_step e q = None" by blast
      then have "follow e (Suc n) p = Some q" using Inr Some by (simp add: link_step_def)
      with n show ?thesis by blast
    qed
  qed
qed simp

lemma follow_round: "follow e n p = Some p \<Longrightarrow> follow e (k * n) p = Some p"
  by (induction k) (simp_all add: follow_add)

text \<open>C39: Following the links of the settings path ends even when they run in a circle: a path whose links lead
  to one that leads back to itself is refused, and nothing is written.\<close>
theorem link_loop_refused:
  assumes "follow e m path = Some p" and "follow e (Suc n) p = Some p"
  shows "apply_settings_file e path i remove dry_run = (FileRefused, [])"
proof -
  have "resolve_target e path = None"
  proof (rule ccontr)
    assume "resolve_target e path \<noteq> None"
    then obtain k q where k: "follow e k path = Some q" "link_step e q = None"
      unfolding resolve_target_def using resolve_loop_follows by blast
    have "follow e (m + Suc k * Suc n) path = Some p"
      by (simp only: follow_add assms(1) follow_round [OF assms(2)] Option.bind.bind_lunit)
    moreover have "m + Suc k * Suc n = k + Suc (m + n + k * n)" by simp
    moreover have "follow e (k + Suc j) path = None" for j
      by (simp only: follow_add k(1) Option.bind.bind_lunit) (simp add: k(2))
    ultimately show False by (metis option.distinct(1))
  qed
  then show ?thesis by (simp add: apply_settings_file_def)
qed

theorem link_loop_refused_witness:
  "\<forall>e i remove dry_run. apply_settings_file (e\<lparr>st_link := (\<lambda>p. Inr (Some p))\<rparr>) ''/s'' i remove dry_run = (FileRefused, [])"
  by (intro allI, rule link_loop_refused [of _ 0 _ "''/s''" 0]) (simp_all add: link_step_def is_abs_def)

end
