(* ===== verification/HookCommand.thy ===== *)
theory HookCommand
  imports Flags Config InstallFile
begin

text \<open>
  The commands of \<open>cmd/gatekeeper/hook_cmd.go\<close>: the hook process with its composed upstream, the
  process adapter, \<open>hooks-install\<close> and \<open>render-agent\<close>. What a process is given is
  \<open>command_world\<close>; diagnostics and the log are left out.
\<close>

definition hook_call_timeout :: int where "hook_call_timeout = 3 * 1000000000"
definition hook_own_slack :: int where "hook_own_slack = 2 * 1000000000"
definition default_hook_timeout_seconds :: int where "default_hook_timeout_seconds = 5"
definition default_refresh_below :: int where "default_refresh_below = 30 * 60 * 1000000000"

text \<open>
  \<open>cw_issuer\<close> is what the hook sees of the world when its issuer is reached at a socket, \<open>None\<close>
  for an issuer that always refuses; \<open>cw_upstream\<close> runs another hook under a budget and yields the
  payload bytes it captured and that hook's verdict; \<open>cw_part_done\<close> says that gatekeeper's own part
  ended before its deadline and without a panic.
\<close>

record command_world =
  cw_readers :: flag_readers
  cw_load :: "string \<Rightarrow> config_error + config"
  cw_stdin :: string
  cw_upstream :: "string \<Rightarrow> int \<Rightarrow> string \<times> upstream_result option"
  cw_issuer :: "string option \<Rightarrow> int \<Rightarrow> hook_world"
  cw_issue :: "string \<Rightarrow> session_request \<Rightarrow> string + issued"
  cw_part_done :: "int \<Rightarrow> bool"
  cw_executable :: "string option"
  cw_cache_dir :: "string option"
  cw_stat :: "string \<Rightarrow> io_err + file_info"
  cw_settings :: settings_env
  cw_read_regular :: "string \<Rightarrow> string option"
  cw_yaml_decode :: "string \<Rightarrow> canonical option"
  cw_yaml_encode :: "(string \<times> string) list \<Rightarrow> string option"

datatype command_error =
    FlagsRefused flag_error | LoadFailed config_error | NoSocket | NoEventNamed | UnknownAdapter
  | AssignmentFailed assignment_error | OriginIsHuman | UnsupportedRuntime string | SettingsRequired | ModeUnknown
  | NoExecutable | NoCacheDir | InstallRefused install_error | UpstreamRefused | SettingsRefused | WriteRefused
  | OneDefinition | DefinitionUnreadable | DefinitionUnrendered

definition explicit_socket :: "command_world \<Rightarrow> string \<Rightarrow> string \<Rightarrow> command_error + string" where
  "explicit_socket w flag cfg_path =
     (if flag \<noteq> [] then Inr flag
      else if cfg_path \<noteq> [] then
        (case cw_load w cfg_path of
           Inl e \<Rightarrow> Inl (LoadFailed e)
         | Inr cfg \<Rightarrow>
             if idc_socket_path (cfg_identity cfg) \<noteq> [] then Inr (idc_socket_path (cfg_identity cfg)) else Inl NoSocket)
      else Inl NoSocket)"

subsection \<open>Finding the composed hook\<close>

definition parse_budget :: "command_world \<Rightarrow> string \<Rightarrow> int" where
  "parse_budget w s =
     (case rd_duration (cw_readers w) s of None \<Rightarrow> default_upstream_timeout | Some d \<Rightarrow> upstream_budget d)"

definition fixed_compose :: "command_world \<Rightarrow> string \<Rightarrow> string list \<Rightarrow> (string \<times> int) option" where
  "fixed_compose w event rest =
     (if event \<noteq> bash_event \<or> length rest < 2 \<or> rest ! 0 \<noteq> ''--compose'' \<or> rest ! 1 = [] then None
      else Some (rest ! 1,
                 if length rest \<ge> 4 \<and> rest ! 2 = ''--upstream-timeout'' then parse_budget w (rest ! 3)
                 else default_upstream_timeout))"

definition claude_code_flags :: flag_set where
  "claude_code_flags =
     (strings_set [''socket'', ''config'', ''state-dir'', ''mode'', ''origin'', ''compose'', ''upstream-timeout''])
       (''refresh-below'' \<mapsto> DurationFlag, ''timeout'' \<mapsto> DurationFlag)"

text \<open>The value of a flag: its own or the next argument, and the arguments after it.\<close>

definition flag_argument :: "string option \<Rightarrow> string list \<Rightarrow> (string \<times> string list) option" where
  "flag_argument value args =
     (case value of
        Some v \<Rightarrow> Some (v, args)
      | None \<Rightarrow> (case args of [] \<Rightarrow> None | v # args' \<Rightarrow> Some (v, args')))"

lemma flag_argument_shorter: "flag_argument value args = Some (v, args') \<Longrightarrow> length args' \<le> length args"
  by (auto simp: flag_argument_def split: option.splits list.splits)

text \<open>The scan over the arguments, with the two values found so far.\<close>

function scan_compose :: "flag_set \<Rightarrow> string \<Rightarrow> string \<Rightarrow> string list \<Rightarrow> string \<times> string" where
  "scan_compose fs exe budget [] = (exe, budget)"
| "scan_compose fs exe budget (a # args) =
     (if length a < 2 \<or> hd a \<noteq> CHR ''-'' then (exe, budget)
      else
        (let name = trim_prefix (tl a) ''-''
         in if name = [] then (exe, budget)
            else if hd name = CHR ''-'' \<or> hd name = CHR ''='' \<or> length a - length name > 2 then scan_compose fs exe budget args
            else
              (case cut_equals name of
                 (n, value) \<Rightarrow>
                   (case fs n of
                      None \<Rightarrow> scan_compose fs exe budget args
                    | Some k \<Rightarrow>
                        if k = BoolFlag then scan_compose fs exe budget args
                        else
                          (case flag_argument value args of
                             None \<Rightarrow> (exe, budget)
                           | Some (v, args') \<Rightarrow>
                               scan_compose fs (if n = ''compose'' then v else exe)
                                 (if n = ''upstream-timeout'' then v else budget) args')))))"
  by pat_completeness auto
termination
  by (relation "measure (\<lambda>(fs, exe, budget, args). length args)") (auto dest: flag_argument_shorter)

declare scan_compose.simps(2) [simp del]

definition find_compose :: "command_world \<Rightarrow> string \<Rightarrow> string list \<Rightarrow> (string \<times> int) option" where
  "find_compose w event rest =
     (if event \<noteq> bash_event then None
      else (case scan_compose claude_code_flags [] [] rest of
              (exe, budget) \<Rightarrow> if exe = [] then None else Some (exe, parse_budget w budget)))"

subsection \<open>The hook process\<close>

definition hook_events :: "string list" where
  "hook_events = [''session-start'', ''subagent-start'', bash_event, ''subagent-stop'', ''user-prompt-submit'']"

definition known_event :: "string \<Rightarrow> bool" where
  "known_event event \<longleftrightarrow> event \<in> set hook_events"

text \<open>The composed hook's run: the payload captured for gatekeeper and the verdict, if it gave one.\<close>

type_synonym upstream_run = "(string \<times> upstream_result option) option"

definition compose_fallback :: "upstream_run \<Rightarrow> hook_result" where
  "compose_fallback run = (case run of Some (raw, Some u) \<Rightarrow> up_out u | _ \<Rightarrow> empty_result)"

definition run_bounded :: "bool \<Rightarrow> hook_result \<Rightarrow> hook_result \<Rightarrow> hook_result" where
  "run_bounded in_time fallback res = (if in_time then res else fallback)"

text \<open>Once the flags are parsed.\<close>

definition serve_event :: "command_world \<Rightarrow> string \<Rightarrow> flag_values \<Rightarrow> upstream_run \<Rightarrow> files \<Rightarrow> hook_result" where
  "serve_event w event vals run f =
     (let fallback = compose_fallback run;
          state_dir = string_value vals ''state-dir'' [];
          root = (if is_abs state_dir then state_dir else [])
      in if \<not> known_event event then fallback
         else
           (let given = read_value (rd_duration (cw_readers w)) vals ''timeout'' hook_call_timeout;
                call_timeout = (if given \<le> 0 then hook_call_timeout else given);
                mode = (case parse_mode (string_value vals ''mode'' ''warn'') of None \<Rightarrow> ModeWarn | Some m \<Rightarrow> m);
                h = \<lparr>hk_root = root, hk_mode = mode, hk_origin = string_value vals ''origin'' [],
                     hk_refresh_below = read_value (rd_duration (cw_readers w)) vals ''refresh-below'' 0, hk_compose = []\<rparr>;
                sock = explicit_socket w (string_value vals ''socket'' []) (string_value vals ''config'' []);
                world = cw_issuer w (case sock of Inl e \<Rightarrow> None | Inr p \<Rightarrow> Some p) call_timeout
            in run_bounded (cw_part_done w (call_timeout + hook_own_slack)) fallback
                 (case run of
                    Some (raw, up) \<Rightarrow> fst (handle_composed world h raw up (hook_start f))
                  | None \<Rightarrow> fst (handle world h event (cw_stdin w) ([], None) (hook_start f)))))"

definition early_compose :: "command_world \<Rightarrow> string \<Rightarrow> string list \<Rightarrow> (string \<times> int) option" where
  "early_compose w event rest =
     (case fixed_compose w event rest of Some c \<Rightarrow> Some c | None \<Rightarrow> find_compose w event rest)"

definition serve_claude_code :: "command_world \<Rightarrow> string list \<Rightarrow> files \<Rightarrow> hook_result" where
  "serve_claude_code w args f =
     (case args of
        [] \<Rightarrow> empty_result
      | event # rest \<Rightarrow>
          (let early = map_option (\<lambda>(exe, budget). cw_upstream w exe budget) (early_compose w event rest)
           in case parse_flags (cw_readers w) claude_code_flags rest of
                Inl e \<Rightarrow> compose_fallback early
              | Inr (vals, _) \<Rightarrow>
                  (let compose = string_value vals ''compose'' [];
                       run = (if early = None \<and> event = bash_event \<and> compose \<noteq> []
                              then Some (cw_upstream w compose (parse_budget w (string_value vals ''upstream-timeout'' [])))
                              else early)
                   in serve_event w event vals run f)))"

text \<open>
  \<open>writeResult\<close>: the exit code whatever comes of the writes. \<open>stderr_ok\<close> and \<open>stdout_ok\<close> say
  whether the writes succeed; what was written is the result's two streams as far as they do.
\<close>

definition write_result :: "hook_result \<Rightarrow> bool \<Rightarrow> bool \<Rightarrow> string \<times> hook_output \<times> int" where
  "write_result res stderr_ok stdout_ok =
     (if hx_stderr res \<noteq> [] \<and> stderr_ok then hx_stderr res else [],
      if hx_stdout res \<noteq> NoOutput \<and> stdout_ok then hx_stdout res else NoOutput,
      hx_exit res)"

subsection \<open>The process adapter\<close>

definition run_hook_process :: "command_world \<Rightarrow> string list \<Rightarrow> command_error + string" where
  "run_hook_process w args =
     (case parse_flags (cw_readers w) (strings_set [''socket'', ''config'', ''definition'', ''origin'']) args of
        Inl e \<Rightarrow> Inl (FlagsRefused e)
      | Inr (vals, _) \<Rightarrow>
          if string_value vals ''origin'' [] = ''human'' then Inl OriginIsHuman
          else (case explicit_socket w (string_value vals ''socket'' []) (string_value vals ''config'' []) of
                  Inl e \<Rightarrow> Inl e
                | Inr sock \<Rightarrow>
                    (case process_assignment (cw_issue w sock) (string_value vals ''definition'' []) (string_value vals ''origin'' []) of
                       Inl e \<Rightarrow> Inl (AssignmentFailed e)
                     | Inr line \<Rightarrow> Inr (line @ [CHR 0x0A]))))"

definition run_hook :: "command_world \<Rightarrow> string list \<Rightarrow> files \<Rightarrow> hook_result" where
  "run_hook w args f =
     (case args of
        [] \<Rightarrow> empty_result\<lparr>hx_exit := 1\<rparr>
      | adapter # rest \<Rightarrow>
          if adapter = ''claude-code'' then serve_claude_code w rest f
          else if adapter = ''process'' then
            (case run_hook_process w rest of
               Inl e \<Rightarrow> empty_result\<lparr>hx_exit := 1\<rparr>
             | Inr line \<Rightarrow> empty_result\<lparr>hx_stdout := RawOutput line\<rparr>)
          else empty_result\<lparr>hx_exit := 1\<rparr>)"

subsection \<open>Installation\<close>

definition default_state_dir :: "command_world \<Rightarrow> command_error + string" where
  "default_state_dir w =
     (case cw_cache_dir w of
        None \<Rightarrow> Inl NoCacheDir
      | Some base \<Rightarrow> Inr (path_join [base, ''clagentic-gatekeeper'', ''hooks'']))"

definition install_flags :: flag_set where
  "install_flags =
     (strings_set [''runtime'', ''settings'', ''socket'', ''config'', ''state-dir'', ''mode'', ''origin'', ''compose'', ''binary''])
       (''refresh-below'' \<mapsto> DurationFlag, ''timeout'' \<mapsto> IntFlag, ''remove'' \<mapsto> BoolFlag, ''dry-run'' \<mapsto> BoolFlag)"

definition install_of :: "command_world \<Rightarrow> flag_values \<Rightarrow> command_error + install" where
  "install_of w vals =
     (case explicit_socket w (string_value vals ''socket'' []) (string_value vals ''config'' []) of
        Inl e \<Rightarrow> Inl e
      | Inr sock \<Rightarrow>
          (let mode = string_value vals ''mode'' ''warn''
           in if parse_mode mode = None then Inl ModeUnknown
              else
                (case (if string_value vals ''binary'' [] \<noteq> [] then Some (string_value vals ''binary'' []) else cw_executable w) of
                   None \<Rightarrow> Inl NoExecutable
                 | Some bin \<Rightarrow>
                     (case (if string_value vals ''state-dir'' [] \<noteq> [] then Inr (string_value vals ''state-dir'' [])
                            else default_state_dir w) of
                        Inl e \<Rightarrow> Inl e
                      | Inr state \<Rightarrow>
                          (let i = \<lparr>in_binary = bin, in_socket = sock, in_state_dir = state, in_mode = mode,
                                    in_origin = string_value vals ''origin'' [],
                                    in_refresh_below = read_value (rd_duration (cw_readers w)) vals ''refresh-below'' default_refresh_below,
                                    in_compose = string_value vals ''compose'' [],
                                    in_timeout = read_value (rd_int (cw_readers w)) vals ''timeout'' default_hook_timeout_seconds\<rparr>
                           in case validate_install i of
                                Some e \<Rightarrow> Inl (InstallRefused e)
                              | None \<Rightarrow>
                                  if in_compose i \<noteq> [] \<and> \<not> check_upstream (in_compose i) (cw_stat w (in_compose i))
                                  then Inl UpstreamRefused else Inr i)))))"

datatype install_outcome = NoChange | DryRun string | Unregistered | Registered

definition no_install :: install where
  "no_install = \<lparr>in_binary = [], in_socket = [], in_state_dir = [], in_mode = [], in_origin = [], in_refresh_below = 0,
     in_compose = [], in_timeout = 0\<rparr>"

definition run_hooks_install :: "command_world \<Rightarrow> string list \<Rightarrow> (command_error + install_outcome) \<times> file_action list" where
  "run_hooks_install w args =
     (case parse_flags (cw_readers w) install_flags args of
        Inl e \<Rightarrow> (Inl (FlagsRefused e), [])
      | Inr (vals, _) \<Rightarrow>
          (let runtime = string_value vals ''runtime'' []; settings = string_value vals ''settings'' [];
               remove = bool_value vals ''remove''; dry_run = bool_value vals ''dry-run''
           in if runtime \<noteq> ''claude-code'' then (Inl (UnsupportedRuntime runtime), [])
              else if settings = [] then (Inl SettingsRequired, [])
              else
                (case (if remove then Inr no_install else install_of w vals) of
                   Inl e \<Rightarrow> (Inl e, [])
                 | Inr i \<Rightarrow>
                     (case apply_settings_file (cw_settings w) settings i remove dry_run of
                        (FileRefused, as) \<Rightarrow> (Inl SettingsRefused, as)
                      | (FileUnchanged, as) \<Rightarrow> (Inr NoChange, as)
                      | (FileChanged content ok, as) \<Rightarrow>
                          (if \<not> ok then Inl WriteRefused
                           else if dry_run then Inr (DryRun content)
                           else if remove then Inr Unregistered
                           else Inr Registered, as)))))"

definition run_render_agent :: "command_world \<Rightarrow> string list \<Rightarrow> command_error + string" where
  "run_render_agent w args =
     (case parse_flags (cw_readers w) (strings_set [''runtime'', ''definitions-dir'']) args of
        Inl e \<Rightarrow> Inl (FlagsRefused e)
      | Inr (vals, left) \<Rightarrow>
          (let runtime = string_value vals ''runtime'' []
           in if runtime \<noteq> ''claude-code'' then Inl (UnsupportedRuntime runtime)
              else (case left of
                      [arg] \<Rightarrow>
                        (case read_definition (cw_read_regular w) (string_value vals ''definitions-dir'' []) arg of
                           None \<Rightarrow> Inl DefinitionUnreadable
                         | Some raw \<Rightarrow>
                             (case render_claude_code (cw_yaml_decode w) (cw_yaml_encode w) raw of
                                None \<Rightarrow> Inl DefinitionUnrendered
                              | Some out \<Rightarrow> Inr out))
                    | _ \<Rightarrow> Inl OneDefinition)))"

subsection \<open>The scan reads what the parser reads\<close>

lemma string_value_Cons: "string_value ((n, v) # vals) name dflt = string_value vals name (if n = name then v else dflt)"
  by (auto simp: string_value_def last_value_def map_add_def split: option.splits)

lemma string_value_Nil [simp]: "string_value [] name dflt = dflt"
  by (simp add: string_value_def last_value_def)

text \<open>One argument, as the scan takes it apart.\<close>

lemma scan_token:
  assumes "2 \<le> length a" and "hd a = CHR ''-''"
  shows "flag_token a =
     (let name = trim_prefix (tl a) ''-''
      in if name = [] then Terminator
         else if hd name = CHR ''-'' \<or> hd name = CHR ''='' then BadToken
         else (case cut_equals name of (n, v) \<Rightarrow> FlagToken n v))"
    and "length a - length (trim_prefix (tl a) ''-'') \<le> 2"
proof -
  obtain c r where a: "a = CHR ''-'' # c # r"
    using assms by (cases a; cases "tl a") auto
  show "flag_token a =
     (let name = trim_prefix (tl a) ''-''
      in if name = [] then Terminator
         else if hd name = CHR ''-'' \<or> hd name = CHR ''='' then BadToken
         else (case cut_equals name of (n, v) \<Rightarrow> FlagToken n v))"
    by (cases r) (auto simp: a flag_token_def named_token_def trim_prefix_def Let_def)
  show "length a - length (trim_prefix (tl a) ''-'') \<le> 2"
    by (simp add: a trim_prefix_def)
qed

lemma scan_compose_Cons:
  "scan_compose fs exe budget (a # args) =
     (case flag_token a of
        FlagToken n value \<Rightarrow>
          (case fs n of
             None \<Rightarrow> scan_compose fs exe budget args
           | Some k \<Rightarrow>
               if k = BoolFlag then scan_compose fs exe budget args
               else
                 (case flag_argument value args of
                    None \<Rightarrow> (exe, budget)
                  | Some (v, args') \<Rightarrow>
                      scan_compose fs (if n = ''compose'' then v else exe)
                        (if n = ''upstream-timeout'' then v else budget) args'))
      | BadToken \<Rightarrow> scan_compose fs exe budget args
      | _ \<Rightarrow> (exe, budget))"
proof (cases "length a < 2 \<or> hd a \<noteq> CHR ''-''")
  case True
  then have "flag_token a = NotAFlag" by (simp add: flag_token_def)
  with True show ?thesis by (auto simp: scan_compose.simps(2))
next
  case False
  let ?name = "trim_prefix (tl a) ''-''"
  from False have t: "flag_token a = (if ?name = [] then Terminator
         else if hd ?name = CHR ''-'' \<or> hd ?name = CHR ''='' then BadToken
         else (case cut_equals ?name of (n, v) \<Rightarrow> FlagToken n v))" and l: "\<not> length a - length ?name > 2"
    using scan_token [of a] by (simp_all add: Let_def)
  obtain n v where c: "cut_equals ?name = (n, v)" by force
  show ?thesis
    unfolding scan_compose.simps(2) [of fs exe budget a args] Let_def t
    using False l c by (simp split: option.split)
qed

lemma scan_reads_parse:
  "parse_flags rd fs args = Inr (vals, left) \<Longrightarrow> \<forall>n. fs n \<noteq> Some BoolFlag
    \<Longrightarrow> scan_compose fs exe budget args = (string_value vals ''compose'' exe, string_value vals ''upstream-timeout'' budget)"
proof (induction rd fs args arbitrary: vals left exe budget rule: parse_flags.induct)
  case (1 rd fs)
  then show ?case by simp
next
  case (2 rd fs a args)
  show ?case
  proof (cases "flag_token a")
    case NotAFlag
    with 2 show ?thesis by (auto simp: parse_flags.simps(2) scan_compose_Cons)
  next
    case Terminator
    with 2 show ?thesis by (auto simp: parse_flags.simps(2) scan_compose_Cons)
  next
    case BadToken
    with 2 show ?thesis by (simp add: parse_flags.simps(2))
  next
    case tk: (FlagToken n arg)
    obtain k where k: "fs n = Some k" "k \<noteq> BoolFlag"
      using "2.prems" tk by (cases "fs n") (auto simp: parse_flags.simps(2) split: if_splits)
    show ?thesis
    proof (cases arg)
      case None
      with "2.prems"(1) tk k obtain v args' vals' where v: "args = v # args'" "parse_flags rd fs args' = Inr (vals', left)"
        "vals = (n, v) # vals'" "valid_value rd k v"
        by (auto simp: parse_flags.simps(2) split: list.splits if_splits sum.splits)
      have "scan_compose fs e b args' = (string_value vals' ''compose'' e, string_value vals' ''upstream-timeout'' b)" for e b
        using "2.IH"(2) [OF tk k None v(1) _ v(2) "2.prems"(2)] v(4) by blast
      with tk k None v show ?thesis by (simp add: scan_compose_Cons flag_argument_def string_value_Cons)
    next
      case (Some v)
      with "2.prems"(1) tk k obtain vals' where v: "parse_flags rd fs args = Inr (vals', left)"
        "vals = (n, v) # vals'" "valid_value rd k v"
        by (auto simp: parse_flags.simps(2) split: list.splits if_splits sum.splits)
      have "scan_compose fs e b args = (string_value vals' ''compose'' e, string_value vals' ''upstream-timeout'' b)" for e b
        using "2.IH"(3) [OF tk k Some _ v(1) "2.prems"(2)] v(3) by blast
      with tk k Some v show ?thesis by (simp add: scan_compose_Cons flag_argument_def string_value_Cons)
    qed
  qed
qed

lemma claude_code_flags_plain: "claude_code_flags n \<noteq> Some BoolFlag"
  by (simp add: claude_code_flags_def strings_set_def)

subsection \<open>What a hook process answers\<close>

text \<open>
  The reply of a hook process: with a verdict of another hook that verdict, passed on or with the one
  statement added; without one an exit code of zero, nothing on the error stream, and at most the tool's
  own input with the one statement added.
\<close>

definition answers :: "upstream_run \<Rightarrow> hook_result \<Rightarrow> bool" where
  "answers run res \<longleftrightarrow>
     (case run of
        Some (raw, Some u) \<Rightarrow> \<exists>mode p. transparent mode p u res
      | _ \<Rightarrow> hx_exit res = 0 \<and> hx_stderr res = []
          \<and> (hx_stdout res = NoOutput
             \<or> (\<exists>input dir new. check_deliverable dir \<and> hx_stdout res = JsonOutput new
                  \<and> adds_statement (export_lead @ dir @ ''; '') [] [] input new)))"

lemma answers_empty: "answers None empty_result" "answers (Some (raw, None)) empty_result"
  by (simp_all add: answers_def empty_result_def)

lemma answers_fallback: "answers run (compose_fallback run)"
  by (auto simp: compose_fallback_def answers_def transparent_def empty_result_def split: option.splits prod.splits)

lemma standalone_answers: "answers None (fst (standalone w h p s))"
proof (cases "payload_command p")
  case None
  then show ?thesis by (simp add: standalone_def answers_empty)
next
  case (Some command)
  then have c: "command = string_member (pl_tool_input p) ''command''"
    by (simp add: payload_command_def Let_def split: if_splits)
  obtain o1 s1 where r: "rewrite_prefix w h p command s = (o1, s1)" by force
  show ?thesis
  proof (cases o1)
    case (Inl e)
    with Some r show ?thesis by (cases e) (simp add: standalone_def answers_empty)
  next
    case (Inr rewritten)
    from r obtain rec where "prefix_with w h command rec = Inr rewritten"
      unfolding Inr by (rule rewrite_prefix_Inr)
    then have d: "check_deliverable (hr_dir rec)" "rewritten = (export_lead @ hr_dir rec @ ''; '') @ command"
      by (auto simp: prefix_with_Inr)
    have "fst (standalone w h p s) =
        empty_result\<lparr>hx_stdout := JsonOutput (merge_rewrite [] [] (pl_tool_input p) rewritten)\<rparr>"
      using Some r Inr by (simp add: standalone_def)
    then show ?thesis
      using d merge_adds [of "export_lead @ hr_dir rec @ ''; ''" "[]" "[]" "pl_tool_input p"]
      unfolding answers_def c by (auto simp: empty_result_def)
  qed
qed

lemma fst_handled: "fst (case x of (a, b, c, d) \<Rightarrow> (a, d)) = fst x"
  by (simp split: prod.split)

lemma handle_answers:
  assumes "hk_compose h = []"
  shows "answers None (fst (handle w h event input up s))"
  using assms
  by (auto simp: handle_def handle_event_def pre_tool_use_bash_def answers_empty standalone_answers fst_handled
      split: option.split)

lemma composed_answers: "answers (Some (raw, up)) (fst (handle_composed w h raw up s))"
proof (cases up)
  case None
  then show ?thesis by (simp add: handle_composed_transparent(2) answers_empty)
next
  case (Some u)
  with handle_composed_transparent(1) [of h raw u w s] show ?thesis by (simp add: answers_def) blast
qed

lemma run_bounded_answers:
  "answers run res \<Longrightarrow> answers run (run_bounded in_time (compose_fallback run) res)"
  by (simp add: run_bounded_def answers_fallback)

lemma part_answers:
  assumes "hk_compose h = []"
  shows "answers run
    (case run of
       Some (raw, up) \<Rightarrow> fst (handle_composed world h raw up s)
     | None \<Rightarrow> fst (handle world h event input ([], None) s))"
  using handle_answers [OF assms] composed_answers by (cases run) auto

lemma serve_event_answers: "answers run (serve_event w event vals run f)"
proof -
  have "answers run (if \<not> known_event event then compose_fallback run else run_bounded a (compose_fallback run)
      (case run of
         Some (raw, up) \<Rightarrow> fst (handle_composed world h raw up (hook_start f))
       | None \<Rightarrow> fst (handle world h event input ([], None) (hook_start f))))"
    if "hk_compose h = []" for a world h input
    using part_answers [OF that] by (auto intro: run_bounded_answers answers_fallback)
  then show ?thesis unfolding serve_event_def Let_def by simp
qed

lemma find_compose_parsed:
  assumes "parse_flags (cw_readers w) claude_code_flags rest = Inr (vals, left)"
  shows "find_compose w bash_event rest =
     (if string_value vals ''compose'' [] = [] then None
      else Some (string_value vals ''compose'' [], parse_budget w (string_value vals ''upstream-timeout'' [])))"
  using scan_reads_parse [OF assms, of "[]" "[]"] claude_code_flags_plain by (simp add: find_compose_def)

lemma serve_claude_code_answers:
  "answers (map_option (\<lambda>(exe, budget). cw_upstream w exe budget) (early_compose w event rest))
     (serve_claude_code w (event # rest) f)"
proof -
  let ?early = "map_option (\<lambda>(exe, budget). cw_upstream w exe budget) (early_compose w event rest)"
  show ?thesis
  proof (cases "parse_flags (cw_readers w) claude_code_flags rest")
    case (Inl e)
    then show ?thesis by (simp add: serve_claude_code_def Let_def answers_fallback)
  next
    case (Inr p)
    obtain vals left where p: "p = (vals, left)" by force
    have "string_value vals ''compose'' [] = []" if "early_compose w event rest = None" "event = bash_event"
      using find_compose_parsed [OF Inr [unfolded p]] that by (auto simp: early_compose_def split: option.splits if_splits)
    then have "serve_claude_code w (event # rest) f = serve_event w event vals ?early f"
      using Inr p by (auto simp: serve_claude_code_def Let_def)
    then show ?thesis by (simp add: serve_event_answers)
  qed
qed

subsection \<open>Properties\<close>

text \<open>C29: The scan that looks for a composed hook before any flag is parsed finds what the flag parser finds:
  whenever the command line parses, it yields the last value of the compose flag and the budget read
  from the last value of its timeout flag, and nothing when there is no such value; so the parser never
  finds a composed hook the scan missed.\<close>
theorem scan_agrees_with_parser:
  assumes "parse_flags (cw_readers w) claude_code_flags rest = Inr (vals, left)"
  shows "find_compose w bash_event rest =
     (if string_value vals ''compose'' [] = [] then None
      else Some (string_value vals ''compose'' [], parse_budget w (string_value vals ''upstream-timeout'' [])))"
  using find_compose_parsed [OF assms] .

definition sample_readers :: flag_readers where
  "sample_readers = \<lparr>rd_duration = (\<lambda>s. if s = ''4s'' then Some 4000000000 else None), rd_int = (\<lambda>_. None)\<rparr>"

definition sample_command_world :: command_world where
  "sample_command_world = \<lparr>cw_readers = sample_readers, cw_load = (\<lambda>_. Inl ConfigMissing), cw_stdin = [],
     cw_upstream = (\<lambda>_ _. ([], None)), cw_issuer = (\<lambda>_ _. sample_world), cw_issue = (\<lambda>_ _. Inl ''refused''),
     cw_part_done = (\<lambda>_. True), cw_executable = None, cw_cache_dir = None, cw_stat = (\<lambda>_. Inl NotExist),
     cw_settings = sample_settings_env, cw_read_regular = (\<lambda>_. None), cw_yaml_decode = (\<lambda>_. None), cw_yaml_encode = (\<lambda>_. None)\<rparr>"

definition sample_args :: "string list" where
  "sample_args = [''--origin'', ''--compose'', ''-compose=/bin/h'', ''--upstream-timeout'', ''4s'']"

theorem scan_agrees_with_parser_witness:
  "find_compose sample_command_world bash_event sample_args = Some (''/bin/h'', 4000000000)"
proof -
  have r: "cw_readers sample_command_world = sample_readers" by (simp add: sample_command_world_def)
  have "parse_flags sample_readers claude_code_flags sample_args =
      Inr ([(''origin'', ''--compose''), (''compose'', ''/bin/h''), (''upstream-timeout'', ''4s'')], [])"
    by code_simp
  then have p: "parse_flags (cw_readers sample_command_world) claude_code_flags sample_args =
      Inr ([(''origin'', ''--compose''), (''compose'', ''/bin/h''), (''upstream-timeout'', ''4s'')], [])" unfolding r .
  have "parse_budget sample_command_world ''4s'' = 4000000000"
    by (simp add: parse_budget_def r sample_readers_def upstream_budget_def)
  with scan_agrees_with_parser [OF p] show ?thesis by (simp add: string_value_Cons)
qed


end
