(* ===== verification/Http.thy ===== *)
theory Http
  imports Json
begin

text \<open>
  HTTP and JSON as the I/O leaves use them (\<open>internal/broker\<close>, \<open>internal/githubapp\<close>,
  \<open>internal/a2atoken\<close>): a client is a function from requests to a transport error or a status with
  a body that may not be readable; decoding into the small structs of those packages.
\<close>

record http_request =
  rq_method :: string
  rq_url :: string
  rq_headers :: "(string \<times> string) list"
  rq_body :: string

type_synonym http_answer = "string + nat \<times> (string + string)"
type_synonym http_client = "http_request \<Rightarrow> http_answer"

definition trim_right_slashes :: "string \<Rightarrow> string" where
  "trim_right_slashes s = rev (dropWhile (\<lambda>c. c = CHR ''/'') (rev s))"

definition trim_left_slashes :: "string \<Rightarrow> string" where
  "trim_left_slashes s = dropWhile (\<lambda>c. c = CHR ''/'') s"

text \<open>
  \<open>json.Decoder.Decode\<close> into a struct reads the first value of the input and leaves what follows: an
  object or null; any other value is an error. The prefixes of an input that are such a document differ
  in white space only, and \<open>decode_first\<close> takes the longest.
\<close>

definition object_or_null :: "string \<Rightarrow> bool" where
  "object_or_null s = (case json_parse s of Some (JObj _) \<Rightarrow> True | Some JNull \<Rightarrow> True | _ \<Rightarrow> False)"

definition decode_first :: "string \<Rightarrow> json option" where
  "decode_first s =
     (case find (\<lambda>k. object_or_null (take k s)) (rev [0..<Suc (length s)]) of
        None \<Rightarrow> None
      | Some k \<Rightarrow> json_parse (take k s))"

lemma decode_first_whole: "object_or_null s \<Longrightarrow> decode_first s = json_parse s"
  by (simp add: decode_first_def)

lemma decode_first_object: "json_parse s = Some (JObj ms) \<Longrightarrow> decode_first s = Some (JObj ms)"
  using decode_first_whole [of s] by (simp add: object_or_null_def)

text \<open>A string member of a struct, decoded over what was there; null changes nothing.\<close>

definition struct_string :: "string \<Rightarrow> string \<Rightarrow> json \<Rightarrow> string option" where
  "struct_string name cur v =
     (case v of JNull \<Rightarrow> Some cur | JObj ms \<Rightarrow> string_field cur name ms | _ \<Rightarrow> None)"

text \<open>A string member of a struct that is a member of a struct.\<close>

definition nested_string :: "string \<Rightarrow> string \<Rightarrow> json \<Rightarrow> string option" where
  "nested_string outer inner v =
     (case v of
        JNull \<Rightarrow> Some []
      | JObj ms \<Rightarrow>
          fold (\<lambda>x s. case s of None \<Rightarrow> None | Some cur \<Rightarrow> struct_string inner cur x) (field_values outer ms) (Some [])
      | _ \<Rightarrow> None)"

text \<open>A member kept as raw JSON: the last value of the name, if any.\<close>

definition raw_member :: "string \<Rightarrow> json \<Rightarrow> json option option" where
  "raw_member name v =
     (case v of
        JNull \<Rightarrow> Some None
      | JObj ms \<Rightarrow> Some (case rev (field_values name ms) of [] \<Rightarrow> None | x # _ \<Rightarrow> Some x)
      | _ \<Rightarrow> None)"

end
