(* ===== verification/Broker.thy ===== *)
theory Broker
  imports Http Config
begin

text \<open>
  The secret brokers of \<open>internal/broker\<close>: environment, files, and the two HTTP services
  (\<open>openbao.go\<close>, \<open>vault.go\<close>), which the code writes out twice and the model does too. What the mint
  service relies on is the locale \<open>secret_broker\<close>. Error texts are left out.
\<close>

datatype broker_error =
    UnknownBrokerType string | EndpointRequired | UnknownAuth string
  | EnvUnset string | FileUnreadable string
  | VariableUnset string | LoginTransport string | LoginStatus nat | LoginUndecoded | EmptyClientToken
  | GetTransport string | GetStatus nat | GetUndecoded | DataUnparsed | EmptyValue

definition env_get :: "host \<Rightarrow> string \<Rightarrow> broker_error + string" where
  "env_get h path =
     (let v = getenv h path in if v = [] then Inl (EnvUnset path) else Inr v)"

definition file_get :: "host \<Rightarrow> string \<Rightarrow> broker_error + string" where
  "file_get h path =
     (case h_read h path of Inl e \<Rightarrow> Inl (FileUnreadable path) | Inr data \<Rightarrow> Inr (trim_space data))"

subsection \<open>OpenBao\<close>

record openbao =
  ob_endpoint :: string
  ob_auth :: string

definition new_openbao :: "broker_config \<Rightarrow> broker_error + openbao" where
  "new_openbao cfg =
     (if br_endpoint cfg = [] then Inl EndpointRequired
      else if br_auth cfg \<notin> {''approle'', ''token''} then Inl (UnknownAuth (br_auth cfg))
      else Inr \<lparr>ob_endpoint = trim_right_slashes (br_endpoint cfg), ob_auth = br_auth cfg\<rparr>)"

definition openbao_login :: "openbao \<Rightarrow> string \<Rightarrow> string \<Rightarrow> http_request" where
  "openbao_login b role_id secret_id =
     \<lparr>rq_method = ''POST'', rq_url = ob_endpoint b @ ''/v1/auth/approle/login'',
      rq_headers = [(''Content-Type'', ''application/json'')],
      rq_body = json_encode (JObj [(''role_id'', JStr role_id), (''secret_id'', JStr secret_id)])\<rparr>"

definition openbao_client_token :: "http_client \<Rightarrow> host \<Rightarrow> openbao \<Rightarrow> broker_error + string" where
  "openbao_client_token client h b =
     (if ob_auth b = ''token'' then
        (let tok = getenv h ''BROKER_TOKEN'' in if tok = [] then Inl (VariableUnset ''BROKER_TOKEN'') else Inr tok)
      else if ob_auth b = ''approle'' then
        (let role_id = getenv h ''BROKER_ROLE_ID''; secret_id = getenv h ''BROKER_SECRET_ID''
         in if role_id = [] then Inl (VariableUnset ''BROKER_ROLE_ID'')
            else if secret_id = [] then Inl (VariableUnset ''BROKER_SECRET_ID'')
            else (case client (openbao_login b role_id secret_id) of
                    Inl e \<Rightarrow> Inl (LoginTransport e)
                  | Inr (status, body) \<Rightarrow>
                      if status \<noteq> 200 then Inl (LoginStatus status)
                      else (case body of
                              Inl e \<Rightarrow> Inl LoginUndecoded
                            | Inr s \<Rightarrow>
                                (case Option.bind (decode_first s) (nested_string ''auth'' ''client_token'') of
                                   None \<Rightarrow> Inl LoginUndecoded
                                 | Some tok \<Rightarrow> if tok = [] then Inl EmptyClientToken else Inr tok))))
      else Inl (UnknownAuth (ob_auth b)))"

text \<open>The value in a KV version 2 answer, otherwise in a version 1 answer.\<close>

definition openbao_value :: "json option \<Rightarrow> broker_error + string" where
  "openbao_value data =
     (case Option.bind data (nested_string ''data'' ''value'') of
        Some v \<Rightarrow>
          if v \<noteq> [] then Inr v
          else (case Option.bind data (struct_string ''value'' []) of
                  None \<Rightarrow> Inl DataUnparsed | Some v1 \<Rightarrow> if v1 = [] then Inl EmptyValue else Inr v1)
      | None \<Rightarrow>
          (case Option.bind data (struct_string ''value'' []) of
             None \<Rightarrow> Inl DataUnparsed | Some v1 \<Rightarrow> if v1 = [] then Inl EmptyValue else Inr v1))"

definition openbao_get :: "http_client \<Rightarrow> host \<Rightarrow> openbao \<Rightarrow> string \<Rightarrow> broker_error + string" where
  "openbao_get client h b path =
     (case openbao_client_token client h b of
        Inl e \<Rightarrow> Inl e
      | Inr tok \<Rightarrow>
          (case client \<lparr>rq_method = ''GET'', rq_url = ob_endpoint b @ ''/v1/'' @ trim_left_slashes path,
                        rq_headers = [(''X-Vault-Token'', tok)], rq_body = []\<rparr> of
             Inl e \<Rightarrow> Inl (GetTransport e)
           | Inr (status, body) \<Rightarrow>
               if status \<noteq> 200 then Inl (GetStatus status)
               else (case body of
                       Inl e \<Rightarrow> Inl GetUndecoded
                     | Inr s \<Rightarrow>
                         (case Option.bind (decode_first s) (raw_member ''data'') of
                            None \<Rightarrow> Inl GetUndecoded
                          | Some data \<Rightarrow> openbao_value data))))"

subsection \<open>Vault\<close>

record vault =
  va_endpoint :: string
  va_auth :: string

definition new_vault :: "broker_config \<Rightarrow> broker_error + vault" where
  "new_vault cfg =
     (if br_endpoint cfg = [] then Inl EndpointRequired
      else if br_auth cfg \<notin> {''approle'', ''token''} then Inl (UnknownAuth (br_auth cfg))
      else Inr \<lparr>va_endpoint = trim_right_slashes (br_endpoint cfg), va_auth = br_auth cfg\<rparr>)"

definition vault_login :: "vault \<Rightarrow> string \<Rightarrow> string \<Rightarrow> http_request" where
  "vault_login b role_id secret_id =
     \<lparr>rq_method = ''POST'', rq_url = va_endpoint b @ ''/v1/auth/approle/login'',
      rq_headers = [(''Content-Type'', ''application/json'')],
      rq_body = json_encode (JObj [(''role_id'', JStr role_id), (''secret_id'', JStr secret_id)])\<rparr>"

definition vault_client_token :: "http_client \<Rightarrow> host \<Rightarrow> vault \<Rightarrow> broker_error + string" where
  "vault_client_token client h b =
     (if va_auth b = ''token'' then
        (let tok = getenv h ''BROKER_TOKEN'' in if tok = [] then Inl (VariableUnset ''BROKER_TOKEN'') else Inr tok)
      else if va_auth b = ''approle'' then
        (let role_id = getenv h ''BROKER_ROLE_ID''; secret_id = getenv h ''BROKER_SECRET_ID''
         in if role_id = [] then Inl (VariableUnset ''BROKER_ROLE_ID'')
            else if secret_id = [] then Inl (VariableUnset ''BROKER_SECRET_ID'')
            else (case client (vault_login b role_id secret_id) of
                    Inl e \<Rightarrow> Inl (LoginTransport e)
                  | Inr (status, body) \<Rightarrow>
                      if status \<noteq> 200 then Inl (LoginStatus status)
                      else (case body of
                              Inl e \<Rightarrow> Inl LoginUndecoded
                            | Inr s \<Rightarrow>
                                (case Option.bind (decode_first s) (nested_string ''auth'' ''client_token'') of
                                   None \<Rightarrow> Inl LoginUndecoded
                                 | Some tok \<Rightarrow> if tok = [] then Inl EmptyClientToken else Inr tok))))
      else Inl (UnknownAuth (va_auth b)))"

definition vault_value :: "json option \<Rightarrow> broker_error + string" where
  "vault_value data =
     (case Option.bind data (nested_string ''data'' ''value'') of
        Some v \<Rightarrow>
          if v \<noteq> [] then Inr v
          else (case Option.bind data (struct_string ''value'' []) of
                  None \<Rightarrow> Inl DataUnparsed | Some v1 \<Rightarrow> if v1 = [] then Inl EmptyValue else Inr v1)
      | None \<Rightarrow>
          (case Option.bind data (struct_string ''value'' []) of
             None \<Rightarrow> Inl DataUnparsed | Some v1 \<Rightarrow> if v1 = [] then Inl EmptyValue else Inr v1))"

definition vault_get :: "http_client \<Rightarrow> host \<Rightarrow> vault \<Rightarrow> string \<Rightarrow> broker_error + string" where
  "vault_get client h b path =
     (case vault_client_token client h b of
        Inl e \<Rightarrow> Inl e
      | Inr tok \<Rightarrow>
          (case client \<lparr>rq_method = ''GET'', rq_url = va_endpoint b @ ''/v1/'' @ trim_left_slashes path,
                        rq_headers = [(''X-Vault-Token'', tok)], rq_body = []\<rparr> of
             Inl e \<Rightarrow> Inl (GetTransport e)
           | Inr (status, body) \<Rightarrow>
               if status \<noteq> 200 then Inl (GetStatus status)
               else (case body of
                       Inl e \<Rightarrow> Inl GetUndecoded
                     | Inr s \<Rightarrow>
                         (case Option.bind (decode_first s) (raw_member ''data'') of
                            None \<Rightarrow> Inl GetUndecoded
                          | Some data \<Rightarrow> vault_value data))))"

subsection \<open>The broker of a configuration\<close>

text \<open>The client and the host are given with the number of the read: a secret may change between two reads.\<close>

type_synonym secret_source = "nat \<Rightarrow> string \<Rightarrow> broker_error + string"

definition new_broker :: "(nat \<Rightarrow> http_client) \<Rightarrow> (nat \<Rightarrow> host) \<Rightarrow> broker_config \<Rightarrow> broker_error + secret_source" where
  "new_broker client h cfg =
     (if br_type cfg = ''openbao'' then
        (case new_openbao cfg of Inl e \<Rightarrow> Inl e | Inr b \<Rightarrow> Inr (\<lambda>n. openbao_get (client n) (h n) b))
      else if br_type cfg = ''vault'' then
        (case new_vault cfg of Inl e \<Rightarrow> Inl e | Inr b \<Rightarrow> Inr (\<lambda>n. vault_get (client n) (h n) b))
      else if br_type cfg = ''env'' then Inr (\<lambda>n. env_get (h n))
      else if br_type cfg = ''file'' then Inr (\<lambda>n. file_get (h n))
      else Inl (UnknownBrokerType (br_type cfg)))"

subsection \<open>One service under two names\<close>

definition as_vault :: "openbao \<Rightarrow> vault" where
  "as_vault b = \<lparr>va_endpoint = ob_endpoint b, va_auth = ob_auth b\<rparr>"

lemma vault_is_openbao:
  "new_vault cfg = map_sum id as_vault (new_openbao cfg)"
  "vault_client_token client h (as_vault b) = openbao_client_token client h b"
  "vault_get client h (as_vault b) path = openbao_get client h b path"
proof -
  show "new_vault cfg = map_sum id as_vault (new_openbao cfg)"
    by (simp add: new_vault_def new_openbao_def as_vault_def)
  have l: "vault_login (as_vault b) r s = openbao_login b r s" for r s
    by (simp add: vault_login_def openbao_login_def as_vault_def)
  show t: "vault_client_token client h (as_vault b) = openbao_client_token client h b"
    unfolding vault_client_token_def openbao_client_token_def l by (simp add: as_vault_def)
  have e: "va_endpoint (as_vault b) = ob_endpoint b" by (simp add: as_vault_def)
  have v: "vault_value = openbao_value" by (intro ext) (simp add: vault_value_def openbao_value_def)
  show "vault_get client h (as_vault b) path = openbao_get client h b path"
    unfolding vault_get_def openbao_get_def t v e ..
qed

subsection \<open>What a reader of secrets relies on\<close>

locale secret_broker =
  fixes get :: "string \<Rightarrow> 'e + string"
  assumes never_empty: "get path = Inr v \<Longrightarrow> v \<noteq> []"
begin

lemma empty_is_error: "is_ok (get path) \<Longrightarrow> \<exists>v. get path = Inr v \<and> v \<noteq> []"
  using never_empty by (cases "get path") (auto simp: is_ok_def)

end

lemma openbao_value_nonempty: "openbao_value data = Inr v \<Longrightarrow> v \<noteq> []"
  by (auto simp: openbao_value_def split: option.splits if_splits)

interpretation env_broker: secret_broker "env_get h" for h
  by unfold_locales (auto simp: env_get_def Let_def split: if_splits)

interpretation openbao_broker: secret_broker "openbao_get client h b" for client h b
  by unfold_locales (auto simp: openbao_get_def openbao_value_nonempty split: sum.splits prod.splits option.splits if_splits)

interpretation vault_broker: secret_broker "vault_get client h b" for client h b
proof unfold_locales
  fix path v
  assume "vault_get client h b path = Inr v"
  moreover have "b = as_vault \<lparr>ob_endpoint = va_endpoint b, ob_auth = va_auth b\<rparr>" by (simp add: as_vault_def)
  ultimately show "v \<noteq> []" using vault_is_openbao(3) openbao_broker.never_empty by metis
qed

text \<open>A file broker may hand out the empty string.\<close>

lemma file_broker_empty:
  assumes "h_read h path = Inr [CHR 0x0A]"
  shows "file_get h path = Inr []"
proof -
  have "trim_space [CHR 0x0A] = []" by code_simp
  then show ?thesis using assms by (simp add: file_get_def)
qed

end
