(* ===== verification/GithubApp.thy ===== *)
theory GithubApp
  imports Http Mint Claims "HOL-Library.List_Lexorder"
begin

text \<open>
  The GitHub App client of \<open>internal/githubapp/githubapp.go\<close>: it signs the App's JWT and exchanges
  it for an installation token. PEM and key decoding, the RSA signature, SHA-256 and reading a
  RFC 3339 time are parameters. A run returns its result and the requests it made. Overwriting the
  key's memory after use (\<open>zeroKey\<close>) has no counterpart in a model of values.
\<close>

datatype 'k pkcs8_key = RsaKey 'k | OtherKey

record 'k rsa_lib =
  rl_pem :: "string \<Rightarrow> (string \<times> string) option"
  rl_pkcs1 :: "string \<Rightarrow> 'k option"
  rl_pkcs8 :: "string \<Rightarrow> 'k pkcs8_key option"
  rl_sha256 :: "string \<Rightarrow> string"
  rl_sign :: "'k \<Rightarrow> string \<Rightarrow> string option"
  rl_rfc3339 :: "string \<Rightarrow> int option"

datatype key_error = NoPemBlock | KeyUnparsed | KeyNotRsa | UnsupportedBlock string

datatype github_error =
    InvalidAppId string | InvalidInstallationId string | AppKeyError key_error | JwtUnsigned
  | GithubUnreachable string | GithubBodyUnread | GithubStatus nat string | GithubUnparsed | ExpiryUnparsed string

definition parse_rsa_key :: "'k rsa_lib \<Rightarrow> string \<Rightarrow> key_error + 'k" where
  "parse_rsa_key lib pem =
     (case rl_pem lib pem of
        None \<Rightarrow> Inl NoPemBlock
      | Some (kind, bytes) \<Rightarrow>
          if kind = ''RSA PRIVATE KEY'' then
            (case rl_pkcs1 lib bytes of None \<Rightarrow> Inl KeyUnparsed | Some k \<Rightarrow> Inr k)
          else if kind = ''PRIVATE KEY'' then
            (case rl_pkcs8 lib bytes of
               None \<Rightarrow> Inl KeyUnparsed | Some OtherKey \<Rightarrow> Inl KeyNotRsa | Some (RsaKey k) \<Rightarrow> Inr k)
          else Inl (UnsupportedBlock kind))"

definition rs256_header :: claim_map where
  "rs256_header = [(''alg'', JStr ''RS256''), (''typ'', JStr ''JWT'')]"

definition app_claims :: "int \<Rightarrow> int \<Rightarrow> int \<Rightarrow> claim_map" where
  "app_claims app_id iat expiry =
     [(''exp'', JNum (show_int expiry)), (''iat'', JNum (show_int iat)), (''iss'', JNum (show_int app_id))]"

definition sign_jwt :: "'k rsa_lib \<Rightarrow> 'k \<Rightarrow> int \<Rightarrow> int \<Rightarrow> int \<Rightarrow> string option" where
  "sign_jwt lib key app_id iat expiry =
     (let input = b64url_encode (json_encode (JObj rs256_header)) @ ''.''
                    @ b64url_encode (json_encode (JObj (app_claims app_id iat expiry)))
      in case rl_sign lib key (rl_sha256 lib input) of
           None \<Rightarrow> None
         | Some sig \<Rightarrow> Some (input @ ''.'' @ b64url_encode sig))"

text \<open>A Go map encodes with its keys in byte order; an empty map or list is omitted.\<close>

definition perm_members :: "(string \<rightharpoonup> string) \<Rightarrow> (string \<times> json) list" where
  "perm_members m = map (\<lambda>k. (k, JStr (the (m k)))) (sorted_list_of_set (dom m))"

definition access_token_request :: "(string \<rightharpoonup> string) \<Rightarrow> string list \<Rightarrow> json" where
  "access_token_request permissions repos =
     JObj ((if perm_members permissions = [] then [] else [(''permissions'', JObj (perm_members permissions))])
       @ (if repos = [] then [] else [(''repositories'', JArr (map JStr repos))]))"

definition access_token_response :: "string \<Rightarrow> (string \<times> string) option" where
  "access_token_response body =
     (case json_parse body of
        None \<Rightarrow> None
      | Some v \<Rightarrow>
          (case (struct_string ''token'' [] v, struct_string ''expires_at'' [] v) of
             (Some t, Some e) \<Rightarrow> Some (t, e) | _ \<Rightarrow> None))"

definition exchange_token ::
    "'k rsa_lib \<Rightarrow> http_client \<Rightarrow> string \<Rightarrow> int \<Rightarrow> string \<Rightarrow> (string \<rightharpoonup> string) \<Rightarrow> string list
      \<Rightarrow> (github_error + gh_token) \<times> http_request list" where
  "exchange_token lib client api inst jwt permissions repos =
     (let req = \<lparr>rq_method = ''POST'',
                 rq_url = api @ ''/app/installations/'' @ show_int inst @ ''/access_tokens'',
                 rq_headers = [(''Authorization'', ''Bearer '' @ jwt), (''Accept'', ''application/vnd.github+json''),
                   (''X-GitHub-Api-Version'', ''2022-11-28''), (''Content-Type'', ''application/json'')],
                 rq_body = json_encode (access_token_request permissions repos)\<rparr>
      in (case client req of
            Inl e \<Rightarrow> Inl (GithubUnreachable e)
          | Inr (status, body) \<Rightarrow>
              (case body of
                 Inl e \<Rightarrow> Inl GithubBodyUnread
               | Inr s \<Rightarrow>
                   if status < 200 \<or> 300 \<le> status then Inl (GithubStatus status s)
                   else (case access_token_response s of
                           None \<Rightarrow> Inl GithubUnparsed
                         | Some (tok, at) \<Rightarrow>
                             (case rl_rfc3339 lib at of
                                None \<Rightarrow> Inl (ExpiryUnparsed at)
                              | Some t \<Rightarrow> Inr \<lparr>tok_value = tok, tok_expires = t, tok_app_slug = []\<rparr>))),
          [req]))"

definition max_jwt_lifetime :: int where "max_jwt_lifetime = 10 * 60 * 1000000000"

definition jwt_ttl :: "int \<Rightarrow> int" where
  "jwt_ttl ttl = (if ttl \<le> 0 \<or> ttl > max_jwt_lifetime then max_jwt_lifetime else ttl)"

text \<open>Times and lifetimes are in nanoseconds; \<open>Unix\<close> rounds down to seconds.\<close>

definition github_mint ::
    "'k rsa_lib \<Rightarrow> http_client \<Rightarrow> int \<Rightarrow> mint_request \<Rightarrow> (github_error + gh_token) \<times> http_request list" where
  "github_mint lib client now req =
     (case parse_int64 (mr_app_id req) of
        None \<Rightarrow> (Inl (InvalidAppId (mr_app_id req)), [])
      | Some app_id \<Rightarrow>
          (case parse_int64 (mr_installation_id req) of
             None \<Rightarrow> (Inl (InvalidInstallationId (mr_installation_id req)), [])
           | Some inst \<Rightarrow>
               (case parse_rsa_key lib (mr_private_key req) of
                  Inl e \<Rightarrow> (Inl (AppKeyError e), [])
                | Inr key \<Rightarrow>
                    (let iat = now - 60 * 1000000000; expiry = iat + jwt_ttl (mr_ttl req)
                     in case sign_jwt lib key app_id (iat div 1000000000) (expiry div 1000000000) of
                          None \<Rightarrow> (Inl JwtUnsigned, [])
                        | Some jwt \<Rightarrow>
                            exchange_token lib client (mr_api_base req) inst jwt
                              (mr_permissions req) (mr_repos req)))))"

subsection \<open>Lemmas\<close>

lemma jwt_ttl_range: "0 < jwt_ttl ttl \<and> jwt_ttl ttl \<le> max_jwt_lifetime"
  by (auto simp: jwt_ttl_def max_jwt_lifetime_def)

lemma sign_jwt_Some:
  "sign_jwt lib key app_id iat expiry = Some jwt \<longleftrightarrow>
     (\<exists>sig. jwt = compact rs256_header (app_claims app_id iat expiry) sig
        \<and> rl_sign lib key (rl_sha256 lib (b64url_encode (json_encode (JObj rs256_header)) @ ''.''
             @ b64url_encode (json_encode (JObj (app_claims app_id iat expiry))))) = Some sig)"
  by (auto simp: sign_jwt_def compact_def Let_def split: option.splits simp del: json_encode.simps)

lemma exchange_requests:
  "snd (exchange_token lib client api inst jwt ps repos) = [q] \<longleftrightarrow>
     q = \<lparr>rq_method = ''POST'', rq_url = api @ ''/app/installations/'' @ show_int inst @ ''/access_tokens'',
          rq_headers = [(''Authorization'', ''Bearer '' @ jwt), (''Accept'', ''application/vnd.github+json''),
            (''X-GitHub-Api-Version'', ''2022-11-28''), (''Content-Type'', ''application/json'')],
          rq_body = json_encode (access_token_request ps repos)\<rparr>"
  by (auto simp: exchange_token_def Let_def)

text \<open>Every request is the exchange of a signed JWT.\<close>

lemma github_mint_request:
  assumes "q \<in> set (snd (github_mint lib client now req))"
  obtains app_id inst key jwt where
    "parse_int64 (mr_app_id req) = Some app_id" "parse_int64 (mr_installation_id req) = Some inst"
    "parse_rsa_key lib (mr_private_key req) = Inr key"
    "sign_jwt lib key app_id ((now - 60000000000) div 1000000000)
       ((now - 60000000000 + jwt_ttl (mr_ttl req)) div 1000000000) = Some jwt"
    "snd (exchange_token lib client (mr_api_base req) inst jwt (mr_permissions req) (mr_repos req)) = [q]"
  using assms
  by (auto simp: github_mint_def Let_def exchange_token_def split: option.splits sum.splits)

lemma perm_members_empty: "finite (dom m) \<Longrightarrow> perm_members m = [] \<longleftrightarrow> m = Map.empty"
  by (simp add: perm_members_def)

text \<open>The permissions a body carries, read as a map.\<close>

lemma map_of_perm_members: "finite (dom m) \<Longrightarrow> map_of (perm_members m) k = map_option JStr (m k)"
  unfolding perm_members_def
  by (auto simp: map_of_map_restrict restrict_map_def domIff)

lemma rs256_writable: "writable rs256_header"
  by (auto simp: writable_def rs256_header_def max_depth_def code_def intro!: utf8_ascii)

lemma app_claims_writable: "writable (app_claims app_id iat expiry)"
  by (auto simp: writable_def app_claims_def max_depth_def code_def intro!: utf8_ascii)

definition clean_request :: "mint_request \<Rightarrow> bool" where
  "clean_request req \<longleftrightarrow> finite (dom (mr_permissions req))
     \<and> (\<forall>k v. mr_permissions req k = Some v \<longrightarrow> utf8_valid k \<and> utf8_valid v)
     \<and> list_all utf8_valid (mr_repos req)"

lemma access_token_request_read:
  assumes "clean_request req"
  shows "json_parse (json_encode (access_token_request (mr_permissions req) (mr_repos req)))
    = Some (access_token_request (mr_permissions req) (mr_repos req))"
proof (rule json_parse_encode)
  let ?v = "access_token_request (mr_permissions req) (mr_repos req)"
  have u: "utf8_valid ''permissions''" "utf8_valid ''repositories''"
    by (auto simp: code_def intro!: utf8_ascii)
  have "\<forall>(k, v) \<in> set (perm_members (mr_permissions req)). utf8_valid k \<and> encodable v \<and> fits n v" for n
    using assms by (auto simp: perm_members_def clean_request_def)
  with assms u show "encodable ?v"
    by (fastforce simp: access_token_request_def clean_request_def list_all_iff)
  show "fits 0 ?v"
    by (auto simp: access_token_request_def perm_members_def max_depth_def)
qed

subsection \<open>Properties\<close>

text \<open>C30: Every request made of GitHub is the exchange, at the installation read from the broker, of an
  App JWT whose payload names the App, dates one minute back, and expires between that date and nine
  minutes from now, whatever lifetime was asked for.\<close>
theorem app_jwt_bounded:
  assumes "q \<in> set (snd (github_mint lib client now req))"
  shows "\<exists>app_id inst jwt header iat expiry sig.
     parse_int64 (mr_app_id req) = Some app_id \<and> parse_int64 (mr_installation_id req) = Some inst
     \<and> rq_url q = mr_api_base req @ ''/app/installations/'' @ show_int inst @ ''/access_tokens''
     \<and> map_of (rq_headers q) ''Authorization'' = Some (''Bearer '' @ jwt)
     \<and> split_on CHR ''.'' jwt = [header, b64url_encode (json_encode (JObj (app_claims app_id iat expiry))), sig]
     \<and> iat = now div 1000000000 - 60 \<and> iat \<le> expiry \<and> expiry \<le> now div 1000000000 + 540"
proof -
  from assms obtain app_id inst key jwt where r: "parse_int64 (mr_app_id req) = Some app_id"
    "parse_int64 (mr_installation_id req) = Some inst"
    and j: "sign_jwt lib key app_id ((now - 60000000000) div 1000000000)
       ((now - 60000000000 + jwt_ttl (mr_ttl req)) div 1000000000) = Some jwt"
    and q: "snd (exchange_token lib client (mr_api_base req) inst jwt (mr_permissions req) (mr_repos req)) = [q]"
    by (rule github_mint_request)
  define iat where "iat = (now - 60000000000) div 1000000000"
  define expiry where "expiry = (now - 60000000000 + jwt_ttl (mr_ttl req)) div 1000000000"
  have i: "iat = now div 1000000000 - 60" by (simp add: iat_def)
  have low: "iat \<le> expiry"
    unfolding iat_def expiry_def by (rule zdiv_mono1) (use jwt_ttl_range [of "mr_ttl req"] in auto)
  have "expiry \<le> (now + 540 * 1000000000) div 1000000000"
    unfolding expiry_def
    by (rule zdiv_mono1) (use jwt_ttl_range [of "mr_ttl req"] in \<open>auto simp: max_jwt_lifetime_def\<close>)
  then have high: "expiry \<le> now div 1000000000 + 540"
    using div_mult_self1 [of "1000000000::int" now 540] by simp
  from j obtain sig where "jwt = compact rs256_header (app_claims app_id iat expiry) sig"
    unfolding iat_def [symmetric] expiry_def [symmetric] sign_jwt_Some by blast
  then have segs: "split_on CHR ''.'' jwt = [b64url_encode (json_encode (JObj rs256_header)),
      b64url_encode (json_encode (JObj (app_claims app_id iat expiry))), b64url_encode sig]"
    by (simp only: split_compact)
  from q have req: "rq_url q = mr_api_base req @ ''/app/installations/'' @ show_int inst @ ''/access_tokens''"
    "map_of (rq_headers q) ''Authorization'' = Some (''Bearer '' @ jwt)"
    unfolding exchange_requests by (simp_all del: json_encode.simps)
  from r req segs i low high show ?thesis by blast
qed

text \<open>A lifetime of a minute or less, which the configuration can ask for, gives a JWT that has expired.\<close>

lemma short_ttl_expired:
  assumes "0 < ttl" and "ttl \<le> 60 * 1000000000"
  shows "(now - 60000000000 + jwt_ttl ttl) div 1000000000 \<le> now div 1000000000"
  by (rule zdiv_mono1) (use assms in \<open>auto simp: jwt_ttl_def max_jwt_lifetime_def\<close>)

subsection \<open>Witnesses\<close>

definition sample_lib :: "unit rsa_lib" where
  "sample_lib = \<lparr>rl_pem = (\<lambda>_. Some (''PRIVATE KEY'', [])), rl_pkcs1 = (\<lambda>_. None), rl_pkcs8 = (\<lambda>_. Some (RsaKey ())),
     rl_sha256 = id, rl_sign = (\<lambda>_ _. Some []), rl_rfc3339 = (\<lambda>_. None)\<rparr>"

definition sample_app_request :: mint_request where
  "sample_app_request = \<lparr>mr_api_base = ''api'', mr_app_id = ''7'', mr_installation_id = ''9'', mr_private_key = [],
     mr_permissions = Map.empty, mr_repos = [], mr_ttl = 60000000000\<rparr>"

lemma sample_app_run:
  obtains q where "q \<in> set (snd (github_mint sample_lib client now sample_app_request))"
proof -
  have "parse_int64 ''7'' = Some 7" "parse_int64 ''9'' = Some 9"
    by (simp_all add: parse_int64_def digits_val_def is_digit_def code_def int64_range_def)
  moreover have "parse_rsa_key sample_lib k = Inr ()" for k
    by (simp add: parse_rsa_key_def sample_lib_def)
  moreover have "\<exists>jwt. sign_jwt sample_lib () a b c = Some jwt" for a b c
    by (simp add: sign_jwt_def sample_lib_def Let_def del: json_encode.simps)
  ultimately have "\<exists>q. q \<in> set (snd (github_mint sample_lib client now sample_app_request))"
    by (auto simp: github_mint_def sample_app_request_def Let_def exchange_token_def split: option.split)
  with that show thesis by blast
qed

theorem app_jwt_bounded_witness:
  "\<exists>jwt header iat expiry sig. split_on CHR ''.'' jwt = [header, b64url_encode (json_encode (JObj (app_claims 7 iat expiry))), sig]
     \<and> iat = (40 :: int) \<and> expiry \<le> 640"
proof -
  obtain q where q: "q \<in> set (snd (github_mint sample_lib (\<lambda>_. Inl []) 100000000000 sample_app_request))"
    by (rule sample_app_run)
  have "parse_int64 (mr_app_id sample_app_request) = Some 7"
    by (simp add: sample_app_request_def parse_int64_def digits_val_def is_digit_def code_def int64_range_def)
  with app_jwt_bounded [OF q] show ?thesis by (auto simp del: json_encode.simps)
qed

end
