(* ===== verification/A2aToken.thy ===== *)
theory A2aToken
  imports GithubApp A2aMint
begin

text \<open>
  The OpenBao client of \<open>internal/a2atoken/a2atoken.go\<close>: sign an assertion for the attested
  subject, exchange it for a client token, read the peer-facing token. A run returns its result and
  the requests it made. The texts of errors are a parameter, except that of a transport error,
  which reaches the audit trail and is bounded.
\<close>

definition max_raw_body_excerpt :: nat where "max_raw_body_excerpt = 200"
definition max_response_body_bytes :: nat where "max_response_body_bytes = 64 * 1024"

record transport_error =
  te_op :: string
  te_status :: nat
  te_detail :: string

definition transport_text :: "transport_error \<Rightarrow> string" where
  "transport_text e =
     (if te_status e \<noteq> 0 then ''a2atoken: '' @ te_op e @ '': HTTP '' @ show_nat (te_status e) @ '': '' @ te_detail e
      else ''a2atoken: '' @ te_op e @ '': '' @ te_detail e)"

datatype token_error =
    NoEndpoint | NoSubject | NoMountOrRole | NoTokenRole | AssertionKeyError key_error | AssertionUnsigned
  | LoginUnreachable string | LoginUnread | LoginEnvelope | LoginEmpty
  | OidcUnreachable string | OidcUnread | OidcEnvelope | OidcEmpty
  | Transport transport_error

definition truncate_excerpt :: "string \<Rightarrow> string" where
  "truncate_excerpt body =
     (let s = trim_space body
      in if s = [] then ''(empty body)''
         else if length s > max_raw_body_excerpt then take max_raw_body_excerpt s @ ''...(truncated)''
         else s)"

text \<open>The \<open>errors\<close> member of a body, as \<open>encoding/json\<close> decodes it into a slice of strings.\<close>

definition error_strings :: "json \<Rightarrow> string list option" where
  "error_strings v =
     (case v of
        JNull \<Rightarrow> Some []
      | JObj ms \<Rightarrow>
          map_option fst (fold (\<lambda>x acc. Option.bind acc (\<lambda>(_, old). dec_slice old x)) (field_values ''errors'' ms) (Some ([], [])))
      | _ \<Rightarrow> None)"

definition parse_openbao_errors :: "string \<Rightarrow> string" where
  "parse_openbao_errors body =
     (case Option.bind (json_parse body) error_strings of
        Some (e # es) \<Rightarrow> truncate_excerpt (join_with ''; '' (e # es))
      | _ \<Rightarrow> truncate_excerpt body)"

definition parse_assertion_key :: "'k rsa_lib \<Rightarrow> string \<Rightarrow> key_error + 'k" where
  "parse_assertion_key lib pem =
     (case rl_pem lib pem of
        None \<Rightarrow> Inl NoPemBlock
      | Some (kind, bytes) \<Rightarrow>
          if kind = ''RSA PRIVATE KEY'' then
            (case rl_pkcs1 lib bytes of None \<Rightarrow> Inl KeyUnparsed | Some k \<Rightarrow> Inr k)
          else if kind = ''PRIVATE KEY'' then
            (case rl_pkcs8 lib bytes of
               None \<Rightarrow> Inl KeyUnparsed | Some OtherKey \<Rightarrow> Inl KeyNotRsa | Some (RsaKey k) \<Rightarrow> Inr k)
          else Inl (UnsupportedBlock kind))"

definition peer_claims :: "string \<Rightarrow> string \<Rightarrow> int \<Rightarrow> int \<Rightarrow> claim_map" where
  "peer_claims iss subject iat expiry =
     [(''exp'', JNum (show_int expiry)), (''iat'', JNum (show_int iat))]
     @ (if iss = [] then [] else [(''iss'', JStr iss)]) @ [(''sub'', JStr subject)]"

definition sign_assertion :: "'k rsa_lib \<Rightarrow> 'k \<Rightarrow> string \<Rightarrow> string \<Rightarrow> int \<Rightarrow> int \<Rightarrow> string option" where
  "sign_assertion lib key iss subject iat expiry =
     (let input = b64url_encode (json_encode (JObj rs256_header)) @ ''.''
                    @ b64url_encode (json_encode (JObj (peer_claims iss subject iat expiry)))
      in case rl_sign lib key (rl_sha256 lib input) of
           None \<Rightarrow> None
         | Some sig \<Rightarrow> Some (input @ ''.'' @ b64url_encode sig))"

definition exchange_assertion ::
    "http_client \<Rightarrow> string \<Rightarrow> string \<Rightarrow> string \<Rightarrow> string \<Rightarrow> (token_error + string) \<times> http_request list" where
  "exchange_assertion client endpoint mount role assertion =
     (let req = \<lparr>rq_method = ''POST'', rq_url = endpoint @ ''/v1/auth/'' @ trim_left_slashes mount @ ''/login'',
                 rq_headers = [(''Content-Type'', ''application/json'')],
                 rq_body = json_encode (JObj [(''jwt'', JStr assertion), (''role'', JStr role)])\<rparr>
      in (case client req of
            Inl e \<Rightarrow> Inl (LoginUnreachable e)
          | Inr (status, body) \<Rightarrow>
              (case map_sum id (take max_response_body_bytes) body of
                 Inl e \<Rightarrow> Inl LoginUnread
               | Inr s \<Rightarrow>
                   if status \<noteq> 200 then
                     Inl (Transport \<lparr>te_op = ''jwt auth login'', te_status = status, te_detail = parse_openbao_errors s\<rparr>)
                   else (case Option.bind (json_parse s) (nested_string ''auth'' ''client_token'') of
                           None \<Rightarrow> Inl LoginEnvelope
                         | Some tok \<Rightarrow> if tok = [] then Inl LoginEmpty else Inr tok)),
          [req]))"

text \<open>The \<open>data\<close> member: token and ttl.\<close>

definition token_data :: "string \<times> int \<Rightarrow> json \<Rightarrow> (string \<times> int) option" where
  "token_data cur v =
     (case v of
        JNull \<Rightarrow> Some cur
      | JObj ms \<Rightarrow>
          (case (string_field (fst cur) ''token'' ms,
                 fold (\<lambda>x acc. Option.bind acc (\<lambda>i. dec_int i x)) (field_values ''ttl'' ms) (Some (snd cur))) of
             (Some t, Some n) \<Rightarrow> Some (t, n) | _ \<Rightarrow> None)
      | _ \<Rightarrow> None)"

definition token_envelope :: "json \<Rightarrow> (string \<times> int) option" where
  "token_envelope v =
     (case v of
        JNull \<Rightarrow> Some ([], 0)
      | JObj ms \<Rightarrow> fold (\<lambda>x acc. Option.bind acc (\<lambda>cur. token_data cur x)) (field_values ''data'' ms) (Some ([], 0))
      | _ \<Rightarrow> None)"

text \<open>A number of seconds as a duration: the product of two 64-bit integers.\<close>

definition seconds :: "int \<Rightarrow> int" where
  "seconds n = sint (word_of_int n * word_of_int 1000000000 :: int64)"

definition read_oidc_token ::
    "http_client \<Rightarrow> int \<Rightarrow> string \<Rightarrow> string \<Rightarrow> string \<Rightarrow> string \<Rightarrow> (token_error + a2a_token) \<times> http_request list" where
  "read_oidc_token client now endpoint role client_token subject =
     (let req = \<lparr>rq_method = ''GET'', rq_url = endpoint @ ''/v1/identity/oidc/token/'' @ trim_left_slashes role,
                 rq_headers = [(''X-Vault-Token'', client_token)], rq_body = []\<rparr>
      in (case client req of
            Inl e \<Rightarrow> Inl (OidcUnreachable e)
          | Inr (status, body) \<Rightarrow>
              (case map_sum id (take max_response_body_bytes) body of
                 Inl e \<Rightarrow> Inl OidcUnread
               | Inr s \<Rightarrow>
                   if status \<noteq> 200 then
                     Inl (Transport \<lparr>te_op = ''read identity/oidc/token/'' @ role, te_status = status,
                                     te_detail = parse_openbao_errors s\<rparr>)
                   else (case Option.bind (json_parse s) token_envelope of
                           None \<Rightarrow> Inl OidcEnvelope
                         | Some (tok, ttl) \<Rightarrow>
                             if tok = [] then Inl OidcEmpty
                             else Inr \<lparr>at_value = tok, at_expires = now + seconds ttl, at_subject = subject\<rparr>)),
          [req]))"

definition assertion_ttl :: "int \<Rightarrow> int" where
  "assertion_ttl ttl = (if ttl \<le> 0 then 5 * 60 * 1000000000 else ttl)"

text \<open>\<open>now\<close> is the time of the signature, \<open>later\<close> that of the answer.\<close>

definition a2a_token_issue ::
    "'k rsa_lib \<Rightarrow> http_client \<Rightarrow> int \<Rightarrow> int \<Rightarrow> issue_request \<Rightarrow> (token_error + a2a_token) \<times> http_request list" where
  "a2a_token_issue lib client now later req =
     (if ir_endpoint req = [] then (Inl NoEndpoint, [])
      else if ir_subject req = [] then (Inl NoSubject, [])
      else if ir_auth_mount req = [] \<or> ir_auth_role req = [] then (Inl NoMountOrRole, [])
      else if ir_oidc_role req = [] then (Inl NoTokenRole, [])
      else (case parse_assertion_key lib (ir_private_key req) of
              Inl e \<Rightarrow> (Inl (AssertionKeyError e), [])
            | Inr key \<Rightarrow>
                (case sign_assertion lib key (ir_issuer req) (ir_subject req)
                        (now div 1000000000) ((now + assertion_ttl (ir_ttl req)) div 1000000000) of
                   None \<Rightarrow> (Inl AssertionUnsigned, [])
                 | Some assertion \<Rightarrow>
                     (let endpoint = trim_right_slashes (ir_endpoint req)
                      in case exchange_assertion client endpoint (ir_auth_mount req) (ir_auth_role req) assertion of
                           (Inl e, qs) \<Rightarrow> (Inl e, qs)
                         | (Inr client_token, qs) \<Rightarrow>
                             apsnd ((@) qs)
                               (read_oidc_token client later endpoint (ir_oidc_role req) client_token (ir_subject req))))))"

text \<open>What the mint service sees of an error: \<open>errors.As\<close> finds a transport error through the wrapping.\<close>

definition issue_error_of :: "(token_error \<Rightarrow> string) \<Rightarrow> token_error \<Rightarrow> issue_error" where
  "issue_error_of txt e =
     (case e of Transport t \<Rightarrow> TransportError (transport_text t) | _ \<Rightarrow> OtherIssueError (txt e))"

subsection \<open>Lemmas\<close>

lemma transport_found:
  "fst (exchange_assertion client endpoint mount role assertion) = Inl (Transport t) \<Longrightarrow> \<exists>b. te_detail t = parse_openbao_errors b"
  "fst (read_oidc_token client now endpoint role tok subject) = Inl (Transport t) \<Longrightarrow> \<exists>b. te_detail t = parse_openbao_errors b"
  by (auto simp: exchange_assertion_def read_oidc_token_def Let_def split: sum.splits prod.splits option.splits if_splits)

lemma excerpt_bounded: "truncate_excerpt body \<noteq> [] \<and> length (truncate_excerpt body) \<le> 214"
  by (simp add: truncate_excerpt_def max_raw_body_excerpt_def Let_def)

lemma openbao_errors_bounded: "parse_openbao_errors body \<noteq> [] \<and> length (parse_openbao_errors body) \<le> 214"
  using excerpt_bounded by (auto simp: parse_openbao_errors_def split: option.splits list.splits)

lemma keys_parsed_alike: "parse_assertion_key lib pem = parse_rsa_key lib pem"
  by (simp add: parse_assertion_key_def parse_rsa_key_def)

lemma sign_assertion_Some:
  "sign_assertion lib key iss subject iat expiry = Some jwt \<Longrightarrow>
     \<exists>sig. jwt = compact rs256_header (peer_claims iss subject iat expiry) sig"
  by (auto simp: sign_assertion_def compact_def Let_def split: option.splits simp del: json_encode.simps)

definition login_request :: "issue_request \<Rightarrow> string \<Rightarrow> http_request" where
  "login_request req assertion =
     \<lparr>rq_method = ''POST'',
      rq_url = trim_right_slashes (ir_endpoint req) @ ''/v1/auth/'' @ trim_left_slashes (ir_auth_mount req) @ ''/login'',
      rq_headers = [(''Content-Type'', ''application/json'')],
      rq_body = json_encode (JObj [(''jwt'', JStr assertion), (''role'', JStr (ir_auth_role req))])\<rparr>"

definition token_request :: "issue_request \<Rightarrow> string \<Rightarrow> http_request" where
  "token_request req client_token =
     \<lparr>rq_method = ''GET'',
      rq_url = trim_right_slashes (ir_endpoint req) @ ''/v1/identity/oidc/token/'' @ trim_left_slashes (ir_oidc_role req),
      rq_headers = [(''X-Vault-Token'', client_token)], rq_body = []\<rparr>"

text \<open>
  A run is refused before any request, or logs in with an assertion for the subject, and then reads
  a token only with the client token of that login.
\<close>

lemma issue_cases:
  obtains (refused) e where "a2a_token_issue lib client now later req = (Inl e, [])" "\<And>t. e \<noteq> Transport t"
  | (login) assertion sig e where "ir_subject req \<noteq> []"
      "assertion = compact rs256_header (peer_claims (ir_issuer req) (ir_subject req) (now div 1000000000)
         ((now + assertion_ttl (ir_ttl req)) div 1000000000)) sig"
      "fst (exchange_assertion client (trim_right_slashes (ir_endpoint req)) (ir_auth_mount req) (ir_auth_role req) assertion) = Inl e"
      "a2a_token_issue lib client now later req = (Inl e, [login_request req assertion])"
  | (read) assertion sig client_token where "ir_subject req \<noteq> []"
      "assertion = compact rs256_header (peer_claims (ir_issuer req) (ir_subject req) (now div 1000000000)
         ((now + assertion_ttl (ir_ttl req)) div 1000000000)) sig"
      "fst (exchange_assertion client (trim_right_slashes (ir_endpoint req)) (ir_auth_mount req) (ir_auth_role req) assertion) = Inr client_token"
      "a2a_token_issue lib client now later req =
         (fst (read_oidc_token client later (trim_right_slashes (ir_endpoint req)) (ir_oidc_role req) client_token (ir_subject req)),
          [login_request req assertion, token_request req client_token])"
proof (cases "ir_endpoint req = [] \<or> ir_subject req = [] \<or> ir_auth_mount req = [] \<or> ir_auth_role req = [] \<or> ir_oidc_role req = []")
  case True
  show thesis
    by (rule refused [of "projl (fst (a2a_token_issue lib client now later req))"])
      (use True in \<open>auto simp: a2a_token_issue_def\<close>)
next
  case args: False
  let ?sign = "\<lambda>key. sign_assertion lib key (ir_issuer req) (ir_subject req) (now div 1000000000)
       ((now + assertion_ttl (ir_ttl req)) div 1000000000)"
  show thesis
  proof (cases "parse_assertion_key lib (ir_private_key req)")
    case (Inl e)
    with args show thesis by (intro refused [of "AssertionKeyError e"]) (auto simp: a2a_token_issue_def)
  next
    case key: (Inr key)
    show thesis
    proof (cases "?sign key")
      case None
      with args key show thesis by (intro refused [of AssertionUnsigned]) (auto simp: a2a_token_issue_def)
    next
      case (Some assertion)
      from sign_assertion_Some [OF this] obtain sig where a: "assertion = compact rs256_header
          (peer_claims (ir_issuer req) (ir_subject req) (now div 1000000000)
            ((now + assertion_ttl (ir_ttl req)) div 1000000000)) sig" ..
      have l: "snd (exchange_assertion client (trim_right_slashes (ir_endpoint req)) (ir_auth_mount req) (ir_auth_role req) assertion)
          = [login_request req assertion]"
        by (simp add: exchange_assertion_def login_request_def Let_def del: json_encode.simps)
      have t: "snd (read_oidc_token client later (trim_right_slashes (ir_endpoint req)) (ir_oidc_role req) ct (ir_subject req))
          = [token_request req ct]" for ct
        by (simp add: read_oidc_token_def token_request_def Let_def)
      obtain r qs where x: "exchange_assertion client (trim_right_slashes (ir_endpoint req)) (ir_auth_mount req) (ir_auth_role req) assertion
          = (r, qs)" by fastforce
      with l have qs: "qs = [login_request req assertion]" by simp
      show thesis
      proof (cases r)
        case (Inl e)
        show thesis
          by (rule login [OF _ a]) (use args key Some x qs Inl in \<open>auto simp: a2a_token_issue_def Let_def\<close>)
      next
        case (Inr ct)
        obtain r' where "read_oidc_token client later (trim_right_slashes (ir_endpoint req)) (ir_oidc_role req) ct (ir_subject req)
            = (r', [token_request req ct])" using t [of ct] by (metis prod.collapse)
        then show thesis
          by (intro read [OF _ a]) (use args key Some x qs Inr in \<open>auto simp: a2a_token_issue_def Let_def\<close>)
      qed
    qed
  qed
qed

subsection \<open>Properties\<close>

text \<open>What an OpenBao server, or whatever answers in its place, can put into an error is bounded:
  the detail of a transport error is never empty and never longer than 214 bytes, whatever the body.\<close>
theorem transport_detail_bounded:
  assumes "fst (a2a_token_issue lib client now later req) = Inl (Transport t)"
  shows "te_detail t \<noteq> [] \<and> length (te_detail t) \<le> 214"
proof (cases rule: issue_cases [of lib client now later req])
  case (refused e)
  with assms show ?thesis by auto
next
  case (login assertion sig e)
  then have "fst (exchange_assertion client (trim_right_slashes (ir_endpoint req)) (ir_auth_mount req) (ir_auth_role req) assertion)
      = Inl (Transport t)" using assms by simp
  from transport_found(1) [OF this] show ?thesis using openbao_errors_bounded by metis
next
  case (read assertion sig ct)
  then have "fst (read_oidc_token client later (trim_right_slashes (ir_endpoint req)) (ir_oidc_role req) ct (ir_subject req))
      = Inl (Transport t)" using assms by simp
  from transport_found(2) [OF this] show ?thesis using openbao_errors_bounded by metis
qed

subsection \<open>Witnesses\<close>

definition sample_issue_request :: issue_request where
  "sample_issue_request = \<lparr>ir_endpoint = ''http://o'', ir_private_key = [], ir_issuer = [], ir_subject = ''bot'',
     ir_ttl = 0, ir_auth_mount = ''m'', ir_auth_role = ''a'', ir_oidc_role = ''o''\<rparr>"

theorem transport_detail_bounded_witness:
  "\<exists>t. fst (a2a_token_issue sample_lib (\<lambda>_. Inr (403, Inr ''no'')) 0 0 sample_issue_request) = Inl (Transport t)
     \<and> te_detail t \<noteq> [] \<and> length (te_detail t) \<le> 214"
proof -
  have "\<exists>t. fst (a2a_token_issue sample_lib (\<lambda>_. Inr (403, Inr ''no'')) 0 0 sample_issue_request) = Inl (Transport t)"
    by (simp add: a2a_token_issue_def sample_issue_request_def parse_assertion_key_def sample_lib_def sign_assertion_def
        Let_def exchange_assertion_def del: json_encode.simps)
  then obtain t where "fst (a2a_token_issue sample_lib (\<lambda>_. Inr (403, Inr ''no'')) 0 0 sample_issue_request) = Inl (Transport t)" ..
  with transport_detail_bounded [OF this] show ?thesis by blast
qed

end
