(* ===== verification/MintCommand.thy ===== *)
theory MintCommand
  imports Flags Broker A2aToken AssertionProvider
begin

text \<open>
  The commands \<open>gatekeeper mint\<close> and \<open>gatekeeper mint-a2a\<close> of \<open>cmd/gatekeeper/main.go\<close>, with
  \<open>assertion_wiring.go\<close> and \<open>socketFor\<close> of \<open>identity_cmd.go\<close>: they read the configuration, build
  broker, provider chain and service from it and run the service. What such a process is given is
  \<open>mint_world\<close>. A run returns how it ends and the effects of the service; usage text and warnings
  on standard error are left out.
\<close>

record 'k mint_world =
  mw_readers :: flag_readers
  mw_config :: config_yaml
  mw_yaml :: yaml_reader
  mw_host :: host
  mw_net :: net
  mw_crypto :: crypto
  mw_broker_client :: "nat \<Rightarrow> http_client"
  mw_broker_host :: "nat \<Rightarrow> host"
  mw_broker_text :: "broker_error \<Rightarrow> string"
  mw_lib :: "'k rsa_lib"
  mw_github :: http_client
  mw_github_text :: "github_error \<Rightarrow> string"
  mw_openbao :: http_client
  mw_token_text :: "token_error \<Rightarrow> string"
  mw_sign_at :: int
  mw_answer_at :: int
  mw_format_time :: "int \<Rightarrow> string"

datatype repo_error = RepoEmpty | RepoShape string | OwnerEmpty string | RepoNameEmpty string

datatype mint_failure =
    BadFlags flag_error | RoleRequired | AudienceRequired | BadConfig config_error | NoRolesSection
  | RoleUngranted string | MinGradeUnknown string string | BadRepo string repo_error
  | MintRefused mint_error | A2aNotConfigured | A2aRefused a2a_error

datatype wiring_error = IssuerWithoutIss nat | ProviderRefused assertion_config_error

datatype startup_failure = BrokerUnusable broker_error | WiringRefused wiring_error | ChainRefused chain_error

text \<open>How a process ends: exit code 1, exit code 2, or with this on its standard output.\<close>

datatype 'a ending = Exit1 mint_failure | Exit2 startup_failure | Printed 'a

subsection \<open>Repository names\<close>

definition parse_repo_name :: "string \<Rightarrow> repo_error + string" where
  "parse_repo_name s =
     (if s = [] then Inl RepoEmpty
      else (case index_byte s CHR ''/'' of
              None \<Rightarrow> Inr s
            | Some idx \<Rightarrow>
                if length (filter (\<lambda>c. c = CHR ''/'') s) \<noteq> 1 then Inl (RepoShape s)
                else (let owner = take idx s; name = drop (idx + 1) s
                      in if owner = [] then Inl (OwnerEmpty s)
                         else if name = [] then Inl (RepoNameEmpty s)
                         else Inr name)))"

definition requested_repos :: "string \<Rightarrow> mint_failure + string list" where
  "requested_repos repo =
     (if repo = [] then Inr []
      else (case parse_repo_name repo of Inl e \<Rightarrow> Inl (BadRepo repo e) | Inr bare \<Rightarrow> Inr [bare]))"

subsection \<open>Roles\<close>

definition add_configured_role :: "string \<times> role_config \<Rightarrow> role_registry \<Rightarrow> role_registry" where
  "add_configured_role nr r =
     (if rc_permissions (snd nr) = [] then r else registry_add r (fst nr) (map_of (rc_permissions (snd nr))))"

definition configured_registry :: "config \<Rightarrow> role_registry" where
  "configured_registry cfg = fold add_configured_role (cfg_roles cfg) new_registry"

definition configured_binding :: "role_config \<Rightarrow> role_binding" where
  "configured_binding rc =
     \<lparr>rb_app_id_path = rc_app_id_path rc, rb_installation_id_path = rc_installation_id_path rc,
      rb_private_key_path = rc_private_key_path rc, rb_entitled = rc_entitled rc, rb_min_grade = rc_min_grade rc,
      rb_app_slug = rc_app_slug rc, rb_app_slug_path = rc_app_slug_path rc\<rparr>"

definition configured_bindings :: "config \<Rightarrow> (string \<rightharpoonup> role_binding)" where
  "configured_bindings cfg = (\<lambda>name. map_option configured_binding (map_of (cfg_roles cfg) name))"

fun check_roles :: "(string \<times> role_config) list \<Rightarrow> mint_failure option" where
  "check_roles [] = None"
| "check_roles ((name, rc) # rest) =
     (if rc_permissions rc = [] \<and> \<not> is_reference name then Some (RoleUngranted name)
      else if \<not> valid_min_grade (rc_min_grade rc) then Some (MinGradeUnknown name (rc_min_grade rc))
      else check_roles rest)"

subsection \<open>Attestation\<close>

definition default_socket_path :: string where "default_socket_path = ''/run/clagentic-gatekeeper/identity.sock''"

definition socket_for :: "string \<Rightarrow> config option \<Rightarrow> string" where
  "socket_for flag cfg =
     (if flag \<noteq> [] then flag
      else (case cfg of
              Some c \<Rightarrow> if idc_socket_path (cfg_identity c) \<noteq> [] then idc_socket_path (cfg_identity c) else default_socket_path
            | None \<Rightarrow> default_socket_path))"

fun first_without_iss :: "nat \<Rightarrow> assertion_issuer_config list \<Rightarrow> nat option" where
  "first_without_iss i [] = None"
| "first_without_iss i (is # rest) = (if aic_iss is = [] then Some i else first_without_iss (Suc i) rest)"

definition local_iss :: "config \<Rightarrow> string" where
  "local_iss cfg =
     (if idc_issuer (cfg_identity cfg) = [] then ''unix://'' @ socket_for [] (Some cfg)
      else idc_issuer (cfg_identity cfg))"

definition build_assertion_provider ::
    "net \<Rightarrow> config \<Rightarrow> wiring_error + (string \<rightharpoonup> locator) option" where
  "build_assertion_provider n cfg =
     (case atc_assertion (cfg_attestation cfg) of
        None \<Rightarrow> Inr None
      | Some listed \<Rightarrow>
          (case first_without_iss 0 listed of
             Some i \<Rightarrow> Inl (IssuerWithoutIss i)
           | None \<Rightarrow>
               (let issuers = map (\<lambda>c. \<lparr>ai_iss = aic_iss c, ai_jwks = aic_jwks c\<rparr>) listed;
                    all = (if local_iss cfg \<in> set (map aic_iss listed) then issuers
                           else issuers @ [\<lparr>ai_iss = local_iss cfg, ai_jwks = idc_jwks_path (cfg_identity cfg)\<rparr>])
                in case new_assertion_provider n all of
                     Inl e \<Rightarrow> Inl (ProviderRefused e)
                   | Inr m \<Rightarrow> Inr (Some m))))"

text \<open>The per-spawn resolver: the first sidecar, behind the assertion provider when there is one.\<close>

definition per_spawn_providers ::
    "yaml_reader \<Rightarrow> provider option \<Rightarrow> sidecar_config list \<Rightarrow> chain_error + provider list option" where
  "per_spawn_providers yaml assertion sidecars =
     (case sidecars of
        [] \<Rightarrow> Inr None
      | c # _ \<Rightarrow>
          (case new_sidecar_provider yaml c of
             Inl e \<Rightarrow> Inl e
           | Inr None \<Rightarrow> Inr None
           | Inr (Some p) \<Rightarrow> Inr (Some (case assertion of None \<Rightarrow> [p] | Some a \<Rightarrow> [a, p]))))"

definition mint_domain :: "host \<Rightarrow> sidecar_config list \<Rightarrow> domain" where
  "mint_domain h sidecars =
     (case sidecars of
        [] \<Rightarrow> domain_local
      | c # _ \<Rightarrow>
          if sc_session_env c \<noteq> [] \<and> getenv h (sc_session_env c) \<noteq> [] then domain_local_subagent else domain_local)"

definition mint_resolver ::
    "'k mint_world \<Rightarrow> config \<Rightarrow> (string \<rightharpoonup> locator) option \<Rightarrow> chain_error + domain_resolver" where
  "mint_resolver w cfg issuers =
     (let sidecars = resolve_sidecars (cfg_attestation cfg);
          assertion = map_option (assertion_provider (mw_crypto w) (mw_net w)) issuers
      in case new_chain (mw_yaml w) \<lparr>ch_assertion = assertion, ch_configured = atc_configured (cfg_attestation cfg),
                ch_sidecars = sidecars, ch_omit_os_user = \<not> os_user_allowed (cfg_attestation cfg), ch_warn = True\<rparr> of
           Inl e \<Rightarrow> Inl e
         | Inr chain \<Rightarrow>
             (case per_spawn_providers (mw_yaml w) assertion sidecars of
                Inl e \<Rightarrow> Inl e
              | Inr per_spawn \<Rightarrow> Inr \<lparr>dr_chain = chain, dr_per_spawn = per_spawn\<rparr>))"

subsection \<open>The mint command\<close>

definition minutes :: "int \<Rightarrow> int" where
  "minutes n = sint (word_of_int n * word_of_int (60 * 1000000000) :: int64)"

definition secrets :: "'k mint_world \<Rightarrow> secret_source \<Rightarrow> broker" where
  "secrets w src n path = map_sum (mw_broker_text w) id (src n path)"

definition mint_service_of :: "'k mint_world \<Rightarrow> config \<Rightarrow> secret_source \<Rightarrow> domain_resolver \<Rightarrow> mint_service" where
  "mint_service_of w cfg src d =
     \<lparr>ms_api_base = gh_api_base (cfg_github cfg), ms_ttl = minutes (cfg_ttl_minutes cfg),
      ms_roles = configured_registry cfg, ms_broker = secrets w src, ms_bindings = configured_bindings cfg,
      ms_attestation = None, ms_domain = Some d, ms_renderer = None, ms_mint = None, ms_audit = True\<rparr>"

definition app_exchange :: "'k mint_world \<Rightarrow> app_client" where
  "app_exchange w req = map_sum (mw_github_text w) id (fst (github_mint (mw_lib w) (mw_github w) (mw_sign_at w) req))"

text \<open>The requests GitHub sees of a run.\<close>

definition github_requests :: "'k mint_world \<Rightarrow> effect list \<Rightarrow> http_request list" where
  "github_requests w es =
     concat (map (\<lambda>e. case e of TokenRequested req \<Rightarrow> snd (github_mint (mw_lib w) (mw_github w) (mw_sign_at w) req)
                            | _ \<Rightarrow> []) es)"

definition mint_identity_json :: "identity \<Rightarrow> json" where
  "mint_identity_json i =
     JObj ([(''subject'', JStr (id_subject i)), (''source'', JStr (id_source i))]
       @ (if id_grade i = [] then [] else [(''grade'', JStr (id_grade i))]))"

definition mint_output :: "'k mint_world \<Rightarrow> bool \<Rightarrow> bool \<Rightarrow> gh_token \<Rightarrow> identity \<Rightarrow> string" where
  "mint_output w as_json asserting tok i =
     (if as_json then
        json_encode (JObj ([(''token'', JStr (tok_value tok)), (''expires_at'', JStr (mw_format_time w (tok_expires tok)))]
          @ (if tok_app_slug tok = [] then [] else [(''app_slug'', JStr (tok_app_slug tok))])
          @ (if asserting then [(''identity'', mint_identity_json i)] else []))) @ [CHR 0x0A]
      else tok_value tok @ [CHR 0x0A])"

definition mint_flags :: flag_set where
  "mint_flags = (strings_set [''role'', ''repo'', ''config''])(''json'' \<mapsto> BoolFlag)"

definition mint_run ::
    "'k mint_world \<Rightarrow> config \<Rightarrow> secret_source \<Rightarrow> domain_resolver \<Rightarrow> bool \<Rightarrow> flag_values \<Rightarrow> string ending \<times> effect list" where
  "mint_run w cfg src d asserting vals =
     (case requested_repos (string_value vals ''repo'' []) of
        Inl e \<Rightarrow> (Exit1 e, [])
      | Inr repos \<Rightarrow>
          (case mint_attributed (app_exchange w) (mint_service_of w cfg src d) (mw_host w)
                  (mint_domain (mw_host w) (resolve_sidecars (cfg_attestation cfg))) (string_value vals ''role'' []) repos of
             (Inl e, es) \<Rightarrow> (Exit1 (MintRefused e), es)
           | (Inr (tok, i), es) \<Rightarrow> (Printed (mint_output w (bool_value vals ''json'') asserting tok i), es)))"

definition run_mint :: "'k mint_world \<Rightarrow> string list \<Rightarrow> string ending \<times> effect list" where
  "run_mint w args =
     (case parse_flags (mw_readers w) mint_flags args of
        Inl e \<Rightarrow> (Exit1 (BadFlags e), [])
      | Inr (vals, _) \<Rightarrow>
          if string_value vals ''role'' [] = [] then (Exit1 RoleRequired, [])
          else (case load_config (mw_config w) (mw_host w) (string_value vals ''config'' ''config.yaml'') of
                  Inl e \<Rightarrow> (Exit1 (BadConfig e), [])
                | Inr cfg \<Rightarrow>
                    if cfg_roles cfg = [] then (Exit1 NoRolesSection, [])
                    else (case check_roles (cfg_roles cfg) of
                            Some e \<Rightarrow> (Exit1 e, [])
                          | None \<Rightarrow>
                              (case new_broker (mw_broker_client w) (mw_broker_host w) (cfg_broker cfg) of
                                 Inl e \<Rightarrow> (Exit2 (BrokerUnusable e), [])
                               | Inr src \<Rightarrow>
                                   (case build_assertion_provider (mw_net w) cfg of
                                      Inl e \<Rightarrow> (Exit2 (WiringRefused e), [])
                                    | Inr issuers \<Rightarrow>
                                        (case mint_resolver w cfg issuers of
                                           Inl e \<Rightarrow> (Exit2 (ChainRefused e), [])
                                         | Inr d \<Rightarrow> mint_run w cfg src d (issuers \<noteq> None) vals))))))"

subsection \<open>The A2A mint command\<close>

definition a2a_resolver :: "'k mint_world \<Rightarrow> config \<Rightarrow> chain_error + domain_resolver" where
  "a2a_resolver w cfg =
     (let sidecars = resolve_sidecars (cfg_attestation cfg)
      in case new_chain (mw_yaml w) \<lparr>ch_assertion = None, ch_configured = atc_configured (cfg_attestation cfg),
                ch_sidecars = sidecars, ch_omit_os_user = False, ch_warn = False\<rparr> of
           Inl e \<Rightarrow> Inl e
         | Inr chain \<Rightarrow>
             (case per_spawn_providers (mw_yaml w) None sidecars of
                Inl e \<Rightarrow> Inl e
              | Inr per_spawn \<Rightarrow> Inr \<lparr>dr_chain = chain, dr_per_spawn = per_spawn\<rparr>))"

definition a2a_service_of :: "'k mint_world \<Rightarrow> config \<Rightarrow> secret_source \<Rightarrow> domain_resolver \<Rightarrow> a2a_service" where
  "a2a_service_of w cfg src d =
     (let p = cfg_a2a_provider cfg
      in \<lparr>as_domain = Some d, as_policy = Some (policy_from_entries ae_role ae_audiences (cfg_a2a_mapping cfg)),
          as_broker = Some (secrets w src 0), as_key_path = ap_key_path p, as_issuer = ap_issuer p,
          as_ttl = seconds (ap_ttl p), as_endpoint = ap_endpoint p, as_auth_mount = ap_auth_mount p,
          as_auth_roles = (\<lambda>r. map_option ar_auth_role (map_of (ap_roles p) r)),
          as_oidc_roles = (\<lambda>r. map_option ar_oidc_role (map_of (ap_roles p) r)),
          as_audit = True, as_issue = None\<rparr>)"

definition a2a_exchange :: "'k mint_world \<Rightarrow> issue_request \<Rightarrow> issue_error + a2a_token" where
  "a2a_exchange w req =
     map_sum (issue_error_of (mw_token_text w)) id
       (fst (a2a_token_issue (mw_lib w) (mw_openbao w) (mw_sign_at w) (mw_answer_at w) req))"

text \<open>The requests OpenBao sees of a run, those of the secret broker apart.\<close>

definition openbao_requests :: "'k mint_world \<Rightarrow> a2a_effect list \<Rightarrow> http_request list" where
  "openbao_requests w es =
     concat (map (\<lambda>e. case e of Issued req \<Rightarrow>
         snd (a2a_token_issue (mw_lib w) (mw_openbao w) (mw_sign_at w) (mw_answer_at w) req) | _ \<Rightarrow> []) es)"

definition a2a_output :: "'k mint_world \<Rightarrow> bool \<Rightarrow> a2a_token \<Rightarrow> string" where
  "a2a_output w as_json tok =
     (if as_json then
        json_encode (JObj ([(''token'', JStr (at_value tok)), (''expires_at'', JStr (mw_format_time w (at_expires tok)))]
          @ (if at_subject tok = [] then [] else [(''subject'', JStr (at_subject tok))]))) @ [CHR 0x0A]
      else at_value tok @ [CHR 0x0A])"

definition a2a_flags :: flag_set where
  "a2a_flags = (strings_set [''audience'', ''config''])(''json'' \<mapsto> BoolFlag)"

definition run_mint_a2a :: "'k mint_world \<Rightarrow> string list \<Rightarrow> string ending \<times> a2a_effect list" where
  "run_mint_a2a w args =
     (case parse_flags (mw_readers w) a2a_flags args of
        Inl e \<Rightarrow> (Exit1 (BadFlags e), [])
      | Inr (vals, _) \<Rightarrow>
          if string_value vals ''audience'' [] = [] then (Exit1 AudienceRequired, [])
          else (case load_config (mw_config w) (mw_host w) (string_value vals ''config'' ''config.yaml'') of
                  Inl e \<Rightarrow> (Exit1 (BadConfig e), [])
                | Inr cfg \<Rightarrow>
                    if \<not> a2a_enabled (cfg_a2a_provider cfg) then (Exit1 A2aNotConfigured, [])
                    else (case new_broker (mw_broker_client w) (mw_broker_host w) (cfg_broker cfg) of
                            Inl e \<Rightarrow> (Exit2 (BrokerUnusable e), [])
                          | Inr src \<Rightarrow>
                              (case a2a_resolver w cfg of
                                 Inl e \<Rightarrow> (Exit2 (ChainRefused e), [])
                               | Inr d \<Rightarrow>
                                   (case a2a_mint (a2a_exchange w) (a2a_service_of w cfg src d) (mw_host w)
                                           (string_value vals ''audience'' []) of
                                      (Inl e, es) \<Rightarrow> (Exit1 (A2aRefused e), es)
                                    | (Inr tok, es) \<Rightarrow> (Printed (a2a_output w (bool_value vals ''json'') tok), es))))))"

subsection \<open>Lemmas\<close>

text \<open>A decoded map of roles has no name twice.\<close>

definition decodes_maps :: "config_yaml \<Rightarrow> bool" where
  "decodes_maps y \<longleftrightarrow> (\<forall>data cfg. cy_decode y data = Some cfg \<longrightarrow> distinct (map fst (cfg_roles cfg)))"

lemma loaded_roles_distinct:
  assumes "decodes_maps y" and "load_config y h path = Inr cfg"
  shows "distinct (map fst (cfg_roles cfg))"
proof -
  obtain data where d: "h_read h path = Inr data" using assms(2) by (auto simp: load_config_def split: sum.splits)
  with assms(2) obtain cfg0 where c: "cy_decode y data = Some cfg0" by (auto simp: load_config_def split: option.splits)
  from d c assms(2) have "cfg_roles cfg = cfg_roles cfg0"
    by (auto simp: load_config_def apply_defaults_def Let_def split: option.splits if_splits)
  with assms(1) c show ?thesis by (auto simp: decodes_maps_def)
qed

lemma index_of_separator:
  assumes "c \<notin> set a"
  shows "index_byte (a @ c # b) c = Some (length a)"
  using assms by (induction a) auto

text \<open>A repository name is what follows the only slash, or the whole argument.\<close>

lemma parse_repo_name_Inr:
  "parse_repo_name s = Inr name \<longleftrightarrow>
     name \<noteq> [] \<and> CHR ''/'' \<notin> set name
     \<and> (s = name \<or> (\<exists>owner. owner \<noteq> [] \<and> CHR ''/'' \<notin> set owner \<and> s = owner @ CHR ''/'' # name))"
  (is "_ = ?r")
proof
  assume l: "parse_repo_name s = Inr name"
  show ?r
  proof (cases "index_byte s CHR ''/''")
    case None
    moreover from None have "CHR ''/'' \<notin> set s" by (simp add: index_byte_None)
    ultimately show ?thesis using l by (auto simp: parse_repo_name_def split: if_splits)
  next
    case (Some i)
    note i = index_byte_Some [OF Some]
    obtain a b where ab: "a = take i s" "b = drop (i + 1) s" by simp
    with i have s: "s = a @ CHR ''/'' # b" "CHR ''/'' \<notin> set a" "length a = i"
      by (metis Suc_eq_plus1 id_take_nth_drop, simp, simp)
    from l Some ab have n: "a \<noteq> []" "b \<noteq> []" "name = b"
      and one: "length (filter (\<lambda>c. c = CHR ''/'') s) = 1"
      by (auto simp: parse_repo_name_def Let_def split: if_splits)
    have "CHR ''/'' \<notin> set b"
      using one unfolding s(1) by (auto simp: filter_empty_conv)
    with n s(1,2) show ?thesis by blast
  qed
next
  assume r: ?r
  then consider "s = name" "name \<noteq> []" "CHR ''/'' \<notin> set name"
    | owner where "owner \<noteq> []" "CHR ''/'' \<notin> set owner" "s = owner @ CHR ''/'' # name" "name \<noteq> []" "CHR ''/'' \<notin> set name"
    by blast
  then show "parse_repo_name s = Inr name"
  proof cases
    case 1
    then have "index_byte s CHR ''/'' = None" by (simp add: index_byte_None)
    with 1 show ?thesis by (simp add: parse_repo_name_def)
  next
    case 2
    then have "index_byte s CHR ''/'' = Some (length owner)" by (simp add: index_of_separator)
    moreover have "filter (\<lambda>c. c = CHR ''/'') owner = []" "filter (\<lambda>c. c = CHR ''/'') name = []"
      using 2 by (auto simp: filter_empty_conv)
    ultimately show ?thesis using 2 by (simp add: parse_repo_name_def Let_def)
  qed
qed

text \<open>What a configuration grants a role it binds.\<close>

definition granted :: "config \<Rightarrow> string \<Rightarrow> perms option" where
  "granted cfg name =
     (case map_of (cfg_roles cfg) name of
        None \<Rightarrow> None
      | Some rc \<Rightarrow> if rc_permissions rc = [] then reference name else Some (map_of (rc_permissions rc)))"

lemma add_roles_lookup:
  "distinct (map fst roles) \<Longrightarrow>
   fold add_configured_role roles r name =
     (case map_of roles name of
        None \<Rightarrow> r name
      | Some rc \<Rightarrow> if rc_permissions rc = [] then r name else Some (map_of (rc_permissions rc)))"
proof (induction roles arbitrary: r)
  case (Cons x roles)
  obtain n rc where x: "x = (n, rc)" by (cases x)
  have "map_of roles name = None" if "n = name"
    using Cons.prems x that by (auto simp: map_of_eq_None_iff)
  with Cons x show ?case
    by (auto simp: add_configured_role_def registry_add_def split: option.splits)
qed simp

lemma check_roles_None:
  "check_roles roles = None \<Longrightarrow> (name, rc) \<in> set roles \<Longrightarrow>
     (rc_permissions rc \<noteq> [] \<or> is_reference name) \<and> valid_min_grade (rc_min_grade rc)"
  by (induction roles rule: check_roles.induct) (auto split: if_splits)

text \<open>A role that is bound and passed the check is granted some permission, and finitely many.\<close>

lemma reference_finite: "reference name = Some ps \<Longrightarrow> finite (dom ps) \<and> ps \<noteq> Map.empty"
  by (auto simp: reference_def split: if_splits dest: fun_cong [where x = "''contents''"])

lemma granted_resolved:
  assumes "distinct (map fst (cfg_roles cfg))" and "check_roles (cfg_roles cfg) = None"
    and "map_of (cfg_roles cfg) name = Some rc" and "configured_registry cfg name = Some ps"
  shows "granted cfg name = Some ps \<and> finite (dom ps) \<and> ps \<noteq> Map.empty"
proof -
  have l: "configured_registry cfg name = granted cfg name"
    using assms by (simp add: configured_registry_def granted_def add_roles_lookup new_registry_def)
  show ?thesis
  proof (cases "rc_permissions rc")
    case Nil
    with l assms reference_finite [of name ps] show ?thesis by (simp add: granted_def)
  next
    case (Cons x xs)
    then have "ps = map_of (x # xs)" using l assms by (simp add: granted_def)
    moreover have "map_of (x # xs) (fst x) \<noteq> None" by (cases x) simp
    ultimately show ?thesis using l assms by (auto simp: finite_dom_map_of)
  qed
qed

lemma requested_with_credentials:
  "TokenRequested req \<in> set (snd (mint_with_credentials dflt s rn ro b repos)) \<Longrightarrow>
     app_slug_configured b \<and> ms_broker s 2 (rb_app_slug_path b) = Inr (rb_app_slug b) \<and> mr_repos req = repos
     \<and> mr_api_base req = ms_api_base s
     \<and> mr_permissions req = (case ms_renderer s of None \<Rightarrow> github_render | Some r \<Rightarrow> r) ro"
  by (auto simp: mint_with_credentials_def run_bind_snd broker_get_def request_token_def Let_def
      split: if_splits sum.splits)

lemma mint_requested:
  assumes "TokenRequested req \<in> set (snd (mint_for_domain dflt s h md rn repos))" and "ms_renderer s = None"
  obtains i b ro where "acting s h md rn i b ro" "admits b rn i" "app_slug_configured b"
    "ms_roles s rn = Some (mr_permissions req)" "mr_repos req = repos"
proof (cases rule: mint_run_cases [of dflt s h md rn repos])
  case (refused err ws)
  with assms show ?thesis by auto
next
  case (gated i b ro ws)
  have "TokenRequested req \<notin> set (snd (gate_identity s rn b i))"
    using gate_reads_nothing [of "TokenRequested req" s rn b i] by (auto simp: reads_secret_def)
  with assms(1) have "fst (gate_identity s rn b i) = Inr ()"
    and e: "TokenRequested req \<in> set (snd (mint_with_credentials dflt s rn ro b repos))"
    unfolding gated(2) by (auto simp: run_bind_snd split: sum.splits)
  moreover have "ms_roles s rn = Some (github_render ro)"
    using github.resolved_render gated(1) by (auto simp: acting_def)
  ultimately show ?thesis
    using that [OF gated(1)] requested_with_credentials [OF e] assms(2) by (simp add: gate_admits)
qed

lemma run_mint_effects:
  assumes "e \<in> set (snd (run_mint w args))"
  obtains vals left cfg src issuers d repos where
    "parse_flags (mw_readers w) mint_flags args = Inr (vals, left)"
    "load_config (mw_config w) (mw_host w) (string_value vals ''config'' ''config.yaml'') = Inr cfg"
    "check_roles (cfg_roles cfg) = None"
    "new_broker (mw_broker_client w) (mw_broker_host w) (cfg_broker cfg) = Inr src"
    "build_assertion_provider (mw_net w) cfg = Inr issuers" "mint_resolver w cfg issuers = Inr d"
    "requested_repos (string_value vals ''repo'' []) = Inr repos"
    "e \<in> set (snd (mint_for_domain (app_exchange w) (mint_service_of w cfg src d) (mw_host w)
       (mint_domain (mw_host w) (resolve_sidecars (cfg_attestation cfg))) (string_value vals ''role'' []) repos))"
proof -
  from assms obtain vals left where f: "parse_flags (mw_readers w) mint_flags args = Inr (vals, left)"
    by (auto simp: run_mint_def split: sum.splits)
  with assms obtain cfg where c: "load_config (mw_config w) (mw_host w) (string_value vals ''config'' ''config.yaml'') = Inr cfg"
    by (auto simp: run_mint_def split: sum.splits if_splits)
  with f assms have r: "check_roles (cfg_roles cfg) = None"
    by (auto simp: run_mint_def split: option.splits if_splits)
  with f c assms obtain src where b: "new_broker (mw_broker_client w) (mw_broker_host w) (cfg_broker cfg) = Inr src"
    by (auto simp: run_mint_def split: sum.splits if_splits)
  with f c r assms obtain issuers where i: "build_assertion_provider (mw_net w) cfg = Inr issuers"
    by (auto simp: run_mint_def split: sum.splits if_splits)
  with f c r b assms obtain d where d: "mint_resolver w cfg issuers = Inr d"
    by (auto simp: run_mint_def split: sum.splits if_splits)
  with f c r b i assms have m: "e \<in> set (snd (mint_run w cfg src d (issuers \<noteq> None) vals))"
    by (auto simp: run_mint_def split: if_splits)
  then obtain repos where q: "requested_repos (string_value vals ''repo'' []) = Inr repos"
    by (auto simp: mint_run_def split: sum.splits)
  with m show ?thesis
    by (intro that [OF f c r b i d q]) (auto simp: mint_run_def mint_attributed_def split: sum.splits prod.splits)
qed

text \<open>The requests of the command, each with the mint request it exchanges.\<close>

lemma github_request_of:
  assumes "q \<in> set (github_requests w es)"
  obtains req where "TokenRequested req \<in> set es"
    "rq_body q = json_encode (access_token_request (mr_permissions req) (mr_repos req))"
proof -
  from assms obtain req where r: "TokenRequested req \<in> set es"
    and q: "q \<in> set (snd (github_mint (mw_lib w) (mw_github w) (mw_sign_at w) req))"
    by (auto simp: github_requests_def split: effect.splits)
  from q obtain app_id inst key jwt where
    "snd (exchange_token (mw_lib w) (mw_github w) (mr_api_base req) inst jwt (mr_permissions req) (mr_repos req)) = [q]"
    by (rule github_mint_request)
  with r show ?thesis unfolding exchange_requests by (intro that) (simp_all del: json_encode.simps)
qed

end
