(* ===== verification/MintSafety.thy ===== *)
theory MintSafety
  imports MintCommand
begin

text \<open>
  What the two mint commands promise end to end: which identities they act on, what the requests
  they make carry. A sample configuration and world show that the runs spoken of exist.
\<close>

subsection \<open>Who vouches for an identity\<close>

definition vouched :: "'k mint_world \<Rightarrow> config \<Rightarrow> (string \<rightharpoonup> locator) option \<Rightarrow> identity \<Rightarrow> bool" where
  "vouched w cfg issuers i \<longleftrightarrow>
     (\<exists>m. issuers = Some m \<and> assertion_resolve (mw_crypto w) (mw_net w) m (mw_host w) = Inr i)
     \<or> (id_source i = ''configured'' \<and> cc_type (atc_configured (cfg_attestation cfg)) \<noteq> [])
     \<or> (\<exists>c \<in> set (resolve_sidecars (cfg_attestation cfg)).
          sidecar_enabled c \<and> sidecar_resolve (mw_yaml w) c (mw_host w) = Inr i)
     \<or> (id_source i = ''builtin'' \<and> os_user_allowed (cfg_attestation cfg))"

definition vouched_per_spawn :: "'k mint_world \<Rightarrow> config \<Rightarrow> (string \<rightharpoonup> locator) option \<Rightarrow> identity \<Rightarrow> bool" where
  "vouched_per_spawn w cfg issuers i \<longleftrightarrow>
     (\<exists>m. issuers = Some m \<and> assertion_resolve (mw_crypto w) (mw_net w) m (mw_host w) = Inr i)
     \<or> (\<exists>c cs. resolve_sidecars (cfg_attestation cfg) = c # cs
          \<and> sidecar_enabled c \<and> sidecar_resolve (mw_yaml w) c (mw_host w) = Inr i)"

lemma resolve_member: "fst (resolve ps h) = Inr i \<Longrightarrow> \<exists>p \<in> set ps. fst (p h) = Inr i"
  by (induction ps) (auto split: if_splits)

lemma configured_source:
  "new_configured_provider cfg = Inr (Some p) \<Longrightarrow> fst (p h) = Inr i \<Longrightarrow> id_source i = ''configured'' \<and> cc_type cfg \<noteq> []"
  by (auto simp: new_configured_provider_def env_provider_def file_provider_def plain_identity_def Let_def
      split: if_splits sum.splits)

lemma builtin_source: "fst (builtin_provider h) = Inr i \<Longrightarrow> id_source i = ''builtin''"
  by (auto simp: builtin_provider_def plain_identity_def split: option.splits if_splits)

lemma chain_member:
  assumes "new_chain yaml cfg = Inr ps" and "p \<in> set ps" and "fst (p h) = Inr i"
  obtains "ch_assertion cfg = Some p"
  | "id_source i = ''configured''" "cc_type (ch_configured cfg) \<noteq> []"
  | c where "c \<in> set (ch_sidecars cfg)" "sidecar_enabled c" "sidecar_resolve yaml c h = Inr i"
  | "id_source i = ''builtin''" "\<not> ch_omit_os_user cfg"
proof -
  from assms(1) obtain conf where conf: "new_configured_provider (ch_configured cfg) = Inr conf"
    by (auto simp: new_chain_def Let_def split: sum.splits)
  from assms(1,2) conf
  consider "ch_assertion cfg = Some p" | "conf = Some p"
    | c where "c \<in> set (ch_sidecars cfg)" "sidecar_enabled c" "p = sidecar_provider yaml c"
    | "\<not> ch_omit_os_user cfg" "p = warn_provider builtin_provider \<or> p = builtin_provider"
    by (auto simp: new_chain_def Let_def add_sidecars_eq split: option.splits if_splits)
  then show thesis
  proof cases
    case 1
    then show thesis by (rule that(1))
  next
    case 2
    with conf configured_source [of "ch_configured cfg" p h i] assms(3) show thesis by (intro that(2)) auto
  next
    case (3 c)
    with assms(3) show thesis by (intro that(3)) (auto simp: sidecar_provider_def)
  next
    case 4
    with assms(3) builtin_source show thesis by (intro that(4)) auto
  qed
qed

lemma mint_resolver_Inr:
  assumes "mint_resolver w cfg issuers = Inr d"
  obtains ps where
    "new_chain (mw_yaml w) \<lparr>ch_assertion = map_option (assertion_provider (mw_crypto w) (mw_net w)) issuers,
        ch_configured = atc_configured (cfg_attestation cfg), ch_sidecars = resolve_sidecars (cfg_attestation cfg),
        ch_omit_os_user = \<not> os_user_allowed (cfg_attestation cfg), ch_warn = True\<rparr> = Inr (dr_chain d)"
    "per_spawn_providers (mw_yaml w) (map_option (assertion_provider (mw_crypto w) (mw_net w)) issuers)
        (resolve_sidecars (cfg_attestation cfg)) = Inr (dr_per_spawn d)"
  using assms by (auto simp: mint_resolver_def Let_def split: sum.splits)

lemma per_spawn_member:
  assumes "per_spawn_providers yaml assertion sidecars = Inr (Some ps)" and "p \<in> set ps"
  shows "assertion = Some p \<or> (\<exists>c cs. sidecars = c # cs \<and> sidecar_enabled c \<and> p = sidecar_provider yaml c)"
  using assms
  by (auto simp: per_spawn_providers_def new_sidecar_provider_def split: list.splits sum.splits option.splits if_splits)

lemma resolver_vouches:
  assumes "mint_resolver w cfg issuers = Inr d" and "fst (domain_resolve d (mw_host w) md) = Inr i"
  shows "if requires_per_spawn md then vouched_per_spawn w cfg issuers i else vouched w cfg issuers i"
proof -
  let ?a = "map_option (assertion_provider (mw_crypto w) (mw_net w)) issuers"
  have a: "?a = Some p \<Longrightarrow> fst (p (mw_host w)) = Inr i \<Longrightarrow>
      \<exists>m. issuers = Some m \<and> assertion_resolve (mw_crypto w) (mw_net w) m (mw_host w) = Inr i" for p
    by (auto simp: assertion_provider_def)
  from assms(1) have chain: "new_chain (mw_yaml w) \<lparr>ch_assertion = ?a,
        ch_configured = atc_configured (cfg_attestation cfg), ch_sidecars = resolve_sidecars (cfg_attestation cfg),
        ch_omit_os_user = \<not> os_user_allowed (cfg_attestation cfg), ch_warn = True\<rparr> = Inr (dr_chain d)"
    and spawn: "per_spawn_providers (mw_yaml w) ?a (resolve_sidecars (cfg_attestation cfg)) = Inr (dr_per_spawn d)"
    by (auto elim: mint_resolver_Inr)
  show ?thesis
  proof (cases "requires_per_spawn md")
    case True
    with assms(2) obtain ps where ps: "dr_per_spawn d = Some ps" "fst (resolve ps (mw_host w)) = Inr i"
      by (auto simp: domain_resolve_fst split: option.splits if_splits)
    from resolve_member [OF ps(2)] obtain p where p: "p \<in> set ps" "fst (p (mw_host w)) = Inr i" ..
    from per_spawn_member [OF _ p(1)] spawn ps(1) a [of p] p(2) True show ?thesis
      by (fastforce simp: vouched_per_spawn_def sidecar_provider_def)
  next
    case False
    with assms(2) have "fst (resolve (dr_chain d) (mw_host w)) = Inr i" by (simp add: domain_resolve_fst)
    from resolve_member [OF this] obtain p where p: "p \<in> set (dr_chain d)" "fst (p (mw_host w)) = Inr i" ..
    show ?thesis
      by (rule chain_member [OF chain p]) (use False a [of p] p(2) in \<open>auto simp: vouched_def\<close>)
  qed
qed

lemma spawn_domain: "requires_per_spawn (mint_domain h sidecars) \<longleftrightarrow>
    (\<exists>c cs. sidecars = c # cs \<and> sc_session_env c \<noteq> [] \<and> getenv h (sc_session_env c) \<noteq> [])"
  by (auto simp: mint_domain_def requires_per_spawn_def split: list.splits)

lemma run_a2a_effects:
  assumes "e \<in> set (snd (run_mint_a2a w args))"
  obtains vals left cfg src d where
    "parse_flags (mw_readers w) a2a_flags args = Inr (vals, left)"
    "load_config (mw_config w) (mw_host w) (string_value vals ''config'' ''config.yaml'') = Inr cfg"
    "a2a_resolver w cfg = Inr d"
    "e \<in> set (snd (a2a_mint (a2a_exchange w) (a2a_service_of w cfg src d) (mw_host w) (string_value vals ''audience'' [])))"
proof -
  from assms obtain vals left where f: "parse_flags (mw_readers w) a2a_flags args = Inr (vals, left)"
    by (auto simp: run_mint_a2a_def split: sum.splits)
  with assms obtain cfg where c: "load_config (mw_config w) (mw_host w) (string_value vals ''config'' ''config.yaml'') = Inr cfg"
    by (auto simp: run_mint_a2a_def split: sum.splits if_splits)
  with f assms obtain src where b: "new_broker (mw_broker_client w) (mw_broker_host w) (cfg_broker cfg) = Inr src"
    by (auto simp: run_mint_a2a_def split: sum.splits if_splits)
  with f c assms obtain d where d: "a2a_resolver w cfg = Inr d"
    by (auto simp: run_mint_a2a_def split: sum.splits if_splits)
  from f c b d assms show ?thesis
    by (intro that [OF f c d, of src]) (auto simp: run_mint_a2a_def split: sum.splits prod.splits if_splits)
qed

lemma a2a_resolver_vouches:
  assumes "a2a_resolver w cfg = Inr d" and "fst (domain_resolve d (mw_host w) domain_a2a) = Inr i"
  shows "\<exists>c cs. resolve_sidecars (cfg_attestation cfg) = c # cs \<and> sidecar_enabled c
    \<and> sidecar_resolve (mw_yaml w) c (mw_host w) = Inr i"
proof -
  from assms(2) obtain ps where ps: "dr_per_spawn d = Some ps" "fst (resolve ps (mw_host w)) = Inr i"
    by (auto simp: domain_resolve_fst requires_per_spawn_def split: option.splits if_splits)
  from resolve_member [OF ps(2)] obtain p where p: "p \<in> set ps" "fst (p (mw_host w)) = Inr i" ..
  from assms(1) ps(1) have "per_spawn_providers (mw_yaml w) None (resolve_sidecars (cfg_attestation cfg)) = Inr (Some ps)"
    by (auto simp: a2a_resolver_def Let_def split: sum.splits)
  from per_spawn_member [OF this p(1)] p(2) show ?thesis by (fastforce simp: sidecar_provider_def)
qed

lemma permitted_issuer:
  "Issued req \<in> set (snd (a2a_permitted dflt s i role audience)) \<Longrightarrow> ir_issuer req = as_issuer s"
  by (auto simp: a2a_permitted_def a2a_refuse_def a2a_issue_def a2a_audit_effect_def Let_def
      split: option.splits sum.splits if_splits)

subsection \<open>Properties\<close>

text \<open>C9: No request of the mint command is unscoped: its body always names permissions, which are
  exactly those the configuration grants the role, or those shipped for it, never an empty set, which
  the body would omit; and it names one repository exactly when the command line does.\<close>
theorem mint_command_scoped:
  assumes "decodes_maps (mw_config w)" and "q \<in> set (github_requests w (snd (run_mint w args)))"
  shows "\<exists>vals left cfg ps ms pm.
     parse_flags (mw_readers w) mint_flags args = Inr (vals, left)
     \<and> load_config (mw_config w) (mw_host w) (string_value vals ''config'' ''config.yaml'') = Inr cfg
     \<and> granted cfg (string_value vals ''role'' []) = Some ps
     \<and> rq_body q = json_encode (JObj ms) \<and> map_of ms ''permissions'' = Some (JObj pm) \<and> pm \<noteq> []
     \<and> (\<forall>k. map_of pm k = map_option JStr (ps k))
     \<and> (case map_of ms ''repositories'' of
          None \<Rightarrow> string_value vals ''repo'' [] = []
        | Some v \<Rightarrow> \<exists>name. v = JArr [JStr name] \<and> parse_repo_name (string_value vals ''repo'' []) = Inr name)"
  using assms(2)
proof (rule github_request_of)
  fix req
  assume e: "TokenRequested req \<in> set (snd (run_mint w args))"
    and body: "rq_body q = json_encode (access_token_request (mr_permissions req) (mr_repos req))"
  from e obtain vals left cfg src issuers d repos where
    f: "parse_flags (mw_readers w) mint_flags args = Inr (vals, left)"
    and c: "load_config (mw_config w) (mw_host w) (string_value vals ''config'' ''config.yaml'') = Inr cfg"
    and r: "check_roles (cfg_roles cfg) = None" and q: "requested_repos (string_value vals ''repo'' []) = Inr repos"
    and m: "TokenRequested req \<in> set (snd (mint_for_domain (app_exchange w) (mint_service_of w cfg src d) (mw_host w)
       (mint_domain (mw_host w) (resolve_sidecars (cfg_attestation cfg))) (string_value vals ''role'' []) repos))"
    by (rule run_mint_effects)
  from m obtain i b ro where act: "acting (mint_service_of w cfg src d) (mw_host w)
      (mint_domain (mw_host w) (resolve_sidecars (cfg_attestation cfg))) (string_value vals ''role'' []) i b ro"
    and ps: "ms_roles (mint_service_of w cfg src d) (string_value vals ''role'' []) = Some (mr_permissions req)"
    and rp: "mr_repos req = repos"
    by (rule mint_requested) (simp add: mint_service_of_def)
  from act obtain rc where rc: "map_of (cfg_roles cfg) (string_value vals ''role'' []) = Some rc"
    by (auto simp: acting_def mint_service_of_def configured_bindings_def)
  from ps have "configured_registry cfg (string_value vals ''role'' []) = Some (mr_permissions req)"
    by (simp add: mint_service_of_def)
  from granted_resolved [OF loaded_roles_distinct [OF assms(1) c] r rc this]
  have g: "granted cfg (string_value vals ''role'' []) = Some (mr_permissions req)"
    and fin: "finite (dom (mr_permissions req))" and ne: "perm_members (mr_permissions req) \<noteq> []"
    by (auto simp: perm_members_empty)
  let ?ms = "(''permissions'', JObj (perm_members (mr_permissions req)))
      # (if repos = [] then [] else [(''repositories'', JArr (map JStr repos))])"
  have "rq_body q = json_encode (JObj ?ms)" using body ne rp by (simp add: access_token_request_def del: json_encode.simps)
  moreover have "case map_of ?ms ''repositories'' of
        None \<Rightarrow> string_value vals ''repo'' [] = []
      | Some v \<Rightarrow> \<exists>name. v = JArr [JStr name] \<and> parse_repo_name (string_value vals ''repo'' []) = Inr name"
    using q by (auto simp: requested_repos_def split: sum.splits if_splits)
  ultimately show ?thesis
    using f c g ne map_of_perm_members [OF fin]
    by (intro exI [of _ vals] exI [of _ left] exI [of _ cfg] exI [of _ "mr_permissions req"] exI [of _ ?ms]
        exI [of _ "perm_members (mr_permissions req)"]) (simp del: json_encode.simps)
qed

text \<open>C8: The mint command asks for a token only for an identity that the configuration vouches for and the
  role's binding admits: an accepted assertion of a configured issuer, the configured source, an enabled
  sidecar, or the operating system user when that is allowed; in a process that runs inside a spawn, only an
  assertion or the first sidecar.\<close>
theorem mint_command_attested:
  assumes "TokenRequested req \<in> set (snd (run_mint w args))"
  shows "\<exists>vals left cfg issuers rc i.
     parse_flags (mw_readers w) mint_flags args = Inr (vals, left)
     \<and> load_config (mw_config w) (mw_host w) (string_value vals ''config'' ''config.yaml'') = Inr cfg
     \<and> build_assertion_provider (mw_net w) cfg = Inr issuers
     \<and> map_of (cfg_roles cfg) (string_value vals ''role'' []) = Some rc
     \<and> admits (configured_binding rc) (string_value vals ''role'' []) i
     \<and> (if \<exists>c cs. resolve_sidecars (cfg_attestation cfg) = c # cs \<and> sc_session_env c \<noteq> []
               \<and> getenv (mw_host w) (sc_session_env c) \<noteq> []
        then vouched_per_spawn w cfg issuers i else vouched w cfg issuers i)"
  using assms
proof (rule run_mint_effects)
  fix vals left cfg src issuers d repos
  assume f: "parse_flags (mw_readers w) mint_flags args = Inr (vals, left)"
    and c: "load_config (mw_config w) (mw_host w) (string_value vals ''config'' ''config.yaml'') = Inr cfg"
    and b: "build_assertion_provider (mw_net w) cfg = Inr issuers" and r: "mint_resolver w cfg issuers = Inr d"
    and "TokenRequested req \<in> set (snd (mint_for_domain (app_exchange w) (mint_service_of w cfg src d) (mw_host w)
       (mint_domain (mw_host w) (resolve_sidecars (cfg_attestation cfg))) (string_value vals ''role'' []) repos))"
  from this(5) obtain i rb ro where act: "acting (mint_service_of w cfg src d) (mw_host w)
      (mint_domain (mw_host w) (resolve_sidecars (cfg_attestation cfg))) (string_value vals ''role'' []) i rb ro"
    and adm: "admits rb (string_value vals ''role'' []) i"
    by (rule mint_requested) (simp add: mint_service_of_def)
  from act obtain rc where rc: "map_of (cfg_roles cfg) (string_value vals ''role'' []) = Some rc" "rb = configured_binding rc"
    by (auto simp: acting_def mint_service_of_def configured_bindings_def)
  from act have "fst (domain_resolve d (mw_host w) (mint_domain (mw_host w) (resolve_sidecars (cfg_attestation cfg)))) = Inr i"
    by (auto simp: acting_def mint_service_of_def service_resolver_def)
  from resolver_vouches [OF r this, unfolded spawn_domain] f c b rc adm show ?thesis by blast
qed

text \<open>C17: The A2A mint command turns to OpenBao only for an identity that the first configured sidecar
  attested and the mapping entitles to the requested audience, never for the shared chain's or the operating
  system user's; what it presents is an assertion for that very subject, without an audience, and after that
  only the client token OpenBao answered.\<close>
theorem a2a_command_per_spawn:
  assumes "q \<in> set (openbao_requests w (snd (run_mint_a2a w args)))"
  shows "\<exists>vals left cfg c cs i role req.
     parse_flags (mw_readers w) a2a_flags args = Inr (vals, left)
     \<and> load_config (mw_config w) (mw_host w) (string_value vals ''config'' ''config.yaml'') = Inr cfg
     \<and> resolve_sidecars (cfg_attestation cfg) = c # cs \<and> sidecar_enabled c
     \<and> sidecar_resolve (mw_yaml w) c (mw_host w) = Inr i
     \<and> policy_check (Some (policy_from_entries ae_role ae_audiences (cfg_a2a_mapping cfg))) (id_subject i)
          (string_value vals ''audience'' []) = Inr role
     \<and> ir_subject req = id_subject i
     \<and> ((\<exists>iat expiry sig. q = login_request req (compact rs256_header
             (peer_claims (ap_issuer (cfg_a2a_provider cfg)) (id_subject i) iat expiry) sig))
        \<or> (\<exists>client_token. q = token_request req client_token))"
proof -
  from assms obtain req where e: "Issued req \<in> set (snd (run_mint_a2a w args))"
    and q: "q \<in> set (snd (a2a_token_issue (mw_lib w) (mw_openbao w) (mw_sign_at w) (mw_answer_at w) req))"
    by (auto simp: openbao_requests_def split: a2a_effect.splits)
  from e obtain vals left cfg src d where f: "parse_flags (mw_readers w) a2a_flags args = Inr (vals, left)"
    "load_config (mw_config w) (mw_host w) (string_value vals ''config'' ''config.yaml'') = Inr cfg"
    and r: "a2a_resolver w cfg = Inr d"
    and m: "Issued req \<in> set (snd (a2a_mint (a2a_exchange w) (a2a_service_of w cfg src d) (mw_host w)
       (string_value vals ''audience'' [])))"
    by (rule run_a2a_effects)
  let ?s = "a2a_service_of w cfg src d"
  from m have "uses_key (Issued req)" by simp
  from mint_uses_key [OF m this] obtain d' i role where
    d: "as_domain ?s = Some d'" "fst (domain_resolve d' (mw_host w) domain_a2a) = Inr i"
    and p: "policy_check (as_policy ?s) (id_subject i) (string_value vals ''audience'' []) = Inr role"
    and x: "Issued req \<in> set (snd (a2a_permitted (a2a_exchange w) ?s i role (string_value vals ''audience'' [])))"
    by blast
  from d r have "\<exists>c cs. resolve_sidecars (cfg_attestation cfg) = c # cs \<and> sidecar_enabled c
      \<and> sidecar_resolve (mw_yaml w) c (mw_host w) = Inr i"
    by (intro a2a_resolver_vouches) (auto simp: a2a_service_of_def Let_def)
  moreover have "ir_subject req = id_subject i" "ir_issuer req = ap_issuer (cfg_a2a_provider cfg)"
    using permitted_issued [OF x] permitted_issuer [OF x] by (auto simp: a2a_service_of_def Let_def)
  moreover from q have "(\<exists>iat expiry sig. q = login_request req (compact rs256_header
        (peer_claims (ir_issuer req) (ir_subject req) iat expiry) sig)) \<or> (\<exists>ct. q = token_request req ct)"
    by (cases rule: issue_cases [of "mw_lib w" "mw_openbao w" "mw_sign_at w" "mw_answer_at w" req]) auto
  moreover have "policy_check (Some (policy_from_entries ae_role ae_audiences (cfg_a2a_mapping cfg))) (id_subject i)
      (string_value vals ''audience'' []) = Inr role"
    using p by (simp add: a2a_service_of_def Let_def)
  ultimately show ?thesis using f by metis
qed

subsection \<open>Sample worlds\<close>

definition sample_env :: "string \<rightharpoonup> string" where
  "sample_env = [''WHO'' \<mapsto> ''bot'', ''APP'' \<mapsto> ''7'', ''INST'' \<mapsto> ''9'', ''SLUG'' \<mapsto> ''app'', ''KEY'' \<mapsto> ''k'', ''SID'' \<mapsto> ''s'']"

definition sample_mint_host :: host where
  "sample_mint_host = \<lparr>h_env = sample_env, h_lstat = (\<lambda>_. Inr \<lparr>fi_kind = RegularFile, fi_perm = 0, fi_uid = 0\<rparr>),
     h_read = (\<lambda>_. Inr ''bot''), h_open_dir = (\<lambda>_. Inl NotExist), h_openat = (\<lambda>_ _. Inl NotExist),
     h_open = (\<lambda>_. Inl NotExist), h_user = None, h_euid = 0, h_now = 0\<rparr>"

definition sample_role :: role_config where
  "sample_role = \<lparr>rc_app_id_path = ''APP'', rc_installation_id_path = ''INST'', rc_private_key_path = ''KEY'',
     rc_permissions = [(''contents'', ''read'')], rc_entitled = [''bot''], rc_min_grade = [], rc_app_slug = ''app'',
     rc_app_slug_path = ''SLUG''\<rparr>"

definition no_sidecar :: sidecar_config where
  "no_sidecar = \<lparr>sc_dir = [], sc_prefix = [], sc_session_env = [], sc_identity_field = []\<rparr>"

definition sample_config :: config where
  "sample_config = \<lparr>cfg_schema_version = 1, cfg_github = \<lparr>gh_owner = [], gh_api_base = ''api''\<rparr>,
     cfg_broker = \<lparr>br_type = ''env'', br_endpoint = [], br_auth = []\<rparr>, cfg_ttl_minutes = 10,
     cfg_roles = [(''r'', sample_role)],
     cfg_attestation = \<lparr>atc_configured = \<lparr>cc_type = ''env'', cc_source = ''WHO''\<rparr>, atc_sidecar = no_sidecar,
       atc_sidecars = [], atc_assertion = None, atc_allow_os_user = None\<rparr>,
     cfg_a2a_mapping = [], cfg_a2a_provider = \<lparr>ap_endpoint = [], ap_key_path = [], ap_issuer = [], ap_ttl = 0,
       ap_auth_mount = [], ap_roles = []\<rparr>,
     cfg_identity = \<lparr>idc_issuer = [], idc_socket_path = [], idc_socket_mode = [], idc_key_path = [], idc_alg = [],
       idc_jwks_path = [], idc_runtime_roles = [], idc_definitions_dir = [], idc_delegable_roles = None,
       idc_spawn_root = [], idc_session_ttl = 0\<rparr>,
     cfg_identity_present = False, cfg_removed_keys = []\<rparr>"

definition sample_world :: "config \<Rightarrow> unit mint_world" where
  "sample_world cfg = \<lparr>mw_readers = \<lparr>rd_duration = (\<lambda>_. None), rd_int = (\<lambda>_. None)\<rparr>,
     mw_config = \<lparr>cy_decode = (\<lambda>_. Some cfg), cy_tree = (\<lambda>_. Some None)\<rparr>, mw_yaml = (\<lambda>_. None),
     mw_host = sample_mint_host, mw_net = undefined, mw_crypto = undefined,
     mw_broker_client = (\<lambda>_ _. Inl []), mw_broker_host = (\<lambda>_. sample_mint_host), mw_broker_text = (\<lambda>_. []),
     mw_lib = \<lparr>rl_pem = (\<lambda>_. Some (''PRIVATE KEY'', [])), rl_pkcs1 = (\<lambda>_. None), rl_pkcs8 = (\<lambda>_. Some (RsaKey ())),
       rl_sha256 = id, rl_sign = (\<lambda>_ _. Some []), rl_rfc3339 = (\<lambda>_. None)\<rparr>,
     mw_github = (\<lambda>_. Inl []), mw_github_text = (\<lambda>_. []), mw_openbao = (\<lambda>_. Inl []), mw_token_text = (\<lambda>_. []),
     mw_sign_at = 0, mw_answer_at = 0, mw_format_time = (\<lambda>_. [])\<rparr>"

lemma sample_world_host: "mw_host (sample_world cfg) = sample_mint_host"
  by (simp add: sample_world_def)

lemma sample_flags:
  "parse_flags rd mint_flags [''-role'', ''r'', ''-repo'', ''o/n''] = Inr ([(''role'', ''r''), (''repo'', ''o/n'')], [])"
  by (simp add: parse_flags.simps(2) flag_token_def named_token_def cut_equals_def mint_flags_def strings_set_def
      valid_value_def)

lemma sample_values:
  "string_value [(''role'', ''r''), (''repo'', ''o/n'')] ''role'' [] = ''r''"
  "string_value [(''role'', ''r''), (''repo'', ''o/n'')] ''repo'' [] = ''o/n''"
  by (simp_all add: string_value_def last_value_def)

lemma sample_load: "load_config (mw_config (sample_world cfg)) sample_mint_host p =
    (case validate_attestation (cfg_attestation cfg) of Some e \<Rightarrow> Inl e
     | None \<Rightarrow> Inr (apply_defaults (cfg\<lparr>cfg_identity_present := False, cfg_removed_keys := []\<rparr>)))"
  by (simp add: load_config_def sample_world_def sample_mint_host_def has_top_level_key_def removed_keys_present_def
      Let_def split: option.splits)

lemma sample_defaults:
  "apply_defaults (sample_config\<lparr>cfg_identity_present := False, cfg_removed_keys := []\<rparr>) = sample_config"
  by (simp add: apply_defaults_def sample_config_def)

lemma bot_trimmed: "trim_space ''bot'' = ''bot''"
  by (rule graphic_trim_space) (simp add: graphic_def code_def)

lemma sample_repo: "requested_repos ''o/n'' = Inr [''n'']"
  by (simp add: requested_repos_def parse_repo_name_def Let_def)

lemma mint_run_effects:
  "requested_repos (string_value vals ''repo'' []) = Inr repos \<Longrightarrow>
   snd (mint_run w cfg src d a vals) = snd (mint_for_domain (app_exchange w) (mint_service_of w cfg src d) (mw_host w)
     (mint_domain (mw_host w) (resolve_sidecars (cfg_attestation cfg))) (string_value vals ''role'' []) repos)"
  by (auto simp: mint_run_def mint_attributed_def split: sum.split prod.split)

definition sample_args :: "string list" where
  "sample_args = [''-role'', ''r'', ''-repo'', ''o/n'']"

lemma sample_mint_effects:
  obtains es e req where "run_mint (sample_world sample_config) sample_args = (e, es)" "TokenRequested req \<in> set es"
    "mr_app_id req = ''7''" "mr_installation_id req = ''9''" "mr_private_key req = ''k''"
proof -
  let ?w = "sample_world sample_config"
  obtain d where d: "mint_resolver ?w sample_config None = Inr d"
    "fst (domain_resolve d sample_mint_host domain_local) = Inr (plain_identity ''bot'' ''configured'')"
    "snd (domain_resolve d sample_mint_host domain_local) = []"
    by (simp add: mint_resolver_def sample_config_def Let_def new_chain_def new_configured_provider_def
        resolve_sidecars_def no_sidecar_def sidecar_enabled_def per_spawn_providers_def os_user_allowed_def
        domain_resolve_def requires_per_spawn_def resolve.simps(2) env_provider_def sample_mint_host_def getenv_def sample_env_def
        bot_trimmed)
  have dom: "mint_domain sample_mint_host (resolve_sidecars (cfg_attestation sample_config)) = domain_local"
    by (simp add: mint_domain_def resolve_sidecars_def sample_config_def no_sidecar_def sidecar_enabled_def)
  let ?src = "\<lambda>n. env_get (mw_broker_host ?w n)"
  let ?s = "mint_service_of ?w sample_config ?src d"
  have k: "secrets ?w ?src n p = (case sample_env p of Some v \<Rightarrow> if v = [] then Inl [] else Inr v | None \<Rightarrow> Inl [])" for n p
    by (simp add: secrets_def env_get_def sample_world_def getenv_def sample_mint_host_def Let_def split: option.split)
  have b: "new_broker (mw_broker_client ?w) (mw_broker_host ?w) (cfg_broker sample_config) = Inr ?src"
    by (simp add: new_broker_def sample_config_def)
  have roles: "cfg_roles sample_config = [(''r'', sample_role)]" "cfg_roles sample_config \<noteq> []"
    "check_roles (cfg_roles sample_config) = None"
    by (simp_all add: sample_config_def sample_role_def valid_min_grade_def)
  have ms: "resolve_role (ms_roles ?s) ''r'' = Inr \<lparr>role_name = ''r'', role_permissions = [''contents'' \<mapsto> ''read'']\<rparr>"
    "ms_bindings ?s ''r'' = Some (configured_binding sample_role)" "service_resolver ?s = Some d" "ms_broker ?s = secrets ?w ?src"
    by (simp_all add: mint_service_of_def configured_registry_def roles add_configured_role_def sample_role_def
        resolve_role_def registry_add_def configured_bindings_def service_resolver_def)
  let ?req = "\<lparr>mr_api_base = ms_api_base ?s, mr_app_id = ''7'', mr_installation_id = ''9'', mr_private_key = ''k'',
       mr_permissions = github_render \<lparr>role_name = ''r'', role_permissions = [''contents'' \<mapsto> ''read'']\<rparr>,
       mr_repos = [''n''], mr_ttl = ms_ttl ?s\<rparr>"
  have cred: "TokenRequested ?req \<in> set (snd (mint_with_credentials (app_exchange ?w) ?s ''r''
      \<lparr>role_name = ''r'', role_permissions = [''contents'' \<mapsto> ''read'']\<rparr> (configured_binding sample_role) [''n'']))"
    by (simp add: mint_with_credentials_def run_bind_snd broker_get_def ms k sample_env_def configured_binding_def sample_role_def
        app_slug_configured_def request_token_def Let_def) (simp add: mint_service_of_def)
  have gate: "gate_identity ?s ''r'' (configured_binding sample_role) (plain_identity ''bot'' ''configured'') = (Inr (), [])"
    by (simp add: gate_identity_def plain_identity_def entitled_def configured_binding_def sample_role_def)
  have e: "TokenRequested ?req \<in> set (snd (mint_for_domain (app_exchange ?w) ?s sample_mint_host domain_local ''r'' [''n'']))"
    using cred d(2,3)
    by (cases "domain_resolve d sample_mint_host domain_local")
      (simp add: mint_for_domain_def ms gate run_bind_snd run_bind_fst split: sum.split)
  have w: "mw_readers ?w = \<lparr>rd_duration = (\<lambda>_. None), rd_int = (\<lambda>_. None)\<rparr>" "mw_host ?w = sample_mint_host"
    by (simp_all add: sample_world_def)
  have asrt: "build_assertion_provider n sample_config = Inr None" for n
    by (simp add: build_assertion_provider_def sample_config_def)
  have att: "validate_attestation (cfg_attestation sample_config) = None"
    by (simp add: validate_attestation_def sample_config_def no_sidecar_def sidecar_enabled_def)
  have "run_mint ?w sample_args = mint_run ?w sample_config ?src d False [(''role'', ''r''), (''repo'', ''o/n'')]"
    by (simp only: run_mint_def sample_args_def sample_flags sample_values sample_load att sample_defaults roles(2,3) b asrt d(1)
        sum.case prod.case option.case w if_False) simp
  moreover have "TokenRequested ?req \<in> set (snd (mint_run ?w sample_config ?src d False [(''role'', ''r''), (''repo'', ''o/n'')]))"
    using e by (simp add: mint_run_effects sample_values sample_repo dom w)
  ultimately show thesis
    by (intro that [of "fst (run_mint ?w sample_args)" "snd (run_mint ?w sample_args)" ?req]) simp_all
qed

lemma sample_exchange:
  assumes "mr_app_id req = ''7''" and "mr_installation_id req = ''9''"
  shows "\<exists>q. q \<in> set (snd (github_mint (mw_lib (sample_world cfg)) client now req))"
proof -
  have "parse_int64 ''7'' = Some 7" "parse_int64 ''9'' = Some 9"
    by (simp_all add: parse_int64_def digits_val_def is_digit_def code_def int64_range_def)
  moreover have "parse_rsa_key (mw_lib (sample_world cfg)) k = Inr ()" for k
    by (simp add: parse_rsa_key_def sample_world_def)
  moreover have "\<exists>jwt. sign_jwt (mw_lib (sample_world cfg)) () a b c = Some jwt" for a b c
    by (simp add: sign_jwt_def sample_world_def Let_def del: json_encode.simps)
  ultimately show ?thesis using assms
    by (auto simp: github_mint_def Let_def exchange_token_def split: option.split)
qed

lemma sample_github:
  obtains q where "q \<in> set (github_requests (sample_world sample_config) (snd (run_mint (sample_world sample_config) sample_args)))"
proof -
  obtain es e req where m: "run_mint (sample_world sample_config) sample_args = (e, es)" "TokenRequested req \<in> set es"
    and r: "mr_app_id req = ''7''" "mr_installation_id req = ''9''"
    by (rule sample_mint_effects)
  from sample_exchange [OF r] obtain q where
    "q \<in> set (snd (github_mint (mw_lib (sample_world sample_config)) (mw_github (sample_world sample_config))
       (mw_sign_at (sample_world sample_config)) req))" by blast
  with m show thesis by (intro that [of q]) (force simp: github_requests_def)
qed

lemma sample_decodes: "decodes_maps (mw_config (sample_world sample_config))"
  by (simp add: decodes_maps_def sample_world_def sample_config_def)

definition sample_sidecar :: sidecar_config where
  "sample_sidecar = \<lparr>sc_dir = ''/d'', sc_prefix = ''p'', sc_session_env = ''SID'', sc_identity_field = []\<rparr>"

definition sample_a2a_config :: config where
  "sample_a2a_config = sample_config\<lparr>
     cfg_attestation := (cfg_attestation sample_config)\<lparr>atc_sidecars := [sample_sidecar]\<rparr>,
     cfg_a2a_mapping := [(''bot'', \<lparr>ae_role = ''peer'', ae_audiences = [''aud'']\<rparr>)],
     cfg_a2a_provider := \<lparr>ap_endpoint = ''http://o'', ap_key_path = ''KEY'', ap_issuer = ''gk'', ap_ttl = 60,
       ap_auth_mount = ''m'', ap_roles = [(''peer'', \<lparr>ar_auth_role = ''a'', ar_oidc_role = ''o''\<rparr>)]\<rparr>\<rparr>"

lemma sample_sidecar_bot: "sidecar_resolve yaml sample_sidecar sample_mint_host = Inr (plain_identity ''bot'' ''sidecar'')"
proof -
  have "trim_space ''s'' = ''s''" by (rule graphic_trim_space) (simp add: graphic_def code_def)
  moreover have "is_safe_path_segment ''s''" "require_contained ''/d'' (path_join [''/d'', ''ps''])" by code_simp+
  ultimately show ?thesis
    by (simp add: sidecar_resolve_def sample_sidecar_def sample_mint_host_def sample_env_def getenv_def sidecar_path_def
        Let_def bot_trimmed)
qed

definition sample_a2a_args :: "string list" where
  "sample_a2a_args = [''-audience'', ''aud'']"

lemma sample_a2a_flags: "parse_flags rd a2a_flags sample_a2a_args = Inr ([(''audience'', ''aud'')], [])"
  by (simp add: sample_a2a_args_def parse_flags.simps(2) flag_token_def named_token_def cut_equals_def a2a_flags_def
      strings_set_def valid_value_def)

lemma sample_openbao:
  obtains q where "q \<in> set (openbao_requests (sample_world sample_a2a_config)
     (snd (run_mint_a2a (sample_world sample_a2a_config) sample_a2a_args)))"
proof -
  let ?w = "sample_world sample_a2a_config"
  let ?src = "\<lambda>n. env_get (mw_broker_host ?w n)"
  have v: "string_value [(''audience'', ''aud'')] ''audience'' [] = ''aud''"
    by (simp add: string_value_def last_value_def)
  have cfg: "load_config (mw_config ?w) sample_mint_host p = Inr sample_a2a_config" for p
    by (simp add: sample_load validate_attestation_def sample_a2a_config_def sample_config_def no_sidecar_def
        sidecar_enabled_def apply_defaults_def)
  have en: "a2a_enabled (cfg_a2a_provider sample_a2a_config)"
    by (simp add: a2a_enabled_def sample_a2a_config_def)
  have b: "new_broker (mw_broker_client ?w) (mw_broker_host ?w) (cfg_broker sample_a2a_config) = Inr ?src"
    by (simp add: new_broker_def sample_a2a_config_def sample_config_def)
  obtain d where d: "a2a_resolver ?w sample_a2a_config = Inr d" "dr_per_spawn d = Some [sidecar_provider (mw_yaml ?w) sample_sidecar]"
    by (simp add: a2a_resolver_def Let_def new_chain_def new_configured_provider_def sample_a2a_config_def sample_config_def
        resolve_sidecars_def no_sidecar_def sidecar_enabled_def per_spawn_providers_def new_sidecar_provider_def
        sample_sidecar_def add_sidecars_eq)
  let ?s = "a2a_service_of ?w sample_a2a_config ?src d"
  have dr: "domain_resolve d sample_mint_host domain_a2a = (Inr (plain_identity ''bot'' ''sidecar''), [])"
    by (simp add: domain_resolve_def requires_per_spawn_def d(2) resolve.simps(2) sidecar_provider_def sample_sidecar_bot)
  have k: "secrets ?w ?src 0 ''KEY'' = Inr ''k''"
    by (simp add: secrets_def env_get_def sample_world_def getenv_def sample_mint_host_def Let_def sample_env_def)
  have s: "as_domain ?s = Some d" "as_key_path ?s = ''KEY''" "as_broker ?s = Some (secrets ?w ?src 0)"
    "policy_check (as_policy ?s) ''bot'' ''aud'' = Inr ''peer''" "role_entry (as_auth_roles ?s) ''peer'' = Some ''a''"
    "role_entry (as_oidc_roles ?s) ''peer'' = Some ''o''" "as_issue ?s = None"
    by (simp_all add: a2a_service_of_def sample_a2a_config_def policy_check_def policy_from_entries_def new_policy_def
        role_entry_def Let_def)
  let ?req = "\<lparr>ir_endpoint = as_endpoint ?s, ir_private_key = ''k'', ir_issuer = as_issuer ?s, ir_subject = ''bot'',
     ir_ttl = as_ttl ?s, ir_auth_mount = as_auth_mount ?s, ir_auth_role = ''a'', ir_oidc_role = ''o''\<rparr>"
  have e: "Issued ?req \<in> set (snd (a2a_mint (a2a_exchange ?w) ?s sample_mint_host ''aud''))"
    by (simp add: a2a_mint_def s dr plain_identity_def a2a_permitted_def a2a_issue_def k Let_def split: sum.split)
  have w: "mw_host ?w = sample_mint_host" by (simp add: sample_world_def)
  have "snd (run_mint_a2a ?w sample_a2a_args) = snd (a2a_mint (a2a_exchange ?w) ?s sample_mint_host ''aud'')"
    by (simp add: run_mint_a2a_def sample_a2a_flags v w cfg en b d(1) split: sum.split prod.split)
  with e have e: "Issued ?req \<in> set (snd (run_mint_a2a ?w sample_a2a_args))" by simp
  have "\<exists>q. q \<in> set (snd (a2a_token_issue (mw_lib ?w) (mw_openbao ?w) 0 0 ?req))"
    by (simp add: a2a_token_issue_def a2a_service_of_def sample_a2a_config_def parse_assertion_key_def sample_world_def
        sign_assertion_def Let_def exchange_assertion_def del: json_encode.simps)
  then obtain q where "q \<in> set (snd (a2a_token_issue (mw_lib ?w) (mw_openbao ?w) (mw_sign_at ?w) (mw_answer_at ?w) ?req))"
    by (auto simp: sample_world_def)
  with e show thesis by (intro that [of q]) (force simp: openbao_requests_def)
qed

theorem mint_command_scoped_witness:
  "\<exists>cfg ps (pm :: (string \<times> json) list). load_config (mw_config (sample_world sample_config)) sample_mint_host ''config.yaml'' = Inr cfg
     \<and> granted cfg ''r'' = Some ps \<and> pm \<noteq> [] \<and> (\<forall>k. map_of pm k = map_option JStr (ps k))"
proof -
  obtain q where q: "q \<in> set (github_requests (sample_world sample_config)
      (snd (run_mint (sample_world sample_config) sample_args)))" by (rule sample_github)
  have "string_value [(''role'', ''r''), (''repo'', ''o/n'')] ''config'' ''config.yaml'' = ''config.yaml''"
    by (simp add: string_value_def last_value_def)
  with mint_command_scoped [OF sample_decodes q] show ?thesis
    by (auto simp: sample_args_def sample_flags sample_values sample_world_host)
qed

theorem mint_command_attested_witness:
  "\<exists>cfg rc i. load_config (mw_config (sample_world sample_config)) sample_mint_host ''config.yaml'' = Inr cfg
     \<and> map_of (cfg_roles cfg) ''r'' = Some rc \<and> admits (configured_binding rc) ''r'' i"
proof -
  obtain es e req where "run_mint (sample_world sample_config) sample_args = (e, es)" "TokenRequested req \<in> set es"
    by (rule sample_mint_effects)
  then have m: "TokenRequested req \<in> set (snd (run_mint (sample_world sample_config) sample_args))" by simp
  have "string_value [(''role'', ''r''), (''repo'', ''o/n'')] ''config'' ''config.yaml'' = ''config.yaml''"
    by (simp add: string_value_def last_value_def)
  with mint_command_attested [OF m] show ?thesis
    by (auto simp: sample_args_def sample_flags sample_values sample_world_host)
qed

theorem a2a_command_per_spawn_witness:
  "\<exists>cfg c cs i. resolve_sidecars (cfg_attestation cfg) = c # cs \<and> sidecar_enabled c
     \<and> sidecar_resolve (mw_yaml (sample_world sample_a2a_config)) c sample_mint_host = Inr i
     \<and> load_config (mw_config (sample_world sample_a2a_config)) sample_mint_host ''config.yaml'' = Inr cfg"
proof -
  obtain q where q: "q \<in> set (openbao_requests (sample_world sample_a2a_config)
      (snd (run_mint_a2a (sample_world sample_a2a_config) sample_a2a_args)))" by (rule sample_openbao)
  have "string_value [(''audience'', ''aud'')] ''config'' ''config.yaml'' = ''config.yaml''"
    by (simp add: string_value_def last_value_def)
  with a2a_command_per_spawn [OF q] show ?thesis
    by (auto simp: sample_a2a_flags sample_world_host)
qed

end
