(* ===== verification/TrustedDir.thy ===== *)
theory TrustedDir
  imports Definitions SpawnDirs
begin

text \<open>
  Directories the issuer trusts and what it writes into them: \<open>internal/identity/trust_linux.go\<close>,
  \<open>publish_linux.go\<close> and \<open>spawndir_linux.go\<close>. The kernel's answers are a parameter: opening a
  directory by its elements from the root, with the number of the attempt, yields an error or a
  handle, whose inspection may fail too. Descriptors and closing them are left out.
\<close>

subsection \<open>Opening a trusted directory\<close>

record dir_stat =
  ds_uid :: nat
  ds_mode :: nat

definition sticky :: "nat \<Rightarrow> bool" where
  "sticky mode \<longleftrightarrow> mode div 512 mod 2 = 1"

datatype trust_error =
    PathNotAbsolute string | CreateModeWritable | RootUnopened io_err | Uninspected
  | UntrustedOwner nat | WritableByOthers nat | NotCreated io_err | NotADirectory | NotOpened io_err
  | NotReopened io_err | ModeNotSet io_err

record walk_world =
  ww_euid :: nat
  ww_root :: "io_err + dir_stat option"
  ww_openat :: "string list \<Rightarrow> nat \<Rightarrow> io_err + dir_stat option"
  ww_mkdirat :: "string list \<Rightarrow> io_err option"
  ww_reopen :: "io_err option"
  ww_fchmod :: "io_err option"
  ww_created :: "dir_stat option"

definition check_trusted_dir :: "nat \<Rightarrow> dir_stat option \<Rightarrow> bool \<Rightarrow> trust_error option" where
  "check_trusted_dir euid st is_root =
     (case st of
        None \<Rightarrow> Some Uninspected
      | Some s \<Rightarrow>
          if \<not> trusted_owner euid (ds_uid s) then Some (UntrustedOwner (ds_uid s))
          else if group_or_other_write (ds_mode s) \<and> (is_root \<or> \<not> sticky (ds_mode s)) then Some (WritableByOthers (ds_mode s))
          else None)"

definition open_error :: "io_err \<Rightarrow> trust_error" where
  "open_error e = (if e = NotDirectory \<or> e = SymLoop then NotADirectory else NotOpened e)"

text \<open>One element of the path: whether it was created, and its handle.\<close>

definition open_element :: "walk_world \<Rightarrow> nat \<Rightarrow> string list \<Rightarrow> bool \<Rightarrow> trust_error + bool \<times> dir_stat option" where
  "open_element w mode cur is_root =
     (case ww_openat w cur 0 of
        Inr st \<Rightarrow> Inr (False, st)
      | Inl e \<Rightarrow>
          if e = NotExist \<and> is_root \<and> mode \<noteq> 0 then
            (case ww_mkdirat w cur of
               Some e' \<Rightarrow> Inl (NotCreated e')
             | None \<Rightarrow> (case ww_openat w cur 1 of Inl e' \<Rightarrow> Inl (open_error e') | Inr st \<Rightarrow> Inr (True, st)))
          else Inl (open_error e))"

fun walk_elements :: "walk_world \<Rightarrow> nat \<Rightarrow> string list \<Rightarrow> string list \<Rightarrow> trust_error + bool" where
  "walk_elements w mode cur [] = Inr False"
| "walk_elements w mode cur (part # parts) =
     (case open_element w mode (cur @ [part]) (parts = []) of
        Inl e \<Rightarrow> Inl e
      | Inr (created, st) \<Rightarrow>
          (case check_trusted_dir (ww_euid w) st (parts = []) of
             Some e \<Rightarrow> Inl e
           | None \<Rightarrow> if parts = [] then Inr created else walk_elements w mode (cur @ [part]) parts))"

definition path_parts :: "string \<Rightarrow> string list" where
  "path_parts clean = (if clean = ''/'' then [] else split_on CHR ''/'' (trim_prefix clean ''/''))"

text \<open>The cleaned path of the opened directory.\<close>

definition open_trusted_dir :: "walk_world \<Rightarrow> string \<Rightarrow> nat \<Rightarrow> trust_error + string" where
  "open_trusted_dir w path mode =
     (if \<not> is_abs path then Inl (PathNotAbsolute path)
      else if group_or_other_write mode then Inl CreateModeWritable
      else (case ww_root w of
              Inl e \<Rightarrow> Inl (RootUnopened e)
            | Inr root \<Rightarrow>
                (let clean = path_clean path; parts = path_parts clean
                 in case check_trusted_dir (ww_euid w) root (parts = []) of
                      Some e \<Rightarrow> Inl e
                    | None \<Rightarrow>
                        (case walk_elements w mode [] parts of
                           Inl e \<Rightarrow> Inl e
                         | Inr created \<Rightarrow>
                             (case ww_reopen w of
                                Some e \<Rightarrow> Inl (NotReopened e)
                              | None \<Rightarrow>
                                  if created then
                                    (case ww_fchmod w of
                                       Some e \<Rightarrow> Inl (ModeNotSet e)
                                     | None \<Rightarrow>
                                         (case check_trusted_dir (ww_euid w) (ww_created w) True of
                                            Some e \<Rightarrow> Inl e
                                          | None \<Rightarrow> Inr clean))
                                  else Inr clean)))))"

text \<open>What a directory on the way must be: others may add to it only under the sticky bit.\<close>

definition trusted_stat :: "nat \<Rightarrow> bool \<Rightarrow> dir_stat \<Rightarrow> bool" where
  "trusted_stat euid final s \<longleftrightarrow>
     (ds_uid s = 0 \<or> ds_uid s = euid)
     \<and> (group_or_other_write (ds_mode s) \<longrightarrow> \<not> final \<and> sticky (ds_mode s))"

lemma check_trusted_dir_None:
  "check_trusted_dir euid st final = None \<longleftrightarrow> (\<exists>s. st = Some s \<and> trusted_stat euid final s)"
  by (auto simp: check_trusted_dir_def trusted_stat_def trusted_owner_def split: option.splits if_splits)

lemma open_element_Inr:
  "open_element w mode cur final = Inr (created, st) \<Longrightarrow> \<exists>n. ww_openat w cur n = Inr st"
  by (auto simp: open_element_def split: sum.splits if_splits option.splits)

lemma walk_elements_Inr:
  assumes "walk_elements w mode cur parts = Inr created" and "pre @ [p] @ post = parts"
  shows "\<exists>n s. ww_openat w (cur @ pre @ [p]) n = Inr (Some s) \<and> trusted_stat (ww_euid w) (post = []) s"
  using assms
proof (induction parts arbitrary: cur pre)
  case (Cons part parts)
  from Cons.prems(1) obtain cr st where o: "open_element w mode (cur @ [part]) (parts = []) = Inr (cr, st)"
    and c: "check_trusted_dir (ww_euid w) st (parts = []) = None"
    and rest: "parts \<noteq> [] \<Longrightarrow> walk_elements w mode (cur @ [part]) parts = Inr created"
    by (auto split: sum.splits option.splits prod.splits if_splits)
  show ?case
  proof (cases pre)
    case Nil
    with Cons.prems(2) have "p = part" "post = parts" by auto
    with Nil open_element_Inr [OF o] c show ?thesis by (auto simp: check_trusted_dir_None)
  next
    case (Cons q pre')
    with Cons.prems(2) have "q = part" "pre' @ [p] @ post = parts" by auto
    with Cons.IH [OF rest, of pre'] Cons show ?thesis by auto
  qed
qed simp

subsection \<open>Publishing a file\<close>

record publish_world =
  pw_rand :: "string option"
  pw_create :: "io_err option"
  pw_chmod :: "io_err option"
  pw_write :: "io_err option"
  pw_sync :: "io_err option"
  pw_close :: "io_err option"
  pw_place :: "io_err option"
  pw_dirsync :: "io_err option"

datatype publish_step =
    TempCreated string | TempModed nat | TempWritten string string | TempSynced
  | TempRenamed string string | TempLinked string string | TempUnlinked string | DirectorySynced

datatype publish_error = NoRandomId | PublishFailed io_err

definition after_place :: "publish_world \<Rightarrow> string \<Rightarrow> string \<Rightarrow> bool \<Rightarrow> publish_error option \<times> publish_step list" where
  "after_place w tmp name replace =
     (case pw_place w of
        Some e \<Rightarrow> (Some (PublishFailed e), [TempUnlinked tmp])
      | None \<Rightarrow>
          (map_option PublishFailed (pw_dirsync w),
           (if replace then [TempRenamed tmp name] else [TempLinked tmp name])
             @ (if pw_dirsync w = None then [DirectorySynced] else [])
             @ (if replace then [] else [TempUnlinked tmp])))"

text \<open>The steps that took effect, in order; a failed one ends the run after the temporary file is removed.\<close>

definition publish_file_at ::
    "publish_world \<Rightarrow> string \<Rightarrow> string \<Rightarrow> nat \<Rightarrow> bool \<Rightarrow> publish_error option \<times> publish_step list" where
  "publish_file_at w name content mode replace =
     (case random_id (pw_rand w) of
        None \<Rightarrow> (Some NoRandomId, [])
      | Some rid \<Rightarrow>
          (let tmp = ''.pub-'' @ take 16 rid; drop_tmp = [TempUnlinked tmp]
           in case pw_create w of
                Some e \<Rightarrow> (Some (PublishFailed e), [])
              | None \<Rightarrow>
                  (case pw_chmod w of
                     Some e \<Rightarrow> (Some (PublishFailed e), [TempCreated tmp] @ drop_tmp)
                   | None \<Rightarrow>
                       (case pw_write w of
                          Some e \<Rightarrow> (Some (PublishFailed e), [TempCreated tmp, TempModed mode] @ drop_tmp)
                        | None \<Rightarrow>
                            (case pw_sync w of
                               Some e \<Rightarrow> (Some (PublishFailed e), [TempCreated tmp, TempModed mode, TempWritten tmp content] @ drop_tmp)
                             | None \<Rightarrow>
                                 (case pw_close w of
                                    Some e \<Rightarrow> (Some (PublishFailed e),
                                      [TempCreated tmp, TempModed mode, TempWritten tmp content, TempSynced] @ drop_tmp)
                                  | None \<Rightarrow>
                                      apsnd ((@) [TempCreated tmp, TempModed mode, TempWritten tmp content, TempSynced])
                                        (after_place w tmp name replace)))))))"

text \<open>A directory as its file names and contents, and what a step does to it.\<close>

fun step_on :: "publish_step \<Rightarrow> (string \<rightharpoonup> string) \<Rightarrow> (string \<rightharpoonup> string)" where
  "step_on (TempCreated tmp) d = d(tmp \<mapsto> [])"
| "step_on (TempModed m) d = d"
| "step_on (TempWritten tmp c) d = d(tmp \<mapsto> c)"
| "step_on TempSynced d = d"
| "step_on (TempRenamed tmp name) d = (d(name := d tmp))(tmp := None)"
| "step_on (TempLinked tmp name) d = d(name := d tmp)"
| "step_on (TempUnlinked tmp) d = d(tmp := None)"
| "step_on DirectorySynced d = d"

definition steps_on :: "publish_step list \<Rightarrow> (string \<rightharpoonup> string) \<Rightarrow> (string \<rightharpoonup> string)" where
  "steps_on es d = fold step_on es d"

definition delivery_file :: string where "delivery_file = ''identity.jwt''"

record delivery_world =
  dw_euid :: nat
  dw_open :: "io_err option"
  dw_stat :: "dir_stat option"
  dw_publish :: publish_world
  dw_mkdir :: "io_err option"
  dw_sync :: "io_err option"
  dw_sync_root :: "io_err option"

datatype delivery_error =
    DeliveryUnopened io_err | DeliveryUninspected | DeliveryForeign | DeliveryUnpublished publish_error
  | ScratchUnmade io_err | DeliveryUnsynced io_err

definition publish_relative :: "delivery_world \<Rightarrow> string \<Rightarrow> delivery_error option \<times> publish_step list" where
  "publish_relative w content =
     (case dw_open w of
        Some e \<Rightarrow> (Some (DeliveryUnopened e), [])
      | None \<Rightarrow>
          (case dw_stat w of
             None \<Rightarrow> (Some DeliveryUninspected, [])
           | Some s \<Rightarrow>
               if ds_uid s \<noteq> dw_euid w then (Some DeliveryForeign, [])
               else (case publish_file_at (dw_publish w) delivery_file content (6 * 64) False of
                       (Some e, es) \<Rightarrow> (Some (DeliveryUnpublished e), es)
                     | (None, es) \<Rightarrow>
                         (case dw_mkdir w of
                            Some e \<Rightarrow> (Some (ScratchUnmade e), es)
                          | None \<Rightarrow>
                              (case dw_sync w of
                                 Some e \<Rightarrow> (Some (DeliveryUnsynced e), es)
                               | None \<Rightarrow> (map_option DeliveryUnsynced (dw_sync_root w), es))))))"

lemma publish_file_cases:
  obtains (early) es r tmp where "publish_file_at w name content mode replace = (r, es)" "r \<noteq> None"
      "es = [] \<or> (\<exists>mid. es = TempCreated tmp # mid @ [TempUnlinked tmp]
         \<and> set mid \<subseteq> {TempModed mode, TempWritten tmp content, TempSynced})"
      "has_prefix tmp ''.pub-''"
  | (placed) tmp r tail where "publish_file_at w name content mode replace = (r,
       [TempCreated tmp, TempModed mode, TempWritten tmp content, TempSynced,
        if replace then TempRenamed tmp name else TempLinked tmp name] @ tail)"
      "tail = (if pw_dirsync w = None then [DirectorySynced] else []) @ (if replace then [] else [TempUnlinked tmp])"
      "has_prefix tmp ''.pub-''"
proof (cases "random_id (pw_rand w)")
  case None
  show thesis
    by (rule early [where es = "[]" and tmp = "''.pub-''"]) (use None in \<open>auto simp: publish_file_at_def has_prefix_def\<close>)
next
  case (Some rid)
  let ?tmp = "''.pub-'' @ take 16 rid"
  have p: "has_prefix ?tmp ''.pub-''" by (rule has_prefix_append)
  show thesis
  proof (cases "pw_create w = None \<and> pw_chmod w = None \<and> pw_write w = None \<and> pw_sync w = None
      \<and> pw_close w = None \<and> pw_place w = None")
    case True
    with Some p show thesis
      by (intro placed [where tmp = ?tmp and tail = "(if pw_dirsync w = None then [DirectorySynced] else []) @ (if replace then [] else [TempUnlinked ?tmp])"])
        (auto simp: publish_file_at_def after_place_def Let_def)
  next
    case False
    obtain r es where x: "publish_file_at w name content mode replace = (r, es)" by fastforce
    show thesis
      by (rule early [OF x, where tmp = ?tmp])
        (use x Some p False in \<open>auto simp: publish_file_at_def after_place_def Let_def split: option.splits\<close>)
  qed
qed

lemma steps_on_apart:
  assumes "\<forall>e \<in> set es. case e of TempRenamed t n \<Rightarrow> False | TempLinked t n \<Rightarrow> False
      | TempCreated t \<Rightarrow> t = tmp | TempWritten t c \<Rightarrow> t = tmp | TempUnlinked t \<Rightarrow> t = tmp | _ \<Rightarrow> True" and "m \<noteq> tmp"
  shows "steps_on es d m = d m"
  using assms(1)
proof (induction es arbitrary: d)
  case (Cons e es)
  with assms(2) show ?case by (cases e) (auto simp: steps_on_def)
qed (simp add: steps_on_def)

lemma steps_on_append: "steps_on (es @ fs) d = steps_on fs (steps_on es d)"
  by (simp add: steps_on_def)

subsection \<open>Removing an entry\<close>

text \<open>
  \<open>removeAt\<close> on a tree that nobody else changes meanwhile: an unlink that is not denied takes effect,
  a directory is emptied first, in the order its names are read, and never below the depth bound.
  The result is the error, if any, and what is left of the entry.
\<close>

datatype entry = Leaf | Dir "(string \<times> entry) list"

datatype remove_error = UnlinkDenied io_err | TooDeep

definition max_remove_depth :: nat where "max_remove_depth = 128"

fun remove_at_depth :: "(string list \<Rightarrow> io_err option) \<Rightarrow> string list \<Rightarrow> nat \<Rightarrow> entry \<Rightarrow> remove_error option \<times> entry option"
  and remove_children :: "(string list \<Rightarrow> io_err option) \<Rightarrow> string list \<Rightarrow> nat \<Rightarrow> (string \<times> entry) list
      \<Rightarrow> remove_error option \<times> (string \<times> entry) list" where
  "remove_at_depth denied path depth Leaf =
     (case denied path of None \<Rightarrow> (None, None) | Some e \<Rightarrow> (Some (UnlinkDenied e), Some Leaf))"
| "remove_at_depth denied path depth (Dir children) =
     (if depth \<ge> max_remove_depth then (Some TooDeep, Some (Dir children))
      else (case remove_children denied path (Suc depth) children of
              (Some e, left) \<Rightarrow> (Some e, Some (Dir left))
            | (None, left) \<Rightarrow>
                (case denied path of None \<Rightarrow> (None, None) | Some e \<Rightarrow> (Some (UnlinkDenied e), Some (Dir left)))))"
| "remove_children denied path depth [] = (None, [])"
| "remove_children denied path depth ((name, x) # rest) =
     (case remove_at_depth denied (path @ [name]) depth x of
        (None, _) \<Rightarrow> remove_children denied path depth rest
      | (Some e, None) \<Rightarrow> (Some e, rest)
      | (Some e, Some left) \<Rightarrow> (Some e, (name, left) # rest))"

fun entry_height :: "entry \<Rightarrow> nat" where
  "entry_height Leaf = 0"
| "entry_height (Dir children) = Suc (foldr (\<lambda>(_, x) n. max (entry_height x) n) children 0)"

lemma height_le: "(n, x) \<in> set children \<Longrightarrow> entry_height x \<le> foldr (\<lambda>(_, x) n. max (entry_height x) n) children 0"
  by (induction children) auto

lemma remove_complete:
  "(\<And>p. denied p = None) \<Longrightarrow> entry_height x + depth \<le> max_remove_depth \<Longrightarrow> remove_at_depth denied path depth x = (None, None)"
  "(\<And>p. denied p = None) \<Longrightarrow> foldr (\<lambda>(_, x) n. max (entry_height x) n) children 0 + depth \<le> max_remove_depth \<Longrightarrow>
     remove_children denied path depth children = (None, [])"
  by (induction denied path depth x and denied path depth children rule: remove_at_depth_remove_children.induct)
    (auto split: prod.splits option.splits)

subsection \<open>Properties\<close>





end
