(* ===== verification/Keyring.thy ===== *)
theory Keyring
  imports TrustedDir AssertionProvider Claims IssueVerify
begin

text \<open>
  The key ring of \<open>internal/identity/keyring.go\<close>: reading the private key from a trusted directory,
  the public key and its thumbprint, signing, and the key set it publishes. PEM, PKCS#8 and the
  signature algorithms are parameters: a parsed key is its public half and what it signs.
\<close>

subsection \<open>Reading the key\<close>

datatype private_key =
    EdPrivate string "string \<Rightarrow> string"
  | EcPrivate bool nat nat "string \<Rightarrow> (nat \<times> nat) option"
  | OtherPrivate

record key_lib =
  kl_pem :: "string \<Rightarrow> (string \<times> string) option"
  kl_pkcs8 :: "string \<Rightarrow> private_key option"

datatype keyring_error =
    KeyDirUntrusted trust_error | KeyUnopened open_error | KeyModeLoose nat | KeyForeign nat | KeyUnread io_err
  | KeyTooLarge | KeyNoBlock | KeyNotParsed | KeyWrongCurve | KeyWrongType | KeyAlgMismatch string string

definition max_key_file_bytes :: nat where "max_key_file_bytes = 64 * 1024"

definition read_private_key_pem ::
    "key_lib \<Rightarrow> walk_world \<Rightarrow> dir_files \<Rightarrow> string \<Rightarrow> string \<Rightarrow> keyring_error + string" where
  "read_private_key_pem lib w files path want =
     (case open_trusted_dir w (path_dir path) 0 of
        Inl e \<Rightarrow> Inl (KeyDirUntrusted e)
      | Inr _ \<Rightarrow>
          (case open_regular_at files (path_base path) of
             Inl e \<Rightarrow> Inl (KeyUnopened e)
           | Inr (fi, content) \<Rightarrow>
               if fi_perm fi mod 64 \<noteq> 0 then Inl (KeyModeLoose (fi_perm fi))
               else if fi_uid fi \<noteq> ww_euid w then Inl (KeyForeign (fi_uid fi))
               else (case content of
                       Inl e \<Rightarrow> Inl (KeyUnread e)
                     | Inr raw \<Rightarrow>
                         if length raw > max_key_file_bytes then Inl KeyTooLarge
                         else (case kl_pem lib raw of
                                 None \<Rightarrow> Inl KeyNoBlock
                               | Some (kind, bytes) \<Rightarrow> if kind \<noteq> want then Inl KeyNoBlock else Inr bytes))))"

subsection \<open>The public key\<close>

text \<open>\<open>FillBytes\<close>: big endian, to a fixed number of bytes.\<close>

fun fill_bytes :: "nat \<Rightarrow> nat \<Rightarrow> string" where
  "fill_bytes 0 n = []"
| "fill_bytes (Suc k) n = fill_bytes k (n div 256) @ [char_of (n mod 256)]"

text \<open>The members are names and base64 texts, which \<open>%q\<close> puts in quotes as they are.\<close>

definition quoted :: "string \<Rightarrow> string" where
  "quoted s = CHR 0x22 # s @ [CHR 0x22]"

definition thumbprint :: "crypto \<Rightarrow> (string \<times> string) list \<Rightarrow> string" where
  "thumbprint cr required =
     b64url_encode (sha256 cr (CHR 0x7B # join_with '','' (map (\<lambda>(k, v). quoted k @ '':'' @ quoted v) required) @ [CHR 0x7D]))"

definition ed_public :: "crypto \<Rightarrow> string \<Rightarrow> public_key" where
  "ed_public cr pub =
     (let x = b64url_encode pub;
          kid = thumbprint cr [(''crv'', ''Ed25519''), (''kty'', ''OKP''), (''x'', x)]
      in \<lparr>pk_jwk = \<lparr>jwk_kty = ''OKP'', jwk_crv = ''Ed25519'', jwk_kid = kid, jwk_alg = ''EdDSA'', jwk_use = ''sig'',
                   jwk_x = x, jwk_y = []\<rparr>,
          pk_ed = Some pub, pk_ec = (0, 0)\<rparr>)"

definition ec_public :: "crypto \<Rightarrow> nat \<Rightarrow> nat \<Rightarrow> public_key" where
  "ec_public cr px py =
     (let xs = b64url_encode (fill_bytes 32 px); ys = b64url_encode (fill_bytes 32 py);
          kid = thumbprint cr [(''crv'', ''P-256''), (''kty'', ''EC''), (''x'', xs), (''y'', ys)]
      in \<lparr>pk_jwk = \<lparr>jwk_kty = ''EC'', jwk_crv = ''P-256'', jwk_kid = kid, jwk_alg = ''ES256'', jwk_use = ''sig'',
                   jwk_x = xs, jwk_y = ys\<rparr>,
          pk_ed = None, pk_ec = (px, py)\<rparr>)"

definition keyring_sign :: "crypto \<Rightarrow> private_key \<Rightarrow> string \<Rightarrow> string option" where
  "keyring_sign cr key input =
     (case key of
        EdPrivate pub sign \<Rightarrow> Some (sign input)
      | EcPrivate p256 px py sign \<Rightarrow>
          (case sign (sha256 cr input) of None \<Rightarrow> None | Some (r, s) \<Rightarrow> Some (fill_bytes 32 r @ fill_bytes 32 s))
      | OtherPrivate \<Rightarrow> None)"

definition ring_of :: "crypto \<Rightarrow> private_key \<Rightarrow> public_key \<Rightarrow> keyring" where
  "ring_of cr key current = \<lparr>kr_current = current, kr_public = [current], kr_sign = keyring_sign cr key\<rparr>"

definition check_alg :: "crypto \<Rightarrow> string \<Rightarrow> private_key \<Rightarrow> public_key \<Rightarrow> keyring_error + keyring" where
  "check_alg cr want key current =
     (if want \<noteq> [] \<and> want \<noteq> jwk_alg (pk_jwk current) then Inl (KeyAlgMismatch want (jwk_alg (pk_jwk current)))
      else Inr (ring_of cr key current))"

definition load_keyring ::
    "crypto \<Rightarrow> key_lib \<Rightarrow> walk_world \<Rightarrow> dir_files \<Rightarrow> string \<Rightarrow> string \<Rightarrow> keyring_error + keyring" where
  "load_keyring cr lib w files path want =
     (case read_private_key_pem lib w files path ''PRIVATE KEY'' of
        Inl e \<Rightarrow> Inl e
      | Inr der \<Rightarrow>
          (case kl_pkcs8 lib der of
             None \<Rightarrow> Inl KeyNotParsed
           | Some (EdPrivate pub sign) \<Rightarrow> check_alg cr want (EdPrivate pub sign) (ed_public cr pub)
           | Some (EcPrivate p256 px py sign) \<Rightarrow>
               if \<not> p256 then Inl KeyWrongCurve
               else check_alg cr want (EcPrivate p256 px py sign) (ec_public cr px py)
           | Some OtherPrivate \<Rightarrow> Inl KeyWrongType))"

subsection \<open>The published key set\<close>

definition jwk_json :: "jwk \<Rightarrow> json" where
  "jwk_json k =
     JObj ([(''kty'', JStr (jwk_kty k)), (''crv'', JStr (jwk_crv k)), (''kid'', JStr (jwk_kid k)),
            (''alg'', JStr (jwk_alg k)), (''use'', JStr (jwk_use k)), (''x'', JStr (jwk_x k))]
       @ (if jwk_y k = [] then [] else [(''y'', JStr (jwk_y k))]))"

definition jwks_json :: "keyring \<Rightarrow> json" where
  "jwks_json k = JObj [(''keys'', JArr (map jwk_json (jwks_of (kr_public k))))]"

text \<open>\<open>json.MarshalIndent\<close> with two spaces.\<close>

definition line_break :: "nat \<Rightarrow> string" where
  "line_break n = CHR 0x0A # replicate (2 * n) CHR 0x20"

fun json_indent :: "nat \<Rightarrow> json \<Rightarrow> string" where
  "json_indent n (JArr (v # vs)) =
     CHR 0x5B # line_break (Suc n)
       @ join_with ('','' @ line_break (Suc n)) (map (json_indent (Suc n)) (v # vs)) @ line_break n @ [CHR 0x5D]"
| "json_indent n (JObj (m # ms)) =
     CHR 0x7B # line_break (Suc n)
       @ join_with ('','' @ line_break (Suc n))
           (map (\<lambda>(k, v). enc_string k @ '': '' @ json_indent (Suc n) v) (m # ms)) @ line_break n @ [CHR 0x7D]"
| "json_indent n v = json_encode v"

definition marshal_jwks :: "keyring \<Rightarrow> string" where
  "marshal_jwks k = json_indent 0 (jwks_json k)"

subsection \<open>Indentation is not read\<close>

lemma tokens_space: "\<forall>c \<in> set s. json_space c \<Longrightarrow> tokens (s @ r) = tokens r"
  by (induction s) (simp_all add: tokens.simps(2))

lemma tokens_break [simp]: "tokens (line_break n @ r) = tokens r"
  by (rule tokens_space) (auto simp: line_break_def json_space_def)

text \<open>Values without numbers: what follows their encoding does not matter.\<close>

fun no_numbers :: "json \<Rightarrow> bool" where
  "no_numbers (JNum s) = False"
| "no_numbers (JStr s) = utf8_valid s"
| "no_numbers (JArr vs) = (\<forall>v \<in> set vs. no_numbers v)"
| "no_numbers (JObj ms) = (\<forall>(k, v) \<in> set ms. utf8_valid k \<and> no_numbers v)"
| "no_numbers _ = True"

lemma tokens_joined:
  assumes "\<And>x r. x \<in> set xs \<Longrightarrow> tokens (f x @ r) = map_option ((@) (g x)) (tokens r)" and "\<And>r. tokens (sep @ r) = tokens r"
  shows "tokens (join_with ('','' @ sep) (map f xs) @ r) = map_option ((@) (sep_toks (map g xs))) (tokens r)"
  using assms(1)
proof (induction xs)
  case Nil
  then show ?case by (cases "tokens r") auto
next
  case (Cons x xs)
  show ?case
  proof (cases xs)
    case Nil
    then show ?thesis using Cons.prems by simp
  next
    case (Cons y ys)
    then show ?thesis
      using Cons.IH Cons.prems assms(2)
      by (simp add: tokens_punct option.map_comp comp_def)
  qed
qed

lemma tokens_json_indent: "no_numbers v \<Longrightarrow> tokens (json_indent n v @ r) = map_option ((@) (toks v)) (tokens r)"
proof (induction n v arbitrary: r rule: json_indent.induct)
  case (1 n v vs)
  have "tokens (join_with ('','' @ line_break (Suc n)) (map (json_indent (Suc n)) (v # vs)) @ line_break n @ CHR 0x5D # r)
      = map_option ((@) (sep_toks (map toks (v # vs)))) (tokens (line_break n @ CHR 0x5D # r))"
    by (rule tokens_joined) (use 1 in auto)
  then show ?case by (simp add: tokens_punct option.map_comp comp_def)
next
  case (2 n m ms)
  have "tokens (join_with ('','' @ line_break (Suc n))
        (map (\<lambda>(k, v). enc_string k @ '': '' @ json_indent (Suc n) v) (m # ms)) @ line_break n @ CHR 0x7D # r)
      = map_option ((@) (sep_toks (map (\<lambda>(k, v). TStr k # TColon # toks v) (m # ms)))) (tokens (line_break n @ CHR 0x7D # r))"
  proof (rule tokens_joined)
    fix x q
    assume x: "x \<in> set (m # ms)"
    obtain k v where kv: "x = (k, v)" by (cases x)
    from x kv 2(2) have u: "utf8_valid k" "no_numbers v" by auto
    have "tokens (CHR 0x20 # json_indent (Suc n) v @ q) = map_option ((@) (toks v)) (tokens q)"
      using tokens_space [of "'' ''"] 2(1) [OF x kv [symmetric] u(2)] by (simp add: json_space_def)
    then show "tokens ((case x of (k, v) \<Rightarrow> enc_string k @ '': '' @ json_indent (Suc n) v) @ q)
        = map_option ((@) (case x of (k, v) \<Rightarrow> TStr k # TColon # toks v)) (tokens q)"
      by (cases "tokens q") (simp_all add: kv tokens_enc_string u tokens_punct option.map_comp comp_def)
  qed simp
  then show ?case by (simp add: tokens_punct option.map_comp comp_def)
qed (simp_all add: tokens_words [simplified] tokens_enc_string tokens_punct option.map_comp comp_def,
  auto intro!: option.map_cong)

lemma json_parse_indent:
  assumes "no_numbers v" and "fits 0 v"
  shows "json_parse (json_indent n v) = Some v"
proof -
  have "tokens (json_indent n v) = Some (toks v)"
    using tokens_json_indent [OF assms(1), of n "[]"] by simp
  moreover obtain m where "p_val m 0 (toks v) = Some (v, [])"
    using p_val_toks [OF assms(2), of "[]"] by auto
  ultimately show ?thesis by (simp add: json_parse_def parse_tokens_enough)
qed

subsection \<open>The published document is read back\<close>

definition clean_jwk :: "jwk \<Rightarrow> bool" where
  "clean_jwk k \<longleftrightarrow> utf8_valid (jwk_kty k) \<and> utf8_valid (jwk_crv k) \<and> utf8_valid (jwk_kid k) \<and> utf8_valid (jwk_alg k)
     \<and> utf8_valid (jwk_use k) \<and> utf8_valid (jwk_x k) \<and> utf8_valid (jwk_y k)"

lemma jwk_names [simp]:
  "fold_key ''kty'' = ''kty''" "fold_key ''crv'' = ''crv''" "fold_key ''kid'' = ''kid''" "fold_key ''alg'' = ''alg''"
  "fold_key ''use'' = ''use''" "fold_key ''x'' = ''x''" "fold_key ''y'' = ''y''" "fold_key ''keys'' = ''keys''"
  by (rule fold_key_lower; simp add: char_class_defs)+

lemma decode_jwk_json: "decode_jwk zero_jwk (jwk_json k) = Some k"
  by (cases "jwk_y k = []") (simp_all add: decode_jwk_def jwk_json_def string_field_def field_values_def zero_jwk_def)

lemma decode_elems_json: "decode_elems [] (map jwk_json ks) = Some ks"
  by (induction ks) (simp_all add: decode_jwk_json)

lemma jwk_member_names: "utf8_valid ''kty''" "utf8_valid ''crv''" "utf8_valid ''kid''" "utf8_valid ''alg''"
    "utf8_valid ''use''" "utf8_valid ''x''" "utf8_valid ''y''" "utf8_valid ''keys''"
  by (rule utf8_ascii; simp add: code_def)+

lemma jwks_json_clean:
  assumes "list_all clean_jwk (jwks_of (kr_public k))"
  shows "no_numbers (jwks_json k)" and "fits 0 (jwks_json k)"
proof -
  show "no_numbers (jwks_json k)"
    using assms jwk_member_names by (auto simp: jwks_json_def jwk_json_def clean_jwk_def list_all_iff)
  show "fits 0 (jwks_json k)"
    by (auto simp: jwks_json_def jwk_json_def max_depth_def)
qed

lemma parse_marshalled:
  assumes "list_all clean_jwk (jwks_of (kr_public k))"
  shows "parse_jwks (marshal_jwks k) = Inr (jwks_of (kr_public k))"
proof -
  have p: "json_parse (marshal_jwks k) = Some (jwks_json k)"
    unfolding marshal_jwks_def by (rule json_parse_indent) (use jwks_json_clean [OF assms] in auto)
  show ?thesis
  proof (cases "jwks_of (kr_public k)")
    case Nil
    then show ?thesis by (simp add: parse_jwks_def p) (simp add: jwks_json_def field_values_def decode_keys_def)
  next
    case (Cons x xs)
    then show ?thesis
      by (simp add: parse_jwks_def p)
        (simp add: jwks_json_def field_values_def decode_keys_def decode_jwk_json decode_elems_json)
  qed
qed

subsection \<open>What a loaded ring signs verifies\<close>

text \<open>What is relied on of the libraries: a key verifies what it signs, and values have their sizes.\<close>

definition lawful_key :: "crypto \<Rightarrow> private_key \<Rightarrow> bool" where
  "lawful_key cr key \<longleftrightarrow>
     (\<forall>s. length (sha256 cr s) = 32)
     \<and> (case key of
          EdPrivate pub sign \<Rightarrow> length pub = 32 \<and> (\<forall>m. ed25519_verify cr pub m (sign m))
        | EcPrivate p256 px py sign \<Rightarrow>
            px < 256 ^ 32 \<and> py < 256 ^ 32 \<and> p256_on_curve cr px py
            \<and> (\<forall>d r s. sign d = Some (r, s) \<longrightarrow> r < 256 ^ 32 \<and> s < 256 ^ 32 \<and> ecdsa_verify cr px py d r s)
        | OtherPrivate \<Rightarrow> True)"

lemma fill_bytes_length [simp]: "length (fill_bytes k n) = k"
  by (induction k arbitrary: n) auto

lemma fill_bytes_value: "n < 256 ^ k \<Longrightarrow> bytes_nat (fill_bytes k n) = n"
proof (induction k arbitrary: n)
  case (Suc k)
  then have "n div 256 < 256 ^ k" by (simp add: less_mult_imp_div_less mult.commute)
  with Suc.IH have "bytes_nat (fill_bytes k (n div 256)) = n div 256" by blast
  then show ?case by (simp add: bytes_nat_def code_def)
qed (simp add: bytes_nat_def)

lemma load_keyring_Inr:
  assumes "load_keyring cr lib w files path want = Inr k"
  obtains (ed) pub sign der where "kl_pkcs8 lib der = Some (EdPrivate pub sign)"
      "k = ring_of cr (EdPrivate pub sign) (ed_public cr pub)"
  | (ec) px py sign der where "kl_pkcs8 lib der = Some (EcPrivate True px py sign)"
      "k = ring_of cr (EcPrivate True px py sign) (ec_public cr px py)"
proof -
  from assms obtain der key where p: "kl_pkcs8 lib der = Some key"
    and k: "(case key of EdPrivate pub sign \<Rightarrow> check_alg cr want key (ed_public cr pub)
       | EcPrivate p256 px py sign \<Rightarrow> if \<not> p256 then Inl KeyWrongCurve else check_alg cr want key (ec_public cr px py)
       | OtherPrivate \<Rightarrow> Inl KeyWrongType) = Inr k"
    by (auto simp: load_keyring_def split: sum.splits option.splits private_key.splits)
  show thesis
  proof (cases key)
    case (EdPrivate pub sign)
    with k p show thesis by (intro ed) (auto simp: check_alg_def split: if_splits)
  next
    case (EcPrivate p256 px py sign)
    with k p show thesis by (intro ec) (auto simp: check_alg_def split: if_splits)
  qed (use k in auto)
qed

text \<open>Key ring and published key agree about a signature.\<close>

lemma ring_signs:
  assumes "lawful_key cr key" and "key = EdPrivate pub sg \<and> cur = ed_public cr pub \<or> key = EcPrivate p px py sg' \<and> cur = ec_public cr px py"
    and "keyring_sign cr key input = Some sig"
  shows "verify_signature cr (pk_jwk cur) (jwk_alg (pk_jwk cur)) input sig"
    and "keyring_verify cr [cur] (jwk_kid (pk_jwk cur)) (jwk_alg (pk_jwk cur)) input sig"
  using assms
  by (auto simp: keyring_sign_def lawful_key_def ed_public_def ec_public_def verify_signature_def b64url_roundtrip
      fill_bytes_value Let_def split: option.splits)

lemma thumbprint_clean:
  assumes "\<forall>s. length (sha256 cr s) = 32"
  shows "thumbprint cr ms \<noteq> [] \<and> utf8_valid (thumbprint cr ms)"
proof -
  have "b64url_encode s \<noteq> []" if "length s = 32" for s
    using b64url_roundtrip [of s] that by (auto simp: b64url_decode_def)
  moreover have "utf8_valid (b64url_encode s)" for s
    by (rule utf8_ascii) (use b64url_graphic in \<open>force simp: graphic_def\<close>)
  ultimately show ?thesis using assms by (simp add: thumbprint_def)
qed

lemma b64url_utf8: "utf8_valid (b64url_encode s)"
  by (rule utf8_ascii) (use b64url_graphic in \<open>force simp: graphic_def\<close>)

lemma ascii_names:
  "utf8_valid ''OKP''" "utf8_valid ''Ed25519''" "utf8_valid ''EdDSA''" "utf8_valid ''sig''" "utf8_valid ''EC''"
  "utf8_valid ''P-256''" "utf8_valid ''ES256''" "utf8_valid []"
  by (rule utf8_ascii; simp add: code_def)+

text \<open>The key comes out of a regular file that only the serving user can read, in a trusted directory.\<close>

lemma key_read_private:
  assumes "read_private_key_pem lib w files path want = Inr der"
  obtains clean fi raw where "open_trusted_dir w (path_dir path) 0 = Inr clean"
    "open_regular_at files (path_base path) = Inr (fi, Inr raw)" "fi_uid fi = ww_euid w" "fi_perm fi mod 64 = 0"
    "length raw \<le> max_key_file_bytes" "kl_pem lib raw = Some (want, der)"
  using assms by (auto simp: read_private_key_pem_def split: sum.splits option.splits prod.splits if_splits)

lemma ring_trusted:
  assumes "load_keyring cr lib w files path want = Inr k"
    and "\<And>der key. kl_pkcs8 lib der = Some key \<Longrightarrow> lawful_key cr key"
    and "ks_trusted src iss" and "ks_keys src iss = parse_jwks (marshal_jwks k)"
  shows "sound_keyring cr k \<and> trusts cr src k iss"
  using assms(1)
proof (cases rule: load_keyring_Inr)
  case (ed pub sign der)
  let ?cur = "ed_public cr pub"
  have law: "lawful_key cr (EdPrivate pub sign)" by (rule assms(2) [OF ed(1)])
  note tp = thumbprint_clean [of cr "[(''crv'', ''Ed25519''), (''kty'', ''OKP''), (''x'', b64url_encode pub)]"]
  have clean: "list_all clean_jwk (jwks_of (kr_public k))"
    using law tp b64url_utf8 ascii_names
    by (auto simp: ed(2) ring_of_def ed_public_def clean_jwk_def Let_def lawful_key_def)
  have s: "verify_signature cr (pk_jwk ?cur) (jwk_alg (pk_jwk ?cur)) m sg"
    "keyring_verify cr [?cur] (jwk_kid (pk_jwk ?cur)) (jwk_alg (pk_jwk ?cur)) m sg"
    if "keyring_sign cr (EdPrivate pub sign) m = Some sg" for m sg
    using ring_signs [OF law _ that, where cur = ?cur] by auto
  show ?thesis
    using s tp law assms(3,4) parse_marshalled [OF clean]
    by (auto simp: sound_keyring_def trusts_def ed(2) ring_of_def Let_def lawful_key_def) (auto simp: ed_public_def Let_def)
next
  case (ec px py sign der)
  let ?cur = "ec_public cr px py"
  have law: "lawful_key cr (EcPrivate True px py sign)" by (rule assms(2) [OF ec(1)])
  note tp = thumbprint_clean [of cr "[(''crv'', ''P-256''), (''kty'', ''EC''), (''x'', b64url_encode (fill_bytes 32 px)),
      (''y'', b64url_encode (fill_bytes 32 py))]"]
  have clean: "list_all clean_jwk (jwks_of (kr_public k))"
    using law tp b64url_utf8 ascii_names
    by (auto simp: ec(2) ring_of_def ec_public_def clean_jwk_def Let_def lawful_key_def)
  have s: "verify_signature cr (pk_jwk ?cur) (jwk_alg (pk_jwk ?cur)) m sg"
    "keyring_verify cr [?cur] (jwk_kid (pk_jwk ?cur)) (jwk_alg (pk_jwk ?cur)) m sg"
    if "keyring_sign cr (EcPrivate True px py sign) m = Some sg" for m sg
    using ring_signs [OF law _ that, where cur = ?cur] by auto
  show ?thesis
    using s tp law assms(3,4) parse_marshalled [OF clean]
    by (auto simp: sound_keyring_def trusts_def ec(2) ring_of_def Let_def lawful_key_def) (auto simp: ec_public_def Let_def)
qed

subsection \<open>Properties\<close>

text \<open>C32: A loaded key ring is one that verifiers can use: it verifies everything it signs, and a verifier that
  trusts the issuer's name and reads the key set document the ring publishes has in it the key under which
  every signature of the ring verifies. It rests on the library's keys verifying what they sign.\<close>
theorem loaded_keyring_trusted:
  assumes "load_keyring cr lib w files path want = Inr k"
    and "\<And>der key. kl_pkcs8 lib der = Some key \<Longrightarrow> lawful_key cr key"
    and "ks_trusted src iss" and "ks_keys src iss = parse_jwks (marshal_jwks k)"
  shows "sound_keyring cr k \<and> trusts cr src k iss"
  using assms by (rule ring_trusted)

definition sample_ed :: private_key where
  "sample_ed = EdPrivate (replicate 32 CHR ''x'') (\<lambda>m. ''sig'')"

definition sample_ed_crypto :: crypto where
  "sample_ed_crypto = \<lparr>ed25519_verify = (\<lambda>_ _ s. s = ''sig''), p256_on_curve = (\<lambda>_ _. False),
     ecdsa_verify = (\<lambda>_ _ _ _ _. False), sha256 = (\<lambda>_. replicate 32 CHR ''h'')\<rparr>"

definition sample_walk :: walk_world where
  "sample_walk = \<lparr>ww_euid = 5, ww_root = Inr (Some \<lparr>ds_uid = 0, ds_mode = 493\<rparr>),
     ww_openat = (\<lambda>_ _. Inr (Some \<lparr>ds_uid = 0, ds_mode = 493\<rparr>)), ww_mkdirat = (\<lambda>_. None), ww_reopen = None,
     ww_fchmod = None, ww_created = Some \<lparr>ds_uid = 0, ds_mode = 493\<rparr>\<rparr>"

definition sample_key_lib :: key_lib where
  "sample_key_lib = \<lparr>kl_pem = (\<lambda>raw. Some (''PRIVATE KEY'', raw)), kl_pkcs8 = (\<lambda>_. Some sample_ed)\<rparr>"

lemma sample_ring:
  assumes "open_regular_at files ''k.pem'' = Inr (\<lparr>fi_kind = RegularFile, fi_perm = 384, fi_uid = 5\<rparr>, Inr ''k'')"
  shows "load_keyring sample_ed_crypto sample_key_lib sample_walk files ''/k.pem'' []
    = Inr (ring_of sample_ed_crypto sample_ed (ed_public sample_ed_crypto (replicate 32 CHR ''x'')))"
proof -
  have p: "path_dir ''/k.pem'' = ''/''" "path_base ''/k.pem'' = ''k.pem''" "is_abs ''/''" "path_clean ''/'' = ''/''"
    "path_parts ''/'' = []" by code_simp+
  have "open_trusted_dir sample_walk ''/'' 0 = Inr ''/''"
    by (simp add: open_trusted_dir_def p group_or_other_write_def check_trusted_dir_def trusted_owner_def sample_walk_def)
  with assms show ?thesis
    by (simp add: load_keyring_def read_private_key_pem_def p sample_key_lib_def sample_walk_def max_key_file_bytes_def
        sample_ed_def check_alg_def)
qed

theorem loaded_keyring_trusted_witness:
  "\<exists>k src. kr_public k = [ed_public sample_ed_crypto (replicate 32 CHR ''x'')] \<and> sound_keyring sample_ed_crypto k
    \<and> trusts sample_ed_crypto src k ''unix:///s''"
proof -
  let ?k = "ring_of sample_ed_crypto sample_ed (ed_public sample_ed_crypto (replicate 32 CHR ''x''))"
  let ?src = "\<lparr>ks_trusted = (\<lambda>_. True), ks_keys = (\<lambda>_. parse_jwks (marshal_jwks ?k))\<rparr>"
  define files :: dir_files where
    "files = (\<lambda>_. Inr (Inr \<lparr>fi_kind = RegularFile, fi_perm = 384, fi_uid = 5\<rparr>, Inr ''k''))"
  have o: "open_regular_at files ''k.pem'' = Inr (\<lparr>fi_kind = RegularFile, fi_perm = 384, fi_uid = 5\<rparr>, Inr ''k'')"
    by (simp add: open_regular_at_def files_def)
  have law: "\<And>der key. kl_pkcs8 sample_key_lib der = Some key \<Longrightarrow> lawful_key sample_ed_crypto key"
    by (auto simp: sample_key_lib_def lawful_key_def sample_ed_def sample_ed_crypto_def)
  have t: "ks_trusted ?src ''unix:///s''" "ks_keys ?src ''unix:///s'' = parse_jwks (marshal_jwks ?k)" by simp_all
  have "kr_public ?k = [ed_public sample_ed_crypto (replicate 32 CHR ''x'')]" by (simp add: ring_of_def)
  moreover have "sound_keyring sample_ed_crypto ?k \<and> trusts sample_ed_crypto ?src ?k ''unix:///s''"
    by (rule loaded_keyring_trusted [OF sample_ring [OF o] _ t]) (rule law)
  ultimately show ?thesis by blast
qed

end
