(* ===== verification/Wire.thy ===== *)
theory Wire
  imports Issuer Http Keyring
begin

text \<open>
  The issuer's wire format: the types of \<open>internal/identity/wire.go\<close> written and read as JSON, the
  requests strictly (\<open>DisallowUnknownFields\<close>), the replies leniently, and that what is written is
  read back.
\<close>

definition path_jwks :: string where "path_jwks = ''/.well-known/jwks.json''"
definition path_issue_session :: string where "path_issue_session = ''/v1/issue-session''"
definition path_issue_child :: string where "path_issue_child = ''/v1/issue-child''"

definition code_text :: "issue_code \<Rightarrow> string" where
  "code_text c =
     (case c of
        BadRequest \<Rightarrow> ''bad_request'' | PeerUnattested \<Rightarrow> ''peer_unattested'' | PeerUIDRefused \<Rightarrow> ''peer_uid_refused''
      | RuntimeUnbound \<Rightarrow> ''runtime_unbound'' | RuntimeMismatch \<Rightarrow> ''runtime_mismatch''
      | OriginForbidden \<Rightarrow> ''origin_forbidden'' | DefinitionUnknown \<Rightarrow> ''definition_unknown''
      | ParentInvalid \<Rightarrow> ''parent_invalid'' | ParentExpired \<Rightarrow> ''parent_expired'' | ParentUnknown \<Rightarrow> ''parent_unknown''
      | UIDMismatch \<Rightarrow> ''uid_mismatch'' | PIDMismatch \<Rightarrow> ''parent_pid_mismatch'' | ExeMismatch \<Rightarrow> ''parent_exe_mismatch''
      | LifetimeEmpty \<Rightarrow> ''lifetime_empty'' | SpawnDirCode \<Rightarrow> ''spawn_dir'' | InternalCode \<Rightarrow> ''internal'')"

subsection \<open>Writing\<close>

definition opt_member :: "string \<Rightarrow> string \<Rightarrow> (string \<times> json) list" where
  "opt_member name s = (if s = [] then [] else [(name, JStr s)])"

definition strings_json :: "string list \<Rightarrow> json" where
  "strings_json ss = JArr (map JStr ss)"

definition runtime_decl_json :: "runtime_decl \<Rightarrow> json" where
  "runtime_decl_json d = JObj (opt_member ''id'' (rd_id d) @ opt_member ''version'' (rd_version d))"

definition session_request_json :: "session_request \<Rightarrow> json" where
  "session_request_json r =
     JObj (opt_member ''definition'' (sr_definition r) @ opt_member ''origin'' (sr_origin r)
       @ (case sr_runtime r of None \<Rightarrow> [] | Some d \<Rightarrow> [(''runtime'', runtime_decl_json d)]))"

definition child_request_json :: "child_request \<Rightarrow> json" where
  "child_request_json r =
     JObj [(''parent_token'', JStr (cr_parent_token r)), (''agent_type'', JStr (cr_agent_type r)),
           (''agent_id'', JStr (cr_agent_id r))]"

definition step_json :: "string \<times> string list \<Rightarrow> json" where
  "step_json s = JObj [(''policy'', JStr (fst s)), (''dropped'', strings_json (snd s))]"

definition narrowing_json :: "narrowing \<Rightarrow> json" where
  "narrowing_json n =
     JObj [(''policy'', JStr (nw_policy n)), (''dropped'', strings_json (nw_dropped n)),
           (''steps'', JArr (map step_json (nw_steps n)))]"

definition issued_json :: "issued \<Rightarrow> json" where
  "issued_json o' =
     JObj ([(''token'', JStr (iss_token o')), (''dir'', JStr (iss_dir o')),
            (''expires_at'', JNum (show_int (iss_expires_at o'))), (''sub'', JStr (iss_sub o')),
            (''actor'', JStr (iss_actor o')), (''grade'', JStr (iss_grade o')), (''roles'', strings_json (iss_roles o'))]
       @ (case iss_narrowed o' of None \<Rightarrow> [] | Some n \<Rightarrow> [(''narrowed'', narrowing_json n)]))"

definition refusal_json :: "refusal \<Rightarrow> json" where
  "refusal_json e = JObj [(''error'', JStr (code_text (rf_code e))), (''message'', JStr (rf_message e))]"

subsection \<open>Reading\<close>

text \<open>Every value given for a member is decoded over what the ones before it left.\<close>

definition field_with :: "('a \<Rightarrow> json \<Rightarrow> 'a option) \<Rightarrow> string \<Rightarrow> (string \<times> json) list \<Rightarrow> 'a \<Rightarrow> 'a option" where
  "field_with f name ms old = fold (\<lambda>v acc. Option.bind acc (\<lambda>a. f a v)) (field_values name ms) (Some old)"

text \<open>A slice is its elements and the backing array a later value of the member is decoded over.\<close>

type_synonym 'a slice = "'a list \<times> 'a list"

fun dec_elems :: "('a \<Rightarrow> json \<Rightarrow> 'a option) \<Rightarrow> 'a \<Rightarrow> 'a list \<Rightarrow> json list \<Rightarrow> 'a list option" where
  "dec_elems f zero buf [] = Some []"
| "dec_elems f zero buf (v # vs) =
     (case f (case buf of b # _ \<Rightarrow> b | [] \<Rightarrow> zero) v of
        None \<Rightarrow> None
      | Some x \<Rightarrow> map_option ((#) x) (dec_elems f zero (tl buf) vs))"

definition dec_list :: "('a \<Rightarrow> json \<Rightarrow> 'a option) \<Rightarrow> 'a \<Rightarrow> 'a slice \<Rightarrow> json \<Rightarrow> 'a slice option" where
  "dec_list f zero old v =
     (case v of
        JNull \<Rightarrow> Some ([], [])
      | JArr [] \<Rightarrow> Some ([], [])
      | JArr vs \<Rightarrow> map_option (\<lambda>xs. (xs, xs @ drop (length xs) (snd old))) (dec_elems f zero (snd old) vs)
      | _ \<Rightarrow> None)"

definition dec_string_list :: "string slice \<Rightarrow> json \<Rightarrow> string slice option" where
  "dec_string_list = dec_list dec_str []"

text \<open>\<open>DisallowUnknownFields\<close>.\<close>

definition known_members :: "string list \<Rightarrow> (string \<times> json) list \<Rightarrow> bool" where
  "known_members names ms \<longleftrightarrow> list_all (\<lambda>(k, v). fold_key k \<in> set names) ms"

definition dec_runtime_decl :: "runtime_decl option \<Rightarrow> json \<Rightarrow> runtime_decl option option" where
  "dec_runtime_decl old v =
     (case v of
        JNull \<Rightarrow> Some None
      | JObj ms \<Rightarrow>
          (let d = (case old of Some d \<Rightarrow> d | None \<Rightarrow> \<lparr>rd_id = [], rd_version = []\<rparr>)
           in if \<not> known_members [''id'', ''version''] ms then None
              else case (string_field (rd_id d) ''id'' ms, string_field (rd_version d) ''version'' ms) of
                     (Some i, Some ver) \<Rightarrow> Some (Some \<lparr>rd_id = i, rd_version = ver\<rparr>)
                   | _ \<Rightarrow> None)
      | _ \<Rightarrow> None)"

definition session_request_of_json :: "json \<Rightarrow> session_request option" where
  "session_request_of_json v =
     (case v of
        JObj ms \<Rightarrow>
          if \<not> known_members [''definition'', ''origin'', ''runtime''] ms then None
          else (case (string_field [] ''definition'' ms, string_field [] ''origin'' ms,
                      field_with dec_runtime_decl ''runtime'' ms None) of
                  (Some d, Some og, Some rt) \<Rightarrow> Some \<lparr>sr_definition = d, sr_origin = og, sr_runtime = rt\<rparr>
                | _ \<Rightarrow> None)
      | _ \<Rightarrow> None)"

definition child_request_of_json :: "json \<Rightarrow> child_request option" where
  "child_request_of_json v =
     (case v of
        JObj ms \<Rightarrow>
          if \<not> known_members [''parent_token'', ''agent_type'', ''agent_id''] ms then None
          else (case (string_field [] ''parent_token'' ms, string_field [] ''agent_type'' ms, string_field [] ''agent_id'' ms) of
                  (Some p, Some t, Some i) \<Rightarrow> Some \<lparr>cr_parent_token = p, cr_agent_type = t, cr_agent_id = i\<rparr>
                | _ \<Rightarrow> None)
      | _ \<Rightarrow> None)"

type_synonym step_state = "string \<times> string slice"
type_synonym narrowing_state = "string \<times> string slice \<times> step_state slice"

definition dec_step :: "step_state \<Rightarrow> json \<Rightarrow> step_state option" where
  "dec_step s v =
     (case v of
        JNull \<Rightarrow> Some s
      | JObj ms \<Rightarrow>
          (case (string_field (fst s) ''policy'' ms, field_with dec_string_list ''dropped'' ms (snd s)) of
             (Some p, Some d) \<Rightarrow> Some (p, d)
           | _ \<Rightarrow> None)
      | _ \<Rightarrow> None)"

definition dec_narrowed :: "narrowing_state option \<Rightarrow> json \<Rightarrow> narrowing_state option option" where
  "dec_narrowed old v =
     (case v of
        JNull \<Rightarrow> Some None
      | JObj ms \<Rightarrow>
          (let (p, d, st) = (case old of Some s \<Rightarrow> s | None \<Rightarrow> ([], ([], []), ([], [])))
           in case (string_field p ''policy'' ms, field_with dec_string_list ''dropped'' ms d,
                    field_with (dec_list dec_step ([], ([], []))) ''steps'' ms st) of
                (Some p', Some d', Some st') \<Rightarrow> Some (Some (p', d', st'))
              | _ \<Rightarrow> None)
      | _ \<Rightarrow> None)"

definition narrowing_of :: "narrowing_state \<Rightarrow> narrowing" where
  "narrowing_of s =
     (case s of (p, d, st) \<Rightarrow>
        \<lparr>nw_policy = p, nw_dropped = fst d, nw_steps = map (\<lambda>x. (fst x, fst (snd x))) (fst st)\<rparr>)"

definition zero_issued :: issued where
  "zero_issued = \<lparr>iss_token = [], iss_dir = [], iss_expires_at = 0, iss_sub = [], iss_actor = [], iss_grade = [],
     iss_roles = [], iss_narrowed = None\<rparr>"

definition issued_of_json :: "json \<Rightarrow> issued option" where
  "issued_of_json v =
     (case v of
        JNull \<Rightarrow> Some zero_issued
      | JObj ms \<Rightarrow>
          (case (string_field [] ''token'' ms, string_field [] ''dir'' ms, field_with dec_int ''expires_at'' ms 0,
                 string_field [] ''sub'' ms, string_field [] ''actor'' ms, string_field [] ''grade'' ms,
                 field_with dec_string_list ''roles'' ms ([], []), field_with dec_narrowed ''narrowed'' ms None) of
             (Some t, Some d, Some e, Some s, Some a, Some g, Some r, Some n) \<Rightarrow>
               Some \<lparr>iss_token = t, iss_dir = d, iss_expires_at = e, iss_sub = s, iss_actor = a, iss_grade = g,
                     iss_roles = fst r, iss_narrowed = map_option narrowing_of n\<rparr>
           | _ \<Rightarrow> None)
      | _ \<Rightarrow> None)"

definition issue_error_of_json :: "json \<Rightarrow> (string \<times> string) option" where
  "issue_error_of_json v =
     (case v of
        JNull \<Rightarrow> Some ([], [])
      | JObj ms \<Rightarrow>
          (case (string_field [] ''error'' ms, string_field [] ''message'' ms) of
             (Some c, Some msg) \<Rightarrow> Some (c, msg)
           | _ \<Rightarrow> None)
      | _ \<Rightarrow> None)"

subsection \<open>What is written is read back\<close>

lemma wire_keys [simp]:
  "fold_key ''definition'' = ''definition''" "fold_key ''runtime'' = ''runtime''"
  "fold_key ''token'' = ''token''" "fold_key ''actor'' = ''actor''" "fold_key ''narrowed'' = ''narrowed''"
  "fold_key ''policy'' = ''policy''" "fold_key ''dropped'' = ''dropped''" "fold_key ''steps'' = ''steps''"
  "fold_key ''error'' = ''error''" "fold_key ''message'' = ''message''"
  by (rule fold_key_lower; simp add: char_class_defs)+

lemma wire_keys_underscore [simp]:
  "fold_key ''parent_token'' = ''parent_token''" "fold_key ''agent_type'' = ''agent_type''"
  "fold_key ''agent_id'' = ''agent_id''" "fold_key ''expires_at'' = ''expires_at''"
  by (simp_all add: fold_key.simps lower_char_def char_class_defs)

lemmas wire_read = string_field_def field_values_def field_with_def known_members_def

lemma session_request_read: "session_request_of_json (session_request_json r) = Some r"
  by (cases r; cases "sr_runtime r")
    (auto simp: session_request_of_json_def session_request_json_def runtime_decl_json_def dec_runtime_decl_def
      opt_member_def wire_read)

lemma child_request_read: "child_request_of_json (child_request_json r) = Some r"
  by (cases r) (simp add: child_request_of_json_def child_request_json_def wire_read)

lemma dec_elems_map:
  assumes "\<And>x. x \<in> set xs \<Longrightarrow> f zero (g x) = Some (h x)"
  shows "dec_elems f zero [] (map g xs) = Some (map h xs)"
  using assms by (induction xs) auto

lemma dec_list_map:
  assumes "\<And>x. x \<in> set xs \<Longrightarrow> f zero (g x) = Some (h x)"
  shows "dec_list f zero ([], []) (JArr (map g xs)) = Some (map h xs, map h xs)"
  using dec_elems_map [of xs f zero g h] assms by (cases xs) (auto simp: dec_list_def)

lemma dec_string_list_map: "dec_string_list ([], []) (strings_json ss) = Some (ss, ss)"
  using dec_list_map [of ss dec_str "[]" JStr "\<lambda>s. s"] by (simp add: dec_string_list_def strings_json_def dec_str_def)

lemma dec_step_json: "dec_step ([], ([], [])) (step_json s) = Some (fst s, (snd s, snd s))"
  by (simp add: dec_step_def step_json_def wire_read dec_string_list_map)

lemma dec_narrowed_json:
  "\<exists>st. dec_narrowed None (narrowing_json n) = Some (Some st) \<and> narrowing_of st = n"
proof -
  have "dec_list dec_step ([], ([], [])) ([], []) (JArr (map step_json (nw_steps n)))
      = Some (map (\<lambda>s. (fst s, (snd s, snd s))) (nw_steps n), map (\<lambda>s. (fst s, (snd s, snd s))) (nw_steps n))"
    by (rule dec_list_map) (rule dec_step_json)
  then show ?thesis
    by (simp add: dec_narrowed_def narrowing_json_def wire_read dec_string_list_map narrowing_of_def comp_def)
qed

lemma issued_read:
  assumes "int64_range (iss_expires_at o')"
  shows "issued_of_json (issued_json o') = Some o'"
proof (cases "iss_narrowed o'")
  case None
  with assms show ?thesis
    by (cases o') (simp add: issued_of_json_def issued_json_def wire_read dec_string_list_map dec_int_def parse_show_int)
next
  case (Some n)
  obtain st where "dec_narrowed None (narrowing_json n) = Some (Some st)" "narrowing_of st = n"
    using dec_narrowed_json by blast
  with Some assms show ?thesis
    by (cases o') (simp add: issued_of_json_def issued_json_def wire_read dec_string_list_map dec_int_def parse_show_int)
qed

lemma refusal_read: "issue_error_of_json (refusal_json e) = Some (code_text (rf_code e), rf_message e)"
  by (simp add: issue_error_of_json_def refusal_json_def wire_read)

end
