(* ===== verification/IssuerSocket.thy ===== *)
theory IssuerSocket
  imports Wire
begin

text \<open>
  Requests over the issuer's socket: accepting connections, routing, decoding and answering
  (\<open>internal/identity/server.go\<close>), and the client on the other end (\<open>client.go\<close>). A connection is what
  accepting it and reading its peer credentials yield; a request carries the peer its connection was
  accepted with. What the standard library's multiplexer answers to other paths is a parameter.
\<close>

subsection \<open>Connections\<close>

datatype connection = AcceptFailed string | NotUnixConn | NoCredentials | FromPeer peer

text \<open>\<open>peerListener.Accept\<close> on the connections to come: the first that is served, or the listener's error.\<close>

fun accept_peer :: "connection list \<Rightarrow> ((string + peer) \<times> connection list) option" where
  "accept_peer [] = None"
| "accept_peer (AcceptFailed e # cs) = Some (Inl e, cs)"
| "accept_peer (NotUnixConn # cs) = accept_peer cs"
| "accept_peer (NoCredentials # cs) = accept_peer cs"
| "accept_peer (FromPeer p # cs) = Some (Inr p, cs)"

subsection \<open>The server\<close>

record http_reply =
  rp_status :: nat
  rp_headers :: "(string \<times> string) list"
  rp_body :: string

record served_request =
  hi_peer :: "peer option"
  hi_method :: string
  hi_path :: string
  hi_body :: "string option"

record server =
  sv_issuer :: issuer
  sv_crypto :: crypto
  sv_mux :: "string \<Rightarrow> string \<Rightarrow> http_reply"

definition max_request_bytes :: nat where "max_request_bytes = 64 * 1024"

definition content_type :: "(string \<times> string) list" where
  "content_type = [(''Content-Type'', ''application/json'')]"

definition encode_line :: "json \<Rightarrow> string" where
  "encode_line v = json_encode v @ [CHR 0x0A]"

definition write_refusal :: "refusal \<Rightarrow> http_reply" where
  "write_refusal e = \<lparr>rp_status = rf_status e, rp_headers = content_type, rp_body = encode_line (refusal_json e)\<rparr>"

definition respond :: "refusal + issued \<Rightarrow> http_reply" where
  "respond r =
     (case r of
        Inl e \<Rightarrow> write_refusal e
      | Inr out \<Rightarrow> \<lparr>rp_status = 200, rp_headers = content_type, rp_body = encode_line (issued_json out)\<rparr>)"

text \<open>
  The body is read whole (\<open>None\<close> is a failed read), must start with a brace, and must be one JSON
  value with nothing after it.
\<close>

definition decode_one_object :: "string option \<Rightarrow> json option" where
  "decode_one_object body =
     (case body of
        None \<Rightarrow> None
      | Some raw \<Rightarrow>
          if length raw > max_request_bytes then None
          else (case trim_space raw of
                  [] \<Rightarrow> None
                | c # _ \<Rightarrow> if c \<noteq> CHR 0x7B then None else json_parse raw))"

definition decode_request :: "(json \<Rightarrow> 'a option) \<Rightarrow> served_request \<Rightarrow> refusal + peer \<times> 'a" where
  "decode_request into h =
     (case hi_peer h of
        None \<Rightarrow> Inl (refuse 403 PeerUnattested)
      | Some p \<Rightarrow>
          (case Option.bind (decode_one_object (hi_body h)) into of
             None \<Rightarrow> Inl (refuse 400 BadRequest)
           | Some req \<Rightarrow> Inr (p, req)))"

definition serve_jwks :: "server \<Rightarrow> http_reply" where
  "serve_jwks sv = \<lparr>rp_status = 200, rp_headers = content_type @ [(''Cache-Control'', ''max-age=60'')],
     rp_body = marshal_jwks (ic_keys (sv_issuer sv))\<rparr>"

definition serve_session :: "server \<Rightarrow> issue_call \<Rightarrow> served_request \<Rightarrow> registry \<Rightarrow> http_reply \<times> registry \<times> dir_effect list" where
  "serve_session sv w h reg =
     (case decode_request session_request_of_json h of
        Inl e \<Rightarrow> (write_refusal e, reg, [])
      | Inr (p, req) \<Rightarrow> apfst respond (issue_session (sv_issuer sv) w p req reg))"

definition serve_child :: "server \<Rightarrow> issue_call \<Rightarrow> served_request \<Rightarrow> registry \<Rightarrow> http_reply \<times> registry \<times> dir_effect list" where
  "serve_child sv w h reg =
     (case decode_request child_request_of_json h of
        Inl e \<Rightarrow> (write_refusal e, reg, [])
      | Inr (p, req) \<Rightarrow> apfst respond (issue_child (sv_crypto sv) (sv_issuer sv) w p req reg))"

definition serve_request :: "server \<Rightarrow> issue_call \<Rightarrow> served_request \<Rightarrow> registry \<Rightarrow> http_reply \<times> registry \<times> dir_effect list" where
  "serve_request sv w h reg =
     (if hi_path h = path_jwks \<and> hi_method h \<in> {''GET'', ''HEAD''} then (serve_jwks sv, reg, [])
      else if hi_path h = path_issue_session \<and> hi_method h = ''POST'' then serve_session sv w h reg
      else if hi_path h = path_issue_child \<and> hi_method h = ''POST'' then serve_child sv w h reg
      else (sv_mux sv (hi_method h) (hi_path h), reg, []))"

subsection \<open>The client\<close>

datatype client_error =
    NoTransport string | RefusedByServer nat string string | ServerAnswered nat string | BadReply

type_synonym dialer = "string \<Rightarrow> string \<Rightarrow> string option \<Rightarrow> string + nat \<times> (string + string)"

definition max_reply_bytes :: nat where "max_reply_bytes = 1024 * 1024"

definition client_do :: "dialer \<Rightarrow> string \<Rightarrow> string \<Rightarrow> json option \<Rightarrow> client_error + string \<times> nat" where
  "client_do dial mth path body =
     (case dial mth path (map_option json_encode body) of
        Inl e \<Rightarrow> Inl (NoTransport e)
      | Inr (status, Inl e) \<Rightarrow> Inl (NoTransport e)
      | Inr (status, Inr out) \<Rightarrow> Inr (take max_reply_bytes out, status))"

definition client_issue :: "dialer \<Rightarrow> string \<Rightarrow> json \<Rightarrow> client_error + issued" where
  "client_issue dial path req =
     (case client_do dial ''POST'' path (Some req) of
        Inl e \<Rightarrow> Inl e
      | Inr (body, status) \<Rightarrow>
          if status \<noteq> 200 then
            (case Option.bind (json_parse body) issue_error_of_json of
               Some (c, msg) \<Rightarrow> if c \<noteq> [] then Inl (RefusedByServer status c msg) else Inl (ServerAnswered status body)
             | None \<Rightarrow> Inl (ServerAnswered status body))
          else (case Option.bind (json_parse body) issued_of_json of
                  None \<Rightarrow> Inl BadReply
                | Some out \<Rightarrow> Inr out))"

definition client_issue_session :: "dialer \<Rightarrow> session_request \<Rightarrow> client_error + issued" where
  "client_issue_session dial req = client_issue dial path_issue_session (session_request_json req)"

definition client_issue_child :: "dialer \<Rightarrow> child_request \<Rightarrow> client_error + issued" where
  "client_issue_child dial req = client_issue dial path_issue_child (child_request_json req)"

definition fetch_jwks_over :: "dialer \<Rightarrow> client_error + jwk list" where
  "fetch_jwks_over dial =
     (case client_do dial ''GET'' path_jwks None of
        Inl e \<Rightarrow> Inl e
      | Inr (body, status) \<Rightarrow>
          if status \<noteq> 200 then Inl (ServerAnswered status [])
          else (case parse_jwks body of Inl e \<Rightarrow> Inl BadReply | Inr ks \<Rightarrow> Inr ks))"

text \<open>The socket of a server, as a peer with a call in progress sees it.\<close>

definition socket_of :: "server \<Rightarrow> issue_call \<Rightarrow> registry \<Rightarrow> peer option \<Rightarrow> dialer" where
  "socket_of sv w reg p =
     (\<lambda>mth path body.
        let rp = fst (serve_request sv w \<lparr>hi_peer = p, hi_method = mth, hi_path = path,
                                          hi_body = Some (case body of None \<Rightarrow> [] | Some b \<Rightarrow> b)\<rparr> reg)
        in Inr (rp_status rp, Inr (rp_body rp)))"

subsection \<open>Refusals are public\<close>

definition public_refusal :: "refusal \<Rightarrow> bool" where
  "public_refusal e \<longleftrightarrow> (\<exists>c. e = refuse (rf_status e) c) \<and> rf_status e \<in> {400, 403, 404, 500}"

definition publicly :: "issued issue_run \<Rightarrow> bool" where
  "publicly r \<longleftrightarrow> (case fst r of Inl e \<Rightarrow> public_refusal e | Inr out \<Rightarrow> True)"

lemma public_refuse [simp]: "st \<in> {400, 403, 404, 500} \<Longrightarrow> public_refusal (refuse st c)"
  by (auto simp: public_refusal_def refuse_def)

lemma public_bind:
  "confirm reader n pid p = Some e \<Longrightarrow> public_refusal e"
  "confirm_all reader n ls = Some e \<Longrightarrow> public_refusal e"
  "walk reader uid left n chain = Inl e \<Longrightarrow> public_refusal e"
proof -
  show c: "confirm reader n pid p = Some e \<Longrightarrow> public_refusal e" for reader n pid p e
    by (auto simp: confirm_def unattested_def unbound_def split: option.splits if_splits)
  show "confirm_all reader n ls = Some e \<Longrightarrow> public_refusal e"
    by (induction reader n ls rule: confirm_all.induct) (auto split: option.splits dest: c)
  show "walk reader uid left n chain = Inl e \<Longrightarrow> public_refusal e"
  proof (induction reader uid left n chain rule: walk.induct)
    case (1 reader uid left n chain)
    from 1(2) show ?case
      by (subst (asm) walk.simps)
        (auto simp: Let_def unattested_def unbound_def split: option.splits if_splits nat.splits dest: 1(1) [OF refl refl])
  qed
qed

lemma public_bind_runtime: "bind_runtime reader helper pr = Inl e \<Longrightarrow> public_refusal e"
  by (auto simp: bind_runtime_def unattested_def unbound_def split: option.splits if_splits sum.splits dest: public_bind)

lemma publicly_refused [simp]: "publicly (refused e reg) = public_refusal e"
  by (simp add: publicly_def refused_def)

lemma publicly_finish [simp]: "publicly (finish i w pr b c x n reg)"
  by (auto simp: publicly_def finish_def deliver_def Let_def internal_def split: option.splits if_splits)

lemma public_session:
  "runtime_version rt d = Inl e \<Longrightarrow> public_refusal e" "session_origin og = Inl e \<Longrightarrow> public_refusal e"
  "session_claims i rt version og dn = Inl e \<Longrightarrow> public_refusal e"
  by (auto simp: runtime_version_def session_origin_def session_claims_def Let_def split: option.splits if_splits sum.splits)

lemma publicly_issue_session: "publicly (issue_session i w pr req reg)"
  by (auto simp: issue_session_def unattested_def public_bind_runtime public_session split: sum.split option.split)

lemma publicly_issue_child: "publicly (issue_child cr i w pr req reg)"
  by (auto simp: issue_child_def same_recipient_def public_bind_runtime split: sum.split option.split prod.split)

subsection \<open>Documents survive the wire\<close>

lemma decode_line:
  assumes "encodable (JObj ms)" and "fits 0 (JObj ms)" and "length (json_encode (JObj ms)) < n"
  shows "json_parse (take n (encode_line (JObj ms))) = Some (JObj ms)"
proof -
  have "take n (encode_line (JObj ms)) = encode_line (JObj ms)" using assms(3) by (simp add: encode_line_def del: json_encode.simps)
  moreover have "tokens [CHR 0x0A] = Some []" by (simp add: tokens.simps(2) json_space_def)
  ultimately show ?thesis
    using json_parse_object_then [OF assms(1,2), of "[CHR 0x0A]"] by (simp add: encode_line_def del: json_encode.simps)
qed

lemma object_trim: "trim_space (json_encode (JObj ms)) = json_encode (JObj ms)"
  by (rule trim_space_fixed) (auto intro!: graphic_lead_space graphic_tail_space simp: graphic_def code_def)

lemma decode_sent:
  assumes "encodable (JObj ms)" and "fits 0 (JObj ms)" and "length (json_encode (JObj ms)) \<le> max_request_bytes"
  shows "decode_one_object (Some (json_encode (JObj ms))) = Some (JObj ms)"
proof -
  have "\<exists>r. json_encode (JObj ms) = CHR 0x7B # r" by simp
  then obtain r where r: "json_encode (JObj ms) = CHR 0x7B # r" ..
  have "json_parse (json_encode (JObj ms)) = Some (JObj ms)" by (rule json_parse_encode) (rule assms)+
  then show ?thesis using assms(3) object_trim [of ms] by (simp add: decode_one_object_def r del: json_encode.simps)
qed

lemma wire_names:
  "utf8_valid ''definition''" "utf8_valid ''runtime''" "utf8_valid ''token''" "utf8_valid ''actor''" "utf8_valid ''narrowed''"
  "utf8_valid ''policy''" "utf8_valid ''dropped''" "utf8_valid ''steps''" "utf8_valid ''error''" "utf8_valid ''message''"
  "utf8_valid ''parent_token''" "utf8_valid ''agent_type''" "utf8_valid ''agent_id''" "utf8_valid ''expires_at''"
  by (rule utf8_ascii, simp add: code_def)+

definition clean_session_request :: "session_request \<Rightarrow> bool" where
  "clean_session_request r \<longleftrightarrow>
     list_all utf8_valid [sr_definition r, sr_origin r]
     \<and> (case sr_runtime r of None \<Rightarrow> True | Some d \<Rightarrow> list_all utf8_valid [rd_id d, rd_version d])
     \<and> enc_bound (session_request_json r) \<le> max_request_bytes"

definition clean_child_request :: "child_request \<Rightarrow> bool" where
  "clean_child_request r \<longleftrightarrow>
     list_all utf8_valid [cr_parent_token r, cr_agent_type r, cr_agent_id r]
     \<and> enc_bound (child_request_json r) \<le> max_request_bytes"

definition clean_narrowing :: "narrowing \<Rightarrow> bool" where
  "clean_narrowing n \<longleftrightarrow>
     utf8_valid (nw_policy n) \<and> list_all utf8_valid (nw_dropped n)
     \<and> list_all (\<lambda>(p, d). utf8_valid p \<and> list_all utf8_valid d) (nw_steps n)"

definition clean_issued :: "issued \<Rightarrow> bool" where
  "clean_issued o' \<longleftrightarrow>
     list_all utf8_valid [iss_token o', iss_dir o', iss_sub o', iss_actor o', iss_grade o'] \<and> list_all utf8_valid (iss_roles o')
     \<and> int64_range (iss_expires_at o') \<and> (case iss_narrowed o' of None \<Rightarrow> True | Some n \<Rightarrow> clean_narrowing n)
     \<and> enc_bound (issued_json o') < max_reply_bytes"

lemma session_request_writable:
  assumes "clean_session_request r"
  shows "encodable (session_request_json r)" and "fits 0 (session_request_json r)"
  using assms wire_names claim_names_utf8
  by (auto simp: clean_session_request_def session_request_json_def runtime_decl_json_def opt_member_def max_depth_def
      split: option.splits)

lemma child_request_writable:
  assumes "clean_child_request r"
  shows "encodable (child_request_json r)" and "fits 0 (child_request_json r)"
  using assms wire_names by (auto simp: clean_child_request_def child_request_json_def max_depth_def)

lemma strings_writable: "list_all utf8_valid ss \<Longrightarrow> encodable (strings_json ss) \<and> (d < max_depth \<longrightarrow> fits d (strings_json ss))"
  by (auto simp: strings_json_def list_all_iff)

lemma narrowing_writable:
  assumes "clean_narrowing n"
  shows "encodable (narrowing_json n)" and "fits 1 (narrowing_json n)"
  using assms wire_names strings_writable
  by (auto simp: clean_narrowing_def narrowing_json_def step_json_def list_all_iff max_depth_def)

lemma issued_writable:
  assumes "clean_issued o'"
  shows "encodable (issued_json o')" and "fits 0 (issued_json o')"
  using assms wire_names claim_names_utf8 strings_writable narrowing_writable
  by (auto simp: clean_issued_def issued_json_def max_depth_def split: option.splits)

lemma refusal_writable:
  assumes "public_refusal e"
  shows "encodable (refusal_json e)" and "fits 0 (refusal_json e)" and "enc_bound (refusal_json e) < max_reply_bytes"
proof -
  from assms obtain c where e: "e = refuse (rf_status e) c" by (auto simp: public_refusal_def)
  then have m: "rf_code e = c" "rf_message e = public_message c" by (metis refuse_def refusal.select_convs)+
  have "utf8_valid (code_text c)" "utf8_valid (public_message c)"
    by (rule utf8_ascii; cases c; simp add: code_text_def public_message_def code_def)+
  then show "encodable (refusal_json e)" "fits 0 (refusal_json e)"
    using wire_names by (auto simp: refusal_json_def m max_depth_def)
  show "enc_bound (refusal_json e) < max_reply_bytes"
    by (cases c) (simp_all add: refusal_json_def m code_text_def public_message_def max_reply_bytes_def)
qed

subsection \<open>The client sees what the issuer decided\<close>

definition over_wire :: "refusal + issued \<Rightarrow> client_error + issued" where
  "over_wire r =
     (case r of
        Inl e \<Rightarrow> Inl (RefusedByServer (rf_status e) (code_text (rf_code e)) (rf_message e))
      | Inr out \<Rightarrow> Inr out)"

definition decent :: "refusal + issued \<Rightarrow> bool" where
  "decent r \<longleftrightarrow> (case r of Inl e \<Rightarrow> public_refusal e | Inr out \<Rightarrow> clean_issued out)"

lemma code_text_named: "code_text c \<noteq> []"
  by (cases c) (simp_all add: code_text_def)

lemma client_reads_reply:
  assumes "decent r" and "dial ''POST'' path (Some (json_encode req)) = Inr (rp_status (respond r), Inr (rp_body (respond r)))"
  shows "client_issue dial path req = over_wire r"
proof (cases r)
  case (Inl e)
  with assms(1) have e: "public_refusal e" by (simp add: decent_def)
  obtain ms where ms: "refusal_json e = JObj ms" by (simp add: refusal_json_def)
  have "json_parse (take max_reply_bytes (encode_line (refusal_json e))) = Some (refusal_json e)"
    using refusal_writable [OF e] json_encode_length [of "refusal_json e"] unfolding ms by (intro decode_line) auto
  moreover have "rf_status e \<noteq> 200" using e by (auto simp: public_refusal_def)
  ultimately show ?thesis
    using assms(2) code_text_named
    by (simp add: client_issue_def client_do_def Inl respond_def write_refusal_def refusal_read over_wire_def)
next
  case (Inr out)
  with assms(1) have c: "clean_issued out" by (simp add: decent_def)
  obtain ms where ms: "issued_json out = JObj ms" by (simp add: issued_json_def)
  have "enc_bound (issued_json out) < max_reply_bytes" using c by (simp add: clean_issued_def)
  then have "json_parse (take max_reply_bytes (encode_line (issued_json out))) = Some (issued_json out)"
    using issued_writable [OF c] json_encode_length [of "issued_json out"] unfolding ms by (intro decode_line) auto
  moreover have "issued_of_json (issued_json out) = Some out" using c by (intro issued_read) (simp add: clean_issued_def)
  ultimately show ?thesis
    using assms(2) by (simp add: client_issue_def client_do_def Inr respond_def over_wire_def)
qed

lemma request_decoded:
  assumes "encodable v" and "fits 0 v" and "enc_bound v \<le> max_request_bytes" and "v = JObj ms" and "into v = Some req"
  shows "decode_request into \<lparr>hi_peer = Some p, hi_method = mth, hi_path = path, hi_body = Some (json_encode v)\<rparr> = Inr (p, req)"
proof -
  have "length (json_encode (JObj ms)) \<le> max_request_bytes" using json_encode_length [of v] assms(3,4) by simp
  with assms decode_sent [of ms] show ?thesis by (simp add: decode_request_def del: json_encode.simps)
qed

text \<open>The request a client's operation puts on the wire.\<close>

definition session_post :: "peer \<Rightarrow> session_request \<Rightarrow> served_request" where
  "session_post p req = \<lparr>hi_peer = Some p, hi_method = ''POST'', hi_path = path_issue_session,
     hi_body = Some (json_encode (session_request_json req))\<rparr>"

definition child_post :: "peer \<Rightarrow> child_request \<Rightarrow> served_request" where
  "child_post p req = \<lparr>hi_peer = Some p, hi_method = ''POST'', hi_path = path_issue_child,
     hi_body = Some (json_encode (child_request_json req))\<rparr>"

lemma served_session:
  assumes "clean_session_request req"
  shows "serve_request sv w (session_post p req) reg = apfst respond (issue_session (sv_issuer sv) w p req reg)"
proof -
  obtain ms where ms: "session_request_json req = JObj ms" by (simp add: session_request_json_def)
  have "decode_request session_request_of_json (session_post p req) = Inr (p, req)"
    unfolding session_post_def
    by (rule request_decoded [OF session_request_writable [OF assms] _ ms])
      (use assms in \<open>simp_all add: clean_session_request_def session_request_read\<close>)
  moreover have "path_issue_session \<noteq> path_jwks" by (simp add: path_issue_session_def path_jwks_def)
  ultimately show ?thesis by (simp add: serve_request_def serve_session_def) (simp add: session_post_def)
qed

lemma served_child:
  assumes "clean_child_request req"
  shows "serve_request sv w (child_post p req) reg = apfst respond (issue_child (sv_crypto sv) (sv_issuer sv) w p req reg)"
proof -
  obtain ms where ms: "child_request_json req = JObj ms" by (simp add: child_request_json_def)
  have "decode_request child_request_of_json (child_post p req) = Inr (p, req)"
    unfolding child_post_def
    by (rule request_decoded [OF child_request_writable [OF assms] _ ms])
      (use assms in \<open>simp_all add: clean_child_request_def child_request_read\<close>)
  moreover have "path_issue_child \<noteq> path_jwks" "path_issue_child \<noteq> path_issue_session"
    by (simp_all add: path_issue_session_def path_issue_child_def path_jwks_def)
  ultimately show ?thesis by (simp add: serve_request_def serve_child_def) (simp add: child_post_def)
qed

definition clean_outcome :: "refusal + issued \<Rightarrow> bool" where
  "clean_outcome r = (case r of Inl e \<Rightarrow> True | Inr out \<Rightarrow> clean_issued out)"

lemma decent_run: "publicly r \<Longrightarrow> clean_outcome (fst r) \<Longrightarrow> decent (fst r)"
  by (auto simp: decent_def publicly_def clean_outcome_def split: sum.splits)

subsection \<open>Properties\<close>

text \<open>C14: The socket is transparent: what a client's call returns is exactly what the issuer decided for the
  attested process behind the connection, the issued assertion field by field or the refusal's status, code
  and message, and serving it changes the issuer's state just as the call itself does. It holds for requests
  and assertions of valid UTF-8 within the size limits of the two sides.\<close>
theorem socket_is_transparent:
  assumes "clean_session_request sreq" and "clean_child_request creq"
    and "clean_outcome (fst (issue_session (sv_issuer sv) w p sreq reg))"
    and "clean_outcome (fst (issue_child (sv_crypto sv) (sv_issuer sv) w p creq reg))"
  shows "client_issue_session (socket_of sv w reg (Some p)) sreq = over_wire (fst (issue_session (sv_issuer sv) w p sreq reg))
    \<and> snd (serve_request sv w (session_post p sreq) reg) = snd (issue_session (sv_issuer sv) w p sreq reg)
    \<and> client_issue_child (socket_of sv w reg (Some p)) creq
        = over_wire (fst (issue_child (sv_crypto sv) (sv_issuer sv) w p creq reg))
    \<and> snd (serve_request sv w (child_post p creq) reg) = snd (issue_child (sv_crypto sv) (sv_issuer sv) w p creq reg)"
proof -
  have "decent (fst (issue_session (sv_issuer sv) w p sreq reg))"
    using assms(3) by (rule decent_run [OF publicly_issue_session])
  moreover have "decent (fst (issue_child (sv_crypto sv) (sv_issuer sv) w p creq reg))"
    using assms(4) by (rule decent_run [OF publicly_issue_child])
  ultimately show ?thesis
    using served_session [OF assms(1)] served_child [OF assms(2)]
    by (auto simp: client_issue_session_def client_issue_child_def socket_of_def session_post_def child_post_def Let_def
        intro!: client_reads_reply simp del: json_encode.simps)
qed

definition sample_server :: server where
  "sample_server = \<lparr>sv_issuer = sample_issuer, sv_crypto = sample_crypto,
     sv_mux = (\<lambda>_ _. \<lparr>rp_status = 404, rp_headers = [], rp_body = ''404 page not found''\<rparr>)\<rparr>"

text \<open>A foreign user's requests, refused over the wire as they are by the issuer.\<close>

theorem socket_is_transparent_witness:
  "\<exists>sreq creq. client_issue_session (socket_of sample_server (sample_call CHR ''a'' 100) empty_registry
        (Some \<lparr>peer_uid = 7, peer_gid = 7, peer_pid = 42\<rparr>)) sreq
      = Inl (RefusedByServer 403 ''peer_uid_refused'' (public_message PeerUIDRefused))
    \<and> client_issue_child (socket_of sample_server (sample_call CHR ''a'' 100) empty_registry
        (Some \<lparr>peer_uid = 7, peer_gid = 7, peer_pid = 42\<rparr>)) creq
      = Inl (RefusedByServer 403 ''peer_uid_refused'' (public_message PeerUIDRefused))"
proof -
  let ?p = "\<lparr>peer_uid = 7, peer_gid = 7, peer_pid = 42\<rparr>"
  let ?s = "\<lparr>sr_definition = ''lead'', sr_origin = [], sr_runtime = None\<rparr>"
  let ?c = "\<lparr>cr_parent_token = ''t'', cr_agent_type = ''lead'', cr_agent_id = ''a1''\<rparr>"
  have u: "utf8_valid ''lead''" "utf8_valid ''t''" "utf8_valid ''a1''" by (rule utf8_ascii, simp add: code_def)+
  have clean: "clean_session_request ?s" "clean_child_request ?c"
    using u by (simp_all add: clean_session_request_def clean_child_request_def session_request_json_def
        child_request_json_def opt_member_def max_request_bytes_def)
  have refused: "fst (issue_session (sv_issuer sample_server) (sample_call CHR ''a'' 100) ?p ?s empty_registry)
        = Inl (refuse 403 PeerUIDRefused)"
    "fst (issue_child (sv_crypto sample_server) (sv_issuer sample_server) (sample_call CHR ''a'' 100) ?p ?c empty_registry)
        = Inl (refuse 403 PeerUIDRefused)"
    by (simp_all add: issue_session_def issue_child_def permitted_def sample_server_def sample_issuer_def refused_def)
  have none: "clean_outcome (fst (issue_session (sv_issuer sample_server) (sample_call CHR ''a'' 100) ?p ?s empty_registry))"
    "clean_outcome (fst (issue_child (sv_crypto sample_server) (sv_issuer sample_server) (sample_call CHR ''a'' 100) ?p ?c
      empty_registry))"
    unfolding refused by (simp_all add: clean_outcome_def)
  from socket_is_transparent [OF clean none]
  show ?thesis by (intro exI [of _ ?s] exI [of _ ?c]) (simp add: refused over_wire_def refuse_def code_text_def)
qed

lemma peer_refused: "peer_uid p \<noteq> ic_euid i \<Longrightarrow> issue_session i w p sreq reg = refused (refuse 403 PeerUIDRefused) reg
    \<and> issue_child cr i w p creq reg = refused (refuse 403 PeerUIDRefused) reg"
  by (simp add: issue_session_def issue_child_def permitted_def)

text \<open>What a request did: nothing that lasts, or a grant to an attested process of the serving user.\<close>

definition unchanged :: "registry \<Rightarrow> registry \<times> dir_effect list \<Rightarrow> bool" where
  "unchanged reg r \<longleftrightarrow> fst r = reg \<and> (snd r = [] \<or> (\<exists>dir. snd r = [DirCreated dir, Discarded dir]))"

definition granted_to :: "server \<Rightarrow> peer option \<Rightarrow> http_reply \<times> registry \<times> dir_effect list \<Rightarrow> bool" where
  "granted_to sv pr r \<longleftrightarrow>
     rp_status (fst r) = 200
     \<and> (\<exists>p dir out. pr = Some p \<and> peer_uid p = ic_euid (sv_issuer sv)
          \<and> snd (snd r) = [DirCreated dir, Published dir (iss_token out)]
          \<and> rp_body (fst r) = encode_line (issued_json out))"

lemma granted_run:
  assumes "leaves_nothing_refused reg r" and "peer_uid p \<noteq> ic_euid (sv_issuer sv) \<Longrightarrow> \<exists>e. r = refused e reg"
  shows "unchanged reg (snd (apfst respond r)) \<or> granted_to sv (Some p) (apfst respond r)"
proof (cases r)
  case (fields a reg' es)
  then show ?thesis
  proof (cases a)
    case (Inl e)
    with fields assms(1) show ?thesis by (auto simp: leaves_nothing_refused_def unchanged_def)
  next
    case (Inr out)
    with fields assms have "peer_uid p = ic_euid (sv_issuer sv)" by (auto simp: refused_def)
    with fields Inr assms(1) show ?thesis by (auto simp: leaves_nothing_refused_def granted_to_def respond_def)
  qed
qed


lemma accept_peer_attested: "accept_peer cs = Some (Inr p, cs') \<Longrightarrow> FromPeer p \<in> set cs \<and> length cs' < length cs"
  by (induction cs rule: accept_peer.induct) auto

end
