(* ===== verification/IdentitySetup.thy ===== *)
theory IdentitySetup
  imports IssuerSocket MintCommand
begin

text \<open>
  Starting the issuer: \<open>internal/identity/setup.go\<close>, the constructors it calls in \<open>definitions.go\<close> and
  \<open>spawndir.go\<close>, and the socket of \<open>server.go\<close>, published by \<open>Listen\<close>. What each walk to a trust root,
  each file and each system call yields is a parameter; the checks, their order and what is undone on a
  failure are the code's.
\<close>

subsection \<open>Trust roots\<close>

text \<open>The directories the server walks to, each by itself and at its own time.\<close>

datatype walk_use = KeyWalk | SocketWalk | JwksWalk | DefinitionsWalk | SpawnWalk | ListenWalk | PublishWalk

record setup_world =
  su_euid :: nat
  su_walk :: "walk_use \<Rightarrow> walk_world"
  su_lib :: key_lib
  su_key_files :: dir_files
  su_def_files :: dir_files
  su_def_names :: "io_err + string list"
  su_root_uid :: "nat option"
  su_root_chmod :: "io_err option"
  su_yaml :: yaml_frontmatter
  su_stat :: "string \<Rightarrow> (nat \<times> nat) option"

definition walk_to :: "setup_world \<Rightarrow> walk_use \<Rightarrow> walk_world" where
  "walk_to su u = (su_walk su u)\<lparr>ww_euid := su_euid su\<rparr>"

datatype setup_error =
    KeyPathRequired | SocketRelative string | TtlOutOfRange int | SettingBadRole string | SpawnRootRelative string
  | KeyRefused keyring_error | SocketDirRefused trust_error | JwksDirRefused trust_error
  | DefinitionsRefused trust_error | DefinitionsUnlisted io_err | DefinitionFileRefused definition_error
  | SpawnRootRefused trust_error | SpawnRootUninspected | SpawnRootMode io_err

definition new_definitions :: "setup_world \<Rightarrow> string \<Rightarrow> setup_error + dir_files option" where
  "new_definitions su dir =
     (if dir = [] then Inr None
      else case open_trusted_dir (walk_to su DefinitionsWalk) dir 0 of
             Inl e \<Rightarrow> Inl (DefinitionsRefused e)
           | Inr _ \<Rightarrow>
               (case su_def_names su of
                  Inl e \<Rightarrow> Inl (DefinitionsUnlisted e)
                | Inr names \<Rightarrow>
                    (case verify_files (su_euid su) (su_def_files su) names of
                       Some e \<Rightarrow> Inl (DefinitionFileRefused e)
                     | None \<Rightarrow> Inr (Some (su_def_files su)))))"

text \<open>The mode of the spawn root is \<open>0711\<close>.\<close>

definition new_spawn_dirs :: "setup_world \<Rightarrow> string \<Rightarrow> setup_error + spawn_dirs" where
  "new_spawn_dirs su root =
     (if \<not> is_abs root then Inl (SpawnRootRelative root)
      else case open_trusted_dir (walk_to su SpawnWalk) root 457 of
             Inl e \<Rightarrow> Inl (SpawnRootRefused e)
           | Inr _ \<Rightarrow>
               (case su_root_uid su of
                  None \<Rightarrow> Inl SpawnRootUninspected
                | Some uid \<Rightarrow>
                    if uid = su_euid su then
                      (case su_root_chmod su of
                         Some e \<Rightarrow> Inl (SpawnRootMode e)
                       | None \<Rightarrow> Inr \<lparr>sd_root = path_clean root\<rparr>)
                    else Inr \<lparr>sd_root = path_clean root\<rparr>))"

text \<open>\<open>Discard\<close>: only a direct child of the root is removed.\<close>

definition discard_dir :: "spawn_dirs \<Rightarrow> (string \<Rightarrow> io_err option) \<Rightarrow> string \<Rightarrow> bool" where
  "discard_dir s remove dir = (case name_of s dir of None \<Rightarrow> False | Some name \<Rightarrow> remove name = None)"

subsection \<open>The issuer\<close>

record settings =
  st_issuer :: string
  st_socket :: string
  st_key :: string
  st_alg :: string
  st_jwks :: string
  st_runtime_roles :: "string list"
  st_definitions :: string
  st_delegable :: "string list option"
  st_spawn_root :: string
  st_ttl :: int
  st_helper :: string

definition second :: int where "second = 1000000000"

definition effective_ttl :: "settings \<Rightarrow> int" where
  "effective_ttl s = (if st_ttl s = 0 then max_lifetime_seconds * second else st_ttl s)"

definition effective_root :: "settings \<Rightarrow> string" where
  "effective_root s = (if st_spawn_root s = [] then path_join [path_dir (st_socket s), ''spawn''] else st_spawn_root s)"

definition all_roles :: "settings \<Rightarrow> string list" where
  "all_roles s = st_runtime_roles s @ (case st_delegable s of None \<Rightarrow> [] | Some rs \<Rightarrow> rs)"

definition check_settings :: "settings \<Rightarrow> setup_error option" where
  "check_settings s =
     (if st_key s = [] then Some KeyPathRequired
      else if \<not> is_abs (st_socket s) then Some (SocketRelative (st_socket s))
      else if effective_ttl s < 60 * second \<or> effective_ttl s > max_lifetime_seconds * second
        then Some (TtlOutOfRange (effective_ttl s))
      else (case find (\<lambda>r. \<not> re_role_name r) (all_roles s) of
              Some r \<Rightarrow> Some (SettingBadRole r)
            | None \<Rightarrow> if \<not> is_abs (effective_root s) then Some (SpawnRootRelative (effective_root s)) else None))"

text \<open>The trust roots between the key and the spawn root: the socket's and the key set's directories.\<close>

definition check_publication :: "setup_world \<Rightarrow> settings \<Rightarrow> setup_error option" where
  "check_publication su s =
     (case open_trusted_dir (walk_to su SocketWalk) (path_dir (st_socket s)) 493 of
        Inl e \<Rightarrow> Some (SocketDirRefused e)
      | Inr _ \<Rightarrow>
          if st_jwks s = [] then None
          else (case open_trusted_dir (walk_to su JwksWalk) (path_dir (st_jwks s)) 0 of
                  Inl e \<Rightarrow> Some (JwksDirRefused e)
                | Inr _ \<Rightarrow> None))"

definition effective_issuer :: "settings \<Rightarrow> string" where
  "effective_issuer s = (if st_issuer s = [] then ''unix://'' @ st_socket s else st_issuer s)"

definition new_issuer :: "crypto \<Rightarrow> setup_world \<Rightarrow> settings \<Rightarrow> setup_error + issuer" where
  "new_issuer cr su s =
     (case check_settings s of
        Some e \<Rightarrow> Inl e
      | None \<Rightarrow>
          (case load_keyring cr (su_lib su) (walk_to su KeyWalk) (su_key_files su) (st_key s) (st_alg s) of
             Inl e \<Rightarrow> Inl (KeyRefused e)
           | Inr keys \<Rightarrow>
               (case check_publication su s of
                  Some e \<Rightarrow> Inl e
                | None \<Rightarrow>
                    (case new_definitions su (st_definitions s) of
                       Inl e \<Rightarrow> Inl e
                     | Inr defs \<Rightarrow>
                         (case new_spawn_dirs su (path_clean (effective_root s)) of
                            Inl e \<Rightarrow> Inl e
                          | Inr dirs \<Rightarrow>
                              Inr \<lparr>ic_issuer = effective_issuer s, ic_keys = keys, ic_yaml = su_yaml su, ic_defs = defs,
                                   ic_dirs = dirs,
                                   ic_helper = (if st_helper s = [] then None else su_stat su (st_helper s)),
                                   ic_runtime_roles = st_runtime_roles s, ic_delegable = st_delegable s,
                                   ic_ttl = effective_ttl s, ic_euid = su_euid su\<rparr>)))))"

datatype jwks_error = JwksDirUntrusted trust_error | JwksUnpublished publish_error

text \<open>The mode of the published key set is \<open>0644\<close>.\<close>

definition write_jwks :: "walk_world \<Rightarrow> publish_world \<Rightarrow> keyring \<Rightarrow> string \<Rightarrow> jwks_error option \<times> publish_step list" where
  "write_jwks w pw k path =
     (case open_trusted_dir w (path_dir path) 0 of
        Inl e \<Rightarrow> (Some (JwksDirUntrusted e), [])
      | Inr _ \<Rightarrow> apfst (map_option JwksUnpublished)
                  (publish_file_at pw (path_base path) (marshal_jwks k @ [CHR 0x0A]) 420 True))"

subsection \<open>The mode of the socket\<close>

definition is_octal :: "char \<Rightarrow> bool" where
  "is_octal c \<longleftrightarrow> 48 \<le> code c \<and> code c \<le> 55"

definition octal_value :: "string \<Rightarrow> nat" where
  "octal_value s = foldl (\<lambda>n c. 8 * n + (code c - 48)) 0 s"

definition default_socket_mode :: nat where "default_socket_mode = 6 * 64"

definition parse_socket_mode :: "string \<Rightarrow> nat option" where
  "parse_socket_mode s =
     (if s = [] then Some default_socket_mode
      else if \<not> list_all is_octal s \<or> octal_value s \<ge> 2 ^ 32 then None
      else if octal_value s > 511 then None
      else Some (octal_value s))"

subsection \<open>Publishing the socket\<close>

datatype link_outcome = Linked | LinkExists | LinkFailed io_err

record listen_world =
  lw_walk :: walk_world
  lw_rand :: "string option"
  lw_mkdir :: "io_err option"
  lw_open :: "io_err option"
  lw_fchmod :: "io_err option"
  lw_bind :: "io_err option"
  lw_bound_mode :: nat
  lw_chmod :: "io_err option"
  lw_link :: link_outcome
  lw_remove :: "io_err option"

text \<open>
  Steps on names relative to the socket's directory: the private directory, the socket bound in it, and
  the name the socket is published under. The removal of the private directory takes what is in it.
\<close>

datatype listen_step =
    PrivateMade string | PrivateClosed string | SocketBound string nat | SocketModed string nat
  | SocketPublished string string | ListenerClosed | PrivateRemoved string

datatype listen_error =
    ListenDirRefused trust_error | NoListenId | PrivateFailed io_err | BindFailed io_err | ModeFailed io_err
  | SocketTaken | PublishSocketFailed io_err

definition removed_private :: "listen_world \<Rightarrow> string \<Rightarrow> listen_step list" where
  "removed_private w priv = (if lw_remove w = None then [PrivateRemoved priv] else [])"

definition bound_socket :: "listen_world \<Rightarrow> string \<Rightarrow> string \<Rightarrow> nat \<Rightarrow> listen_error option \<times> listen_step list" where
  "bound_socket w priv name mode =
     (case lw_chmod w of
        Some e \<Rightarrow> (Some (ModeFailed e), ListenerClosed # removed_private w priv)
      | None \<Rightarrow>
          apsnd ((#) (SocketModed priv mode))
            (case lw_link w of
               LinkExists \<Rightarrow> (Some SocketTaken, ListenerClosed # removed_private w priv)
             | LinkFailed e \<Rightarrow> (Some (PublishSocketFailed e), ListenerClosed # removed_private w priv)
             | Linked \<Rightarrow> (None, SocketPublished priv name # removed_private w priv)))"

definition listen :: "listen_world \<Rightarrow> string \<Rightarrow> nat \<Rightarrow> listen_error option \<times> listen_step list" where
  "listen w path mode =
     (let clean = path_clean path; name = path_base clean
      in case open_trusted_dir (lw_walk w) (path_dir clean) 493 of
           Inl e \<Rightarrow> (Some (ListenDirRefused e), [])
         | Inr _ \<Rightarrow>
             (case random_id (lw_rand w) of
                None \<Rightarrow> (Some NoListenId, [])
              | Some rid \<Rightarrow>
                  (let priv = ''.gk-'' @ take 16 rid
                   in case lw_mkdir w of
                        Some e \<Rightarrow> (Some (PrivateFailed e), [])
                      | None \<Rightarrow>
                          (case lw_open w of
                             Some e \<Rightarrow> (Some (PrivateFailed e), PrivateMade priv # removed_private w priv)
                           | None \<Rightarrow>
                               (case lw_fchmod w of
                                  Some e \<Rightarrow> (Some (PrivateFailed e), PrivateMade priv # removed_private w priv)
                                | None \<Rightarrow>
                                    (case lw_bind w of
                                       Some e \<Rightarrow> (Some (BindFailed e),
                                         [PrivateMade priv, PrivateClosed priv] @ removed_private w priv)
                                     | None \<Rightarrow>
                                         apsnd ((@) [PrivateMade priv, PrivateClosed priv, SocketBound priv (lw_bound_mode w)])
                                           (bound_socket w priv name mode)))))))"

subsection \<open>What a started issuer satisfies\<close>

lemma check_settings_None:
  "check_settings s = None \<Longrightarrow> st_key s \<noteq> [] \<and> is_abs (st_socket s) \<and> 60 * second \<le> effective_ttl s
     \<and> effective_ttl s \<le> max_lifetime_seconds * second \<and> list_all re_role_name (all_roles s) \<and> is_abs (effective_root s)"
  by (auto simp: check_settings_def list_all_iff find_None_iff split: if_splits option.splits)

lemma new_spawn_dirs_Inr:
  "new_spawn_dirs su root = Inr d \<Longrightarrow>
     is_abs root \<and> sd_root d = path_clean root \<and> (\<exists>c. open_trusted_dir (walk_to su SpawnWalk) root 457 = Inr c)"
  by (auto simp: new_spawn_dirs_def split: if_splits sum.splits option.splits)

lemma new_issuer_Inr:
  assumes "new_issuer cr su s = Inr i"
  obtains dirs where "check_settings s = None"
    "load_keyring cr (su_lib su) (walk_to su KeyWalk) (su_key_files su) (st_key s) (st_alg s) = Inr (ic_keys i)"
    "check_publication su s = None" "new_definitions su (st_definitions s) = Inr (ic_defs i)"
    "new_spawn_dirs su (path_clean (effective_root s)) = Inr dirs"
    "i = \<lparr>ic_issuer = effective_issuer s, ic_keys = ic_keys i, ic_yaml = su_yaml su, ic_defs = ic_defs i, ic_dirs = dirs,
          ic_helper = (if st_helper s = [] then None else su_stat su (st_helper s)),
          ic_runtime_roles = st_runtime_roles s, ic_delegable = st_delegable s, ic_ttl = effective_ttl s, ic_euid = su_euid su\<rparr>"
  using assms by (auto simp: new_issuer_def split: option.splits sum.splits)

text \<open>Opening the trust root \<open>path\<close>, as one of the server's walks did.\<close>

definition opened_root :: "setup_world \<Rightarrow> walk_use \<Rightarrow> string \<Rightarrow> bool" where
  "opened_root su u path \<longleftrightarrow> (\<exists>mode clean. open_trusted_dir (walk_to su u) path mode = Inr clean)"

lemma verify_files_None:
  "verify_files euid files names = None \<Longrightarrow> n \<in> set names \<Longrightarrow> has_suffix n definition_suffix \<Longrightarrow>
     open_regular_at files n = Inr (fi, content) \<Longrightarrow> check_trusted_file euid fi"
  by (induction euid files names rule: verify_files.induct) (auto split: if_splits sum.splits)

lemma started_fields:
  assumes "new_issuer cr su s = Inr i"
  shows "ic_issuer i = effective_issuer s" "ic_ttl i = effective_ttl s" "ic_euid i = su_euid su"
    "ic_runtime_roles i = st_runtime_roles s" "sd_root (ic_dirs i) = path_clean (effective_root s)"
    "is_abs (sd_root (ic_dirs i))" "60 * second \<le> ic_ttl i" "ic_ttl i \<le> max_lifetime_seconds * second"
    "list_all re_role_name (ic_runtime_roles i)"
    "load_keyring cr (su_lib su) (walk_to su KeyWalk) (su_key_files su) (st_key s) (st_alg s) = Inr (ic_keys i)"
    "is_abs (st_socket s)" "ic_issuer i \<noteq> []"
proof -
  from new_issuer_Inr [OF assms] obtain dirs where c: "check_settings s = None"
    and k: "load_keyring cr (su_lib su) (walk_to su KeyWalk) (su_key_files su) (st_key s) (st_alg s) = Inr (ic_keys i)"
    and d: "new_spawn_dirs su (path_clean (effective_root s)) = Inr dirs"
    and i: "ic_issuer i = effective_issuer s" "ic_ttl i = effective_ttl s" "ic_euid i = su_euid su"
      "ic_runtime_roles i = st_runtime_roles s" "ic_dirs i = dirs"
    by (metis issuer.select_convs)
  note c' = check_settings_None [OF c]
  note d' = new_spawn_dirs_Inr [OF d]
  show "ic_issuer i = effective_issuer s" "ic_ttl i = effective_ttl s" "ic_euid i = su_euid su"
    "ic_runtime_roles i = st_runtime_roles s" by (rule i)+
  show "sd_root (ic_dirs i) = path_clean (effective_root s)" using d' i by (simp add: path_clean_idem)
  then show "is_abs (sd_root (ic_dirs i))" using d' by simp
  show "60 * second \<le> ic_ttl i" "ic_ttl i \<le> max_lifetime_seconds * second" using c' i by auto
  show "list_all re_role_name (ic_runtime_roles i)" using c' i by (auto simp: all_roles_def)
  show "load_keyring cr (su_lib su) (walk_to su KeyWalk) (su_key_files su) (st_key s) (st_alg s) = Inr (ic_keys i)" by (rule k)
  show "is_abs (st_socket s)" using c' by simp
  show "ic_issuer i \<noteq> []" using i by (simp add: effective_issuer_def)
qed

subsection \<open>The steps of publishing the socket\<close>

datatype node = OtherNode | PrivateDirectory | ListenSocket nat

text \<open>What the names under the socket's directory are, and what a step makes of them.\<close>

fun listen_on :: "listen_step \<Rightarrow> (string list \<rightharpoonup> node) \<Rightarrow> (string list \<rightharpoonup> node)" where
  "listen_on (PrivateMade d) v = v([d] \<mapsto> PrivateDirectory)"
| "listen_on (PrivateClosed d) v = v"
| "listen_on (SocketBound d m) v = v([d, ''s''] \<mapsto> ListenSocket m)"
| "listen_on (SocketModed d m) v = v([d, ''s''] \<mapsto> ListenSocket m)"
| "listen_on (SocketPublished d n) v = v([n] := v [d, ''s''])"
| "listen_on ListenerClosed v = v"
| "listen_on (PrivateRemoved d) v = v([d] := None, [d, ''s''] := None)"

definition listened :: "listen_step list \<Rightarrow> (string list \<rightharpoonup> node) \<Rightarrow> (string list \<rightharpoonup> node)" where
  "listened es v = fold listen_on es v"

definition quiet_steps :: "string \<Rightarrow> nat \<Rightarrow> nat \<Rightarrow> listen_step set" where
  "quiet_steps d m mode =
     {PrivateMade d, PrivateClosed d, SocketBound d m, SocketModed d mode, ListenerClosed, PrivateRemoved d}"

lemma listen_cases:
  obtains (failed) es r d where "listen w path mode = (r, es)" "r \<noteq> None" "set es \<subseteq> quiet_steps d (lw_bound_mode w) mode"
      "has_prefix d ''.gk-''"
  | (published) d tail where "listen w path mode = (None,
        [PrivateMade d, PrivateClosed d, SocketBound d (lw_bound_mode w), SocketModed d mode,
         SocketPublished d (path_base (path_clean path))] @ tail)"
      "tail = removed_private w d" "has_prefix d ''.gk-''" "lw_link w = Linked"
proof -
  obtain r es where x: "listen w path mode = (r, es)" by fastforce
  let ?d = "case random_id (lw_rand w) of None \<Rightarrow> ''.gk-'' | Some rid \<Rightarrow> ''.gk-'' @ take 16 rid"
  have p: "has_prefix ?d ''.gk-''" by (simp add: has_prefix_append has_prefix_def split: option.split)
  show thesis
  proof (cases r)
    case None
    then have "random_id (lw_rand w) \<noteq> None" using x by (auto simp: listen_def Let_def split: sum.splits option.splits)
    then obtain rid where rid: "random_id (lw_rand w) = Some rid" by auto
    have "es = [PrivateMade ?d, PrivateClosed ?d, SocketBound ?d (lw_bound_mode w), SocketModed ?d mode,
         SocketPublished ?d (path_base (path_clean path))] @ removed_private w ?d \<and> lw_link w = Linked"
      using x None rid
      by (auto simp: listen_def bound_socket_def Let_def split: sum.splits option.splits link_outcome.splits)
    with None x published [OF _ refl p] show thesis by simp
  next
    case (Some e)
    then have "set es \<subseteq> quiet_steps ?d (lw_bound_mode w) mode"
      using x by (auto simp: listen_def bound_socket_def Let_def removed_private_def quiet_steps_def
          split: sum.splits option.splits link_outcome.splits if_splits)
    with Some x p show thesis by (intro failed) auto
  qed
qed

lemma listened_append: "listened (es @ fs) v = listened fs (listened es v)"
  by (simp add: listened_def)

lemma quiet_other:
  assumes "set es \<subseteq> quiet_steps d m mode" and "n \<noteq> d"
  shows "listened es v [n] = v [n]"
  using assms(1)
proof (induction es arbitrary: v)
  case (Cons e es)
  with assms(2) show ?case by (auto simp: listened_def quiet_steps_def)
qed (simp add: listened_def)

lemma quiet_private:
  assumes "set es \<subseteq> quiet_steps d m mode"
  shows "listened es v [d] \<in> {v [d], Some PrivateDirectory, None}"
  using assms
proof (induction es arbitrary: v)
  case (Cons e es)
  then have "e \<in> quiet_steps d m mode" "listened es (listen_on e v) [d] \<in> {listen_on e v [d], Some PrivateDirectory, None}" by auto
  then show ?case by (auto simp: listened_def quiet_steps_def)
qed (simp add: listened_def)

lemma removed_quiet: "set (removed_private w d) \<subseteq> quiet_steps d m mode"
  by (auto simp: removed_private_def quiet_steps_def)

text \<open>The view before and after the step that publishes.\<close>

lemma published_view:
  assumes "es = [PrivateMade d, PrivateClosed d, SocketBound d m, SocketModed d mode, SocketPublished d name] @ removed_private w d"
    and "name \<noteq> d"
  shows "n \<noteq> d \<Longrightarrow> listened (take k es) v [n] = (if n = name \<and> 5 \<le> k then Some (ListenSocket mode) else v [n])"
    and "listened (take k es) v [d] \<in> {v [d], Some PrivateDirectory, None}"
proof -
  let ?four = "[PrivateMade d, PrivateClosed d, SocketBound d m, SocketModed d mode]"
  let ?five = "?four @ [SocketPublished d name]"
  have split: "take k es = take k ?four" if "k < 5" using that unfolding assms(1) by (simp add: take_Cons' less_Suc_eq_le)
  have long: "\<exists>j. take k es = ?five @ take j (removed_private w d)" if "5 \<le> k"
  proof -
    from le_Suc_ex [OF that] obtain j where "k = 5 + j" ..
    then have "k = Suc (Suc (Suc (Suc (Suc j))))" by simp
    then show ?thesis by (intro exI [of _ j]) (simp add: assms(1))
  qed
  have q: "set (take j ?four) \<subseteq> quiet_steps d m mode" "set (take j (removed_private w d)) \<subseteq> quiet_steps d m mode" for j
    using removed_quiet [of w d m mode] by (auto simp: quiet_steps_def dest!: in_set_takeD)
  have five: "listened ?five v [n] = (if n = name then Some (ListenSocket mode) else v [n])" if "n \<noteq> d" for n
    using that by (simp add: listened_def)
  have fived: "listened ?five v [d] = Some PrivateDirectory" using assms(2) by (simp add: listened_def)
  show "listened (take k es) v [n] = (if n = name \<and> 5 \<le> k then Some (ListenSocket mode) else v [n])" if n: "n \<noteq> d"
  proof (cases "k < 5")
    case True
    with split quiet_other [OF q(1) n] show ?thesis by simp
  next
    case False
    then obtain j where j: "take k es = ?five @ take j (removed_private w d)" using long by auto
    have "listened (take k es) v [n] = listened ?five v [n]"
      by (simp only: j listened_append [of ?five] quiet_other [OF q(2) n])
    with five [OF n] False show ?thesis by simp
  qed
  show "listened (take k es) v [d] \<in> {v [d], Some PrivateDirectory, None}"
  proof (cases "k < 5")
    case True
    with split quiet_private [OF q(1)] show ?thesis by simp
  next
    case False
    then obtain j where j: "take k es = ?five @ take j (removed_private w d)" using long by auto
    have "listened (take j (removed_private w d)) (listened ?five v) [d] \<in> {listened ?five v [d], Some PrivateDirectory, None}"
      by (rule quiet_private [OF q(2)])
    then show ?thesis by (simp only: j listened_append [of ?five] fived) auto
  qed
qed

text \<open>No name in the directory but those that were there leads to the listener, save the path at its final mode.\<close>

definition exposed_only_at :: "string \<Rightarrow> nat \<Rightarrow> (string list \<rightharpoonup> node) \<Rightarrow> (string list \<rightharpoonup> node) \<Rightarrow> bool" where
  "exposed_only_at name mode v v' \<longleftrightarrow>
     (\<forall>n m. v' [n] = Some (ListenSocket m) \<longrightarrow> v [n] = Some (ListenSocket m) \<or> n = name \<and> m = mode)"

text \<open>C33: At every moment of starting to listen, the socket's name is what it was before or the listener at its
  final mode, no other name of the directory leads to the listener, and nothing else in the directory but
  the call's own private directory changes. When listening succeeds the socket is there; when it fails, for
  example because something already has the name, that is untouched.\<close>
theorem listen_exposes_final_socket_only:
  assumes "listen w path mode = (r, es)" and "\<not> has_prefix (path_base (path_clean path)) ''.gk-''"
  shows "(\<forall>k. listened (take k es) v [path_base (path_clean path)] \<in> {v [path_base (path_clean path)], Some (ListenSocket mode)}
        \<and> exposed_only_at (path_base (path_clean path)) mode v (listened (take k es) v))
    \<and> (r = None \<longrightarrow> lw_link w = Linked \<and> listened es v [path_base (path_clean path)] = Some (ListenSocket mode))
    \<and> (r \<noteq> None \<longrightarrow> (\<forall>n. \<not> has_prefix n ''.gk-'' \<longrightarrow> listened es v [n] = v [n]))"
  using assms(1)
proof (cases rule: listen_cases [of w path mode])
  case (failed es' r' d)
  then have e: "es' = es" "r' = r" using assms(1) by auto
  have nd: "n \<noteq> d" if "\<not> has_prefix n ''.gk-''" for n using that failed(4) by auto
  have q: "set (take k es) \<subseteq> quiet_steps d (lw_bound_mode w) mode" for k
    using failed(3) e by (auto dest!: in_set_takeD)
  have "exposed_only_at (path_base (path_clean path)) mode v (listened (take k es) v)" for k
    unfolding exposed_only_at_def
  proof (intro allI impI)
    fix n m
    assume "listened (take k es) v [n] = Some (ListenSocket m)"
    then show "v [n] = Some (ListenSocket m) \<or> n = path_base (path_clean path) \<and> m = mode"
      using quiet_other [OF q [of k], of n v] quiet_private [OF q [of k], of v] by (cases "n = d") auto
  qed
  moreover have "listened (take k es) v [n] = v [n]" if "\<not> has_prefix n ''.gk-''" for k n
    using quiet_other [OF q nd [OF that]] .
  moreover from this [of _ "length es"] have "listened es v [n] = v [n]" if "\<not> has_prefix n ''.gk-''" for n
    using that by simp
  ultimately show ?thesis using assms(2) failed(2) e by auto
next
  case (published d tail)
  let ?name = "path_base (path_clean path)"
  from published assms(1) have e: "es = [PrivateMade d, PrivateClosed d, SocketBound d (lw_bound_mode w), SocketModed d mode,
      SocketPublished d ?name] @ removed_private w d" "r = None" by auto
  have nd: "?name \<noteq> d" using assms(2) published(3) by auto
  note view = published_view [OF e(1) nd]
  have "exposed_only_at ?name mode v (listened (take k es) v)" for k
    unfolding exposed_only_at_def
  proof (intro allI impI)
    fix n m
    assume "listened (take k es) v [n] = Some (ListenSocket m)"
    then show "v [n] = Some (ListenSocket m) \<or> n = ?name \<and> m = mode"
      using view(1) [of n k v] view(2) [of k v] by (cases "n = d") (auto split: if_splits)
  qed
  moreover have "listened es v [?name] = Some (ListenSocket mode)" using view(1) [OF nd, of "length es" v] e(1) by simp
  moreover have "listened (take k es) v [?name] \<in> {v [?name], Some (ListenSocket mode)}" for k
    using view(1) [OF nd, of k v] by simp
  ultimately show ?thesis using e(2) published(4) by blast
qed

definition sample_listen :: listen_world where
  "sample_listen = \<lparr>lw_walk = sample_walk, lw_rand = Some (replicate 16 CHR ''r''), lw_mkdir = None, lw_open = None,
     lw_fchmod = None, lw_bind = None, lw_bound_mode = 493, lw_chmod = None, lw_link = Linked, lw_remove = None\<rparr>"

theorem listen_exposes_final_socket_only_witness:
  "\<exists>es. listen sample_listen ''/s.sock'' 384 = (None, es) \<and> listened es Map.empty [''s.sock''] = Some (ListenSocket 384)
    \<and> exposed_only_at ''s.sock'' 384 Map.empty (listened (take 3 es) Map.empty)"
proof -
  obtain r es where l: "listen sample_listen ''/s.sock'' 384 = (r, es)" by fastforce
  have p: "path_clean ''/s.sock'' = ''/s.sock''" "path_dir ''/s.sock'' = ''/''" "path_base ''/s.sock'' = ''s.sock''"
    "is_abs ''/''" "path_clean ''/'' = ''/''" "path_parts ''/'' = []" by code_simp+
  have "open_trusted_dir sample_walk ''/'' 493 = Inr ''/''"
    by (simp add: open_trusted_dir_def p group_or_other_write_def check_trusted_dir_def trusted_owner_def sample_walk_def)
  then have "r = None"
    using l by (auto simp: listen_def p sample_listen_def random_id_def bound_socket_def Let_def)
  with listen_exposes_final_socket_only [OF l, of Map.empty] show ?thesis by (simp add: l p has_prefix_def)
qed

lemma parse_socket_mode_bound: "parse_socket_mode s = Some n \<Longrightarrow> n \<le> 511"
  by (auto simp: parse_socket_mode_def default_socket_mode_def split: if_splits)

end
