(* ===== verification/ServeCommand.thy ===== *)
theory ServeCommand
  imports IdentitySetup MintSafety
begin

text \<open>
  The commands around the issuer: \<open>serve\<close> (\<open>cmd/gatekeeper/serve_linux.go\<close>), \<open>issue-session\<close> and
  \<open>issue-child\<close> (\<open>identity_cmd.go\<close>). What each step of the outside world yields is a parameter; a command
  is what it did, in order, and how it ended.
\<close>

subsection \<open>Serving\<close>

record serve_world =
  vw_readers :: flag_readers
  vw_config :: config_yaml
  vw_host :: host
  vw_exe :: "string option"
  vw_crypto :: crypto
  vw_setup :: setup_world
  vw_listen :: listen_world
  vw_publish :: publish_world

datatype serve_error =
    ServeFlags flag_error | ServeConfig config_error | IdentityNotConfigured | BadSocketMode | NoExecutable
  | SetupRefused setup_error | ListenRefused listen_error | KeySetUnwritten jwks_error

datatype serve_effect =
    ListenSteps "listen_step list" | KeySetSteps "publish_step list" | SocketClosed | SocketRemoved string | Serving string

definition serve_flags :: flag_set where
  "serve_flags = [''socket'' \<mapsto> StringFlag, ''config'' \<mapsto> StringFlag]"

text \<open>\<open>time.Duration(n) * time.Second\<close> wraps at 64 bits.\<close>

definition seconds_duration :: "int \<Rightarrow> int" where
  "seconds_duration n = sint (word_of_int n * word_of_int second :: int64)"

definition settings_of :: "config \<Rightarrow> string \<Rightarrow> string \<Rightarrow> settings" where
  "settings_of cfg sock exe =
     (let ic = cfg_identity cfg
      in \<lparr>st_issuer = idc_issuer ic, st_socket = sock, st_key = idc_key_path ic, st_alg = idc_alg ic,
          st_jwks = idc_jwks_path ic, st_runtime_roles = idc_runtime_roles ic, st_definitions = idc_definitions_dir ic,
          st_delegable = idc_delegable_roles ic, st_spawn_root = idc_spawn_root ic,
          st_ttl = seconds_duration (idc_session_ttl ic), st_helper = trim_suffix exe '' (deleted)''\<rparr>)"

text \<open>From a ready issuer on: the socket first, then the key set, which on failure takes the socket with it.\<close>

definition start_serving ::
    "serve_world \<Rightarrow> config \<Rightarrow> string \<Rightarrow> nat \<Rightarrow> issuer \<Rightarrow> (serve_error + issuer) \<times> serve_effect list" where
  "start_serving w cfg sock mode i =
     (case listen (vw_listen w) sock mode of
        (Some e, ls) \<Rightarrow> (Inl (ListenRefused e), [ListenSteps ls])
      | (None, ls) \<Rightarrow>
          if idc_jwks_path (cfg_identity cfg) = [] then (Inr i, [ListenSteps ls, Serving sock])
          else (case write_jwks (walk_to (vw_setup w) PublishWalk) (vw_publish w) (ic_keys i) (idc_jwks_path (cfg_identity cfg)) of
                  (Some e, ps) \<Rightarrow> (Inl (KeySetUnwritten e), [ListenSteps ls, KeySetSteps ps, SocketClosed, SocketRemoved sock])
                | (None, ps) \<Rightarrow> (Inr i, [ListenSteps ls, KeySetSteps ps, Serving sock])))"

definition run_serve :: "serve_world \<Rightarrow> string list \<Rightarrow> (serve_error + issuer) \<times> serve_effect list" where
  "run_serve w args =
     (case parse_flags (vw_readers w) serve_flags args of
        Inl e \<Rightarrow> (Inl (ServeFlags e), [])
      | Inr (vals, _) \<Rightarrow>
          (case load_config (vw_config w) (vw_host w) (string_value vals ''config'' ''config.yaml'') of
             Inl e \<Rightarrow> (Inl (ServeConfig e), [])
           | Inr cfg \<Rightarrow>
               if \<not> identity_enabled cfg then (Inl IdentityNotConfigured, [])
               else (case parse_socket_mode (idc_socket_mode (cfg_identity cfg)) of
                       None \<Rightarrow> (Inl BadSocketMode, [])
                     | Some mode \<Rightarrow>
                         (let sock = socket_for (string_value vals ''socket'' []) (Some cfg)
                          in case vw_exe w of
                               None \<Rightarrow> (Inl NoExecutable, [])
                             | Some exe \<Rightarrow>
                                 (case new_issuer (vw_crypto w) (vw_setup w) (settings_of cfg sock exe) of
                                    Inl e \<Rightarrow> (Inl (SetupRefused e), [])
                                  | Inr i \<Rightarrow> start_serving w cfg sock mode i)))))"

subsection \<open>Asking for an assertion\<close>

record issue_world =
  xw_readers :: flag_readers
  xw_host :: host
  xw_dial :: "string \<Rightarrow> dialer"
  xw_stdout :: "string \<Rightarrow> bool"
  xw_stderr :: "string \<Rightarrow> bool"

datatype issue_cmd_error =
    IssueFlags flag_error | AgentRequired | NoParentToken | ParentUnread io_err | IssueFailed client_error
  | ReportUnwritten | OutputUnwritten

definition issued_output :: "issued \<Rightarrow> bool \<Rightarrow> string" where
  "issued_output out as_json = (if as_json then encode_line (issued_json out) else iss_token out @ [CHR 0x0A])"

text \<open>A failed write is an error: \<open>None\<close> is success, with the bytes on standard output.\<close>

definition print_issued :: "(string \<Rightarrow> bool) \<Rightarrow> issued \<Rightarrow> bool \<Rightarrow> issue_cmd_error + string" where
  "print_issued write out as_json =
     (let s = issued_output out as_json in if write s then Inr s else Inl OutputUnwritten)"

definition narrowing_line :: "string \<times> string list \<Rightarrow> string" where
  "narrowing_line s =
     ''narrowed by '' @ fst s @ '': dropped roles '' @ join_with '','' (snd s) @ [CHR 0x0A]"

fun write_lines :: "(string \<Rightarrow> bool) \<Rightarrow> string list \<Rightarrow> bool" where
  "write_lines write [] = True"
| "write_lines write (l # ls) = (if write l then write_lines write ls else False)"

definition report_narrowing :: "(string \<Rightarrow> bool) \<Rightarrow> issued \<Rightarrow> bool" where
  "report_narrowing write out =
     (case iss_narrowed out of None \<Rightarrow> True | Some n \<Rightarrow> write_lines write (map narrowing_line (nw_steps n)))"

definition session_flags :: flag_set where
  "session_flags = [''socket'' \<mapsto> StringFlag, ''definition'' \<mapsto> StringFlag, ''origin'' \<mapsto> StringFlag, ''runtime'' \<mapsto> BoolFlag,
     ''runtime-id'' \<mapsto> StringFlag, ''runtime-version'' \<mapsto> StringFlag, ''json'' \<mapsto> BoolFlag]"

definition session_request_of_flags :: "flag_values \<Rightarrow> session_request" where
  "session_request_of_flags vals =
     (let rid = string_value vals ''runtime-id'' []; ver = string_value vals ''runtime-version'' []
      in \<lparr>sr_definition = string_value vals ''definition'' [], sr_origin = string_value vals ''origin'' [],
          sr_runtime = (if bool_value vals ''runtime'' \<or> rid \<noteq> [] \<or> ver \<noteq> []
                        then Some \<lparr>rd_id = rid, rd_version = ver\<rparr> else None)\<rparr>)"

definition run_issue_session :: "issue_world \<Rightarrow> string list \<Rightarrow> issue_cmd_error + string" where
  "run_issue_session w args =
     (case parse_flags (xw_readers w) session_flags args of
        Inl e \<Rightarrow> Inl (IssueFlags e)
      | Inr (vals, _) \<Rightarrow>
          (case client_issue_session (xw_dial w (socket_for (string_value vals ''socket'' []) None))
                  (session_request_of_flags vals) of
             Inl e \<Rightarrow> Inl (IssueFailed e)
           | Inr out \<Rightarrow> print_issued (xw_stdout w) out (bool_value vals ''json'')))"

definition child_flags :: flag_set where
  "child_flags = [''socket'' \<mapsto> StringFlag, ''parent-token-file'' \<mapsto> StringFlag, ''agent-type'' \<mapsto> StringFlag,
     ''agent-id'' \<mapsto> StringFlag, ''json'' \<mapsto> BoolFlag]"

text \<open>Where the parent's token is: the flag, else the delivery directory of the environment.\<close>

definition parent_token_path :: "host \<Rightarrow> flag_values \<Rightarrow> string option" where
  "parent_token_path h vals =
     (let path = string_value vals ''parent-token-file'' []; dir = getenv h identity_dir_env
      in if path \<noteq> [] then Some path
         else if dir = [] then None
         else Some (path_join [dir, delivery_file]))"

definition run_issue_child :: "issue_world \<Rightarrow> string list \<Rightarrow> issue_cmd_error + string" where
  "run_issue_child w args =
     (case parse_flags (xw_readers w) child_flags args of
        Inl e \<Rightarrow> Inl (IssueFlags e)
      | Inr (vals, _) \<Rightarrow>
          if string_value vals ''agent-type'' [] = [] \<or> string_value vals ''agent-id'' [] = [] then Inl AgentRequired
          else (case parent_token_path (xw_host w) vals of
                  None \<Rightarrow> Inl NoParentToken
                | Some path \<Rightarrow>
                    (case h_read (xw_host w) path of
                       Inl e \<Rightarrow> Inl (ParentUnread e)
                     | Inr raw \<Rightarrow>
                         (case client_issue_child (xw_dial w (socket_for (string_value vals ''socket'' []) None))
                                 \<lparr>cr_parent_token = trim_space raw, cr_agent_type = string_value vals ''agent-type'' [],
                                  cr_agent_id = string_value vals ''agent-id'' []\<rparr> of
                            Inl e \<Rightarrow> Inl (IssueFailed e)
                          | Inr out \<Rightarrow>
                              if \<not> report_narrowing (xw_stderr w) out then Inl ReportUnwritten
                              else print_issued (xw_stdout w) out (bool_value vals ''json'')))))"

subsection \<open>A failed start\<close>

text \<open>Whether the steps of listening left the socket under its name.\<close>

definition publishes_socket :: "listen_step list \<Rightarrow> bool" where
  "publishes_socket ls \<longleftrightarrow> (\<exists>d n. SocketPublished d n \<in> set ls)"

definition socket_published :: "serve_effect list \<Rightarrow> bool" where
  "socket_published es \<longleftrightarrow> (\<exists>ls. ListenSteps ls \<in> set es \<and> publishes_socket ls)"

definition key_set_touched :: "serve_effect list \<Rightarrow> bool" where
  "key_set_touched es \<longleftrightarrow> (\<exists>ps. KeySetSteps ps \<in> set es)"

lemma listen_published: "listen w path mode = (r, ls) \<Longrightarrow> publishes_socket ls \<longleftrightarrow> r = None"
  unfolding publishes_socket_def by (cases rule: listen_cases [of w path mode]) (auto simp: quiet_steps_def, blast)

lemma start_serving_order:
  assumes "start_serving w cfg sock mode i = (r, es)"
  shows "(key_set_touched es \<longrightarrow> socket_published (takeWhile (\<lambda>e. case e of KeySetSteps ps \<Rightarrow> False | _ \<Rightarrow> True) es))
    \<and> (socket_published es \<longleftrightarrow> Serving sock \<in> set es \<or> SocketRemoved sock \<in> set es)
    \<and> (Serving sock \<in> set es \<longleftrightarrow> r = Inr i) \<and> (\<forall>j. r = Inr j \<longrightarrow> j = i)"
proof (cases "listen (vw_listen w) sock mode")
  case (Pair e ls)
  from listen_published [OF this] show ?thesis
    using assms Pair
    by (cases e) (auto simp: start_serving_def socket_published_def key_set_touched_def split: if_splits prod.splits option.splits)
qed

lemma run_serve_start:
  assumes "run_serve w args = (r, es)"
  obtains (before) "es = []" "\<forall>i. r \<noteq> Inr i"
  | (started) vals left cfg mode exe i where "parse_flags (vw_readers w) serve_flags args = Inr (vals, left)"
      "load_config (vw_config w) (vw_host w) (string_value vals ''config'' ''config.yaml'') = Inr cfg"
      "identity_enabled cfg" "parse_socket_mode (idc_socket_mode (cfg_identity cfg)) = Some mode" "vw_exe w = Some exe"
      "new_issuer (vw_crypto w) (vw_setup w) (settings_of cfg (socket_for (string_value vals ''socket'' []) (Some cfg)) exe) = Inr i"
      "start_serving w cfg (socket_for (string_value vals ''socket'' []) (Some cfg)) mode i = (r, es)"
proof (cases "parse_flags (vw_readers w) serve_flags args")
  case (Inl e)
  with assms have "es = [] \<and> (\<forall>i. r \<noteq> Inr i)" by (auto simp: run_serve_def)
  with before show ?thesis by blast
next
  case (Inr x)
  obtain vals left where f: "x = (vals, left)" by (cases x)
  show ?thesis
  proof (cases "load_config (vw_config w) (vw_host w) (string_value vals ''config'' ''config.yaml'')")
    case (Inl e)
    with Inr f assms have "es = [] \<and> (\<forall>i. r \<noteq> Inr i)" by (auto simp: run_serve_def)
    with before show ?thesis by blast
  next
    case c: (Inr cfg)
    let ?sock = "socket_for (string_value vals ''socket'' []) (Some cfg)"
    show ?thesis
    proof (cases "identity_enabled cfg \<and> parse_socket_mode (idc_socket_mode (cfg_identity cfg)) \<noteq> None \<and> vw_exe w \<noteq> None")
      case False
      with Inr f c assms have "es = [] \<and> (\<forall>i. r \<noteq> Inr i)" by (auto simp: run_serve_def Let_def split: if_splits option.splits)
      with before show ?thesis by blast
    next
      case True
      then obtain mode exe where m: "identity_enabled cfg" "parse_socket_mode (idc_socket_mode (cfg_identity cfg)) = Some mode"
        "vw_exe w = Some exe" by auto
      show ?thesis
      proof (cases "new_issuer (vw_crypto w) (vw_setup w) (settings_of cfg ?sock exe)")
        case (Inl e)
        with Inr f c m assms have "es = [] \<and> (\<forall>i. r \<noteq> Inr i)" by (auto simp: run_serve_def Let_def)
        with before show ?thesis by blast
      next
        case n: (Inr i)
        with Inr f c m assms have "start_serving w cfg ?sock mode i = (r, es)" by (simp add: run_serve_def Let_def)
        from started [OF Inr [unfolded f] c m n this] show ?thesis .
      qed
    qed
  qed
qed

subsection \<open>Properties\<close>

text \<open>The socket path of a command line under a loaded configuration.\<close>

definition served_socket :: "serve_world \<Rightarrow> string list \<Rightarrow> string option" where
  "served_socket w args =
     (case parse_flags (vw_readers w) serve_flags args of
        Inl e \<Rightarrow> None
      | Inr (vals, _) \<Rightarrow>
          (case load_config (vw_config w) (vw_host w) (string_value vals ''config'' ''config.yaml'') of
             Inl e \<Rightarrow> None
           | Inr cfg \<Rightarrow> Some (socket_for (string_value vals ''socket'' []) (Some cfg))))"

text \<open>C34: A serve that does not get the socket never touches the published key set, which may be another server's;
  and a serve that published its socket either serves on it or has removed it again, so a start that fails
  leaves no name nobody answers on.\<close>
theorem serve_owns_socket_first:
  assumes "run_serve w args = (r, es)"
  shows "(key_set_touched es \<longrightarrow> socket_published (takeWhile (\<lambda>e. case e of KeySetSteps ps \<Rightarrow> False | _ \<Rightarrow> True) es))
    \<and> (socket_published es \<longrightarrow> (\<exists>sock. served_socket w args = Some sock
         \<and> (case r of Inl e \<Rightarrow> SocketRemoved sock \<in> set es | Inr i \<Rightarrow> Serving sock \<in> set es)))"
  using assms
proof (cases rule: run_serve_start)
  case before
  then show ?thesis by (simp add: key_set_touched_def socket_published_def)
next
  case (started vals left cfg mode exe i)
  let ?sock = "socket_for (string_value vals ''socket'' []) (Some cfg)"
  have "served_socket w args = Some ?sock" using started(1,2) by (simp add: served_socket_def)
  moreover have "socket_published es \<longrightarrow> (case r of Inl e \<Rightarrow> SocketRemoved ?sock \<in> set es | Inr i \<Rightarrow> Serving ?sock \<in> set es)"
    using start_serving_order [OF started(7)] by (cases r) simp_all
  ultimately show ?thesis using start_serving_order [OF started(7)] by blast
qed

definition sample_identity :: "string \<Rightarrow> identity_config" where
  "sample_identity jwks = \<lparr>idc_issuer = [], idc_socket_path = ''/s.sock'', idc_socket_mode = [], idc_key_path = ''/k.pem'',
     idc_alg = [], idc_jwks_path = jwks, idc_runtime_roles = [''builder''], idc_definitions_dir = [],
     idc_delegable_roles = None, idc_spawn_root = ''/spawn'', idc_session_ttl = 0\<rparr>"

definition sample_served_config :: "string \<Rightarrow> config" where
  "sample_served_config jwks = sample_config\<lparr>cfg_identity := sample_identity jwks, cfg_identity_present := True\<rparr>"

definition sample_key_files :: dir_files where
  "sample_key_files = (\<lambda>_. Inr (Inr \<lparr>fi_kind = RegularFile, fi_perm = 384, fi_uid = 5\<rparr>, Inr ''k''))"

definition sample_setup :: setup_world where
  "sample_setup = \<lparr>su_euid = 5, su_walk = (\<lambda>_. sample_walk), su_lib = sample_key_lib, su_key_files = sample_key_files,
     su_def_files = sample_key_files, su_def_names = Inr [], su_root_uid = Some 5, su_root_chmod = None,
     su_yaml = (\<lambda>_. None), su_stat = (\<lambda>_. None)\<rparr>"

definition sample_serve :: "string \<Rightarrow> serve_world" where
  "sample_serve jwks = \<lparr>vw_readers = \<lparr>rd_duration = (\<lambda>_. None), rd_int = (\<lambda>_. None)\<rparr>,
     vw_config = \<lparr>cy_decode = (\<lambda>_. Some (sample_served_config jwks)),
       cy_tree = (\<lambda>_. Some (Some (YamlMap [(YamlText ''identity'', YamlOtherNode)])))\<rparr>,
     vw_host = sample_mint_host, vw_exe = Some ''/bin/gatekeeper'', vw_crypto = sample_ed_crypto, vw_setup = sample_setup,
     vw_listen = sample_listen,
     vw_publish = \<lparr>pw_rand = None, pw_create = None, pw_chmod = None, pw_write = None, pw_sync = None, pw_close = None,
       pw_place = None, pw_dirsync = None\<rparr>\<rparr>"

lemma sample_walk_to: "walk_to sample_setup u = sample_walk"
  by (simp add: walk_to_def sample_setup_def) (simp add: sample_walk_def)

lemma sample_roots:
  "open_trusted_dir sample_walk ''/'' 0 = Inr ''/''" "open_trusted_dir sample_walk ''/'' 493 = Inr ''/''"
  "open_trusted_dir sample_walk ''/spawn'' 457 = Inr ''/spawn''"
proof -
  have p: "is_abs ''/''" "path_clean ''/'' = ''/''" "path_parts ''/'' = []" "is_abs ''/spawn''"
    "path_clean ''/spawn'' = ''/spawn''" "path_parts ''/spawn'' = [''spawn'']" by code_simp+
  show "open_trusted_dir sample_walk ''/'' 0 = Inr ''/''" "open_trusted_dir sample_walk ''/'' 493 = Inr ''/''"
    "open_trusted_dir sample_walk ''/spawn'' 457 = Inr ''/spawn''"
    by (simp_all add: open_trusted_dir_def p group_or_other_write_def check_trusted_dir_def trusted_owner_def
        open_element_def sample_walk_def)
qed

definition sample_ring_of :: keyring where
  "sample_ring_of = ring_of sample_ed_crypto sample_ed (ed_public sample_ed_crypto (replicate 32 CHR ''x''))"

lemma sample_started:
  "new_issuer sample_ed_crypto sample_setup (settings_of (sample_served_config jwks) ''/s.sock'' ''/bin/gatekeeper'') =
     Inr \<lparr>ic_issuer = ''unix:///s.sock'', ic_keys = sample_ring_of, ic_yaml = (\<lambda>_. None), ic_defs = None,
          ic_dirs = \<lparr>sd_root = ''/spawn''\<rparr>, ic_helper = None, ic_runtime_roles = [''builder''], ic_delegable = None,
          ic_ttl = 43200 * 1000000000, ic_euid = 5\<rparr>"
  if "jwks = [] \<or> path_dir jwks = ''/''"
proof -
  let ?s = "settings_of (sample_served_config jwks) ''/s.sock'' ''/bin/gatekeeper''"
  have f: "st_key ?s = ''/k.pem''" "st_socket ?s = ''/s.sock''" "st_ttl ?s = 0" "st_spawn_root ?s = ''/spawn''"
    "st_runtime_roles ?s = [''builder'']" "st_delegable ?s = None" "st_definitions ?s = []" "st_issuer ?s = []"
    "st_alg ?s = []" "st_jwks ?s = jwks" "st_helper ?s = ''/bin/gatekeeper''"
    by (simp_all add: settings_of_def sample_served_config_def sample_identity_def Let_def seconds_duration_def
        trim_suffix_def has_suffix_def)
  have p: "is_abs ''/s.sock''" "is_abs ''/spawn''" "path_dir ''/s.sock'' = ''/''" "path_clean ''/spawn'' = ''/spawn''" by code_simp+
  have "re_role_name ''builder''" by (simp add: re_role_name_def char_class_defs)
  then have c: "check_settings ?s = None"
    by (simp add: check_settings_def effective_ttl_def effective_root_def all_roles_def f p second_def max_lifetime_seconds_def)
  have k: "load_keyring sample_ed_crypto (su_lib sample_setup) (walk_to sample_setup KeyWalk) (su_key_files sample_setup) ''/k.pem'' []
      = Inr sample_ring_of"
    unfolding sample_walk_to sample_ring_of_def
    using sample_ring [of sample_key_files]
    by (simp add: sample_setup_def) (simp add: sample_key_files_def open_regular_at_def)
  have d: "new_spawn_dirs sample_setup ''/spawn'' = Inr \<lparr>sd_root = ''/spawn''\<rparr>"
    by (simp add: new_spawn_dirs_def p sample_walk_to sample_roots) (simp add: sample_setup_def p)
  have pub: "check_publication sample_setup ?s = None"
    unfolding check_publication_def f p sample_walk_to sample_roots sum.case using that by (auto simp: sample_roots)
  have "new_issuer sample_ed_crypto sample_setup ?s =
     Inr \<lparr>ic_issuer = ''unix:///s.sock'', ic_keys = sample_ring_of, ic_yaml = su_yaml sample_setup, ic_defs = None,
          ic_dirs = \<lparr>sd_root = ''/spawn''\<rparr>, ic_helper = su_stat sample_setup ''/bin/gatekeeper'',
          ic_runtime_roles = [''builder''], ic_delegable = None, ic_ttl = 43200 * 1000000000, ic_euid = su_euid sample_setup\<rparr>"
    by (simp add: new_issuer_def c f k pub new_definitions_def effective_root_def p d effective_issuer_def effective_ttl_def
        second_def max_lifetime_seconds_def)
  then show ?thesis by (simp add: sample_setup_def)
qed

text \<open>A server whose key set cannot be written: the socket it had published is gone again.\<close>

theorem serve_owns_socket_first_witness:
  "\<exists>r es. run_serve (sample_serve ''/j.json'') [] = (r, es) \<and> socket_published es \<and> SocketRemoved ''/s.sock'' \<in> set es"
proof -
  obtain r es where r: "run_serve (sample_serve ''/j.json'') [] = (r, es)" by fastforce
  have cfg: "load_config (vw_config (sample_serve ''/j.json'')) (vw_host (sample_serve ''/j.json'')) p
      = Inr (sample_served_config ''/j.json'')" for p
    by (simp add: load_config_def sample_serve_def sample_mint_host_def has_top_level_key_def removed_keys_present_def node_value_def
        validate_attestation_def validate_identity_def path_fields_def is_abs_def apply_defaults_def
        sample_served_config_def sample_identity_def sample_config_def no_sidecar_def sidecar_enabled_def)
  have sock: "served_socket (sample_serve ''/j.json'') [] = Some ''/s.sock''"
    by (simp add: served_socket_def cfg socket_for_def string_value_def last_value_def)
      (simp add: sample_served_config_def sample_identity_def)
  have p: "path_dir ''/j.json'' = ''/''" "path_clean ''/s.sock'' = ''/s.sock''" "path_dir ''/s.sock'' = ''/''"
    "path_base ''/s.sock'' = ''s.sock''" by code_simp+
  have jwks: "path_dir ''/j.json'' = ''/''" by code_simp
  obtain ls where ls: "listen sample_listen ''/s.sock'' 384 = (None, ls)"
    by (auto simp: listen_def p sample_listen_def random_id_def bound_socket_def Let_def sample_roots)
  have w: "write_jwks sample_walk (vw_publish (sample_serve ''/j.json'')) k ''/j.json'' = (Some (JwksUnpublished NoRandomId), [])" for k
    by (simp add: write_jwks_def jwks sample_roots sample_serve_def publish_file_at_def random_id_def)
  have v: "vw_listen (sample_serve x) = sample_listen" "vw_setup (sample_serve x) = sample_setup"
    "vw_crypto (sample_serve x) = sample_ed_crypto" "vw_exe (sample_serve x) = Some ''/bin/gatekeeper''" for x
    by (simp_all add: sample_serve_def)
  have c: "identity_enabled (sample_served_config x)" "idc_socket_mode (cfg_identity (sample_served_config x)) = []"
    "idc_jwks_path (cfg_identity (sample_served_config x)) = x"
    "socket_for (string_value [] ''socket'' []) (Some (sample_served_config x)) = ''/s.sock''" for x
    by (simp_all add: identity_enabled_def sample_served_config_def sample_identity_def socket_for_def string_value_def last_value_def)
  have "parse_socket_mode [] = Some 384" by (simp add: parse_socket_mode_def default_socket_mode_def)
  then have "\<exists>e. es = [ListenSteps ls, KeySetSteps [], SocketClosed, SocketRemoved ''/s.sock''] \<and> r = Inl e"
    using r jwks
    by (auto simp: run_serve_def cfg c v sample_started start_serving_def ls sample_walk_to w)
  moreover have "publishes_socket ls" using listen_published [OF ls] by simp
  ultimately have "\<exists>ls e. es = [ListenSteps ls, KeySetSteps [], SocketClosed, SocketRemoved ''/s.sock''] \<and> r = Inl e
      \<and> publishes_socket ls" by blast
  then have "socket_published es" "\<exists>e. r = Inl e" by (auto simp: socket_published_def)
  with serve_owns_socket_first [OF r] sock r show ?thesis by auto
qed

end
