(* ===== verification/Deployment.thy ===== *)
theory Deployment
  imports ServeCommand
begin

text \<open>
  A deployment: one configuration read by \<open>serve\<close> and by \<open>mint\<close>. What the server checks when it starts
  and what it publishes is what the mint needs in order to accept the assertions the server issues.
\<close>

subsection \<open>A request that is granted\<close>

text \<open>The environment of a call that can be served: random bytes, a directory that can be made and filled.\<close>

definition call_served :: "issue_call \<Rightarrow> bool" where
  "call_served w \<longleftrightarrow>
     (\<exists>a b c. cl_rand_jti w = Some a \<and> cl_rand_sid w = Some b \<and> cl_rand_dir w = Some c)
     \<and> cl_mkdir w = (\<lambda>_. True) \<and> cl_publish w = (\<lambda>_ _. True)"

definition can_sign :: "keyring \<Rightarrow> bool" where
  "can_sign k \<longleftrightarrow> (\<forall>input. kr_sign k input \<noteq> None)"

lemma deliver_served:
  assumes "call_served w" and "can_sign (ic_keys i)" and "permitted i pr" and "name_of (ic_dirs i) dir = Some name"
  shows "\<exists>out reg' es. deliver i w pr b c dir n reg = (Inr out, reg', es)"
proof -
  have "kr_sign (ic_keys i) (signing_input (ic_keys i) (c\<lparr>cl_dir := path_clean dir\<rparr>)) \<noteq> None"
    using assms(2) by (simp add: can_sign_def)
  then obtain token where "sign_claims (ic_keys i) (c\<lparr>cl_dir := path_clean dir\<rparr>) = Some token"
    by (auto simp: sign_claims_def Let_def)
  with assms(1,3,4) show ?thesis by (simp add: deliver_def Let_def publish_def call_served_def permitted_def)
qed

lemma finish_served:
  assumes "call_served w" and "can_sign (ic_keys i)" and "permitted i pr" and "is_abs (sd_root (ic_dirs i))"
    and "path_clean (sd_root (ic_dirs i)) = sd_root (ic_dirs i)" and "unix (cl_now w) < unix expiry" and "\<not> driven_violation c"
  shows "\<exists>out reg' es. finish i w pr b c expiry n reg = (Inr out, reg', es)"
proof -
  from assms(1) obtain x y z where r: "cl_rand_jti w = Some x" "cl_rand_sid w = Some y" "cl_rand_dir w = Some z"
    and m: "cl_mkdir w = (\<lambda>_. True)" by (auto simp: call_served_def)
  have "\<exists>c1. with_sid w c = Some c1 \<and> \<not> driven_violation c1"
    using assms(7) r by (cases "cl_sid c = []") (simp_all add: with_sid_def random_id_def driven_violation_def)
  then obtain c1 where c1: "with_sid w c = Some c1" "\<not> driven_violation c1" by blast
  obtain dir name where d: "create_dir (ic_dirs i) (Some z) (\<lambda>_. True) (unix (cl_now w)) = Some (dir, name)"
    by (auto simp: create_dir_def random_id_def Let_def)
  from created_dir(1) [OF assms(4,5) d] have "name_of (ic_dirs i) dir = Some name" .
  from deliver_served [OF assms(1-3) this]
  show ?thesis using assms(6) c1 d r m by (simp add: finish_def Let_def random_id_def)
qed

lemma second_later: "t + second \<le> u \<Longrightarrow> unix t < unix u"
  using zdiv_mono1 [of "t + second" u 1000000000] by (simp add: unix_def second_def)

lemma session_granted:
  assumes "permitted i pr" and "bind_runtime (cl_reader w) (ic_helper i) pr = Inr b"
    and "runtime_id (pi_exe (bd_proc b)) (pi_args (bd_proc b)) = Some rt"
    and "runtime_version rt (sr_runtime req) = Inr version" and "session_origin (sr_origin req) = Inr origin"
    and "session_claims i rt version origin (sr_definition req) = Inr c"
    and "call_served w" and "can_sign (ic_keys i)" and "is_abs (sd_root (ic_dirs i))"
    and "path_clean (sd_root (ic_dirs i)) = sd_root (ic_dirs i)" and "second \<le> ic_ttl i"
  shows "\<exists>out reg' es. issue_session i w pr req reg = (Inr out, reg', es)"
proof -
  note f = session_claims_Inr [OF assms(6)]
  have "\<not> driven_violation c"
    using f by (auto simp: driven_violation_def has_prefix_def split: if_splits)
  moreover have "unix (cl_now w) < unix (cl_now w + ic_ttl i)" by (rule second_later) (use assms(11) in simp)
  ultimately show ?thesis
    using finish_served [OF assms(7,8,1,9,10)] assms(1-6) by (simp add: issue_session_def)
qed

subsection \<open>Reaping while assertions live\<close>

text \<open>The maximum age the server's reaper uses: twice the longest lifetime.\<close>

definition reap_max_age :: int where
  "reap_max_age = 2 * max_lifetime_seconds * second"

definition sweep :: "(string \<Rightarrow> io_err option) \<Rightarrow> int \<Rightarrow> string list \<Rightarrow> nat \<times> string list" where
  "sweep remove now names = reap remove now reap_max_age names"

lemma unix_bounds: "unix t * 1000000000 \<le> t" "t < unix t * 1000000000 + 1000000000"
  unfolding unix_def by (simp_all add: minus_mod_eq_div_mult [symmetric] pos_mod_bound)

lemma unix_add: "unix (t + k * 1000000000) = unix t + k"
  by (simp add: unix_def)

lemma issued_dir_age:
  assumes "finished i w pr b c expiry reg out reg' es cF" and "expiry \<le> cl_now w + 43200 * second"
    and "is_abs (sd_root (ic_dirs i))" and "path_clean (sd_root (ic_dirs i)) = sd_root (ic_dirs i)"
    and "cl_rand_dir w = Some bytes" and "length bytes = 16" and "0 \<le> unix (cl_now w)" and "unix (cl_now w) < 16 ^ 10"
  shows "\<exists>name. name_of (ic_dirs i) (iss_dir out) = Some name
    \<and> (stale t reap_max_age name \<longrightarrow> iss_expires_at out < unix t)
    \<and> (unix (cl_now w) + 86400 < unix t \<longrightarrow> stale t reap_max_age name)"
proof -
  from assms(1) obtain dir name where cF: "completed w c expiry dir cF"
    and d: "create_dir (ic_dirs i) (Some bytes) (cl_mkdir w) (unix (cl_now w)) = Some (dir, name)"
    and o': "iss_dir out = path_clean dir" "iss_expires_at out = cl_exp cF"
    unfolding finished_def assms(5) by blast
  have age: "0 \<le> reap_max_age" "reap_max_age < 2 ^ 63 - 1" "reap_max_age = 86400 * 1000000000"
    by (simp_all add: reap_max_age_def max_lifetime_seconds_def second_def)
  note old = created_dir_reaped_when_old [OF assms(3,4,6,7,8) age(1,2) d]
  have n: "name_of (ic_dirs i) (iss_dir out) = Some name" using old created_dir(2) [OF assms(3,4) d] o'(1) by simp
  have e: "iss_expires_at out \<le> unix (cl_now w) + 43200"
  proof -
    have "unix expiry \<le> unix (cl_now w + 43200 * 1000000000)"
      unfolding unix_def using assms(2) by (intro zdiv_mono1) (simp_all add: second_def)
    then show ?thesis using o'(2) completed_fields(11) [OF cF] by (simp only: unix_add)
  qed
  have "iss_expires_at out < unix t" if "stale t reap_max_age name"
  proof -
    have "86400 * 1000000000 < t - unix (cl_now w) * 1000000000" using that old age(3) by simp
    then have "(unix (cl_now w) + 86400) * 1000000000 < (unix t + 1) * 1000000000" using unix_bounds(2) [of t] by simp
    then have "unix (cl_now w) + 86400 \<le> unix t" by simp
    with e show ?thesis by simp
  qed
  moreover have "stale t reap_max_age name" if "unix (cl_now w) + 86400 < unix t"
  proof -
    have "(unix (cl_now w) + 86400) * 1000000000 < unix t * 1000000000" using that by simp
    with unix_bounds(1) [of t] have "86400 * 1000000000 < t - unix (cl_now w) * 1000000000" by simp
    then show ?thesis using old age(3) by simp
  qed
  ultimately show ?thesis using n by blast
qed

subsection \<open>The key set the mint reads\<close>

lemma add_issuers_known: "add_issuers n is m = Inr m' \<Longrightarrow> m k \<noteq> None \<Longrightarrow> m' k = m k"
  by (induction n "is" m rule: add_issuers.induct) (auto split: if_splits option.splits)

lemma add_issuers_last:
  "add_issuers n (is @ [a]) m = Inr m' \<Longrightarrow> m' (ai_iss a) = resolve_locator n (ai_iss a) (ai_jwks a)
     \<and> resolve_locator n (ai_iss a) (ai_jwks a) \<noteq> None"
  by (induction n "is" m rule: add_issuers.induct) (auto split: if_splits option.splits)

text \<open>The issuers of the configuration's assertion section.\<close>

definition listed_issuers :: "config \<Rightarrow> string list" where
  "listed_issuers cfg = (case atc_assertion (cfg_attestation cfg) of None \<Rightarrow> [] | Some l \<Rightarrow> map aic_iss l)"

lemma wired_local:
  assumes "build_assertion_provider n cfg = Inr (Some issuers)" and "local_iss cfg \<notin> set (listed_issuers cfg)"
  shows "issuers (local_iss cfg) = resolve_locator n (local_iss cfg) (idc_jwks_path (cfg_identity cfg))
    \<and> resolve_locator n (local_iss cfg) (idc_jwks_path (cfg_identity cfg)) \<noteq> None"
proof -
  from assms(1) obtain l where l: "atc_assertion (cfg_attestation cfg) = Some l"
    by (auto simp: build_assertion_provider_def split: option.splits)
  with assms(2) have "local_iss cfg \<notin> set (map aic_iss l)" by (simp add: listed_issuers_def)
  with assms(1) l have "new_assertion_provider n
      (map (\<lambda>c. \<lparr>ai_iss = aic_iss c, ai_jwks = aic_jwks c\<rparr>) l
        @ [\<lparr>ai_iss = local_iss cfg, ai_jwks = idc_jwks_path (cfg_identity cfg)\<rparr>]) = Inr issuers"
    by (auto simp: build_assertion_provider_def Let_def simp del: set_map split: option.splits sum.splits)
  then have "add_issuers n (map (\<lambda>c. \<lparr>ai_iss = aic_iss c, ai_jwks = aic_jwks c\<rparr>) l
        @ [\<lparr>ai_iss = local_iss cfg, ai_jwks = idc_jwks_path (cfg_identity cfg)\<rparr>]) Map.empty = Inr issuers"
    by (simp add: new_assertion_provider_def split: if_splits)
  from add_issuers_last [OF this] show ?thesis by simp
qed

text \<open>
  What the mint's host and network give it: the file the server publishes, or the server's answer on its
  socket, which \<open>net/url\<close> finds behind \<open>unix://\<close> and an absolute path.
\<close>

definition sees_key_set :: "net \<Rightarrow> host \<Rightarrow> config \<Rightarrow> issuer \<Rightarrow> bool" where
  "sees_key_set n h cfg i \<longleftrightarrow>
     (let jwks = idc_jwks_path (cfg_identity cfg); sock = path_clean (socket_for [] (Some cfg))
      in if jwks \<noteq> [] then
           is_abs jwks \<and> (\<exists>uid. h_open h (path_clean jwks) =
             Inr (Inr \<lparr>fi_kind = RegularFile, fi_perm = 420, fi_uid = uid\<rparr>, Inr (marshal_jwks (ic_keys i) @ [CHR 0x0A])))
         else
           resolve_locator n (local_iss cfg) [] = Some \<lparr>loc_kind = LocUnix, loc_target = sock\<rparr>
           \<and> (\<exists>sv. sv_issuer sv = i
                \<and> http_get n sock (''http://localhost'' @ well_known_jwks) = Inr (200, Inr (rp_body (serve_jwks sv)))))"

lemma enc_string_length: "length (enc_string s) \<le> 6 * length s + 2"
  using enc_body_length [of s] by (simp add: enc_string_def)

lemma parse_marshalled_line:
  assumes "list_all clean_jwk (jwks_of (kr_public k))"
  shows "parse_jwks (marshal_jwks k @ [CHR 0x0A]) = parse_jwks (marshal_jwks k)"
proof -
  note c = jwks_json_clean [OF assms]
  have "tokens [CHR 0x0A] = Some []" by (simp add: tokens.simps(2) json_space_def)
  then have "tokens (marshal_jwks k @ [CHR 0x0A]) = tokens (marshal_jwks k)"
    using tokens_json_indent [OF c(1), of 0 "[CHR 0x0A]"] tokens_json_indent [OF c(1), of 0 "[]"]
    by (simp add: marshal_jwks_def)
  then show ?thesis by (simp add: parse_jwks_def json_parse_def)
qed

text \<open>A key set of one key with short members is small.\<close>

definition short_jwk :: "jwk \<Rightarrow> bool" where
  "short_jwk k \<longleftrightarrow> length (jwk_kty k) \<le> 64 \<and> length (jwk_crv k) \<le> 64 \<and> length (jwk_kid k) \<le> 64 \<and> length (jwk_alg k) \<le> 64
     \<and> length (jwk_use k) \<le> 64 \<and> length (jwk_x k) \<le> 64 \<and> length (jwk_y k) \<le> 64"

lemma member_length: "length s \<le> 64 \<Longrightarrow> length (enc_string s) \<le> 386"
  using enc_string_length [of s] by simp

lemma one_key_length:
  assumes "short_jwk (pk_jwk p)" and "kr_public k = [p]"
  shows "length (marshal_jwks k) < max_jwks_bytes"
proof -
  have m: "length (enc_string (jwk_kty (pk_jwk p))) \<le> 386" "length (enc_string (jwk_crv (pk_jwk p))) \<le> 386"
    "length (enc_string (jwk_kid (pk_jwk p))) \<le> 386" "length (enc_string (jwk_alg (pk_jwk p))) \<le> 386"
    "length (enc_string (jwk_use (pk_jwk p))) \<le> 386" "length (enc_string (jwk_x (pk_jwk p))) \<le> 386"
    "length (enc_string (jwk_y (pk_jwk p))) \<le> 386"
    "length (enc_string ''kty'') \<le> 386" "length (enc_string ''crv'') \<le> 386" "length (enc_string ''kid'') \<le> 386"
    "length (enc_string ''alg'') \<le> 386" "length (enc_string ''use'') \<le> 386" "length (enc_string ''x'') \<le> 386"
    "length (enc_string ''y'') \<le> 386" "length (enc_string ''keys'') \<le> 386"
    using assms(1) by (auto simp: short_jwk_def intro!: member_length)
  show ?thesis
  proof (cases "jwk_y (pk_jwk p) = []")
    case True
    then show ?thesis
      using m by (simp add: marshal_jwks_def jwks_json_def jwk_json_def assms(2) line_break_def max_jwks_bytes_def)
  next
    case False
    then show ?thesis
      using m by (simp add: marshal_jwks_def jwks_json_def jwk_json_def assms(2) line_break_def max_jwks_bytes_def)
  qed
qed

lemma b64url_short: "length s = 32 \<Longrightarrow> length (b64url_encode s) \<le> 64"
  using b64url_length [of s] by simp

lemma loaded_document:
  assumes "load_keyring cr lib w files path want = Inr k"
    and "\<And>der key. kl_pkcs8 lib der = Some key \<Longrightarrow> lawful_key cr key"
  shows "list_all clean_jwk (jwks_of (kr_public k))" and "length (marshal_jwks k) < max_jwks_bytes"
proof -
  have "list_all clean_jwk (jwks_of (kr_public k)) \<and> length (marshal_jwks k) < max_jwks_bytes"
    using assms(1)
  proof (cases rule: load_keyring_Inr)
    case (ed pub sign der)
    have law: "\<forall>s. length (sha256 cr s) = 32" "length pub = 32"
      using assms(2) [OF ed(1)] by (auto simp: lawful_key_def)
    have "short_jwk (pk_jwk (ed_public cr pub))"
      using law b64url_short by (simp add: short_jwk_def ed_public_def Let_def thumbprint_def)
    moreover have "kr_public k = [ed_public cr pub]" by (simp add: ed(2) ring_of_def)
    moreover have "clean_jwk (pk_jwk (ed_public cr pub))"
      using thumbprint_clean [OF law(1)] b64url_utf8 ascii_names by (simp add: ed_public_def clean_jwk_def Let_def)
    ultimately show ?thesis using one_key_length by simp
  next
    case (ec px py sign der)
    have law: "\<forall>s. length (sha256 cr s) = 32" using assms(2) [OF ec(1)] by (auto simp: lawful_key_def)
    have "short_jwk (pk_jwk (ec_public cr px py))"
      using law b64url_short by (simp add: short_jwk_def ec_public_def Let_def thumbprint_def)
    moreover have "kr_public k = [ec_public cr px py]" by (simp add: ec(2) ring_of_def)
    moreover have "clean_jwk (pk_jwk (ec_public cr px py))"
      using thumbprint_clean [OF law(1)] b64url_utf8 ascii_names by (simp add: ec_public_def clean_jwk_def Let_def)
    ultimately show ?thesis using one_key_length by simp
  qed
  then show "list_all clean_jwk (jwks_of (kr_public k))" "length (marshal_jwks k) < max_jwks_bytes" by auto
qed

lemma sees_keys:
  assumes "sees_key_set n h cfg i" and "issuers (local_iss cfg) = resolve_locator n (local_iss cfg) (idc_jwks_path (cfg_identity cfg))"
    and "length (marshal_jwks (ic_keys i)) < max_jwks_bytes" and "list_all clean_jwk (jwks_of (kr_public (ic_keys i)))"
  shows "ks_keys (issuer_source n h issuers) (local_iss cfg) = parse_jwks (marshal_jwks (ic_keys i))"
proof (cases "idc_jwks_path (cfg_identity cfg) = []")
  case True
  with assms(1) obtain sv where l: "resolve_locator n (local_iss cfg) [] =
      Some \<lparr>loc_kind = LocUnix, loc_target = path_clean (socket_for [] (Some cfg))\<rparr>"
    and g: "http_get n (path_clean (socket_for [] (Some cfg))) (''http://localhost'' @ well_known_jwks)
      = Inr (200, Inr (marshal_jwks (ic_keys i)))"
    by (auto simp: sees_key_set_def Let_def serve_jwks_def)
  show ?thesis
    using assms(2,3) by (simp add: issuer_source_def issuer_keys_def fetch_jwks_def get_bounded_def True l g [simplified] Let_def)
next
  case False
  with assms(1) obtain uid where a: "is_abs (idc_jwks_path (cfg_identity cfg))"
    and f: "h_open h (path_clean (idc_jwks_path (cfg_identity cfg))) =
      Inr (Inr \<lparr>fi_kind = RegularFile, fi_perm = 420, fi_uid = uid\<rparr>, Inr (marshal_jwks (ic_keys i) @ [CHR 0x0A]))"
    by (auto simp: sees_key_set_def Let_def)
  have "resolve_locator n (local_iss cfg) (idc_jwks_path (cfg_identity cfg)) =
      Some \<lparr>loc_kind = LocFile, loc_target = path_clean (idc_jwks_path (cfg_identity cfg))\<rparr>"
    using False a by (simp add: resolve_locator_def parse_locator_def)
  with assms(2,3) parse_marshalled_line [OF assms(4)] show ?thesis
    by (simp add: issuer_source_def issuer_keys_def fetch_jwks_def read_jwks_file_def f read_opened_def Let_def
        group_or_other_write_def)
qed

text \<open>A library whose keys verify what they sign.\<close>

definition lawful_lib :: "crypto \<Rightarrow> key_lib \<Rightarrow> bool" where
  "lawful_lib cr lib \<longleftrightarrow> (\<forall>der key. kl_pkcs8 lib der = Some key \<longrightarrow> lawful_key cr key)"

text \<open>\<open>serve\<close> and \<open>mint\<close> from one configuration, \<open>serve\<close> without the socket flag.\<close>

definition one_deployment ::
    "crypto \<Rightarrow> setup_world \<Rightarrow> net \<Rightarrow> host \<Rightarrow> config \<Rightarrow> string \<Rightarrow> issuer \<Rightarrow> (string \<rightharpoonup> locator) \<Rightarrow> bool" where
  "one_deployment cr su n h cfg exe i issuers \<longleftrightarrow>
     new_issuer cr su (settings_of cfg (socket_for [] (Some cfg)) exe) = Inr i
     \<and> build_assertion_provider n cfg = Inr (Some issuers) \<and> local_iss cfg \<notin> set (listed_issuers cfg)
     \<and> sees_key_set n h cfg i \<and> utf8_valid (local_iss cfg)"

lemma deployment_deployed:
  assumes "one_deployment cr su n h cfg exe i issuers" and "lawful_lib cr (su_lib su)"
  shows "deployed cr (issuer_source n h issuers) i" and "ic_issuer i = local_iss cfg"
    and "ic_runtime_roles i = idc_runtime_roles (cfg_identity cfg)" and "list_all re_role_name (ic_runtime_roles i)"
proof -
  let ?s = "settings_of cfg (socket_for [] (Some cfg)) exe"
  have start: "new_issuer cr su ?s = Inr i" using assms(1) by (simp add: one_deployment_def)
  note f = started_fields [OF start]
  show iss: "ic_issuer i = local_iss cfg"
    using f(1) by (simp add: effective_issuer_def settings_of_def Let_def local_iss_def)
  show "ic_runtime_roles i = idc_runtime_roles (cfg_identity cfg)" using f(4) by (simp add: settings_of_def Let_def)
  show "list_all re_role_name (ic_runtime_roles i)" by (rule f(9))
  have w: "issuers (local_iss cfg) = resolve_locator n (local_iss cfg) (idc_jwks_path (cfg_identity cfg))"
    "issuers (local_iss cfg) \<noteq> None"
    using wired_local [of n cfg issuers] assms(1) by (auto simp: one_deployment_def)
  have law: "\<And>der key. kl_pkcs8 (su_lib su) der = Some key \<Longrightarrow> lawful_key cr key"
    using assms(2) by (simp add: lawful_lib_def)
  note doc = loaded_document [OF f(10) law]
  have keys: "ks_keys (issuer_source n h issuers) (ic_issuer i) = parse_jwks (marshal_jwks (ic_keys i))"
    unfolding iss using assms(1) w doc by (intro sees_keys) (simp_all add: one_deployment_def)
  have "ks_trusted (issuer_source n h issuers) (ic_issuer i)" using w(2) by (simp add: issuer_source_def iss)
  from ring_trusted [OF f(10) law this keys] f(6,8,12) assms(1) iss
  show "deployed cr (issuer_source n h issuers) i"
    by (auto simp: deployed_def one_deployment_def max_lifetime_seconds_def second_def)
qed

subsection \<open>Properties\<close>




text \<open>The reaper and the issuer agree: the directory of an assertion is found again by its path, a sweep does not
  take it while the assertion is in force, and every sweep more than a day after the issue does.\<close>
theorem reaper_spares_live_assertions:
  assumes "r = issue_session i w pr sreq reg \<or> r = issue_child cr i w pr creq reg" and "fst r = Inr out"
    and "ic_ttl i \<le> 43200 * second" and "is_abs (sd_root (ic_dirs i))"
    and "path_clean (sd_root (ic_dirs i)) = sd_root (ic_dirs i)" and "cl_rand_dir w = Some bytes" and "length bytes = 16"
    and "0 \<le> unix (cl_now w)" and "unix (cl_now w) < 16 ^ 10"
  shows "\<exists>name. name_of (ic_dirs i) (iss_dir out) = Some name
    \<and> (stale t reap_max_age name \<longrightarrow> iss_expires_at out < unix t)
    \<and> (unix (cl_now w) + 86400 < unix t \<longrightarrow> stale t reap_max_age name)"
proof -
  obtain reg' es where r: "r = (Inr out, reg', es)" using assms(2) by (cases r) auto
  from assms(1) show ?thesis
  proof
    assume "r = issue_session i w pr sreq reg"
    with r have "issue_session i w pr sreq reg = (Inr out, reg', es)" by simp
    then show ?thesis
      by (rule issue_session_Inr) (rule issued_dir_age [OF _ _ assms(4-9)], assumption, use assms(3) in simp)
  next
    assume "r = issue_child cr i w pr creq reg"
    with r have "issue_child cr i w pr creq reg = (Inr out, reg', es)" by simp
    then obtain parent b c cF where "finished i w pr b c (child_expiry i (cl_now w) parent) reg out reg' es cF"
      by (rule issue_child_Inr)
    moreover have "child_expiry i (cl_now w) parent \<le> cl_now w + 43200 * second"
      using child_expiry_bounds(2) [of i "cl_now w" parent] assms(3) by simp
    ultimately show ?thesis by (rule issued_dir_age [OF _ _ assms(4-9)])
  qed
qed

subsection \<open>A sample deployment\<close>

definition sample_deployed_config :: config where
  "sample_deployed_config = (sample_served_config ''/j.json'')
     \<lparr>cfg_attestation := (cfg_attestation sample_config)\<lparr>atc_assertion := Some []\<rparr>\<rparr>"

definition sample_net :: net where
  "sample_net = \<lparr>url_parse = (\<lambda>_. None), url_string = (\<lambda>_. []), url_hostname = (\<lambda>_. []), ip_is_loopback = (\<lambda>_. False),
     http_get = (\<lambda>_ _. Inl [])\<rparr>"

definition started_issuer :: issuer where
  "started_issuer = \<lparr>ic_issuer = ''unix:///s.sock'', ic_keys = sample_ring_of, ic_yaml = (\<lambda>_. None), ic_defs = None,
     ic_dirs = \<lparr>sd_root = ''/spawn''\<rparr>, ic_helper = None, ic_runtime_roles = [''builder''], ic_delegable = None,
     ic_ttl = 43200 * 1000000000, ic_euid = 5\<rparr>"

text \<open>The process that got the session: its directory holds the token; \<open>/j.json\<close> is the server's key set.\<close>

definition holder_host :: "issued \<Rightarrow> host" where
  "holder_host out = \<lparr>h_env = (\<lambda>v. if v = identity_dir_env then Some (iss_dir out) else None),
     h_lstat = (\<lambda>_. Inl NotExist), h_read = (\<lambda>_. Inl NotExist),
     h_open_dir = (\<lambda>_. Inr (Inr \<lparr>fi_kind = Directory, fi_perm = mode_0700, fi_uid = 5\<rparr>)),
     h_openat = (\<lambda>_ _. Inr (Inr \<lparr>fi_kind = RegularFile, fi_perm = 384, fi_uid = 5\<rparr>, Inr (iss_token out))),
     h_open = (\<lambda>_. Inr (Inr \<lparr>fi_kind = RegularFile, fi_perm = 420, fi_uid = 5\<rparr>, Inr (marshal_jwks sample_ring_of @ [CHR 0x0A]))),
     h_user = None, h_euid = 5, h_now = 150 * 1000000000\<rparr>"

lemma sample_one_deployment:
  "\<exists>issuers. one_deployment sample_ed_crypto sample_setup sample_net (holder_host out) sample_deployed_config ''/bin/gatekeeper''
     started_issuer issuers"
proof -
  let ?cfg = sample_deployed_config
  have id: "cfg_identity ?cfg = sample_identity ''/j.json''" by (simp add: sample_deployed_config_def sample_served_config_def)
  have sock: "socket_for [] (Some ?cfg) = ''/s.sock''" by (simp add: socket_for_def id) (simp add: sample_identity_def)
  have s: "settings_of ?cfg ''/s.sock'' ''/bin/gatekeeper'' = settings_of (sample_served_config ''/j.json'') ''/s.sock'' ''/bin/gatekeeper''"
    by (simp add: settings_of_def id) (simp add: sample_served_config_def)
  have j: "path_dir ''/j.json'' = ''/''" "path_clean ''/j.json'' = ''/j.json''" "is_abs ''/j.json''" by code_simp+
  have n: "new_issuer sample_ed_crypto sample_setup (settings_of ?cfg ''/s.sock'' ''/bin/gatekeeper'') = Inr started_issuer"
    unfolding s started_issuer_def by (rule sample_started) (simp add: j)
  have iss: "local_iss ?cfg = ''unix:///s.sock''" by (simp add: local_iss_def id sock) (simp add: sample_identity_def)
  have l: "listed_issuers ?cfg = []" by (simp add: listed_issuers_def sample_deployed_config_def)
  have "resolve_locator sample_net (local_iss ?cfg) ''/j.json'' = Some \<lparr>loc_kind = LocFile, loc_target = ''/j.json''\<rparr>"
    by (simp add: resolve_locator_def parse_locator_def j)
  then obtain issuers where "build_assertion_provider sample_net ?cfg = Inr (Some issuers)"
    by (simp add: build_assertion_provider_def sample_deployed_config_def new_assertion_provider_def iss [unfolded sample_deployed_config_def])
      (simp add: sample_served_config_def sample_identity_def)
  moreover have "sees_key_set sample_net (holder_host out) ?cfg started_issuer"
    by (simp add: sees_key_set_def id) (simp add: sample_identity_def j holder_host_def started_issuer_def)
  moreover have "utf8_valid ''unix:///s.sock''" by (rule utf8_ascii) (simp add: code_def)
  ultimately show ?thesis using n by (auto simp: one_deployment_def sock iss l)
qed

definition holder_proc :: proc_info where
  "holder_proc = sample_proc\<lparr>pi_uid := 5\<rparr>"

definition holder_call :: issue_call where
  "holder_call = (sample_call CHR ''a'' 100)\<lparr>cl_reader := (\<lambda>_ _. Some holder_proc)\<rparr>"

definition holder :: peer where
  "holder = \<lparr>peer_uid = 5, peer_gid = 5, peer_pid = 42\<rparr>"

definition plain_request :: session_request where
  "plain_request = \<lparr>sr_definition = [], sr_origin = [], sr_runtime = None\<rparr>"

lemma holder_bound: "bind_runtime (cl_reader holder_call) (ic_helper started_issuer) holder = Inr \<lparr>bd_pid = 42, bd_proc = holder_proc\<rparr>"
  by (simp add: bind_runtime_def holder_call_def holder_def holder_proc_def sample_proc_def started_issuer_def is_helper_def
      confirm_def same_process_def)

lemma holder_runtime: "runtime_id (pi_exe holder_proc) (pi_args holder_proc) = Some ''claude''"
proof -
  have "runtime_id (pi_exe sample_proc) (pi_args sample_proc) = Some ''claude''" by code_simp
  then show ?thesis by (simp add: holder_proc_def)
qed

lemma holder_claims:
  "\<exists>c. session_claims started_issuer ''claude'' ''unknown'' ''trigger'' [] = Inr c"
  by (simp add: session_claims_def Let_def)

lemma holder_session: "\<exists>out reg' es. issue_session started_issuer holder_call holder plain_request empty_registry = (Inr out, reg', es)"
proof -
  obtain c where c: "session_claims started_issuer ''claude'' ''unknown'' ''trigger'' [] = Inr c" using holder_claims by blast
  have p: "path_clean ''/spawn'' = ''/spawn''" by code_simp
  have k: "can_sign sample_ring_of"
    by (simp add: can_sign_def sample_ring_of_def ring_of_def keyring_sign_def sample_ed_def)
  show ?thesis
  proof (rule session_granted [OF _ holder_bound])
    show "runtime_id (pi_exe (bd_proc \<lparr>bd_pid = 42, bd_proc = holder_proc\<rparr>)) (pi_args (bd_proc \<lparr>bd_pid = 42, bd_proc = holder_proc\<rparr>))
        = Some ''claude''" by (simp add: holder_runtime)
    show "session_claims started_issuer ''claude'' ''unknown'' ''trigger'' (sr_definition plain_request) = Inr c"
      using c by (simp add: plain_request_def)
  qed (simp_all add: permitted_def started_issuer_def holder_def runtime_version_def session_origin_def plain_request_def
      call_served_def holder_call_def sample_call_def k is_abs_def p second_def)
qed

text \<open>What it signs, and that its token fits a delivery file.\<close>

lemma holder_dir:
  assumes "create_dir \<lparr>sd_root = ''/spawn''\<rparr> (Some (replicate 16 CHR ''a'')) mk 100 = Some (dir, name)"
  shows "utf8_valid (path_clean dir)" and "length (path_clean dir) = 50" and "is_abs (path_clean dir)"
proof -
  have c: "path_clean ''/spawn'' = ''/spawn''" "elems_of ''/spawn'' = [''spawn'']" by code_simp+
  have h: "list_all is_hex_lower (hex_encode (replicate 16 CHR ''a''))" "length (hex_encode (replicate 16 CHR ''a'')) = 32"
    using hex_encode_lower [of "replicate 16 CHR ''a''"] by auto
  then have n: "plain_elem name" using create_dir_Some(1) [OF assms] spawn_name_plain by simp
  have clean: "path_clean dir = dir" using created_dir(2) [OF _ _ assms] c by (simp add: is_abs_def)
  have d: "dir = ''/spawn/'' @ name"
    using path_join_abs [OF _ n, of "''/spawn''"] create_dir_Some(2) [OF assms] c by (simp add: is_abs_def abs_path_def)
  have "\<forall>x \<in> set name. code x < 128"
    using h pad_hex_lower [of 10] create_dir_Some(1) [OF assms] hex_ascii
    by (auto simp: spawn_name_def list_all_iff code_def)
  then show "utf8_valid (path_clean dir)" using utf8_ascii [of dir] d clean by (auto simp: code_def)
  have "length name = 43" using create_dir_Some(1) [OF assms] h(2) pad_hex_length [of 100] by (simp add: spawn_name_def)
  then show "length (path_clean dir) = 50" using d clean by simp
  show "is_abs (path_clean dir)" unfolding clean by (simp add: d is_abs_def)
qed

lemma holder_issued:
  assumes "issue_session started_issuer holder_call holder plain_request empty_registry = (Inr out, reg', es)"
  shows "call_in_range holder_call out" and "delivered (holder_host out) (iss_dir out) (iss_token out)"
    and "iss_expires_at out = 43300"
proof -
  from assms obtain b rt version og c cF where b: "bind_runtime (cl_reader holder_call) (ic_helper started_issuer) holder = Inr b"
    and rt: "runtime_id (pi_exe (bd_proc b)) (pi_args (bd_proc b)) = Some rt"
    and v: "runtime_version rt (sr_runtime plain_request) = Inr version" and o: "session_origin (sr_origin plain_request) = Inr og"
    and c: "session_claims started_issuer rt version og (sr_definition plain_request) = Inr c"
    and f: "finished started_issuer holder_call holder b c (cl_now holder_call + ic_ttl started_issuer) empty_registry out reg' es cF"
    by (rule issue_session_Inr)
  have w: "cl_now holder_call = 100000000000" "unix 100000000000 = 100" "cl_rand_jti holder_call = Some (replicate 16 CHR ''a'')"
    "cl_rand_sid holder_call = Some (replicate 16 CHR ''a'')" "cl_rand_dir holder_call = Some (replicate 16 CHR ''a'')"
    "unix 43300000000000 = 43300" "ic_dirs started_issuer = \<lparr>sd_root = ''/spawn''\<rparr>"
    by (simp_all add: started_issuer_def holder_call_def sample_call_def unix_def)
  have "rt = ''claude''" using b rt holder_bound holder_runtime by auto
  moreover have "version = ''unknown''" "og = ''trigger''" using v o by (auto simp: plain_request_def runtime_version_def session_origin_def)
  ultimately have cc: "cl_sub c = ''runtime:claude''" "cl_roles c = [''builder'']" "cl_grade c = ''workload''"
    "cl_rt c = \<lparr>rt_id = ''claude'', rt_version = ''unknown''\<rparr>" "cl_origin c = ''trigger''" "cl_sid c = []" "cl_spawn c = []"
    "cl_act c = Some (Actor ''runtime:claude'' None)" "cl_iss c = ''unix:///s.sock''"
    using session_claims_Inr [OF c] by (simp_all add: plain_request_def started_issuer_def)
  have x: "cl_now holder_call + ic_ttl started_issuer = 43300000000000" by (simp add: w started_issuer_def)
  from f [unfolded x] obtain dir name sg where cF: "completed holder_call c 43300000000000 dir cF"
    and d: "create_dir \<lparr>sd_root = ''/spawn''\<rparr> (Some (replicate 16 CHR ''a'')) (cl_mkdir holder_call) 100 = Some (dir, name)"
    and sg: "kr_sign (ic_keys started_issuer) (signing_input (ic_keys started_issuer) cF) = Some sg"
    and t: "iss_token out = compact (header_members (ic_keys started_issuer)) (claims_members cF) sg"
    and o': "iss_dir out = path_clean dir" "iss_expires_at out = cl_exp cF"
    unfolding finished_def w by blast
  note cf = completed_fields [OF cF] and hd = holder_dir [OF d]
  show e: "iss_expires_at out = 43300" using o'(2) cf(11) w by simp
  show "call_in_range holder_call out" using e o'(1) hd(1) w by (simp add: call_in_range_def)
  have h32: "length (hex_encode (replicate 16 CHR ''a'')) = 32" using hex_encode_lower [of "replicate 16 CHR ''a''"] by simp
  have ids: "length (cl_jti cF) = 32" "length (cl_sid cF) = 34"
    using cF cc(6) h32 by (auto simp: completed_def with_sid_def w random_id_def)
  have n: "length (show_int 100) = 3" "length (show_int 43300) = 5" "length (show_int 1) = 1"
    by (simp_all add: show_int_def show_nat.simps)
  have "cl_iat cF = 100" "cl_exp cF = 43300" "cl_cia cF = 1" "length (cl_dir cF) = 50"
    using cf(9-12) w cc(5) hd(2) by (simp_all add: contract_for_def origin_driven_def)
  then have "enc_bound (JObj (claims_members cF)) \<le> 2500"
    using ids n cf(1-8) cc by (simp add: claims_members_def)
  moreover have "length sg = 3"
    using sg by (auto simp: started_issuer_def sample_ring_of_def ring_of_def keyring_sign_def sample_ed_def)
  moreover have "enc_bound (JObj (header_members (ic_keys started_issuer))) \<le> 1000"
    using b64url_length [of "replicate 32 CHR ''h''"]
    by (simp add: header_members_def started_issuer_def sample_ring_of_def ring_of_def ed_public_def Let_def thumbprint_def
        sample_ed_crypto_def)
  ultimately have "length (iss_token out) \<le> 16384"
    using compact_length [of "header_members (ic_keys started_issuer)" "claims_members cF" sg] unfolding t
    by (simp del: enc_bound.simps)
  moreover have "trim_newline (iss_token out) = iss_token out" using compact_last by (simp add: trim_newline_def t)
  ultimately show "delivered (holder_host out) (iss_dir out) (iss_token out)"
    using hd(3) o'(1) by (simp add: delivered_def holder_host_def)
qed


text \<open>The sample session is still there after ten minutes and gone after two days.\<close>

theorem reaper_spares_live_assertions_witness:
  "\<exists>(out :: issued) name. fst (issue_session started_issuer holder_call holder plain_request empty_registry) = Inr out
    \<and> name_of (ic_dirs started_issuer) (iss_dir out) = Some name \<and> stale (172800 * 1000000000) reap_max_age name"
proof -
  obtain out reg' es where s: "issue_session started_issuer holder_call holder plain_request empty_registry = (Inr out, reg', es)"
    using holder_session by blast
  have c: "path_clean ''/spawn'' = ''/spawn''" by code_simp
  have f: "ic_ttl started_issuer \<le> 43200 * second" "is_abs (sd_root (ic_dirs started_issuer))"
    "path_clean (sd_root (ic_dirs started_issuer)) = sd_root (ic_dirs started_issuer)"
    "cl_rand_dir holder_call = Some (replicate 16 CHR ''a'')" "length (replicate 16 CHR ''a'') = 16"
    "0 \<le> unix (cl_now holder_call)" "unix (cl_now holder_call) < 16 ^ 10" "unix (cl_now holder_call) + 86400 < unix (172800 * 1000000000)"
    by (simp_all add: started_issuer_def second_def is_abs_def c holder_call_def sample_call_def unix_def)
  have r: "fst (issue_session started_issuer holder_call holder plain_request empty_registry) = Inr out" using s by simp
  from reaper_spares_live_assertions [OF disjI1 [OF refl] r f(1-7), of "172800 * 1000000000"] r f(8)
  show ?thesis by blast
qed

end
