(* ===== verification/HookCapture.thy ===== *)
theory HookCapture
  imports HookDelivery Binding HookStore "HOL-Library.List_Lexorder"
begin

text \<open>
  What the hook keeps of the events it sees: \<open>internal/hook/log.go\<close> (the bounded log and the captured
  shape of a payload) and \<open>tree_linux.go\<close> (the ancestry of the hook process). The text of a time and
  what \<open>/proc\<close> returns are inputs.
\<close>

subsection \<open>Bounded append\<close>

definition max_log_bytes :: nat where "max_log_bytes = 1048576"

text \<open>What may go wrong: the rename, opening the file, and how much of the line is written.\<close>

record append_env =
  ae_renames :: bool
  ae_opens :: bool
  ae_written :: "nat option"

definition append_bounded :: "append_env \<Rightarrow> string \<Rightarrow> string \<Rightarrow> files \<Rightarrow> files" where
  "append_bounded e path line f =
     (if path = [] then f
      else let g = (case f path of
                      Some old \<Rightarrow> if length old > max_log_bytes \<and> ae_renames e
                                  then act (RenameFile path (path @ ''.1'')) f else f
                    | None \<Rightarrow> f);
               old = (case g path of Some s \<Rightarrow> s | None \<Rightarrow> [])
           in if \<not> ae_opens e then g
              else g(path \<mapsto> old @ (case ae_written e of None \<Rightarrow> line | Some n \<Rightarrow> take n line)))"

definition log_line :: "string \<Rightarrow> string \<Rightarrow> string" where
  "log_line time text = time @ '' '' @ text @ [CHR 0x0A]"

subsection \<open>The shape of a value\<close>

text \<open>The JSON type by the first byte that is not white space, as the code reads it off the text.\<close>

fun json_type :: "string \<Rightarrow> string" where
  "json_type [] = ''empty''"
| "json_type (c # s) =
     (if c = CHR 0x20 \<or> c = CHR 0x09 \<or> c = CHR 0x0A \<or> c = CHR 0x0D then json_type s
      else if c = CHR 0x7B then ''object''
      else if c = CHR 0x5B then ''array''
      else if c = CHR 0x22 then ''string''
      else if c = CHR ''t'' \<or> c = CHR ''f'' then ''boolean''
      else if c = CHR ''n'' then ''null''
      else ''number'')"

fun value_type :: "json \<Rightarrow> string" where
  "value_type JNull = ''null''"
| "value_type (JBool b) = ''boolean''"
| "value_type (JNum s) = ''number''"
| "value_type (JStr s) = ''string''"
| "value_type (JArr vs) = ''array''"
| "value_type (JObj ms) = ''object''"

text \<open>The members of a decoded object by name; the last of repeated members counts.\<close>

definition shape :: "members option \<Rightarrow> (string \<times> string) list option" where
  "shape m = map_option (\<lambda>ms. map (\<lambda>k. (k, value_type (the (lookup k ms)))) (sorted_list_of_set (fst ` set ms))) m"

definition member_names :: "(string \<times> string) list \<Rightarrow> string list" where
  "member_names sh = sorted_list_of_set (fst ` set sh)"

subsection \<open>The ancestry of a process\<close>

record proc_node =
  pn_pid :: int
  pn_ppid :: int
  pn_comm :: string
  pn_exe :: string
  pn_exe_id :: string
  pn_argv0 :: string
  pn_wrapper :: bool

record proc_tree =
  pt_stat :: "int \<Rightarrow> string option"
  pt_exe :: "int \<Rightarrow> string option"
  pt_exe_id :: "int \<Rightarrow> (nat \<times> nat) option"
  pt_cmdline :: "int \<Rightarrow> string option"

definition max_ancestry :: nat where "max_ancestry = 8"

text \<open>\<open>fmt.Sprintf\<close> of device and inode.\<close>

definition exe_id_text :: "nat \<times> nat \<Rightarrow> string" where
  "exe_id_text i = show_nat (fst i) @ '':'' @ show_nat (snd i)"

definition bare_proc :: "string \<Rightarrow> string list \<Rightarrow> proc_info" where
  "bare_proc exe args = \<lparr>pi_exe = exe, pi_args = args, pi_start = 0, pi_dev = 0, pi_ino = 0, pi_ppid = 0, pi_uid = 0,
     pi_has_uid = False\<rparr>"

text \<open>The name between the first opening and the last closing parenthesis.\<close>

definition comm_of :: "string \<Rightarrow> string option" where
  "comm_of stat =
     (case (index_byte stat CHR ''('', after_paren stat) of
        (Some i, Some rest) \<Rightarrow>
          (let closing = length stat - length rest - 1
           in if closing < i then None else Some (drop (i + 1) (take closing stat)))
      | _ \<Rightarrow> None)"

definition node_of :: "proc_tree \<Rightarrow> int \<Rightarrow> proc_node option" where
  "node_of t pid =
     (case pt_stat t pid of
        None \<Rightarrow> None
      | Some stat \<Rightarrow>
          (case comm_of stat of
             None \<Rightarrow> None
           | Some comm \<Rightarrow>
               (let fs = white_fields (the (after_paren stat))
                in if length fs < 2 then None
                   else case parse_int64 (fs ! 1) of
                          None \<Rightarrow> None
                        | Some ppid \<Rightarrow>
                            (let exe = (case pt_exe t pid of Some e \<Rightarrow> trim_suffix e '' (deleted)'' | None \<Rightarrow> []);
                                 args = map_option (\<lambda>c. split_on CHR 0x00 (trim_right_nul c)) (pt_cmdline t pid)
                             in Some \<lparr>pn_pid = pid, pn_ppid = ppid, pn_comm = comm,
                                  pn_exe = (case pt_exe t pid of Some e \<Rightarrow> path_base exe | None \<Rightarrow> []),
                                  pn_exe_id = (case pt_exe_id t pid of Some i \<Rightarrow> exe_id_text i | None \<Rightarrow> []),
                                  pn_argv0 = (case args of Some as \<Rightarrow> path_base (hd as) | None \<Rightarrow> []),
                                  pn_wrapper = (case args of Some as \<Rightarrow> is_command_wrapper (bare_proc exe as)
                                                | None \<Rightarrow> False)\<rparr>))))"

fun ancestry_from :: "proc_tree \<Rightarrow> nat \<Rightarrow> int \<Rightarrow> proc_node list" where
  "ancestry_from t 0 pid = []"
| "ancestry_from t (Suc left) pid =
     (if pid \<le> 0 then []
      else case node_of t pid of
             None \<Rightarrow> []
           | Some n \<Rightarrow> n # ancestry_from t left (pn_ppid n))"

definition ancestry :: "proc_tree \<Rightarrow> int \<Rightarrow> proc_node list" where
  "ancestry t pid = ancestry_from t max_ancestry pid"

subsection \<open>One captured event\<close>

definition unless_empty :: "string \<Rightarrow> string \<Rightarrow> (string \<times> json) list" where
  "unless_empty k s = (if s = [] then [] else [(k, JStr s)])"

definition node_json :: "proc_node \<Rightarrow> json" where
  "node_json n = JObj ([(''pid'', JNum (show_int (pn_pid n))), (''ppid'', JNum (show_int (pn_ppid n))),
     (''comm'', JStr (pn_comm n))] @ unless_empty ''exe'' (pn_exe n) @ unless_empty ''exe_id'' (pn_exe_id n)
     @ unless_empty ''argv0'' (pn_argv0 n) @ (if pn_wrapper n then [(''wrapper'', JBool True)] else []))"

definition shape_json :: "(string \<times> string) list option \<Rightarrow> json" where
  "shape_json sh = (case sh of None \<Rightarrow> JNull | Some ms \<Rightarrow> JObj (map (apsnd JStr) ms))"

definition capture_entry ::
    "string \<Rightarrow> string \<Rightarrow> string \<Rightarrow> members option \<Rightarrow> members option \<Rightarrow> proc_node list \<Rightarrow> json" where
  "capture_entry time event decision raw tool_input nodes =
     JObj ([(''time'', JStr time), (''event'', JStr event), (''decision'', JStr decision),
            (''members'', shape_json (shape raw))]
       @ (case shape tool_input of None \<Rightarrow> [] | Some [] \<Rightarrow> [] | Some sh \<Rightarrow> [(''tool_input'', shape_json (Some sh))])
       @ (if nodes = [] then [] else [(''ancestry'', JArr (map node_json nodes))]))"

definition record_capture ::
    "append_env \<Rightarrow> string \<Rightarrow> string \<Rightarrow> string \<Rightarrow> members option \<Rightarrow> members option \<Rightarrow> string \<Rightarrow> proc_node list
      \<Rightarrow> files \<Rightarrow> files" where
  "record_capture e path time event raw tool_input decision nodes f =
     append_bounded e path (json_encode (capture_entry time event decision raw tool_input nodes) @ [CHR 0x0A]) f"

subsection \<open>The first byte tells the type\<close>

definition token_type :: "token \<Rightarrow> string" where
  "token_type t =
     (case t of TLBrace \<Rightarrow> ''object'' | TLBrack \<Rightarrow> ''array'' | TStr s \<Rightarrow> ''string'' | TTrue \<Rightarrow> ''boolean''
      | TFalse \<Rightarrow> ''boolean'' | TNull \<Rightarrow> ''null'' | _ \<Rightarrow> ''number'')"

lemma scan_number_other: "c \<noteq> CHR ''-'' \<Longrightarrow> \<not> is_digit c \<Longrightarrow> scan_number (c # s) = None"
  by (simp add: scan_number_def)

lemma scan_number_head: "scan_number (c # s) = Some z \<Longrightarrow> c = CHR ''-'' \<or> is_digit c"
  using scan_number_other [of c s] by fastforce

lemma not_digits:
  "\<not> is_digit CHR 0x20" "\<not> is_digit CHR 0x09" "\<not> is_digit CHR 0x0A" "\<not> is_digit CHR 0x0D" "\<not> is_digit CHR 0x7B"
  "\<not> is_digit CHR 0x5B" "\<not> is_digit CHR 0x22" "\<not> is_digit CHR ''t''" "\<not> is_digit CHR ''f''" "\<not> is_digit CHR ''n''"
  by (simp_all add: char_class_defs)

lemma digit_type: "is_digit c \<Longrightarrow> json_type (c # s) = ''number''"
proof -
  assume "is_digit c"
  with not_digits have "c \<notin> {CHR 0x20, CHR 0x09, CHR 0x0A, CHR 0x0D, CHR 0x7B, CHR 0x5B, CHR 0x22, CHR ''t'', CHR ''f'', CHR ''n''}"
    by blast
  then show ?thesis by simp
qed

lemma prefix_head:
  "has_prefix (c # s) ''true'' \<Longrightarrow> c = CHR ''t''" "has_prefix (c # s) ''false'' \<Longrightarrow> c = CHR ''f''"
  "has_prefix (c # s) ''null'' \<Longrightarrow> c = CHR ''n''"
  by (simp_all add: has_prefix_def)

lemma punct_type: "punct c = Some t \<Longrightarrow> json_type (c # s) = token_type t"
  by (simp add: punct_def token_type_def split: if_splits)

lemma plain_token_type:
  assumes "punct c = None" and "c \<noteq> CHR 0x22" and "token_at (c # s) = Some (t, r)"
  shows "json_type (c # s) = token_type t"
proof (cases "has_prefix (c # s) ''true''")
  case True
  with assms have "t = TTrue" by (simp add: token_at_def)
  with prefix_head(1) [OF True] show ?thesis by (simp add: token_type_def)
next
  case nt: False
  show ?thesis
  proof (cases "has_prefix (c # s) ''false''")
    case True
    with assms nt have "t = TFalse" by (simp add: token_at_def)
    with prefix_head(2) [OF True] show ?thesis by (simp add: token_type_def)
  next
    case nf: False
    show ?thesis
    proof (cases "has_prefix (c # s) ''null''")
      case True
      with assms nt nf have "t = TNull" by (simp add: token_at_def)
      with prefix_head(3) [OF True] show ?thesis by (simp add: token_type_def)
    next
      case False
      with assms nt nf obtain z n where z: "scan_number (c # s) = Some z" "t = TNum n"
        by (fastforce simp add: token_at_def)
      have "json_type (c # s) = ''number''"
        using scan_number_head [OF z(1)] digit_type [of c s] by (elim disjE) simp_all
      with z(2) show ?thesis by (simp add: token_type_def)
    qed
  qed
qed

lemma token_at_type:
  assumes "token_at (c # s) = Some (t, r)"
  shows "json_type (c # s) = token_type t"
proof (cases "punct c")
  case None
  show ?thesis
  proof (cases "c = CHR 0x22")
    case True
    with assms None show ?thesis by (auto simp: token_at_def token_type_def)
  qed (rule plain_token_type [OF None _ assms])
next
  case (Some p)
  with assms have "t = p" by (simp add: token_at_def)
  with punct_type [OF Some] show ?thesis by simp
qed

lemma tokens_type: "tokens s = Some (t # ts) \<Longrightarrow> json_type s = token_type t"
proof (induction s rule: tokens.induct)
  case (2 c s)
  show ?case
  proof (cases "json_space c")
    case True
    with 2(1,3) show ?thesis by (auto simp: json_space_def tokens.simps(2))
  next
    case False
    with 2(3) show ?thesis
      by (auto simp: tokens.simps(2) simp del: json_type.simps split: option.splits intro!: token_at_type)
  qed
qed simp

lemma p_val_type: "p_val n d (t # ts) = Some (v, r) \<Longrightarrow> value_type v = token_type t"
  by (cases n) (auto simp: token_type_def scalar_def split: if_splits token.splits)

lemma json_type_reads_value: "json_parse s = Some v \<Longrightarrow> json_type s = value_type v"
proof -
  assume "json_parse s = Some v"
  then obtain ts where ts: "tokens s = Some ts" "p_val (2 * length ts + 1) 0 ts = Some (v, [])"
    by (auto simp: json_parse_def parse_tokens_def split: option.splits prod.splits list.splits)
  then obtain t ts' where "ts = t # ts'" by (cases ts) auto
  with ts show ?thesis using tokens_type [of s t ts'] p_val_type [of _ _ t ts' v "[]"] by metis
qed

subsection \<open>The ancestry and what the issuer reads\<close>

text \<open>The files of one process, as the issuer and the hook both find them.\<close>

definition same_files :: "proc_tree \<Rightarrow> int \<Rightarrow> proc_files \<Rightarrow> bool" where
  "same_files t pid f \<longleftrightarrow> pf_stat_before f = pt_stat t pid \<and> pf_exe f = pt_exe t pid
     \<and> pf_exe_identity f = pt_exe_id t pid \<and> pf_cmdline f = pt_cmdline t pid"

fun linked :: "int \<Rightarrow> proc_node list \<Rightarrow> bool" where
  "linked pid [] = True"
| "linked pid (n # ns) = (0 < pid \<and> pn_pid n = pid \<and> linked (pn_ppid n) ns)"

lemma node_pid: "node_of t pid = Some n \<Longrightarrow> pn_pid n = pid"
  by (auto simp: node_of_def Let_def split: option.splits if_splits)

lemma ancestry_from_nodes: "n \<in> set (ancestry_from t k pid) \<Longrightarrow> node_of t (pn_pid n) = Some n"
  by (induction t k pid rule: ancestry_from.induct) (auto split: option.splits if_splits dest: node_pid)

lemma ancestry_from_linked: "linked pid (ancestry_from t k pid) \<and> length (ancestry_from t k pid) \<le> k"
  by (induction t k pid rule: ancestry_from.induct) (auto split: option.splits dest: node_pid)

lemma bare_wrapper: "is_command_wrapper (bare_proc (pi_exe p) (pi_args p)) = is_command_wrapper p"
  by (simp add: is_command_wrapper_def bare_proc_def)

lemma node_read:
  assumes "node_of t pid = Some n" and "same_files t pid f" and "read_proc f = Some p"
  shows "pn_ppid n = pi_ppid p \<and> pn_exe n = path_base (pi_exe p) \<and> pn_exe_id n = exe_id_text (pi_dev p, pi_ino p)
    \<and> pn_argv0 n = path_base (hd (pi_args p)) \<and> pn_wrapper n = is_command_wrapper p"
proof -
  from assms(3) obtain start ppid exe i cmdline where
    st: "stat_of (pf_stat_before f) = Some (start, ppid)" and f: "pf_exe f = Some exe" "pf_exe_identity f = Some i"
      "pf_cmdline f = Some cmdline"
    and p: "pi_ppid p = ppid" "pi_exe p = trim_suffix exe '' (deleted)''" "(pi_dev p, pi_ino p) = i"
      "pi_args p = split_on CHR 0x00 (trim_right_nul cmdline)"
    by (auto simp: read_proc_def split: option.splits prod.splits if_splits)
  from st obtain stat where stat: "pf_stat_before f = Some stat" "parse_ppid stat = Some ppid"
    by (auto simp: stat_of_def split: option.splits)
  from assms(1,2) stat(1) have "(case parse_int64 (white_fields (the (after_paren stat)) ! 1) of Some q \<Rightarrow> pn_ppid n = q | None \<Rightarrow> False)"
    by (auto simp: node_of_def same_files_def Let_def split: option.splits if_splits)
  with stat(2) have "pn_ppid n = ppid"
    by (auto simp: parse_ppid_def parse_int32_def Let_def split: option.splits if_splits)
  with assms(1,2) f p bare_wrapper [of p] show ?thesis
    by (auto simp: node_of_def same_files_def Let_def split: option.splits if_splits)
qed

subsection \<open>What a capture depends on\<close>

definition same_shape :: "members option \<Rightarrow> members option \<Rightarrow> bool" where
  "same_shape m m' =
     (case (m, m') of
        (None, None) \<Rightarrow> True
      | (Some ms, Some ms') \<Rightarrow> fst ` set ms = fst ` set ms'
          \<and> list_all (\<lambda>k. value_type (the (lookup k ms)) = value_type (the (lookup k ms'))) (map fst ms)
      | _ \<Rightarrow> False)"

lemma shape_same: "same_shape m m' \<Longrightarrow> shape m = shape m'"
proof (cases m; cases m')
  fix ms ms' assume m: "m = Some ms" "m' = Some ms'" and s: "same_shape m m'"
  then have keys: "fst ` set ms = fst ` set ms'" by (simp add: same_shape_def)
  have "value_type (the (lookup k ms)) = value_type (the (lookup k ms'))" if "k \<in> fst ` set ms'" for k
  proof -
    from that keys have "k \<in> fst ` set ms" by simp
    then obtain v where "(k, v) \<in> set ms" by auto
    with s m show ?thesis by (auto simp: same_shape_def list_all_iff)
  qed
  with m keys show "shape m = shape m'" by (simp add: shape_def)
qed (simp_all add: same_shape_def shape_def)

text \<open>Two trees that differ in arguments only, beyond the name of the program and what makes a wrapper.\<close>

definition argv_view :: "string \<Rightarrow> string option \<Rightarrow> (string \<times> bool) option" where
  "argv_view exe c = map_option (\<lambda>s. let as = split_on CHR 0x00 (trim_right_nul s)
     in (path_base (hd as), is_command_wrapper (bare_proc exe as))) c"

definition exe_path :: "proc_tree \<Rightarrow> int \<Rightarrow> string" where
  "exe_path t pid = (case pt_exe t pid of Some e \<Rightarrow> trim_suffix e '' (deleted)'' | None \<Rightarrow> [])"

definition same_tree :: "proc_tree \<Rightarrow> proc_tree \<Rightarrow> bool" where
  "same_tree t t' \<longleftrightarrow> pt_stat t = pt_stat t' \<and> pt_exe t = pt_exe t' \<and> pt_exe_id t = pt_exe_id t'
     \<and> (\<forall>pid. argv_view (exe_path t pid) (pt_cmdline t pid) = argv_view (exe_path t pid) (pt_cmdline t' pid))"

lemma node_view:
  "node_of t pid =
     (case pt_stat t pid of
        None \<Rightarrow> None
      | Some stat \<Rightarrow>
          (case comm_of stat of
             None \<Rightarrow> None
           | Some comm \<Rightarrow>
               (let fs = white_fields (the (after_paren stat))
                in if length fs < 2 then None
                   else map_option (\<lambda>ppid. \<lparr>pn_pid = pid, pn_ppid = ppid, pn_comm = comm,
                      pn_exe = (case pt_exe t pid of Some e \<Rightarrow> path_base (exe_path t pid) | None \<Rightarrow> []),
                      pn_exe_id = (case pt_exe_id t pid of Some i \<Rightarrow> exe_id_text i | None \<Rightarrow> []),
                      pn_argv0 = (case argv_view (exe_path t pid) (pt_cmdline t pid) of Some (b, _) \<Rightarrow> b | None \<Rightarrow> []),
                      pn_wrapper = (case argv_view (exe_path t pid) (pt_cmdline t pid) of Some (_, w) \<Rightarrow> w | None \<Rightarrow> False)\<rparr>)
                    (parse_int64 (fs ! 1)))))"
  by (auto simp: node_of_def argv_view_def exe_path_def Let_def split: option.splits)

lemma node_same:
  assumes "same_tree t t'" shows "node_of t pid = node_of t' pid"
proof -
  have e: "pt_stat t = pt_stat t'" "pt_exe t = pt_exe t'" "pt_exe_id t = pt_exe_id t'"
    using assms by (simp_all add: same_tree_def)
  have x: "exe_path t pid = exe_path t' pid" by (simp add: exe_path_def e)
  have "argv_view (exe_path t pid) (pt_cmdline t pid) = argv_view (exe_path t pid) (pt_cmdline t' pid)"
    using assms by (simp add: same_tree_def)
  then have v: "argv_view (exe_path t' pid) (pt_cmdline t pid) = argv_view (exe_path t' pid) (pt_cmdline t' pid)"
    by (simp only: x)
  show ?thesis unfolding node_view e x v ..
qed

lemma ancestry_same: "same_tree t t' \<Longrightarrow> ancestry_from t k pid = ancestry_from t' k pid"
proof (induction t k pid rule: ancestry_from.induct)
  case (2 t left pid)
  with node_same [of t t' pid] show ?case by (auto split: option.splits)
qed simp

subsection \<open>The log stays bounded\<close>

definition bounded_log :: "nat \<Rightarrow> string \<Rightarrow> files \<Rightarrow> bool" where
  "bounded_log n path f \<longleftrightarrow>
     (\<forall>s. f path = Some s \<or> f (path @ ''.1'') = Some s \<longrightarrow> length s \<le> max_log_bytes + n)"

lemma append_keeps_bounded:
  assumes "bounded_log n path f" and "ae_renames e" and "length line \<le> n"
  shows "bounded_log n path (append_bounded e path line f)"
  using assms
  by (auto simp: bounded_log_def append_bounded_def Let_def split: option.splits)

subsection \<open>Properties\<close>

text \<open>C37: What the hook records of a process above it is what the issuer goes by: for every recorded process
  that the issuer can read, the recorded parent, executable and its identity, program name and wrapper
  flag are those of the issuer's reading, and the record is a chain of parents from the hook upwards of
  at most eight processes.\<close>
theorem ancestry_agrees_with_issuer:
  assumes "n \<in> set (ancestry t pid)" and "same_files t (pn_pid n) f" and "read_proc f = Some p"
  shows "pn_ppid n = pi_ppid p \<and> pn_exe n = path_base (pi_exe p) \<and> pn_exe_id n = exe_id_text (pi_dev p, pi_ino p)
    \<and> pn_argv0 n = path_base (hd (pi_args p)) \<and> pn_wrapper n = is_command_wrapper p
    \<and> linked pid (ancestry t pid) \<and> length (ancestry t pid) \<le> 8"
  using node_read [OF ancestry_from_nodes assms(2,3), of max_ancestry pid] assms(1)
    ancestry_from_linked [of pid t max_ancestry]
  by (simp add: ancestry_def max_ancestry_def)


subsection \<open>A sample tree\<close>

definition words_text :: "string list \<Rightarrow> string" where
  "words_text ws = concat (map ((#) CHR '' '') ws)"

lemma lead_space_blank: "lead_space (CHR 0x20 # s) = 1"
proof -
  have "take 6 space_seqs = [[CHR 0x09], [CHR 0x0A], [CHR 0x0B], [CHR 0x0C], [CHR 0x0D], [CHR 0x20]]" by code_simp
  then obtain more where more: "space_seqs = [[CHR 0x09], [CHR 0x0A], [CHR 0x0B], [CHR 0x0C], [CHR 0x0D], [CHR 0x20]] @ more"
    using append_take_drop_id [of 6 space_seqs] by metis
  show ?thesis unfolding lead_space_def more by (simp add: has_prefix_def)
qed

lemma white_fields_graphic:
  "list_all graphic w \<Longrightarrow> white_fields_from cur (w @ s) = white_fields_from (cur @ w) s"
  by (induction w arbitrary: cur) (simp_all add: white_fields_from.simps(2) graphic_lead_space)

lemma white_fields_words:
  "list_all (\<lambda>w. w \<noteq> [] \<and> list_all graphic w) ws
    \<Longrightarrow> white_fields_from cur (words_text ws) = (if cur = [] then [] else [cur]) @ ws"
  by (induction ws arbitrary: cur)
    (simp_all add: words_text_def white_fields_from.simps(2) lead_space_blank white_fields_graphic)

definition sample_words :: "string list" where
  "sample_words = [''S'', ''1''] @ replicate 17 ''0'' @ [''77'', ''0'']"

definition sample_stat :: string where
  "sample_stat = ''42 (sh)'' @ words_text sample_words"

lemma sample_stat_read:
  "after_paren sample_stat = Some (words_text sample_words)" "comm_of sample_stat = Some ''sh''"
  "white_fields (words_text sample_words) = sample_words"
proof -
  have "CHR '')'' \<notin> set (words_text sample_words)"
    by (simp add: words_text_def sample_words_def eval_nat_numeral)
  then have "split_on CHR '')'' sample_stat = [''42 (sh'', words_text sample_words]"
    unfolding sample_stat_def by (simp add: split_on_free)
  then show a: "after_paren sample_stat = Some (words_text sample_words)"
    by (simp add: after_paren_def sample_stat_def)
  then show "comm_of sample_stat = Some ''sh''"
    by (simp add: comm_of_def sample_stat_def)
  show "white_fields (words_text sample_words) = sample_words"
    unfolding white_fields_def
    by (subst white_fields_words) (simp_all add: sample_words_def graphic_def code_def list_all_iff)
qed

definition sample_cmdline :: "string \<Rightarrow> string" where
  "sample_cmdline arg = ''sh'' @ [CHR 0x00] @ ''-c'' @ [CHR 0x00] @ arg @ [CHR 0x00]"

definition sample_tree :: "string \<Rightarrow> proc_tree" where
  "sample_tree arg = \<lparr>pt_stat = (\<lambda>pid. if pid = 42 then Some sample_stat else None), pt_exe = (\<lambda>_. Some ''/bin/sh''),
     pt_exe_id = (\<lambda>_. Some (1, 2)), pt_cmdline = (\<lambda>_. Some (sample_cmdline arg))\<rparr>"

definition sample_proc_files :: proc_files where
  "sample_proc_files = \<lparr>pf_stat_before = Some sample_stat, pf_exe = Some ''/bin/sh'', pf_exe_identity = Some (1, 2),
     pf_cmdline = Some (sample_cmdline ''a''), pf_status = Some (''Uid:'' @ words_text [''7'', ''7'']),
     pf_stat_after = Some sample_stat\<rparr>"

lemma sample_numbers:
  "parse_int64 ''1'' = Some 1" "parse_uint 64 ''77'' = Some 77"
  "sample_words ! Suc 0 = ''1''" "sample_words ! 19 = ''77''" "length sample_words = 21"
  by code_simp (simp_all add: sample_words_def parse_uint_def digits_val_def char_class_defs nth_append)

lemma sample_args: "split_on CHR 0x00 (trim_right_nul (sample_cmdline ''a'')) = [''sh'', ''-c'', ''a'']"
  by code_simp

lemma sample_node: "\<exists>n. node_of (sample_tree ''a'') 42 = Some n \<and> pn_pid n = 42"
  by (simp add: node_of_def sample_tree_def sample_stat_read sample_numbers Let_def)

lemma sample_read: "\<exists>p. read_proc sample_proc_files = Some p \<and> is_command_wrapper p"
proof -
  have "parse_ppid sample_stat = Some 1" "parse_start_time sample_stat = Some 77"
    by (simp_all add: parse_ppid_def parse_start_time_def parse_int32_def sample_stat_read sample_numbers Let_def)
  then have st: "stat_of (Some sample_stat) = Some (77, 1)" by (simp add: stat_of_def)
  have "white_fields_from [] (words_text [''7'', ''7'']) = [''7'', ''7'']"
    by (subst white_fields_words) (simp_all add: graphic_def code_def)
  moreover have "CHR 0x0A \<notin> set (''Uid:'' @ words_text [''7'', ''7''])" by (simp add: words_text_def)
  ultimately have u: "uid_of (Some (''Uid:'' @ words_text [''7'', ''7''])) = Some 7"
    unfolding uid_of_def option.case
    by (subst split_on_free) (simp_all add: white_fields_def parse_uint_def digits_val_def char_class_defs has_prefix_def)
  have "trim_suffix ''/bin/sh'' '' (deleted)'' = ''/bin/sh''" by code_simp
  then have "read_proc sample_proc_files = Some \<lparr>pi_exe = ''/bin/sh'', pi_args = [''sh'', ''-c'', ''a''], pi_start = 77,
     pi_dev = 1, pi_ino = 2, pi_ppid = 1, pi_uid = 7, pi_has_uid = True\<rparr>"
    unfolding read_proc_def sample_proc_files_def by (simp add: st u [simplified] sample_args)
  moreover have "is_command_wrapper \<lparr>pi_exe = ''/bin/sh'', pi_args = [''sh'', ''-c'', ''a''], pi_start = 77,
     pi_dev = 1, pi_ino = 2, pi_ppid = 1, pi_uid = 7, pi_has_uid = True\<rparr>"
    by code_simp
  ultimately show ?thesis by blast
qed

theorem ancestry_agrees_with_issuer_witness:
  "\<exists>n. n \<in> set (ancestry (sample_tree ''a'') 42) \<and> pn_wrapper n"
proof -
  obtain n where n: "node_of (sample_tree ''a'') 42 = Some n" "pn_pid n = 42" using sample_node by blast
  then have m: "n \<in> set (ancestry (sample_tree ''a'') 42)" by (simp add: ancestry_def max_ancestry_def eval_nat_numeral)
  obtain p where p: "read_proc sample_proc_files = Some p" "is_command_wrapper p" using sample_read by blast
  have "same_files (sample_tree ''a'') (pn_pid n) sample_proc_files"
    using n(2) by (simp add: same_files_def sample_tree_def sample_proc_files_def)
  from ancestry_agrees_with_issuer [OF m this p(1)] p(2) m show ?thesis by blast
qed


end
