(* ===== verification/Upstream.thy ===== *)
theory Upstream
  imports ClaudeHook
begin

text \<open>
  The run of a composed hook in \<open>internal/hook/upstream.go\<close>: the stdin that is streamed to it while a
  bounded copy is kept (\<open>capturedStdin\<close>), the drain of what it left unread, and the classification of
  how it ended. A read of the source yields bytes and whether more may come; a list of reads that ends
  without an end of the stream is a source that blocks. The two readers of the source, the copy into the
  stdin of the composed hook and the drain, take turns under a lock: the order of the reads is all the
  copy depends on.
\<close>

subsection \<open>The captured stdin\<close>

datatype read_end = ReadMore | ReadEof | ReadErr

type_synonym read_step = "string \<times> read_end"

record captured_stdin =
  cs_buf :: string
  cs_eof :: bool
  cs_failed :: bool

definition empty_capture :: captured_stdin where
  "empty_capture = \<lparr>cs_buf = [], cs_eof = False, cs_failed = False\<rparr>"

definition captured_read :: "nat \<Rightarrow> read_step \<Rightarrow> captured_stdin \<Rightarrow> captured_stdin" where
  "captured_read limit r c =
     (let n = length (fst r);
          room = limit - length (cs_buf c);
          c1 = (if n > 0 \<and> room > 0 then c\<lparr>cs_buf := cs_buf c @ take (min n room) (fst r)\<rparr> else c)
      in case snd r of
           ReadMore \<Rightarrow> c1
         | ReadEof \<Rightarrow> c1\<lparr>cs_eof := True\<rparr>
         | ReadErr \<Rightarrow> c1\<lparr>cs_failed := True\<rparr>)"

definition capture_finished :: "nat \<Rightarrow> captured_stdin \<Rightarrow> bool" where
  "capture_finished limit c \<longleftrightarrow> cs_eof c \<or> cs_failed c \<or> limit \<le> length (cs_buf c)"

text \<open>The drain: the copy it leaves and the reads it made, of those that arrive while it waits.\<close>

fun drain :: "nat \<Rightarrow> read_step list \<Rightarrow> captured_stdin \<Rightarrow> captured_stdin \<times> read_step list" where
  "drain limit [] c = (c, [])"
| "drain limit (r # rs) c =
     (if capture_finished limit c then (c, [])
      else if snd r \<noteq> ReadMore then (captured_read limit r c, [r])
      else apsnd ((#) r) (drain limit rs (captured_read limit r c)))"

text \<open>
  The copy into the stdin of the composed hook: each read with whether writing it succeeded. It ends at
  the end of the stream and at a write that fails; the flag tells that it goes on.
\<close>

fun copy_stdin :: "(read_step \<times> bool) list \<Rightarrow> read_step list \<times> bool" where
  "copy_stdin [] = ([], True)"
| "copy_stdin ((r, written) # rs) =
     (if fst r \<noteq> [] \<and> \<not> written \<or> snd r \<noteq> ReadMore then ([r], False)
      else apfst ((#) r) (copy_stdin rs))"

text \<open>What the composed hook gets; of a write that fails nothing is counted.\<close>

fun upstream_got :: "(read_step \<times> bool) list \<Rightarrow> string" where
  "upstream_got [] = []"
| "upstream_got ((r, written) # rs) =
     (if fst r \<noteq> [] \<and> \<not> written then []
      else if snd r \<noteq> ReadMore then fst r
      else fst r @ upstream_got rs)"

subsection \<open>One run\<close>

text \<open>
  What a run meets: \<open>rw_run\<close> is, for the budget, how the wait for the process ended, whether the kill
  of the deadline was sent, the signal that ended the process, whether the deadline had passed, and the
  bytes written to standard output and standard error.
\<close>

record run_world =
  rw_stat :: "string \<Rightarrow> io_err + file_info"
  rw_pipe :: bool
  rw_starts :: bool
  rw_copied :: "(read_step \<times> bool) list"
  rw_run :: "int \<Rightarrow> (run_end \<times> bool \<times> nat option \<times> bool) \<times> string \<times> string"
  rw_rest :: "read_step list"
  rw_late :: "(read_step \<times> bool) list"

definition ended_by_kill :: "nat option \<Rightarrow> bool" where
  "ended_by_kill sig \<longleftrightarrow> sig = Some 9"

definition runs :: "run_world \<Rightarrow> string \<Rightarrow> bool" where
  "runs w exe \<longleftrightarrow> check_upstream exe (rw_stat w exe) \<and> rw_pipe w \<and> rw_starts w"

definition run_upstream_stream :: "run_world \<Rightarrow> string \<Rightarrow> int \<Rightarrow> upstream_result option" where
  "run_upstream_stream w exe budget =
     (if \<not> check_upstream exe (rw_stat w exe) then None
      else if \<not> rw_pipe w then None
      else if \<not> rw_starts w then None
      else (case rw_run w (upstream_budget budget) of
              ((run, kill_sent, sig, expired), out, err) \<Rightarrow>
                classify_upstream \<lparr>up_stdout = out, up_stderr = err, up_exit = 0\<rparr> run expired
                  (kill_sent \<and> ended_by_kill sig)))"

text \<open>The reads in the order they are made: by the copy, by the drain, and by a copy that still goes on.\<close>

definition run_composed :: "run_world \<Rightarrow> string \<Rightarrow> int \<Rightarrow> string option \<times> upstream_result option \<times> bool" where
  "run_composed w exe budget =
     (let limit = max_payload_bytes + 1;
          (copied, goes_on) = (if runs w exe then copy_stdin (rw_copied w) else ([], False));
          (c1, drained) = drain limit (rw_rest w) (fold (captured_read limit) copied empty_capture);
          c2 = fold (captured_read limit) (if goes_on then fst (copy_stdin (rw_late w)) else []) c1
      in (if cs_eof c2 then Some (cs_buf c2) else None, run_upstream_stream w exe budget, cs_failed c2))"

definition composed_reads :: "run_world \<Rightarrow> string \<Rightarrow> read_step list" where
  "composed_reads w exe =
     (let (copied, goes_on) = (if runs w exe then copy_stdin (rw_copied w) else ([], False));
          (c1, drained) = drain (max_payload_bytes + 1) (rw_rest w)
             (fold (captured_read (max_payload_bytes + 1)) copied empty_capture)
      in copied @ drained @ (if goes_on then fst (copy_stdin (rw_late w)) else []))"

definition raw_bytes :: "string option \<Rightarrow> string" where
  "raw_bytes raw = (case raw of None \<Rightarrow> [] | Some b \<Rightarrow> b)"

text \<open>
  What the operating system promises of a stream: its reads yield it in order, and one of them is its
  end only when all of it has been read.
\<close>

definition reads_of :: "string \<Rightarrow> read_step list \<Rightarrow> bool" where
  "reads_of stdin rs \<longleftrightarrow>
     (\<exists>rest. stdin = concat (map fst rs) @ rest \<and> (ReadEof \<in> snd ` set rs \<longrightarrow> rest = []))"

subsection \<open>The copy is a prefix of what was read\<close>

lemma empty_capture_simps [simp]:
  "cs_buf empty_capture = []" "\<not> cs_eof empty_capture" "\<not> cs_failed empty_capture"
  by (simp_all add: empty_capture_def)

lemma captured_read_buf:
  "cs_buf c = take limit s \<Longrightarrow> cs_buf (captured_read limit r c) = take limit (s @ fst r)"
  by (auto simp: captured_read_def Let_def min_def split: read_end.splits)

lemma captured_read_flags [simp]:
  "cs_eof (captured_read limit r c) \<longleftrightarrow> cs_eof c \<or> snd r = ReadEof"
  "cs_failed (captured_read limit r c) \<longleftrightarrow> cs_failed c \<or> snd r = ReadErr"
  by (auto simp: captured_read_def Let_def split: read_end.splits)

lemma captured_fold_buf:
  "cs_buf c = take limit s \<Longrightarrow> cs_buf (fold (captured_read limit) rs c) = take limit (s @ concat (map fst rs))"
proof (induction rs arbitrary: c s)
  case (Cons r rs)
  from Cons.IH [OF captured_read_buf [OF Cons.prems]] show ?case by simp
qed simp

lemma captured_fold_flags:
  "cs_eof (fold (captured_read limit) rs c) \<longleftrightarrow> cs_eof c \<or> ReadEof \<in> snd ` set rs"
  "cs_failed (fold (captured_read limit) rs c) \<longleftrightarrow> cs_failed c \<or> ReadErr \<in> snd ` set rs"
  by (induction rs arbitrary: c) auto

lemma drain_fold: "fst (drain limit rs c) = fold (captured_read limit) (snd (drain limit rs c)) c"
  by (induction limit rs c rule: drain.induct) simp_all

lemma drain_prefix: "\<exists>ds. rs = snd (drain limit rs c) @ ds"
  by (induction limit rs c rule: drain.induct) auto

text \<open>A drain stops only when the copy is finished or nothing more arrives.\<close>

lemma drain_complete:
  "ReadEof \<in> snd ` set rs \<or> cs_eof c \<Longrightarrow> ReadErr \<notin> snd ` set rs \<Longrightarrow> \<not> cs_failed c
    \<Longrightarrow> cs_buf c = take limit s \<Longrightarrow> length (s @ concat (map fst rs)) < limit
    \<Longrightarrow> cs_eof (fst (drain limit rs c))"
proof (induction limit rs c arbitrary: s rule: drain.induct)
  case (2 limit r rs c)
  note buf = captured_read_buf [OF "2.prems"(4), of r]
  show ?case
  proof (cases "capture_finished limit c")
    case True
    with "2.prems" show ?thesis by (auto simp: capture_finished_def)
  next
    case False
    show ?thesis
    proof (cases "snd r = ReadMore")
      case True
      from "2.IH" [OF False _ _ _ _ buf] "2.prems" True False show ?thesis by (simp add: apsnd_def)
    next
      case o: False
      with "2.prems"(2) have "snd r = ReadEof" by (cases "snd r") auto
      with False show ?thesis by simp
    qed
  qed
qed simp

lemma run_composed_fold:
  "run_composed w exe budget =
     (let c = fold (captured_read (max_payload_bytes + 1)) (composed_reads w exe) empty_capture
      in (if cs_eof c then Some (cs_buf c) else None, run_upstream_stream w exe budget, cs_failed c))"
  unfolding run_composed_def composed_reads_def
  by (simp add: Let_def split_beta drain_fold)

lemma composed_capture:
  "cs_buf (fold (captured_read limit) rs empty_capture) = take limit (concat (map fst rs))"
  "cs_eof (fold (captured_read limit) rs empty_capture) \<longleftrightarrow> ReadEof \<in> snd ` set rs"
  using captured_fold_buf [of empty_capture limit "[]" rs] by (simp_all add: empty_capture_def captured_fold_flags)

lemma composed_raw:
  assumes "reads_of stdin (composed_reads w exe)" and "fst (run_composed w exe budget) = Some raw"
  shows "raw = take (max_payload_bytes + 1) stdin"
  using assms by (auto simp: run_composed_fold Let_def composed_capture reads_of_def split: if_splits)

lemma upstream_got_prefix: "\<exists>t. concat (map fst (fst (copy_stdin rs))) = upstream_got rs @ t"
  by (induction rs rule: copy_stdin.induct) (auto simp: apfst_def)

lemma composed_reads_complete:
  assumes "ReadEof \<in> snd ` set (fst (copy_stdin (rw_copied w)) @ rw_rest w)"
    and "ReadErr \<notin> snd ` set (fst (copy_stdin (rw_copied w)) @ rw_rest w)"
    and "length (concat (map fst (fst (copy_stdin (rw_copied w)) @ rw_rest w))) \<le> max_payload_bytes"
    and "runs w exe"
  shows "\<exists>raw. fst (run_composed w exe budget) = Some raw"
proof -
  let ?l = "max_payload_bytes + 1" and ?copied = "fst (copy_stdin (rw_copied w))"
  let ?c = "fold (captured_read ?l) ?copied empty_capture"
  have "cs_eof (fst (drain ?l (rw_rest w) ?c))"
    using assms by (intro drain_complete [of _ _ _ "concat (map fst ?copied)"])
      (auto simp: composed_capture captured_fold_flags)
  then show ?thesis
    using assms(4) by (simp add: run_composed_def Let_def split_beta captured_fold_flags)
qed

subsection \<open>Properties\<close>

definition composed_fallback :: "upstream_result option \<Rightarrow> hook_result" where
  "composed_fallback up = (case up of None \<Rightarrow> empty_result | Some u \<Rightarrow> up_out u)"

text \<open>C35: A composed hook never judges a part of a payload: whatever order the stdin arrives and is read
  in, and whatever the other hook reads of it, the reply differs from what the other hook gave only
  when the bytes that were judged are the complete stdin, within the limit, naming the Bash tool, and
  the other hook gave a verdict; that hook itself is never fed anything but a prefix of the stdin.\<close>
theorem composed_rewrite_judges_whole_payload:
  assumes "reads_of stdin (composed_reads w exe)" and "run_composed w exe budget = (raw, up, failed)"
    and "fst (handle_composed hw h (raw_bytes raw) up s) \<noteq> composed_fallback up"
  shows "raw = Some stdin \<and> length stdin \<le> max_payload_bytes \<and> up \<noteq> None
    \<and> (\<exists>p. parse_payload stdin = Some p \<and> pl_tool_name p = ''Bash'')
    \<and> (\<exists>t. stdin = upstream_got (rw_copied w) @ t)"
proof -
  have "json_parse [] = None" by code_simp
  then have e: "parse_payload [] = None" by (simp add: parse_payload_def)
  have bounds: "length (raw_bytes raw) \<le> max_payload_bytes" "up \<noteq> None"
    "\<exists>p. parse_payload (raw_bytes raw) = Some p \<and> pl_tool_name p = ''Bash''"
    using assms(3) by (auto simp: handle_composed_def composed_fallback_def Let_def split: option.splits if_splits)
  with e obtain b where b: "raw = Some b" by (cases raw) (auto simp: raw_bytes_def)
  with assms(2) composed_raw [OF assms(1), of budget b] have "b = take (max_payload_bytes + 1) stdin" by simp
  with bounds(1) b have whole: "b = stdin" "length stdin \<le> max_payload_bytes" by (auto simp: raw_bytes_def)
  from bounds(2) assms(2) have "runs w exe"
    by (auto simp: run_composed_fold Let_def run_upstream_stream_def runs_def split: if_splits)
  then obtain more where "composed_reads w exe = fst (copy_stdin (rw_copied w)) @ more"
    by (simp add: composed_reads_def Let_def split_beta)
  with assms(1) upstream_got_prefix [of "rw_copied w"] have "\<exists>t. stdin = upstream_got (rw_copied w) @ t"
    by (auto simp: reads_of_def)
  with bounds whole b show ?thesis by (simp add: raw_bytes_def)
qed

text \<open>C36: A stdin that arrives is judged however little of it the other hook reads: when the stream
  comes to its end within the limit, without a failed read, before the drain gives up, the copy is the
  complete stdin, even if the other hook failed every write or stopped reading at once.\<close>
theorem payload_copied_whatever_upstream_reads:
  assumes "runs w exe" and "reads_of stdin (fst (copy_stdin (rw_copied w)) @ rw_rest w)"
    and "ReadEof \<in> snd ` set (fst (copy_stdin (rw_copied w)) @ rw_rest w)"
    and "ReadErr \<notin> snd ` set (fst (copy_stdin (rw_copied w)) @ rw_rest w)"
    and "length stdin \<le> max_payload_bytes" and "reads_of stdin (composed_reads w exe)"
  shows "fst (run_composed w exe budget) = Some stdin"
proof -
  have "length (concat (map fst (fst (copy_stdin (rw_copied w)) @ rw_rest w))) \<le> max_payload_bytes"
    using assms(2,3,5) by (auto simp: reads_of_def)
  from composed_reads_complete [OF assms(3,4) this assms(1)]
  obtain raw where "fst (run_composed w exe budget) = Some raw" by blast
  with composed_raw [OF assms(6) this] assms(5) show ?thesis by simp
qed

subsection \<open>A sample run\<close>

definition sample_stdin :: string where
  "sample_stdin = ''{\"session_id\":\"s1\",\"tool_name\":\"Bash\",\"tool_input\":{\"command\":\"make test\"}}''"

definition sample_run :: run_world where
  "sample_run = \<lparr>rw_stat = (\<lambda>_. Inr \<lparr>fi_kind = RegularFile, fi_perm = 0, fi_uid = 0\<rparr>), rw_pipe = True,
     rw_starts = True, rw_copied = [((take 40 sample_stdin, ReadMore), False)],
     rw_run = (\<lambda>_. ((RunOk, False, None, False), [], [])), rw_rest = [(drop 40 sample_stdin, ReadMore), ([], ReadEof)],
     rw_late = []\<rparr>"

lemma sample_stdin_length: "length sample_stdin = 75"
  by (simp add: sample_stdin_def)

lemma sample_stdin_payload:
  "\<exists>raw. parse_payload sample_stdin = Some ((sample_payload [])\<lparr>pl_raw := raw\<rparr>)"
proof -
  let ?ms = "[(''session_id'', JStr ''s1''), (''tool_name'', JStr ''Bash''),
     (''tool_input'', JObj [(''command'', JStr ''make test'')])]"
  have p: "json_parse sample_stdin = Some (JObj ?ms)" by code_simp
  have "parse_payload sample_stdin = Some ((sample_payload [])\<lparr>pl_raw := ?ms\<rparr>)"
    using sample_stdin_length
    by (simp add: parse_payload_def p Let_def max_payload_bytes_def unmarshal_map_def sample_payload_def string_member_def lookup.simps)
  then show ?thesis by blast
qed

lemma sample_runs: "runs sample_run ''/bin/h''"
  by (simp add: runs_def check_upstream_def sample_run_def is_abs_def)

lemma sample_reads:
  "fst (copy_stdin (rw_copied sample_run)) @ rw_rest sample_run
     = [(take 40 sample_stdin, ReadMore), (drop 40 sample_stdin, ReadMore), ([], ReadEof)]"
  "reads_of sample_stdin (fst (copy_stdin (rw_copied sample_run)) @ rw_rest sample_run)"
  by (simp_all add: sample_run_def reads_of_def)

lemma sample_all_read:
  "composed_reads sample_run ''/bin/h'' = [(take 40 sample_stdin, ReadMore), (drop 40 sample_stdin, ReadMore), ([], ReadEof)]"
  using sample_runs sample_stdin_length
  by (simp add: composed_reads_def sample_run_def capture_finished_def captured_read_def Let_def max_payload_bytes_def)

lemma sample_composed_reads: "reads_of sample_stdin (composed_reads sample_run ''/bin/h'')"
  by (simp add: sample_all_read reads_of_def)

theorem payload_copied_whatever_upstream_reads_witness:
  "fst (run_composed sample_run ''/bin/h'' 0) = Some sample_stdin"
  using payload_copied_whatever_upstream_reads [OF sample_runs sample_reads(2) _ _ _ sample_composed_reads, of 0]
    sample_stdin_length
  by (simp add: sample_reads(1) max_payload_bytes_def)

theorem composed_rewrite_judges_whole_payload_witness:
  "length sample_stdin \<le> max_payload_bytes \<and> (\<exists>p. parse_payload sample_stdin = Some p \<and> pl_tool_name p = ''Bash'')
    \<and> (\<exists>t. sample_stdin = upstream_got (rw_copied sample_run) @ t)"
proof -
  let ?u = "\<lparr>up_stdout = [], up_stderr = [], up_exit = 0\<rparr>"
  have r: "run_composed sample_run ''/bin/h'' 0 = (Some sample_stdin, Some ?u, False)"
    using sample_runs sample_stdin_length
    by (simp add: run_composed_fold sample_all_read run_upstream_stream_def runs_def Let_def captured_read_def
        max_payload_bytes_def) (simp add: sample_run_def classify_upstream_def upstream_outcome_def)
  obtain raw where p: "parse_payload sample_stdin = Some ((sample_payload [])\<lparr>pl_raw := raw\<rparr>)"
    using sample_stdin_payload by blast
  have "rewrite_prefix sample_world sample_hook ((sample_payload [])\<lparr>pl_raw := raw\<rparr>) ''make test'' (hook_start sample_files)
      = rewrite_prefix sample_world sample_hook (sample_payload []) ''make test'' (hook_start sample_files)"
    by (simp add: rewrite_prefix_def sample_payload_def split: prod.split sum.split option.split)
  moreover have "trim_space [] = []" by code_simp
  then have "upstream_parts ((sample_payload [])\<lparr>pl_raw := raw\<rparr>) ?u = Inr ([], [], [(''command'', JStr ''make test'')])"
    by (simp add: upstream_parts_def upstream_reply_def upstream_specific_def upstream_base_def stops_or_decides_def
        sum_bind_def sample_payload_def string_member_def lookup.simps Let_def)
  ultimately have "fst (handle_composed sample_world sample_hook (raw_bytes (Some sample_stdin)) (Some ?u) (hook_start sample_files))
      \<noteq> composed_fallback (Some ?u)"
    using p sample_stdin_length sample_rewrite
    by (simp add: handle_composed_def composed_pre_tool_use_def raw_bytes_def composed_fallback_def Let_def up_out_def
        max_payload_bytes_def string_member_def lookup.simps)
      (simp add: sample_payload_def)
  from composed_rewrite_judges_whole_payload [OF sample_composed_reads r this] show ?thesis by blast
qed

end
