(* ===== verification/Gatekeeper.thy ===== *)
theory Gatekeeper
  imports HookCommand Upstream MintCommand ServeCommand
begin

text \<open>
  The program: the choice of the command in \<open>cmd/gatekeeper/main.go\<close>, and the hook command with the
  run of its composed hook put in. What a command prints is part of its outcome; the exit status is the
  first component.
\<close>

record 'k main_world =
  mn_mint :: "'k mint_world"
  mn_serve :: serve_world
  mn_issue :: issue_world
  mn_hook :: command_world
  mn_files :: files

datatype outcome =
    UsageShown
  | VersionShown
  | MintEnded "string ending" "effect list"
  | A2aEnded "string ending" "a2a_effect list"
  | ServeEnded "serve_error + issuer" "serve_effect list"
  | IssueEnded "issue_cmd_error + string"
  | HookEnded hook_result
  | InstallEnded "command_error + install_outcome" "file_action list"
  | RenderEnded "command_error + string"

definition ending_status :: "'a ending \<Rightarrow> int" where
  "ending_status e = (case e of Exit1 _ \<Rightarrow> 1 | Exit2 _ \<Rightarrow> 2 | Printed _ \<Rightarrow> 0)"

definition status :: "'e + 'a \<Rightarrow> int" where
  "status r = (case r of Inl _ \<Rightarrow> 1 | Inr _ \<Rightarrow> 0)"

definition gatekeeper_main :: "'k main_world \<Rightarrow> string list \<Rightarrow> int \<times> outcome" where
  "gatekeeper_main w argv =
     (case argv of
        prog # command # args \<Rightarrow>
          if command = ''mint'' then
            (case run_mint (mn_mint w) args of (e, es) \<Rightarrow> (ending_status e, MintEnded e es))
          else if command = ''mint-a2a'' then
            (case run_mint_a2a (mn_mint w) args of (e, es) \<Rightarrow> (ending_status e, A2aEnded e es))
          else if command = ''serve'' then
            (case run_serve (mn_serve w) args of (r, es) \<Rightarrow> (status r, ServeEnded r es))
          else if command = ''issue-session'' then
            (let r = run_issue_session (mn_issue w) args in (status r, IssueEnded r))
          else if command = ''issue-child'' then
            (let r = run_issue_child (mn_issue w) args in (status r, IssueEnded r))
          else if command = ''hook'' then
            (let r = run_hook (mn_hook w) args (mn_files w) in (hx_exit r, HookEnded r))
          else if command = ''hooks-install'' then
            (case run_hooks_install (mn_hook w) args of (r, fs) \<Rightarrow> (status r, InstallEnded r fs))
          else if command = ''render-agent'' then
            (let r = run_render_agent (mn_hook w) args in (status r, RenderEnded r))
          else if command = ''version'' then (0, VersionShown)
          else (2, UsageShown)
      | _ \<Rightarrow> (2, UsageShown))"

subsection \<open>The hook command with its composed hook\<close>

text \<open>The run of the composed hook as \<open>Upstream\<close> has it, in the place the hook command leaves for it.\<close>

definition composing :: "(string \<Rightarrow> run_world) \<Rightarrow> command_world \<Rightarrow> command_world" where
  "composing rw w = w\<lparr>cw_upstream := (\<lambda>exe budget.
     case run_composed (rw exe) exe budget of (raw, up, failed) \<Rightarrow> (raw_bytes raw, up))\<rparr>"

lemma composing_simps [simp]:
  "cw_readers (composing rw w) = cw_readers w"
  "cw_upstream (composing rw w) exe budget =
     (raw_bytes (fst (run_composed (rw exe) exe budget)), run_upstream_stream (rw exe) exe budget)"
  by (simp_all add: composing_def run_composed_fold Let_def)

lemma parse_budget_composing: "parse_budget (composing rw w) = parse_budget w"
  by (rule ext) (simp add: parse_budget_def)

lemma early_compose_composing: "early_compose (composing rw w) event rest = early_compose w event rest"
  unfolding early_compose_def fixed_compose_def find_compose_def parse_budget_composing ..

lemma answers_status:
  "answers run res \<Longrightarrow> hx_exit res = (case run of Some (raw, Some u) \<Rightarrow> up_exit u | _ \<Rightarrow> 0)"
  by (auto simp: answers_def transparent_def up_out_def split: option.splits prod.splits)

text \<open>The exit status of the hook command is that of the composed hook's verdict, and zero when no hook is
  composed or it gave no verdict: whatever the payload, the issuer and the store do, gatekeeper's own
  part neither turns an exit status that blocks the tool call into one that does not nor the other way.\<close>
theorem hook_status_is_composed_status:
  "fst (gatekeeper_main (w\<lparr>mn_hook := composing rw c\<rparr>) (prog # ''hook'' # ''claude-code'' # event # rest)) =
     (case early_compose c event rest of
        None \<Rightarrow> 0
      | Some (exe, budget) \<Rightarrow> (case run_upstream_stream (rw exe) exe budget of None \<Rightarrow> 0 | Some u \<Rightarrow> up_exit u))"
proof -
  note a = answers_status [OF serve_claude_code_answers [of "composing rw c" event rest "mn_files w"]]
  show ?thesis
    using a by (simp add: gatekeeper_main_def run_hook_def Let_def early_compose_composing split: option.splits prod.splits)
qed

end
