(* ===== verification/ServerRuns.thy ===== *)
theory ServerRuns
  imports Deployment
begin

text \<open>
  The running server: requests, each atomic under the lock of the registry, and sweeps of the reaper, in
  any order while time passes. The state is the clock, the registry, the delivery directories under the
  spawn root by name, each with the token published in it, and the assertions handed out so far.
\<close>

type_synonym deliveries = "string \<rightharpoonup> string option"

text \<open>What one effect does to the directories; directories are addressed by \<open>nameOf\<close>.\<close>

fun effect_on :: "spawn_dirs \<Rightarrow> dir_effect \<Rightarrow> deliveries \<Rightarrow> deliveries" where
  "effect_on s (DirCreated dir) ds = ds(the (name_of s dir) \<mapsto> None)"
| "effect_on s (Published dir token) ds = ds(the (name_of s dir) \<mapsto> Some token)"
| "effect_on s (Discarded dir) ds = ds(the (name_of s dir) := None)"

definition effects_on :: "spawn_dirs \<Rightarrow> dir_effect list \<Rightarrow> deliveries \<Rightarrow> deliveries" where
  "effects_on s es ds = fold (effect_on s) es ds"

text \<open>
  A request is made at the time of the state; a directory is not made over one that is there, a random
  source that answers yields the 16 bytes asked of it, and the time has ten hexadecimal digits at most.
\<close>

definition call_at :: "int \<Rightarrow> deliveries \<Rightarrow> issue_call \<Rightarrow> bool" where
  "call_at t ds w \<longleftrightarrow> cl_now w = t \<and> 0 \<le> unix t \<and> unix t < 16 ^ 10 \<and> (\<forall>n \<in> dom ds. \<not> cl_mkdir w n)
     \<and> (\<forall>bytes. cl_rand_dir w = Some bytes \<longrightarrow> length bytes = 16)"

definition handed_out :: "refusal + issued \<Rightarrow> issued list \<Rightarrow> issued list" where
  "handed_out r log = (case r of Inl e \<Rightarrow> log | Inr out \<Rightarrow> out # log)"

inductive serving :: "crypto \<Rightarrow> issuer \<Rightarrow> int \<Rightarrow> registry \<Rightarrow> deliveries \<Rightarrow> issued list \<Rightarrow> bool"
  for cr :: crypto and i :: issuer
where
  serving_start: "serving cr i t empty_registry ds []"
| serving_wait: "\<lbrakk>serving cr i t reg ds log; t \<le> t'\<rbrakk> \<Longrightarrow> serving cr i t' reg ds log"
| serving_session: "\<lbrakk>serving cr i t reg ds log; call_at t ds w; issue_session i w pr req reg = (r, reg', es)\<rbrakk>
   \<Longrightarrow> serving cr i t reg' (effects_on (ic_dirs i) es ds) (handed_out r log)"
| serving_child: "\<lbrakk>serving cr i t reg ds log; call_at t ds w; issue_child cr i w pr creq reg = (r, reg', es)\<rbrakk>
   \<Longrightarrow> serving cr i t reg' (effects_on (ic_dirs i) es ds) (handed_out r log)"
| serving_sweep: "\<lbrakk>serving cr i t reg ds log; reap_loop remove t reap_max_age names = (removed, failed)\<rbrakk>
   \<Longrightarrow> serving cr i t reg (ds |` (- set removed)) log"

subsection \<open>What one request does to the directories\<close>

definition own_directory :: "issuer \<Rightarrow> issue_call \<Rightarrow> dir_effect list \<Rightarrow> bool" where
  "own_directory i w es \<longleftrightarrow>
     es = [] \<or> (\<exists>dir name. create_dir (ic_dirs i) (cl_rand_dir w) (cl_mkdir w) (unix (cl_now w)) = Some (dir, name)
       \<and> (es = [DirCreated dir, Discarded dir] \<or> (\<exists>token. es = [DirCreated dir, Published dir token])))"

lemma own_directory_none [simp]: "own_directory i w []"
  by (simp add: own_directory_def)

lemma own_finish: "own_directory i w (snd (snd (finish i w pr b c expiry n reg)))"
  by (auto simp: finish_def deliver_def own_directory_def Let_def split: option.splits if_splits)

lemma own_session: "own_directory i w (snd (snd (issue_session i w pr req reg)))"
  by (simp add: issue_session_def refused_def own_finish split: sum.split option.split)

lemma own_child: "own_directory i w (snd (snd (issue_child cr i w pr req reg)))"
  by (simp add: issue_child_def refused_def own_finish split: sum.split option.split prod.split)

definition well_rooted :: "issuer \<Rightarrow> bool" where
  "well_rooted i \<longleftrightarrow> is_abs (sd_root (ic_dirs i)) \<and> path_clean (sd_root (ic_dirs i)) = sd_root (ic_dirs i)
     \<and> ic_ttl i \<le> 43200 * second"

lemma created_fresh:
  assumes "well_rooted i" and "call_at t ds w"
    and "create_dir (ic_dirs i) (cl_rand_dir w) (cl_mkdir w) (unix (cl_now w)) = Some (dir, name)"
  shows "name_of (ic_dirs i) dir = Some name" and "ds name = None"
proof -
  obtain bytes where b: "cl_rand_dir w = Some bytes" using assms(3) by (cases "cl_rand_dir w") (auto simp: create_dir_def random_id_def)
  show "name_of (ic_dirs i) dir = Some name"
    using created_dir(1) [of "ic_dirs i" bytes] assms(1,3) by (simp add: well_rooted_def b)
  have "cl_mkdir w name" using assms(3) by (auto simp: create_dir_def Let_def split: option.splits if_splits)
  with assms(2) show "ds name = None" by (auto simp: call_at_def domIff)
qed

lemma effects_keep:
  assumes "well_rooted i" and "call_at t ds w" and "own_directory i w es" and "ds n = Some x"
  shows "effects_on (ic_dirs i) es ds n = Some x"
  using assms created_fresh [OF assms(1,2)]
  by (auto simp: own_directory_def effects_on_def)

subsection \<open>The invariant\<close>

definition delivered_at :: "issuer \<Rightarrow> int \<Rightarrow> deliveries \<Rightarrow> issued \<Rightarrow> bool" where
  "delivered_at i t ds out \<longleftrightarrow>
     (\<exists>name. name_of (ic_dirs i) (iss_dir out) = Some name
        \<and> (\<forall>s. stale s reap_max_age name \<longrightarrow> iss_expires_at out < unix s)
        \<and> (unix t \<le> iss_expires_at out \<longrightarrow> ds name = Some (Some (iss_token out))))"

lemma granted_delivered:
  assumes "well_rooted i" and "call_at t ds w" and "finished i w pr b c expiry reg out reg' es cF"
    and "expiry \<le> cl_now w + 43200 * second"
  shows "delivered_at i t (effects_on (ic_dirs i) es ds) out"
proof -
  from assms(3) obtain dir name
    where d: "create_dir (ic_dirs i) (cl_rand_dir w) (cl_mkdir w) (unix (cl_now w)) = Some (dir, name)"
      and es: "es = [DirCreated dir, Published dir (iss_token out)]" and dir: "iss_dir out = path_clean dir"
    unfolding finished_def by blast
  obtain bytes where b: "cl_rand_dir w = Some bytes" using d by (cases "cl_rand_dir w") (auto simp: create_dir_def random_id_def)
  note c = created_fresh [OF assms(1,2) d]
  have n: "name_of (ic_dirs i) (iss_dir out) = Some name"
    using c(1) created_dir(2) [of "ic_dirs i" bytes] assms(1) d b dir by (simp add: well_rooted_def)
  have r: "is_abs (sd_root (ic_dirs i))" "path_clean (sd_root (ic_dirs i)) = sd_root (ic_dirs i)"
    and w: "length bytes = 16" "0 \<le> unix (cl_now w)" "unix (cl_now w) < 16 ^ 10"
    using assms(1,2) b by (simp_all add: well_rooted_def call_at_def)
  have "iss_expires_at out < unix s" if "stale s reap_max_age name" for s
    using issued_dir_age [OF assms(3,4) r b w, of s] n that by auto
  then show ?thesis using n c(1) by (auto simp: delivered_at_def effects_on_def es)
qed

lemma delivered_keep:
  assumes "well_rooted i" and "call_at t ds w" and "own_directory i w es" and "list_all (delivered_at i t ds) log"
  shows "list_all (delivered_at i t (effects_on (ic_dirs i) es ds)) log"
  using assms(4) effects_keep [OF assms(1-3)] unfolding list_all_iff delivered_at_def by meson

lemma delivered_wait:
  assumes "t \<le> t'" and "list_all (delivered_at i t ds) log"
  shows "list_all (delivered_at i t' ds) log"
  using assms(2) order_trans [OF unix_mono [OF assms(1)]] unfolding list_all_iff delivered_at_def by meson

lemma delivered_sweep:
  assumes "reap_loop remove t reap_max_age names = (removed, failed)" and "list_all (delivered_at i t ds) log"
  shows "list_all (delivered_at i t (ds |` (- set removed))) log"
proof -
  have "stale t reap_max_age n" if "n \<in> set removed" for n
    using assms(1) that by (auto simp: reap_loop_stale)
  then have "ds n = (ds |` (- set removed)) n \<or> stale t reap_max_age n" for n
    by (cases "n \<in> set removed") simp_all
  with assms(2) show ?thesis unfolding list_all_iff delivered_at_def by (metis linorder_not_less)
qed

lemma delivered_session:
  assumes "well_rooted i" and "call_at t ds w" and "issue_session i w pr req reg = (r, reg', es)"
    and "list_all (delivered_at i t ds) log"
  shows "list_all (delivered_at i t (effects_on (ic_dirs i) es ds)) (handed_out r log)"
proof -
  have keep: "list_all (delivered_at i t (effects_on (ic_dirs i) es ds)) log"
    using delivered_keep [OF assms(1,2) _ assms(4)] own_session [of i w pr req reg] assms(3) by simp
  show ?thesis
  proof (cases r)
    case (Inr out)
    with assms(3) obtain b c cF where f: "finished i w pr b c (cl_now w + ic_ttl i) reg out reg' es cF"
      using issue_session_Inr by metis
    have "cl_now w + ic_ttl i \<le> cl_now w + 43200 * second" using assms(1) by (simp add: well_rooted_def)
    from granted_delivered [OF assms(1,2) f this] keep Inr show ?thesis by (simp add: handed_out_def)
  qed (use keep in \<open>simp add: handed_out_def\<close>)
qed

lemma delivered_child:
  assumes "well_rooted i" and "call_at t ds w" and "issue_child cr i w pr creq reg = (r, reg', es)"
    and "list_all (delivered_at i t ds) log"
  shows "list_all (delivered_at i t (effects_on (ic_dirs i) es ds)) (handed_out r log)"
proof -
  have keep: "list_all (delivered_at i t (effects_on (ic_dirs i) es ds)) log"
    using delivered_keep [OF assms(1,2) _ assms(4)] own_child [of i w cr pr creq reg] assms(3) by simp
  show ?thesis
  proof (cases r)
    case (Inr out)
    with assms(3) obtain parent b c cF where f: "finished i w pr b c (child_expiry i (cl_now w) parent) reg out reg' es cF"
      using issue_child_Inr by metis
    have "child_expiry i (cl_now w) parent \<le> cl_now w + 43200 * second"
      using child_expiry_bounds(2) [of i "cl_now w" parent] assms(1) by (simp add: well_rooted_def)
    from granted_delivered [OF assms(1,2) f this] keep Inr show ?thesis by (simp add: handed_out_def)
  qed (use keep in \<open>simp add: handed_out_def\<close>)
qed

lemma serving_delivers:
  assumes "serving cr i t reg ds log" and "well_rooted i"
  shows "list_all (delivered_at i t ds) log"
  using assms(1)
  by induction (simp_all add: delivered_wait delivered_session [OF assms(2)] delivered_child [OF assms(2)] delivered_sweep)

subsection \<open>Properties\<close>

text \<open>In every run of the server, however requests, refusals and sweeps of the reaper follow each other and
  whatever directories an earlier run left behind, each assertion handed out so far that has not
  expired is still delivered: its directory is found by its path under the spawn root and holds its token.\<close>
theorem live_assertion_stays_delivered:
  assumes "serving cr i t reg ds log" and "well_rooted i" and "out \<in> set log" and "unix t \<le> iss_expires_at out"
  shows "\<exists>name. name_of (ic_dirs i) (iss_dir out) = Some name \<and> ds name = Some (Some (iss_token out))"
  using serving_delivers [OF assms(1,2)] assms(3,4) by (auto simp: list_all_iff delivered_at_def)

theorem live_assertion_stays_delivered_witness:
  "\<exists>(out :: issued) ds name. name_of (ic_dirs started_issuer) (iss_dir out) = Some name \<and> ds name = Some (Some (iss_token out))"
proof -
  obtain out reg' es where s: "issue_session started_issuer holder_call holder plain_request empty_registry = (Inr out, reg', es)"
    using holder_session by blast
  have p: "path_clean ''/spawn'' = ''/spawn''" by code_simp
  have w: "well_rooted started_issuer"
    by (simp add: well_rooted_def started_issuer_def second_def is_abs_def p)
  have c: "call_at (100 * 1000000000) Map.empty holder_call"
    by (simp add: call_at_def holder_call_def sample_call_def unix_def)
  let ?ds = "effects_on (ic_dirs started_issuer) es Map.empty"
  from serving_session [OF serving_start c s]
  have "serving sample_ed_crypto started_issuer (100 * 1000000000) reg' ?ds [out]" by (simp add: handed_out_def)
  from serving_sweep [OF serving_wait [OF this, of "150 * 1000000000"], of "\<lambda>_. None" "[]" "[]" "[]"]
  have run: "serving sample_ed_crypto started_issuer (150 * 1000000000) reg' ?ds [out]" by (simp add: restrict_map_def)
  have "unix (150 * 1000000000) \<le> iss_expires_at out" using holder_issued(3) [OF s] by (simp add: unix_def)
  from live_assertion_stays_delivered [OF run w _ this] show ?thesis by auto
qed

end
