(* ===== verification/ServeLoop.thy ===== *)
theory ServeLoop
  imports ServerRuns
begin

text \<open>
  \<open>Server.Serve\<close> and \<open>Server.reapLoop\<close> (\<open>internal/identity/server.go\<close>) as a loop over the events of the process:
  connections that come in, requests over an open connection, ticks of the reaper and the end of the context,
  in any order, while the clock goes on. What the operating system and the other end contribute is in the
  events; which errors of \<open>Accept\<close> the HTTP server takes for temporary is a parameter. The loop is a run of
  the relation \<open>serving\<close>, so what holds of that relation holds of the server.
\<close>

datatype server_event =
    Connecting connection
  | Asking nat issue_call string string "string option"
  | Ticking "string \<Rightarrow> io_err option" "string list"
  | Passing int
  | Cancelling

datatype serve_end = Running | Returned | ReturnedError string

text \<open>The connections accepted so far, by number, with the peer that \<open>ConnContext\<close> puts in the context of their requests.\<close>

record serve_state =
  ss_now :: int
  ss_conns :: "peer list"
  ss_registry :: registry
  ss_dirs :: deliveries
  ss_answers :: "(served_request \<times> http_reply) list"

definition serve_from :: "int \<Rightarrow> deliveries \<Rightarrow> serve_state" where
  "serve_from t ds = \<lparr>ss_now = t, ss_conns = [], ss_registry = empty_registry, ss_dirs = ds, ss_answers = []\<rparr>"

definition peer_of :: "serve_state \<Rightarrow> nat \<Rightarrow> peer option" where
  "peer_of st n = (if n < length (ss_conns st) then Some (ss_conns st ! n) else None)"

definition answer :: "server \<Rightarrow> issue_call \<Rightarrow> served_request \<Rightarrow> serve_state \<Rightarrow> serve_state" where
  "answer sv w h st =
     (let (rp, reg, es) = serve_request sv w h (ss_registry st)
      in st\<lparr>ss_registry := reg, ss_dirs := effects_on (ic_dirs (sv_issuer sv)) es (ss_dirs st),
            ss_answers := (h, rp) # ss_answers st\<rparr>)"

definition reap_tick :: "(string \<Rightarrow> io_err option) \<Rightarrow> string list \<Rightarrow> serve_state \<Rightarrow> serve_state" where
  "reap_tick remove names st =
     st\<lparr>ss_dirs := ss_dirs st |` (- set (fst (reap_loop remove (ss_now st) reap_max_age names)))\<rparr>"

fun serve_loop :: "server \<Rightarrow> (string \<Rightarrow> bool) \<Rightarrow> server_event list \<Rightarrow> serve_state \<Rightarrow> serve_end \<times> serve_state" where
  "serve_loop sv temporary [] st = (Running, st)"
| "serve_loop sv temporary (Connecting c # evs) st =
     (case accept_peer [c] of
        None \<Rightarrow> serve_loop sv temporary evs st
      | Some (Inl e, _) \<Rightarrow> if temporary e then serve_loop sv temporary evs st else (ReturnedError e, st)
      | Some (Inr p, _) \<Rightarrow> serve_loop sv temporary evs (st\<lparr>ss_conns := ss_conns st @ [p]\<rparr>))"
| "serve_loop sv temporary (Asking n w mth path body # evs) st =
     (case peer_of st n of
        None \<Rightarrow> serve_loop sv temporary evs st
      | Some p \<Rightarrow>
          serve_loop sv temporary evs
            (answer sv w \<lparr>hi_peer = Some p, hi_method = mth, hi_path = path, hi_body = body\<rparr> st))"
| "serve_loop sv temporary (Ticking remove names # evs) st = serve_loop sv temporary evs (reap_tick remove names st)"
| "serve_loop sv temporary (Passing d # evs) st = serve_loop sv temporary evs (st\<lparr>ss_now := ss_now st + max 0 d\<rparr>)"
| "serve_loop sv temporary (Cancelling # evs) st = (Returned, st)"

definition serve :: "server \<Rightarrow> (string \<Rightarrow> bool) \<Rightarrow> bool \<Rightarrow> server_event list \<Rightarrow> serve_state \<Rightarrow> serve_end \<times> serve_state" where
  "serve sv temporary cancelled evs st = (if cancelled then (Returned, st) else serve_loop sv temporary evs st)"

text \<open>The system's part in a request: the clock of the state, a random source of the asked length, and no directory
  made over one that is there.\<close>

fun lawful_events :: "server \<Rightarrow> (string \<Rightarrow> bool) \<Rightarrow> server_event list \<Rightarrow> serve_state \<Rightarrow> bool" where
  "lawful_events sv temporary [] st \<longleftrightarrow> True"
| "lawful_events sv temporary (ev # evs) st \<longleftrightarrow>
     (case ev of Asking n w mth path body \<Rightarrow> call_at (ss_now st) (ss_dirs st) w | _ \<Rightarrow> True)
     \<and> (case serve_loop sv temporary [ev] st of (Running, st') \<Rightarrow> lawful_events sv temporary evs st' | _ \<Rightarrow> True)"

subsection \<open>The loop is a run of the relation\<close>

definition asks_issue :: "served_request \<Rightarrow> bool" where
  "asks_issue h \<longleftrightarrow> hi_method h = ''POST'' \<and> hi_path h \<in> {path_issue_session, path_issue_child}"

text \<open>Every grant among the answers is on record.\<close>

definition on_record :: "issued list \<Rightarrow> served_request \<times> http_reply \<Rightarrow> bool" where
  "on_record log a \<longleftrightarrow>
     (asks_issue (fst a) \<and> rp_status (snd a) = 200 \<longrightarrow> (\<exists>out \<in> set log. snd a = respond (Inr out)))"

definition follows :: "server \<Rightarrow> serve_state \<Rightarrow> bool" where
  "follows sv st \<longleftrightarrow>
     (\<exists>log. serving (sv_crypto sv) (sv_issuer sv) (ss_now st) (ss_registry st) (ss_dirs st) log
        \<and> list_all (on_record log) (ss_answers st))"

lemma respond_ok: "publicly (r, s) \<Longrightarrow> rp_status (respond r) = 200 \<Longrightarrow> \<exists>out. r = Inr out"
  by (cases r) (auto simp: publicly_def respond_def write_refusal_def public_refusal_def)

lemma on_record_more: "on_record log a \<Longrightarrow> on_record (handed_out r log) a"
  by (auto simp: on_record_def handed_out_def split: sum.splits)

lemma on_record_new: "publicly (r, s) \<Longrightarrow> on_record (handed_out r log) (h, respond r)"
  using respond_ok [of r s] by (auto simp: on_record_def handed_out_def)

lemma answer_simps [simp]:
  "ss_now (answer sv w h st) = ss_now st" "ss_conns (answer sv w h st) = ss_conns st"
  by (simp_all add: answer_def Let_def split: prod.split)

text \<open>A request is answered by one of the issuer's operations, or changes nothing and grants nothing.\<close>

datatype operation = BySession peer session_request | ByChild peer child_request | ByNothing http_reply

definition served_by :: "server \<Rightarrow> served_request \<Rightarrow> operation" where
  "served_by sv h =
     (if hi_path h = path_jwks \<and> hi_method h \<in> {''GET'', ''HEAD''} then ByNothing (serve_jwks sv)
      else if hi_path h = path_issue_session \<and> hi_method h = ''POST'' then
        (case decode_request session_request_of_json h of Inl e \<Rightarrow> ByNothing (write_refusal e) | Inr (p, req) \<Rightarrow> BySession p req)
      else if hi_path h = path_issue_child \<and> hi_method h = ''POST'' then
        (case decode_request child_request_of_json h of Inl e \<Rightarrow> ByNothing (write_refusal e) | Inr (p, req) \<Rightarrow> ByChild p req)
      else ByNothing (sv_mux sv (hi_method h) (hi_path h)))"

lemma serve_request_by:
  "serve_request sv w h reg =
     (case served_by sv h of
        BySession p req \<Rightarrow> apfst respond (issue_session (sv_issuer sv) w p req reg)
      | ByChild p req \<Rightarrow> apfst respond (issue_child (sv_crypto sv) (sv_issuer sv) w p req reg)
      | ByNothing rp \<Rightarrow> (rp, reg, []))"
  by (auto simp: serve_request_def served_by_def serve_session_def serve_child_def split: sum.split prod.split)

lemma decode_refused: "decode_request into h = Inl e \<Longrightarrow> rp_status (write_refusal e) \<noteq> 200"
  by (auto simp: decode_request_def write_refusal_def refuse_def split: option.splits)

lemma by_nothing: "served_by sv h = ByNothing rp \<Longrightarrow> asks_issue h \<Longrightarrow> rp_status rp \<noteq> 200"
  by (auto simp: served_by_def asks_issue_def decode_refused split: if_splits sum.splits prod.splits)

lemma follows_answer:
  assumes "follows sv st" and "call_at (ss_now st) (ss_dirs st) w"
  shows "follows sv (answer sv w h st)"
proof -
  from assms(1) obtain log where s: "serving (sv_crypto sv) (sv_issuer sv) (ss_now st) (ss_registry st) (ss_dirs st) log"
    and a: "list_all (on_record log) (ss_answers st)" by (auto simp: follows_def)
  have more: "list_all (on_record (handed_out r log)) (ss_answers st)" for r
    using a by (auto simp: list_all_iff intro: on_record_more)
  show ?thesis
  proof (cases "served_by sv h")
    case (BySession p req)
    obtain r reg' es where run: "issue_session (sv_issuer sv) w p req (ss_registry st) = (r, reg', es)" by (rule prod_cases3)
    have "publicly (r, reg', es)" using publicly_issue_session [of "sv_issuer sv" w p req "ss_registry st"] run by simp
    from on_record_new [OF this, of log h] more [of r] serving_session [OF s assms(2) run] BySession run
    show ?thesis unfolding follows_def by (auto simp: answer_def serve_request_by intro!: exI [of _ "handed_out r log"])
  next
    case (ByChild p req)
    obtain r reg' es where run: "issue_child (sv_crypto sv) (sv_issuer sv) w p req (ss_registry st) = (r, reg', es)"
      by (rule prod_cases3)
    have "publicly (r, reg', es)"
      using publicly_issue_child [of "sv_crypto sv" "sv_issuer sv" w p req "ss_registry st"] run by simp
    from on_record_new [OF this, of log h] more [of r] serving_child [OF s assms(2) run] ByChild run
    show ?thesis unfolding follows_def by (auto simp: answer_def serve_request_by intro!: exI [of _ "handed_out r log"])
  next
    case (ByNothing rp)
    with s a by_nothing [OF ByNothing] show ?thesis unfolding follows_def
      by (auto simp: answer_def serve_request_by effects_on_def on_record_def intro!: exI [of _ log])
  qed
qed

lemma follows_tick: "follows sv st \<Longrightarrow> follows sv (reap_tick remove names st)"
  by (auto simp: follows_def reap_tick_def intro: serving_sweep [OF _ prod.collapse [symmetric]])

lemma follows_wait: "follows sv st \<Longrightarrow> follows sv (st\<lparr>ss_now := ss_now st + max 0 d\<rparr>)"
  unfolding follows_def
proof (elim exE conjE, intro exI conjI)
  fix log assume "serving (sv_crypto sv) (sv_issuer sv) (ss_now st) (ss_registry st) (ss_dirs st) log"
  from serving_wait [OF this, of "ss_now st + max 0 d"]
  show "serving (sv_crypto sv) (sv_issuer sv) (ss_now (st\<lparr>ss_now := ss_now st + max 0 d\<rparr>))
      (ss_registry (st\<lparr>ss_now := ss_now st + max 0 d\<rparr>)) (ss_dirs (st\<lparr>ss_now := ss_now st + max 0 d\<rparr>)) log" by simp
qed simp

lemma follows_conns [simp]: "follows sv (st\<lparr>ss_conns := cs\<rparr>) = follows sv st"
  by (simp add: follows_def)

lemma follows_loop:
  "\<lbrakk>follows sv st; lawful_events sv temporary evs st; serve_loop sv temporary evs st = (ending, st')\<rbrakk> \<Longrightarrow> follows sv st'"
proof (induction sv temporary evs st rule: serve_loop.induct)
  case (2 sv temporary c evs st)
  then show ?case by (auto split: option.splits sum.splits if_splits)
next
  case (3 sv temporary n w mth path body evs st)
  then show ?case by (auto split: option.splits intro: follows_answer)
qed (auto intro: follows_tick follows_wait)

text \<open>Only connections with the credentials of a peer have requests.\<close>

definition attested_conns :: "peer set \<Rightarrow> serve_state \<Rightarrow> bool" where
  "attested_conns ps st \<longleftrightarrow> set (ss_conns st) \<subseteq> ps \<and> (\<forall>(h, rp) \<in> set (ss_answers st). \<exists>p \<in> ps. hi_peer h = Some p)"

lemma answer_adds: "\<exists>rp. ss_answers (answer sv w h st) = (h, rp) # ss_answers st"
  by (auto simp: answer_def Let_def split: prod.split)

lemma attested_answer:
  "attested_conns ps st \<Longrightarrow> p \<in> ps \<Longrightarrow> hi_peer h = Some p \<Longrightarrow> attested_conns ps (answer sv w h st)"
  using answer_adds [of sv w h st] by (auto simp: attested_conns_def)

lemma attested_loop:
  "\<lbrakk>attested_conns ps st; \<forall>p. Connecting (FromPeer p) \<in> set evs \<longrightarrow> p \<in> ps; serve_loop sv temporary evs st = (ending, st')\<rbrakk>
    \<Longrightarrow> attested_conns ps st'"
proof (induction evs arbitrary: st)
  case (Cons ev evs)
  have conn: "attested_conns ps (st\<lparr>ss_conns := ss_conns st @ [p]\<rparr>)" if "p \<in> ps" for p
    using Cons.prems(1) that by (simp add: attested_conns_def)
  have quiet: "attested_conns ps (reap_tick remove names st)" "attested_conns ps (st\<lparr>ss_now := x\<rparr>)" for remove names x
    using Cons.prems(1) by (simp_all add: attested_conns_def reap_tick_def)
  have rest: "\<forall>p. Connecting (FromPeer p) \<in> set evs \<longrightarrow> p \<in> ps" using Cons.prems(2) by simp
  note IH = Cons.IH [OF _ rest]
  show ?case
  proof (cases ev)
    case (Connecting c)
    show ?thesis
    proof (cases c)
      case (FromPeer p)
      with Connecting Cons.prems have "attested_conns ps (st\<lparr>ss_conns := ss_conns st @ [p]\<rparr>)" by (intro conn) simp
      from IH [OF this] show ?thesis using Connecting FromPeer Cons.prems(3) by simp
    qed (use Connecting Cons.prems IH in \<open>simp_all split: if_splits\<close>)
  next
    case (Asking n w mth path body)
    show ?thesis
    proof (cases "peer_of st n")
      case (Some p)
      then have "p \<in> ps" using Cons.prems(1) by (auto simp: peer_of_def attested_conns_def split: if_splits)
      then have "attested_conns ps (answer sv w \<lparr>hi_peer = Some p, hi_method = mth, hi_path = path, hi_body = body\<rparr> st)"
        by (intro attested_answer [OF Cons.prems(1)]) simp_all
      from IH [OF this] show ?thesis using Some Asking Cons.prems(3) by simp
    qed (use Asking Cons.prems IH in simp)
  next
    case (Ticking remove names)
    with IH [OF quiet(1)] Cons.prems(3) show ?thesis by simp
  next
    case (Passing d)
    with IH [OF quiet(2)] Cons.prems(3) show ?thesis by simp
  qed (use Cons.prems in simp)
qed simp

subsection \<open>Properties\<close>

text \<open>C19: What the server grants over its socket stays delivered: however connections, requests, ticks of the reaper and
  the passing of time follow each other in \<open>Serve\<close>, every reply of success to an issue request is the assertion
  that was issued, it went to a connection whose peer the kernel attested, and until that assertion expires its
  token is in its directory under the spawn root.\<close>
theorem served_assertion_stays_delivered:
  assumes "serve sv temporary cancelled evs (serve_from t ds) = (ending, st)"
    and "lawful_events sv temporary evs (serve_from t ds)" and "well_rooted (sv_issuer sv)"
    and "(h, rp) \<in> set (ss_answers st)" and "asks_issue h" and "rp_status rp = 200"
  shows "\<exists>out p. rp = respond (Inr out) \<and> hi_peer h = Some p \<and> Connecting (FromPeer p) \<in> set evs
    \<and> (unix (ss_now st) \<le> iss_expires_at out \<longrightarrow>
         (\<exists>name. name_of (ic_dirs (sv_issuer sv)) (iss_dir out) = Some name \<and> ss_dirs st name = Some (Some (iss_token out))))"
proof -
  have run: "serve_loop sv temporary evs (serve_from t ds) = (ending, st)"
    using assms(1,4) by (auto simp: serve_def serve_from_def split: if_splits)
  have "follows sv (serve_from t ds)"
    by (auto simp: follows_def serve_from_def intro: serving_start)
  from follows_loop [OF this assms(2) run] obtain log
    where s: "serving (sv_crypto sv) (sv_issuer sv) (ss_now st) (ss_registry st) (ss_dirs st) log"
      and "list_all (on_record log) (ss_answers st)" by (auto simp: follows_def)
  with assms(4-6) obtain out where out: "out \<in> set log" "rp = respond (Inr out)"
    by (fastforce simp: list_all_iff on_record_def)
  have "attested_conns {p. Connecting (FromPeer p) \<in> set evs} st"
    by (rule attested_loop [OF _ _ run]) (auto simp: attested_conns_def serve_from_def)
  with assms(4) have "\<exists>p. hi_peer h = Some p \<and> Connecting (FromPeer p) \<in> set evs" by (auto simp: attested_conns_def)
  with out serving_delivers [OF s assms(3)] show ?thesis by (force simp: list_all_iff delivered_at_def)
qed

theorem served_assertion_stays_delivered_witness:
  "\<exists>(st :: serve_state) (h :: served_request) rp (out :: issued). (h, rp) \<in> set (ss_answers st) \<and> hi_peer h = Some holder \<and> rp_status rp = 200 \<and> rp = respond (Inr out)
    \<and> (unix (ss_now st) \<le> iss_expires_at out \<longrightarrow>
         (\<exists>name. name_of (ic_dirs started_issuer) (iss_dir out) = Some name \<and> ss_dirs st name = Some (Some (iss_token out))))"
proof -
  let ?sv = "\<lparr>sv_issuer = started_issuer, sv_crypto = sample_ed_crypto, sv_mux = (\<lambda>_ _. write_refusal (refuse 404 BadRequest))\<rparr>"
  let ?h = "session_post holder plain_request"
  let ?evs = "[Connecting (FromPeer holder), Asking 0 holder_call (hi_method ?h) (hi_path ?h) (hi_body ?h), Passing 1000000000]"
  let ?st = "serve_from (100 * 1000000000) Map.empty"
  obtain out reg' es where s: "issue_session started_issuer holder_call holder plain_request empty_registry = (Inr out, reg', es)"
    using holder_session by blast
  have clean: "clean_session_request plain_request"
    by (simp add: clean_session_request_def plain_request_def session_request_json_def opt_member_def max_request_bytes_def)
  have h: "\<lparr>hi_peer = Some holder, hi_method = hi_method ?h, hi_path = hi_path ?h, hi_body = hi_body ?h\<rparr> = ?h"
    by (simp add: session_post_def)
  have a: "serve_request ?sv holder_call ?h empty_registry = (respond (Inr out), reg', es)"
    using served_session [OF clean, of ?sv holder_call holder empty_registry] s by simp
  obtain st where st: "serve ?sv (\<lambda>_. False) False ?evs ?st = (Running, st)" "(?h, respond (Inr out)) \<in> set (ss_answers st)"
    using a by (simp add: serve_def peer_of_def serve_from_def h answer_def)
  have p: "path_clean ''/spawn'' = ''/spawn''" by code_simp
  have w: "well_rooted (sv_issuer ?sv)" by (simp add: well_rooted_def started_issuer_def second_def is_abs_def p)
  have l: "lawful_events ?sv (\<lambda>_. False) ?evs ?st"
    by (simp add: call_at_def holder_call_def sample_call_def unix_def serve_from_def peer_of_def)
  have i: "asks_issue ?h" "rp_status (respond (Inr out)) = 200" by (simp_all add: asks_issue_def session_post_def respond_def)
  from served_assertion_stays_delivered [OF st(1) l w st(2) i] obtain out' where
    "respond (Inr out) = respond (Inr out')" "unix (ss_now st) \<le> iss_expires_at out' \<longrightarrow>
       (\<exists>name. name_of (ic_dirs started_issuer) (iss_dir out') = Some name \<and> ss_dirs st name = Some (Some (iss_token out')))"
    by auto
  with st(2) i(2) show ?thesis by (intro exI [of _ st] exI [of _ ?h] exI [of _ "respond (Inr out)"] exI [of _ out'])
    (simp add: session_post_def)
qed

text \<open>\<open>Serve\<close> ends as it should: without an error exactly when the context ends, even when that was before it
  started, with the listener's error when accepting fails for good, and not otherwise.\<close>
theorem serve_ends:
  assumes "serve sv temporary cancelled evs st = (ending, st')"
  shows "(ending = Returned \<longrightarrow> cancelled \<or> Cancelling \<in> set evs)
    \<and> (\<forall>e. ending = ReturnedError e \<longrightarrow> \<not> cancelled \<and> \<not> temporary e \<and> Connecting (AcceptFailed e) \<in> set evs)
    \<and> (ending = Running \<longrightarrow> \<not> cancelled \<and> Cancelling \<notin> set evs)
    \<and> (cancelled \<longrightarrow> ending = Returned \<and> st' = st)"
proof -
  have "(ending = Returned \<longrightarrow> Cancelling \<in> set evs)
    \<and> (\<forall>e. ending = ReturnedError e \<longrightarrow> \<not> temporary e \<and> Connecting (AcceptFailed e) \<in> set evs)
    \<and> (ending = Running \<longrightarrow> Cancelling \<notin> set evs)" if "serve_loop sv temporary evs st = (ending, st')" for st
    using that
  proof (induction evs arbitrary: st)
    case (Cons ev evs)
    show ?case
    proof (cases ev)
      case (Connecting c)
      with Cons show ?thesis by (cases c) (auto split: if_splits)
    next
      case (Asking n w mth path body)
      with Cons show ?thesis by (auto split: option.splits)
    qed (use Cons in auto)
  qed auto
  with assms show ?thesis by (auto simp: serve_def split: if_splits)
qed

end
