(* ===== verification/HookReport.thy ===== *)
theory HookReport
  imports ClaudeHook
begin

text \<open>
  What the hook says of a handled event, \<open>ClaudeCode.finish\<close> of \<open>internal/hook/claude.go\<close>: the line in its log and
  the capture, by the mode, the decision and the error; and the issuer that is not there
  (\<open>UnavailableIssuer\<close>), with which the hook runs when it has no socket.
\<close>

definition hook_events :: "string list" where
  "hook_events = [''session-start'', ''subagent-start'', ''pre-tool-use-bash'', ''subagent-stop'', ''user-prompt-submit'']"

text \<open>The decisions by the names the handlers return.\<close>

definition decision_text :: "decision \<Rightarrow> string" where
  "decision_text d =
     (case d of
        Skipped \<Rightarrow> ''skipped'' | IssueFailed \<Rightarrow> ''issue-failed'' | UndeliverableDir \<Rightarrow> ''undeliverable''
      | StateFailed \<Rightarrow> ''state-failed'' | SessionIssued \<Rightarrow> ''session-issued'' | NoSession \<Rightarrow> ''no-session''
      | StillFresh \<Rightarrow> ''fresh'' | RefreshFailed \<Rightarrow> ''refresh-failed'' | SessionRefreshed \<Rightarrow> ''session-refreshed''
      | AgentKnown \<Rightarrow> ''agent-known'' | ChildIssued \<Rightarrow> ''child-issued'' | NoRecord \<Rightarrow> ''no-record''
      | RemoveFailed \<Rightarrow> ''remove-failed'' | AgentRemoved \<Rightarrow> ''agent-removed'' | NotBash \<Rightarrow> ''not-bash''
      | NoCommand \<Rightarrow> ''no-command'' | AlreadyDelivered \<Rightarrow> ''already-delivered'' | IdentityNotNeeded \<Rightarrow> ''identity-not-needed''
      | AgentlessTypeMismatch \<Rightarrow> ''agentless-type-mismatch'' | Expired \<Rightarrow> ''expired'' | DirUnusable \<Rightarrow> ''dir-unusable''
      | WouldDeliver \<Rightarrow> ''would-deliver'' | Delivered \<Rightarrow> ''delivered'' | UpstreamFailed \<Rightarrow> ''upstream-failed''
      | UpstreamExit \<Rightarrow> ''upstream-exit'' | UpstreamUnparsed \<Rightarrow> ''upstream-unparsed'' | UpstreamDecision \<Rightarrow> ''upstream-decision''
      | UpstreamPassthrough \<Rightarrow> ''upstream-passthrough'' | UpstreamCommandUnknown \<Rightarrow> ''upstream-command-unknown''
      | UnknownEvent \<Rightarrow> [])"

definition logged_decisions :: "string list" where
  "logged_decisions = [''agentless-type-mismatch'', ''expired'', ''no-session'']"

definition event_line :: "string \<Rightarrow> payload \<Rightarrow> string" where
  "event_line event p = event @ '' session='' @ pl_session_id p @ '' agent='' @ pl_agent_id p @ '': ''"

text \<open>The line logged, if any, and the decision handed to the capture of the event, if it is captured.\<close>

definition finish_event ::
    "hook_mode \<Rightarrow> string \<Rightarrow> payload \<Rightarrow> string \<Rightarrow> string option \<Rightarrow> string option \<times> string option" where
  "finish_event mode event p d err =
     (let line = (case err of
                    Some e \<Rightarrow> Some (event_line event p @ e)
                  | None \<Rightarrow> if mode = ModeEnforce \<and> event = ''pre-tool-use-bash'' \<and> d \<in> set logged_decisions
                            then Some (event_line event p @ ''no identity delivered: '' @ d) else None);
          d' = (if err \<noteq> None \<and> d = [] then ''error'' else d)
      in (line, if mode = ModeWarn then Some d' else None))"

definition with_unavailable :: "string \<Rightarrow> hook_world \<Rightarrow> hook_world" where
  "with_unavailable e w = w\<lparr>hw_issue_session := (\<lambda>_. Inl e), hw_issue_child := (\<lambda>_. Inl e)\<rparr>"

text \<open>Every event leaves a trace: in the warn mode the capture, never of an empty decision when it failed, and in the
  enforce mode no capture but a line for every error and for every command that had a session's identity due and went
  without.\<close>
theorem every_event_reported:
  "(mode = ModeWarn \<longrightarrow> (\<exists>d'. snd (finish_event mode event p d err) = Some d' \<and> (err \<noteq> None \<longrightarrow> d' \<noteq> [])))
   \<and> (mode = ModeEnforce \<longrightarrow> snd (finish_event mode event p d err) = None)
   \<and> (err \<noteq> None \<longrightarrow> fst (finish_event mode event p d err) \<noteq> None)
   \<and> (mode = ModeEnforce \<and> event = ''pre-tool-use-bash'' \<and> d \<in> set logged_decisions
        \<longrightarrow> fst (finish_event mode event p d err) \<noteq> None)"
  by (cases mode; cases err) (auto simp: finish_event_def Let_def)

lemma decision_text_error: "decision_text d = [] \<longleftrightarrow> d = UnknownEvent"
  by (cases d) (simp_all add: decision_text_def)

text \<open>Without an issuer a session start is reported as failed and leaves the records as pruning the old ones left them.\<close>
theorem unavailable_issuer_records_nothing:
  assumes "session_start (with_unavailable e w) h p s = (d, err, s')"
  shows "err \<and> d \<in> {Skipped, IssueFailed} \<and> hs_files s' \<in> {hs_files s, hs_files (do_prune (with_unavailable e w) h prune_after s)}"
  using assms by (auto simp: session_start_def request_session_def with_unavailable_def emit_def Let_def split: if_splits prod.splits sum.splits)

end
