(* ===== verification/LiveTest.thy ===== *)
theory LiveTest
  imports Json
begin

text \<open>
  The frame of the live test harness, \<open>internal/livetest/run_linux.go\<close>, \<open>result.go\<close> and \<open>options.go\<close>: how
  the outcomes of the shapes become lines of the report and the exit code of the run. A shape itself
  drives the built binary; its outcome, and whether the run was cancelled before and after it, are the input.
\<close>

datatype live_status = Pass | Fail | Skip

record live_result =
  lr_shape :: string
  lr_status :: live_status
  lr_reason :: string

definition status_text :: "live_status \<Rightarrow> string" where
  "status_text s = (case s of Pass \<Rightarrow> ''pass'' | Fail \<Rightarrow> ''fail'' | Skip \<Rightarrow> ''skip'')"

definition result_line :: "live_result \<Rightarrow> string" where
  "result_line r = json_encode (JObj ([(''shape'', JStr (lr_shape r)), (''status'', JStr (status_text (lr_status r)))]
     @ (if lr_reason r = [] then [] else [(''reason'', JStr (lr_reason r))]))) @ [CHR 0x0A]"

subsection \<open>The reporter\<close>

text \<open>\<open>rp_tried\<close> counts the writes; what the writer answers to each is the argument \<open>out\<close>.\<close>

record reporter =
  lp_counts :: "live_status \<Rightarrow> nat"
  lp_lines :: "string list"
  lp_tried :: nat
  lp_failed :: bool

definition new_reporter :: reporter where
  "new_reporter = \<lparr>lp_counts = (\<lambda>_. 0), lp_lines = [], lp_tried = 0, lp_failed = False\<rparr>"

definition report_write :: "(nat \<Rightarrow> bool) \<Rightarrow> string \<Rightarrow> reporter \<Rightarrow> reporter" where
  "report_write out line r =
     (if out (lp_tried r) then r\<lparr>lp_lines := lp_lines r @ [line], lp_tried := lp_tried r + 1\<rparr>
      else r\<lparr>lp_failed := True, lp_tried := lp_tried r + 1\<rparr>)"

definition report_add :: "(nat \<Rightarrow> bool) \<Rightarrow> live_result \<Rightarrow> reporter \<Rightarrow> reporter" where
  "report_add out res r =
     report_write out (result_line res) (r\<lparr>lp_counts := (lp_counts r)(lr_status res := lp_counts r (lr_status res) + 1)\<rparr>)"

definition summary_line :: "reporter \<Rightarrow> string" where
  "summary_line r = json_encode (JObj [(''summary'', JObj [(''fail'', JNum (show_nat (lp_counts r Fail))),
     (''pass'', JNum (show_nat (lp_counts r Pass))), (''skip'', JNum (show_nat (lp_counts r Skip)))])]) @ [CHR 0x0A]"

definition report_summary :: "(nat \<Rightarrow> bool) \<Rightarrow> reporter \<Rightarrow> reporter" where
  "report_summary out r = report_write out (summary_line r) r"

definition any_failed :: "reporter \<Rightarrow> bool" where
  "any_failed r \<longleftrightarrow> lp_counts r Fail > 0"

subsection \<open>The run\<close>

record live_options =
  lo_source :: string
  lo_binary :: string
  lo_temp_parent :: string
  lo_runtime_cli :: string
  lo_runtime_env :: "string list"
  lo_no_runtime :: bool
  lo_require_runtime :: bool
  lo_attempts :: int
  lo_timeout :: int

definition with_defaults :: "live_options \<Rightarrow> live_options" where
  "with_defaults o1 =
     (let o2 = (if lo_source o1 = [] then o1\<lparr>lo_source := ''.''\<rparr> else o1);
          o3 = (if lo_attempts o2 \<le> 0 then o2\<lparr>lo_attempts := 2\<rparr> else o2)
      in if lo_timeout o3 \<le> 0 then o3\<lparr>lo_timeout := 240 * 1000000000\<rparr> else o3)"

datatype shape_end = ShapeDone | ShapeSkips string | ShapeFails string

record shape_run =
  sh_name :: string
  sh_cancelled_before :: bool
  sh_end :: shape_end
  sh_cancelled_after :: bool

definition runtime_prefix :: string where "runtime_prefix = ''runtime-''"

definition execute :: "live_options \<Rightarrow> shape_run \<Rightarrow> live_result" where
  "execute opts s =
     (let result = (\<lambda>st reason. \<lparr>lr_shape = sh_name s, lr_status = st, lr_reason = reason\<rparr>)
      in if sh_end s = ShapeDone then result Pass []
         else if sh_cancelled_after s then result Fail ''interrupted''
         else case sh_end s of
                ShapeSkips reason \<Rightarrow>
                  if lo_require_runtime opts \<and> has_prefix (sh_name s) runtime_prefix
                  then result Fail (''runtime evidence is required but the shape cannot run: '' @ reason)
                  else result Skip reason
              | ShapeFails reason \<Rightarrow> result Fail reason
              | ShapeDone \<Rightarrow> result Pass [])"

definition shape_result :: "live_options \<Rightarrow> shape_run \<Rightarrow> live_result" where
  "shape_result opts s =
     (if sh_cancelled_before s then \<lparr>lr_shape = sh_name s, lr_status = Fail, lr_reason = ''interrupted before it ran''\<rparr>
      else execute opts s)"

definition live_finish :: "(nat \<Rightarrow> bool) \<Rightarrow> bool \<Rightarrow> reporter \<Rightarrow> int \<times> reporter" where
  "live_finish out cancelled r =
     (let r' = report_summary out r
      in (if cancelled then 130 else if any_failed r' \<or> lp_failed r' then 1 else 0, r'))"

text \<open>\<open>making\<close> and \<open>closing\<close> are the error of making and of closing the environment.\<close>

definition live_run ::
    "(nat \<Rightarrow> bool) \<Rightarrow> live_options \<Rightarrow> string option \<Rightarrow> shape_run list \<Rightarrow> string option \<Rightarrow> bool \<Rightarrow> int \<times> reporter" where
  "live_run out opts making shapes closing cancelled =
     (case making of
        Some e \<Rightarrow> live_finish out cancelled (report_add out \<lparr>lr_shape = ''setup'', lr_status = Fail, lr_reason = e\<rparr> new_reporter)
      | None \<Rightarrow>
          (let r = fold (report_add out \<circ> shape_result (with_defaults opts)) shapes new_reporter;
               t = (case closing of
                      Some e \<Rightarrow> \<lparr>lr_shape = ''teardown'', lr_status = Fail, lr_reason = e\<rparr>
                    | None \<Rightarrow> \<lparr>lr_shape = ''teardown'', lr_status = Pass, lr_reason = []\<rparr>)
           in live_finish out cancelled (report_add out t r)))"

subsection \<open>What the report holds\<close>

lemma report_write_simps [simp]:
  "lp_counts (report_write out line r) = lp_counts r"
  "lp_failed (report_write out line r) \<longleftrightarrow> lp_failed r \<or> \<not> out (lp_tried r)"
  "lp_tried (report_write out line r) = lp_tried r + 1"
  by (simp_all add: report_write_def)

lemma report_write_lines:
  "\<not> lp_failed (report_write out line r) \<Longrightarrow> lp_lines (report_write out line r) = lp_lines r @ [line]"
  by (auto simp: report_write_def split: if_splits)

lemma report_add_failed:
  "any_failed (report_add out res r) \<longleftrightarrow> any_failed r \<or> lr_status res = Fail"
  by (auto simp: any_failed_def report_add_def)

lemma adds_failed:
  "any_failed (fold (report_add out) rs r) \<longleftrightarrow> any_failed r \<or> list_ex (\<lambda>x. lr_status x = Fail) rs"
  by (induction rs arbitrary: r) (auto simp: report_add_failed)

lemma report_add_lines:
  "\<not> lp_failed (report_add out res r) \<Longrightarrow> lp_lines (report_add out res r) = lp_lines r @ [result_line res] \<and> \<not> lp_failed r"
  using report_write_lines [of out "result_line res"] by (auto simp: report_add_def)

lemma adds_lines:
  "\<not> lp_failed (fold (report_add out) rs r) \<Longrightarrow>
     lp_lines (fold (report_add out) rs r) = lp_lines r @ map result_line rs \<and> \<not> lp_failed r"
proof (induction rs arbitrary: r)
  case (Cons x rs)
  from Cons.IH [of "report_add out x r"] Cons.prems report_add_lines [of out x r] show ?case by auto
qed simp

definition shape_green :: "live_options \<Rightarrow> shape_run \<Rightarrow> bool" where
  "shape_green opts s \<longleftrightarrow> \<not> sh_cancelled_before s
     \<and> (case sh_end s of
          ShapeDone \<Rightarrow> True
        | ShapeSkips reason \<Rightarrow> \<not> sh_cancelled_after s \<and> \<not> (lo_require_runtime opts \<and> has_prefix (sh_name s) runtime_prefix)
        | ShapeFails reason \<Rightarrow> False)"

lemma with_defaults_require [simp]: "lo_require_runtime (with_defaults opts) = lo_require_runtime opts"
  by (simp add: with_defaults_def Let_def)

lemma shape_result_green: "lr_status (shape_result opts s) \<noteq> Fail \<longleftrightarrow> shape_green opts s"
  by (auto simp: shape_result_def execute_def shape_green_def Let_def split: shape_end.splits)

lemma shape_result_defaults: "shape_result (with_defaults opts) = shape_result opts"
  by (rule ext) (simp add: shape_result_def execute_def Let_def split: shape_end.split)

lemma fold_results: "fold (report_add out \<circ> f) xs r = fold (report_add out) (map f xs) r"
  by (simp add: fold_map)

text \<open>A green run of the harness is complete: exit code zero means that the environment was made and taken down,
  nothing was interrupted, every shape ran and passed or may skip, and the report holds one line per
  shape in their order, the teardown and the summary, none of them lost.\<close>
theorem green_run_is_complete:
  assumes "live_run out opts making shapes closing cancelled = (0, r)"
  shows "making = None \<and> closing = None \<and> \<not> cancelled \<and> list_all (shape_green opts) shapes
    \<and> (\<exists>t. lp_lines r = map (result_line \<circ> shape_result opts) shapes
           @ [result_line \<lparr>lr_shape = ''teardown'', lr_status = Pass, lr_reason = []\<rparr>, summary_line t]
         \<and> lp_counts t Fail = 0)"
proof (cases making)
  case (Some e)
  with assms show ?thesis
    by (auto simp: live_run_def live_finish_def Let_def report_summary_def report_add_failed any_failed_def report_add_def
        split: if_splits)
next
  case None
  let ?ts = "map (shape_result opts) shapes"
  let ?t = "(case closing of Some e \<Rightarrow> \<lparr>lr_shape = ''teardown'', lr_status = Fail, lr_reason = e\<rparr>
      | None \<Rightarrow> \<lparr>lr_shape = ''teardown'', lr_status = Pass, lr_reason = []\<rparr>)"
  let ?r1 = "fold (report_add out) (?ts @ [?t]) new_reporter"
  have run: "live_run out opts making shapes closing cancelled = live_finish out cancelled ?r1"
    using None by (simp add: live_run_def Let_def shape_result_defaults fold_results)
  with assms have "\<not> cancelled" and r: "r = report_summary out ?r1" and ok: "\<not> any_failed r" "\<not> lp_failed r"
    by (auto simp: live_finish_def Let_def split: if_splits)
  have "any_failed r \<longleftrightarrow> any_failed ?r1" by (simp add: r report_summary_def any_failed_def)
  then have good: "list_all (\<lambda>x. lr_status x \<noteq> Fail) (?ts @ [?t])"
    using ok(1) unfolding adds_failed by (auto simp: list_ex_iff list_all_iff)
  then have t: "closing = None" and g: "list_all (shape_green opts) shapes"
    by (auto simp: list_all_iff shape_result_green split: option.splits)
  have "\<not> lp_failed ?r1" using ok(2) r by (simp add: report_summary_def)
  then have "lp_lines ?r1 = map result_line (?ts @ [?t])" using adds_lines [of out "?ts @ [?t]" new_reporter]
    by (simp add: new_reporter_def del: fold_append map_append)
  moreover have "lp_lines r = lp_lines ?r1 @ [summary_line ?r1]"
    using report_write_lines [of out "summary_line ?r1" ?r1] ok(2) by (simp add: r report_summary_def)
  moreover have "lp_counts ?r1 Fail = 0" using ok(1) by (simp add: r report_summary_def any_failed_def)
  ultimately show ?thesis using None \<open>\<not> cancelled\<close> t g by (intro conjI exI [of _ ?r1]) simp_all
qed

theorem green_run_is_complete_witness:
  "list_all (shape_green \<lparr>lo_source = [], lo_binary = [], lo_temp_parent = [], lo_runtime_cli = [], lo_runtime_env = [],
        lo_no_runtime = False, lo_require_runtime = False, lo_attempts = 0, lo_timeout = 0\<rparr>)
     [\<lparr>sh_name = ''mint'', sh_cancelled_before = False, sh_end = ShapeDone, sh_cancelled_after = False\<rparr>,
      \<lparr>sh_name = ''runtime-hook'', sh_cancelled_before = False, sh_end = ShapeSkips ''no runtime'', sh_cancelled_after = False\<rparr>]"
  (is "list_all (shape_green ?o) ?shapes")
proof -
  obtain r where "live_run (\<lambda>_. True) ?o None ?shapes None False = (0, r)"
    by (simp add: live_run_def live_finish_def Let_def report_add_def report_summary_def any_failed_def new_reporter_def
        shape_result_def execute_def)
  from green_run_is_complete [OF this] show ?thesis by blast
qed

end
