(* ===== verification/LiveVerify.thy ===== *)
theory LiveVerify
  imports Keyring Http
begin

text \<open>
  The verifier of the live test harness, \<open>internal/livetest/verify.go\<close>, written apart from the one the mint uses, and
  what its forged token is good for: a token changed as \<open>flipFirst\<close> changes it is refused by both.
\<close>

subsection \<open>Reading a segment\<close>

definition decode_part :: "string \<Rightarrow> json option" where
  "decode_part seg = Option.bind (b64url_decode seg) decode_first"

record live_claims =
  lc_iss :: string
  lc_sub :: string
  lc_act :: "string option"
  lc_roles :: "string list"
  lc_grade :: string
  lc_rt_id :: string
  lc_sid :: string
  lc_spawn :: string
  lc_dir :: string
  lc_iat :: int
  lc_exp :: int
  lc_cia :: int

definition zero_live_claims :: live_claims where
  "zero_live_claims = \<lparr>lc_iss = [], lc_sub = [], lc_act = None, lc_roles = [], lc_grade = [], lc_rt_id = [],
     lc_sid = [], lc_spawn = [], lc_dir = [], lc_iat = 0, lc_exp = 0, lc_cia = 0\<rparr>"

text \<open>A struct with the one string field of the name.\<close>

definition dec_single :: "string \<Rightarrow> string \<Rightarrow> json \<Rightarrow> string option" where
  "dec_single name old v =
     (case v of JNull \<Rightarrow> Some old | JObj ms \<Rightarrow> string_field old name ms | _ \<Rightarrow> None)"

definition dec_live_member ::
    "string \<Rightarrow> json \<Rightarrow> live_claims \<times> string list \<Rightarrow> (live_claims \<times> string list) option" where
  "dec_live_member k v cb =
     (let (c, buf) = cb; f = fold_key k;
          set_str = (\<lambda>old upd. map_option (\<lambda>s. (upd s, buf)) (dec_str old v));
          set_int = (\<lambda>old upd. map_option (\<lambda>i. (upd i, buf)) (dec_int old v))
      in if f = ''iss'' then set_str (lc_iss c) (\<lambda>s. c\<lparr>lc_iss := s\<rparr>)
         else if f = ''sub'' then set_str (lc_sub c) (\<lambda>s. c\<lparr>lc_sub := s\<rparr>)
         else if f = ''act'' then
           (if v = JNull then Some (c\<lparr>lc_act := None\<rparr>, buf)
            else map_option (\<lambda>s. (c\<lparr>lc_act := Some s\<rparr>, buf))
                   (dec_single ''sub'' (case lc_act c of Some s \<Rightarrow> s | None \<Rightarrow> []) v))
         else if f = ''roles'' then map_option (\<lambda>(ss, b). (c\<lparr>lc_roles := ss\<rparr>, b)) (dec_slice buf v)
         else if f = ''grade'' then set_str (lc_grade c) (\<lambda>s. c\<lparr>lc_grade := s\<rparr>)
         else if f = ''rt'' then map_option (\<lambda>s. (c\<lparr>lc_rt_id := s\<rparr>, buf)) (dec_single ''id'' (lc_rt_id c) v)
         else if f = ''sid'' then set_str (lc_sid c) (\<lambda>s. c\<lparr>lc_sid := s\<rparr>)
         else if f = ''spawn'' then set_str (lc_spawn c) (\<lambda>s. c\<lparr>lc_spawn := s\<rparr>)
         else if f = ''dir'' then set_str (lc_dir c) (\<lambda>s. c\<lparr>lc_dir := s\<rparr>)
         else if f = ''iat'' then set_int (lc_iat c) (\<lambda>i. c\<lparr>lc_iat := i\<rparr>)
         else if f = ''exp'' then set_int (lc_exp c) (\<lambda>i. c\<lparr>lc_exp := i\<rparr>)
         else if f = ''cia'' then set_int (lc_cia c) (\<lambda>i. c\<lparr>lc_cia := i\<rparr>)
         else Some (c, buf))"

fun dec_live_members ::
    "(string \<times> json) list \<Rightarrow> live_claims \<times> string list \<Rightarrow> (live_claims \<times> string list) option" where
  "dec_live_members [] cb = Some cb"
| "dec_live_members ((k, v) # ms) cb =
     (case dec_live_member k v cb of None \<Rightarrow> None | Some cb' \<Rightarrow> dec_live_members ms cb')"

definition live_claims_of_json :: "json \<Rightarrow> live_claims option" where
  "live_claims_of_json v =
     (case v of
        JNull \<Rightarrow> Some zero_live_claims
      | JObj ms \<Rightarrow> map_option fst (dec_live_members ms (zero_live_claims, []))
      | _ \<Rightarrow> None)"

subsection \<open>Verifying\<close>

datatype live_refusal =
    NotThreeSegments | HeaderUnreadable | KidNotPublished string | AlgDiffers string string | SignatureNotBase64
  | KeyMalformed | SignatureWrong | AlgUnsupported string | ClaimsUnreadable | ContractNot1 int
  | LiveExpired | LiveFuture

definition live_signature :: "crypto \<Rightarrow> jwk \<Rightarrow> string \<Rightarrow> string \<Rightarrow> live_refusal option" where
  "live_signature cr k input sig =
     (if jwk_alg k = ''EdDSA'' then
        (case b64url_decode (jwk_x k) of
           None \<Rightarrow> Some KeyMalformed
         | Some x \<Rightarrow> if length x \<noteq> 32 then Some KeyMalformed
                    else if \<not> ed25519_verify cr x input sig then Some SignatureWrong else None)
      else if jwk_alg k = ''ES256'' then
        (case (b64url_decode (jwk_x k), b64url_decode (jwk_y k)) of
           (Some x, Some y) \<Rightarrow>
             if length sig \<noteq> 64 then Some KeyMalformed
             else if \<not> (p256_on_curve cr (bytes_nat x) (bytes_nat y)
                        \<and> ecdsa_verify cr (bytes_nat x) (bytes_nat y) (sha256 cr input)
                            (bytes_nat (take 32 sig)) (bytes_nat (drop 32 sig))) then Some SignatureWrong
             else None
         | _ \<Rightarrow> Some KeyMalformed)
      else Some (AlgUnsupported (jwk_alg k)))"

text \<open>The last key of the set that has the id.\<close>

fun live_key :: "jwk list \<Rightarrow> string \<Rightarrow> jwk option \<Rightarrow> jwk option" where
  "live_key [] kid found = found"
| "live_key (k # ks) kid found = live_key ks kid (if jwk_kid k = kid then Some k else found)"

definition live_dates :: "int \<Rightarrow> live_claims \<Rightarrow> live_refusal + live_claims" where
  "live_dates now c =
     (if lc_cia c \<noteq> 1 then Inl (ContractNot1 (lc_cia c))
      else if lc_exp c \<le> now then Inl LiveExpired
      else if lc_iat c > now + 60 then Inl LiveFuture
      else Inr c)"

definition live_verify :: "crypto \<Rightarrow> string \<Rightarrow> jwk list \<Rightarrow> int \<Rightarrow> live_refusal + live_claims" where
  "live_verify cr token keys now =
     (case split_on CHR ''.'' (trim_space token) of
        [p0, p1, p2] \<Rightarrow>
          (case bind_opt (decode_part p0) header_of_json of
             None \<Rightarrow> Inl HeaderUnreadable
           | Some (alg, kid) \<Rightarrow>
               (case live_key keys kid None of
                  None \<Rightarrow> Inl (KidNotPublished kid)
                | Some key \<Rightarrow>
                    if jwk_alg key \<noteq> alg then Inl (AlgDiffers alg (jwk_alg key))
                    else (case b64url_decode p2 of
                            None \<Rightarrow> Inl SignatureNotBase64
                          | Some sig \<Rightarrow>
                              (case live_signature cr key (p0 @ ''.'' @ p1) sig of
                                 Some e \<Rightarrow> Inl e
                               | None \<Rightarrow>
                                   (case bind_opt (decode_part p1) live_claims_of_json of
                                      None \<Rightarrow> Inl ClaimsUnreadable
                                    | Some c \<Rightarrow> live_dates now c)))))
      | _ \<Rightarrow> Inl NotThreeSegments)"

text \<open>\<open>flipFirst\<close>, which panics on an empty segment.\<close>

definition flip_first :: "string \<Rightarrow> string option" where
  "flip_first seg = (case seg of [] \<Rightarrow> None | c # r \<Rightarrow> Some ((if c = CHR ''e'' then CHR ''f'' else CHR ''e'') # r))"

subsection \<open>The forged token\<close>

lemma json_parse_head:
  "json_parse (c # r) = Some (JObj m) \<Longrightarrow> c \<in> {CHR 0x7B, CHR 0x20, CHR 0x09, CHR 0x0A, CHR 0x0D}"
proof (rule ccontr)
  assume p: "json_parse (c # r) = Some (JObj m)" and n: "c \<notin> {CHR 0x7B, CHR 0x20, CHR 0x09, CHR 0x0A, CHR 0x0D}"
  then obtain t s ts where t: "token_at (c # r) = Some (t, s)" "parse_tokens (t # ts) = Some (JObj m)"
    by (auto simp: json_parse_def tokens.simps(2) json_space_def split: option.splits)
  from t(1) n have "t \<noteq> TLBrace"
    by (auto simp: token_at_def punct_def split: option.splits if_splits)
  with t(2) show False
    by (auto simp: parse_tokens_def scalar_def split: if_splits option.splits list.splits token.splits prod.splits)
qed

lemma json_parse_bad_head: "code c \<in> {0x78, 0x79, 0x7A, 0x7F} \<Longrightarrow> json_parse (c # r) = None"
proof -
  assume c: "code c \<in> {0x78, 0x79, 0x7A, 0x7F}"
  have "code CHR 0x78 = 0x78" "code CHR 0x79 = 0x79" "code CHR 0x7A = 0x7A" "code CHR 0x7F = 0x7F" by (simp_all add: code_def)
  with c have "c \<in> {CHR 0x78, CHR 0x79, CHR 0x7A, CHR 0x7F}" by (auto simp: code_eq_iff [symmetric])
  then consider "c = CHR 0x78" | "c = CHR 0x79" | "c = CHR 0x7A" | "c = CHR 0x7F" by blast
  then have "token_at (c # r) = None" "\<not> json_space c"
    by (cases; simp add: token_at_def punct_def json_space_def scan_number_def char_class_defs has_prefix_def)+
  then show ?thesis by (simp add: json_parse_def tokens.simps(2))
qed


lemma dec_sextets_head:
  "dec_sextets (a # vs) = Some bs \<Longrightarrow> \<exists>b ws bs'. vs = b # ws \<and> bs = (a * 4 + b div 16) # bs'"
  by (induction "a # vs" arbitrary: bs rule: dec_sextets.induct) auto

lemma b64_val_e: "b64_val c = Some 30 \<longleftrightarrow> c = CHR ''e''"
proof
  assume "b64_val c = Some 30"
  then have "code c = code CHR ''e''" by (auto simp: b64_val_def char_class_defs split: if_splits)
  then show "c = CHR ''e''" by (simp add: code_eq_iff)
qed (simp add: b64_val_def char_class_defs)

lemma b64_val_less: "b64_val c = Some n \<Longrightarrow> n < 64"
  by (auto simp: b64_val_def char_class_defs split: if_splits)

text \<open>The first character decides the first byte, with the top of the second.\<close>

lemma b64url_decode_head:
  assumes "b64url_decode s = Some (x # raw)"
  obtains c d v w where "take 2 (filter (\<lambda>c. c \<noteq> CHR 0x0A \<and> c \<noteq> CHR 0x0D) s) = [c, d]" "b64_val c = Some v"
    "b64_val d = Some w" "code x = v * 4 + w div 16" "v < 64" "w < 64"
proof -
  let ?cs = "filter (\<lambda>c. c \<noteq> CHR 0x0A \<and> c \<noteq> CHR 0x0D) s"
  from assms have ok: "None \<notin> set (map b64_val ?cs)"
    and d: "map_option (map char_of) (dec_sextets (map the (map b64_val ?cs))) = Some (x # raw)"
    by (auto simp: b64url_decode_def Let_def split: if_splits)
  from d obtain bs where bs: "dec_sextets (map the (map b64_val ?cs)) = Some bs" "map char_of bs = x # raw" by auto
  then obtain c cs where c: "?cs = c # cs" by (cases ?cs) auto
  from bs(1) c have "dec_sextets (the (b64_val c) # map (the \<circ> b64_val) cs) = Some bs" by simp
  from dec_sextets_head [OF this]
  obtain b ws bs' where b: "map (the \<circ> b64_val) cs = b # ws" "bs = (the (b64_val c) * 4 + b div 16) # bs'" by auto
  then obtain d ds where cs: "cs = d # ds" "b = the (b64_val d)" by (cases cs) auto
  from ok c cs obtain v w where v: "b64_val c = Some v" "b64_val d = Some w" by (cases "b64_val c"; cases "b64_val d") auto
  then have less: "v < 64" "w < 64" by (auto dest: b64_val_less)
  then have "v * 4 + w div 16 < 256" by simp
  then have "code x = v * 4 + w div 16" using bs(2) b(2) v cs by (auto simp: code_def)
  with c cs v less that show thesis by simp
qed

lemma decode_object_head:
  assumes "decode_object seg = Some m"
  obtains x raw where "b64url_decode seg = Some (x # raw)" "code x \<in> {123, 32, 9, 10, 13}"
proof -
  from assms obtain raw where r: "b64url_decode seg = Some raw" "json_parse raw = Some (JObj m)"
    by (auto simp: decode_object_def split: option.splits json.splits)
  then obtain x raw' where "raw = x # raw'"
    by (cases raw) (auto simp: json_parse_def parse_tokens_def)
  with r json_parse_head [of x raw' m] that show thesis by (auto simp: code_def)
qed

lemma object_head_sextets:
  assumes "v * 4 + w div 16 \<in> {123, 32, 9, 10, 13}" and "w < (64 :: nat)"
  shows "v = 30 \<and> w div 16 = 3 \<or> v < 30 \<and> v div 16 < 3 \<and> w div 16 < 3"
proof -
  from assms(2) have "v = (v * 4 + w div 16) div 4" "w div 16 = (v * 4 + w div 16) mod 4" by simp_all
  with assms(1) show ?thesis by (elim insertE) simp_all
qed

lemma bad_byte: "(q :: nat) < 3 \<Longrightarrow> 30 * 4 + q \<in> {0x78, 0x79, 0x7A, 0x7F}"
  by auto

lemma flipped_head:
  assumes "decode_object seg = Some m" and "flip_first seg = Some seg'" and "b64url_decode seg' = Some (y # ys)"
  shows "code y \<in> {0x78, 0x79, 0x7A, 0x7F}"
proof -
  let ?nl = "\<lambda>c. c \<noteq> CHR 0x0A \<and> c \<noteq> CHR 0x0D"
  have e: "b64_val CHR ''e'' = Some 30" "b64_val CHR ''f'' = Some 31" by (simp_all add: b64_val_def char_class_defs)
  from assms(1) obtain x raw where x: "b64url_decode seg = Some (x # raw)" "code x \<in> {123, 32, 9, 10, 13}"
    by (rule decode_object_head)
  from b64url_decode_head [OF x(1)] obtain c d v w where h: "take 2 (filter ?nl seg) = [c, d]" "b64_val c = Some v"
    "b64_val d = Some w" "code x = v * 4 + w div 16" "v < 64" "w < 64" .
  from b64url_decode_head [OF assms(3)] obtain c' d' v' w' where h': "take 2 (filter ?nl seg') = [c', d']"
    "b64_val c' = Some v'" "b64_val d' = Some w'" "code y = v' * 4 + w' div 16" "v' < 64" "w' < 64" .
  have vw: "v = 30 \<and> w div 16 = 3 \<or> v < 30 \<and> v div 16 < 3 \<and> w div 16 < 3"
    by (rule object_head_sextets [OF x(2) [unfolded h(4)] h(6)])
  from assms(2) obtain s r where s: "seg = s # r" "seg' = (if s = CHR ''e'' then CHR ''f'' else CHR ''e'') # r"
    by (cases seg) (auto simp: flip_first_def)
  show ?thesis
  proof (cases "?nl s")
    case True
    then have f: "filter ?nl seg = s # filter ?nl r"
      "filter ?nl seg' = (if s = CHR ''e'' then CHR ''f'' else CHR ''e'') # filter ?nl r" by (simp_all add: s)
    from h(1) h'(1) have c: "c = s" "d' = d" "c' = (if s = CHR ''e'' then CHR ''f'' else CHR ''e'')"
      unfolding f by (cases "filter ?nl r"; simp)+
    show ?thesis
    proof (cases "s = CHR ''e''")
      case True
      then have "v = 30" "v' = 31" "w' = w" using h(2,3) h'(2,3) c e by simp_all
      with vw have "w' div 16 = 3" by simp
      then show ?thesis unfolding h'(4) \<open>v' = 31\<close> by simp
    next
      case False
      then have "v \<noteq> 30" "v' = 30" "w' = w" using h(2,3) h'(2,3) c e b64_val_e [of s] by auto
      with vw have "w' div 16 < 3" by simp
      then show ?thesis unfolding h'(4) \<open>v' = 30\<close> by (rule bad_byte)
    qed
  next
    case False
    then have "s \<noteq> CHR ''e''" by auto
    with False have f: "filter ?nl seg = filter ?nl r" "filter ?nl seg' = CHR ''e'' # filter ?nl r" by (simp_all add: s)
    from h(1) h'(1) have "c' = CHR ''e''" "d' = c" unfolding f by (cases "filter ?nl r"; simp)+
    then have "v' = 30" "w' = v" using h(2) h'(2,3) e by simp_all
    with vw have "w' div 16 < 3" by auto
    then show ?thesis unfolding h'(4) \<open>v' = 30\<close> by (rule bad_byte)
  qed
qed

lemma flipped_not_json:
  assumes "decode_object seg = Some m" and "flip_first seg = Some seg'"
  shows "decode_object seg' = None"
proof (cases "b64url_decode seg'")
  case (Some raw)
  with flipped_head [OF assms] show ?thesis
    by (cases raw) (auto simp: decode_object_def json_parse_bad_head json_parse_def [of "[]"] parse_tokens_def)
qed (simp add: decode_object_def)

subsection \<open>The issuer's assertions\<close>

lemma decode_part_encode: "writable c \<Longrightarrow> decode_part (b64url_encode (json_encode (JObj c))) = Some (JObj c)"
  by (simp add: writable_def decode_part_def b64url_roundtrip decode_first_object json_parse_encode del: json_encode.simps)

lemma live_signature_agrees:
  "verify_signature cr k (jwk_alg k) input sig \<Longrightarrow> live_signature cr k input sig = None"
  by (auto simp: verify_signature_def live_signature_def split: if_splits option.splits)

definition live_view :: "claims \<Rightarrow> live_claims" where
  "live_view c = \<lparr>lc_iss = cl_iss c, lc_sub = cl_sub c, lc_act = map_option actor_sub (cl_act c), lc_roles = cl_roles c,
     lc_grade = cl_grade c, lc_rt_id = rt_id (cl_rt c), lc_sid = cl_sid c, lc_spawn = cl_spawn c, lc_dir = cl_dir c,
     lc_iat = cl_iat c, lc_exp = cl_exp c, lc_cia = cl_cia c\<rparr>"

lemma dec_single_actor: "dec_single ''sub'' [] (actor_json a) = Some (actor_sub a)"
  by (cases a rule: actor_json.cases) (simp_all add: dec_single_def string_field_def field_values_def)

lemma dec_live_member_simps [simp]:
  "dec_live_member ''iss'' (JStr x) (c, b) = Some (c\<lparr>lc_iss := x\<rparr>, b)"
  "dec_live_member ''sub'' (JStr x) (c, b) = Some (c\<lparr>lc_sub := x\<rparr>, b)"
  "dec_live_member ''grade'' (JStr x) (c, b) = Some (c\<lparr>lc_grade := x\<rparr>, b)"
  "dec_live_member ''sid'' (JStr x) (c, b) = Some (c\<lparr>lc_sid := x\<rparr>, b)"
  "dec_live_member ''spawn'' (JStr x) (c, b) = Some (c\<lparr>lc_spawn := x\<rparr>, b)"
  "dec_live_member ''dir'' (JStr x) (c, b) = Some (c\<lparr>lc_dir := x\<rparr>, b)"
  "dec_live_member ''origin'' v (c, b) = Some (c, b)"
  "dec_live_member ''jti'' v (c, b) = Some (c, b)"
  "int64_range i \<Longrightarrow> dec_live_member ''iat'' (JNum (show_int i)) (c, b) = Some (c\<lparr>lc_iat := i\<rparr>, b)"
  "int64_range i \<Longrightarrow> dec_live_member ''exp'' (JNum (show_int i)) (c, b) = Some (c\<lparr>lc_exp := i\<rparr>, b)"
  "int64_range i \<Longrightarrow> dec_live_member ''cia'' (JNum (show_int i)) (c, b) = Some (c\<lparr>lc_cia := i\<rparr>, b)"
  "dec_live_member ''roles'' (JArr (map JStr rs)) (c, []) = Some (c\<lparr>lc_roles := rs\<rparr>, rs)"
  "dec_live_member ''rt'' (JObj [(''id'', JStr x), (''version'', JStr y)]) (c, b) = Some (c\<lparr>lc_rt_id := x\<rparr>, b)"
  by (simp_all add: dec_live_member_def Let_def dec_str_def dec_int_def parse_show_int dec_slice_map
      dec_single_def string_field_def field_values_def)

lemma dec_live_member_act [simp]:
  "lc_act c = None \<Longrightarrow> dec_live_member ''act'' (actor_json a) (c, b) = Some (c\<lparr>lc_act := Some (actor_sub a)\<rparr>, b)"
  using dec_single_actor [of a] actor_json_obj [of a] by (auto simp: dec_live_member_def Let_def)

lemma live_claims_read:
  assumes "dates_in_range c"
  shows "live_claims_of_json (JObj (claims_members c)) = Some (live_view c)"
proof -
  have r: "int64_range (cl_iat c)" "int64_range (cl_exp c)" "int64_range (cl_cia c)"
    using assms by (auto simp: dates_in_range_def)
  show ?thesis
    by (cases "cl_act c"; cases "cl_spawn c = []")
      (simp_all add: live_claims_of_json_def claims_members_def zero_live_claims_def live_view_def r)
qed

text \<open>The harness's verifier accepts what a loaded key ring signs, and reads the claims that were signed, for as long
  as the assertion is in force and its contract version is 1; a version 2 assertion it refuses, though the mint
  accepts it.\<close>
theorem live_verify_signed:
  assumes "load_keyring cr lib w files path want = Inr k"
    and "\<And>der key. kl_pkcs8 lib der = Some key \<Longrightarrow> lawful_key cr key"
    and "sign_claims k c = Some token"
    and "writable (header_members k)" and "writable (claims_members c)" and "dates_in_range c"
  shows "live_verify cr token (jwks_of (kr_public k)) now = live_dates now (live_view c)"
proof -
  have one: "kr_public k = [kr_current k]"
    using assms(1) by (cases rule: load_keyring_Inr) (simp_all add: ring_of_def)
  have signs: "verify_signature cr (pk_jwk (kr_current k)) (jwk_alg (pk_jwk (kr_current k))) m sg"
    if "kr_sign k m = Some sg" for m sg
    using assms(1)
  proof (cases rule: load_keyring_Inr)
    case (ed pub sign der)
    from ring_signs(1) [OF assms(2) [OF ed(1)], where cur = "kr_current k"] that show ?thesis
      unfolding ed(2) ring_of_def by auto
  next
    case (ec px py sign der)
    from ring_signs(1) [OF assms(2) [OF ec(1)], where cur = "kr_current k"] that show ?thesis
      unfolding ec(2) ring_of_def by auto
  qed
  from assms(3) obtain sig where sig: "kr_sign k (signing_input k c) = Some sig"
    "token = compact (header_members k) (claims_members c) sig" by (auto simp: signed_compact)
  then show ?thesis
    using live_signature_agrees [OF signs [OF sig(1)]] live_claims_read [OF assms(6)] assms(4,5)
    by (simp add: live_verify_def compact_trim split_compact decode_part_encode header_read b64url_roundtrip bind_opt_def one
        signing_input_def del: json_encode.simps)
qed

text \<open>C40: A tampered assertion is refused, whatever the keys and the time: the forged token of the harness, an accepted one
  with the first character of its payload changed, is malformed even before its signature is looked at.\<close>
theorem tampered_assertion_refused:
  assumes "verify_assertion cr src p token = Accepted c" and "split_on CHR ''.'' token = [p0, p1, p2]"
    and "flip_first p1 = Some p1'"
  shows "verify_assertion cr' src' p' (p0 @ ''.'' @ p1' @ ''.'' @ p2) = Refused CodeMalformed"
proof -
  from assms(1,2) obtain m where "decode_object p1 = Some m"
    by (auto simp: verify_assertion_def split: option.splits)
  from flipped_not_json [OF this assms(3)] have "decode_object p1' = None" .
  moreover have "CHR ''.'' \<notin> set p0" "CHR ''.'' \<notin> set p1" "CHR ''.'' \<notin> set p2"
    using split_on_no_sep [of _ "CHR ''.''" token] assms(2) by auto
  then have "split_on CHR ''.'' (p0 @ ''.'' @ p1' @ ''.'' @ p2) = [p0, p1', p2]"
    using assms(3) by (auto simp: flip_first_def split_on_append_sep split_on_free split: list.splits if_splits)
  ultimately show ?thesis by (simp add: verify_assertion_def split: option.splits)
qed

theorem tampered_assertion_refused_witness:
  "\<exists>p0 p1 p2 p1'. split_on CHR ''.'' sample_token = [p0, p1, p2] \<and> flip_first p1 = Some p1'
    \<and> verify_assertion sample_crypto sample_source sample_params (p0 @ ''.'' @ p1' @ ''.'' @ p2) = Refused CodeMalformed"
proof -
  let ?p1 = "b64url_encode (json_encode (JObj sample_claims))"
  have s: "split_on CHR ''.'' sample_token = [b64url_encode (json_encode (JObj sample_header)), ?p1, b64url_encode ''signed'']"
    unfolding sample_token_def by (rule split_compact)
  have "?p1 \<noteq> []" using b64url_roundtrip [of "json_encode (JObj sample_claims)"] by (auto simp: b64url_decode_def)
  then obtain p1' where f: "flip_first ?p1 = Some p1'" by (cases ?p1) (auto simp: flip_first_def)
  from tampered_assertion_refused [OF sample_accepted s f] s f show ?thesis by blast
qed

end
