(* ===== verification/LiveChecks.thy ===== *)
theory LiveChecks
  imports LiveVerify LiveTest MintCommand ClaudeHook "HOL-Library.Multiset" "HOL-Library.List_Lexorder"
begin

text \<open>
  What the shapes of the live test harness ask of the program and accept as its answer: the forms of \<open>mint\<close> that
  callers use and what their output must be (\<open>shapes_callers_linux.go\<close>), the commands the hook leaves alone or
  rewrites and the form of a rewrite (\<open>shapes_hook_linux.go\<close>), the issued assertion (\<open>shapes_issuer_linux.go\<close>),
  the attempts of a runtime shape and the report of a runtime (\<open>shapes_runtime_linux.go\<close>), and the stub of the git
  host and the secret store (\<open>fixture_linux.go\<close>). Running the processes is not modelled: their results are input, and a fault has a name in place of its text.
\<close>

subsection \<open>The forms of the mint command\<close>

definition caller_repo :: string where "caller_repo = ''example/example-repo''"

datatype broker_kind = BrokerUnset | BrokerEnv | BrokerFile | BrokerOpenBao

record caller_form =
  cf_id :: string
  cf_role :: string
  cf_repo :: string
  cf_json :: bool
  cf_no_config :: bool
  cf_broker :: broker_kind
  cf_refused :: bool

definition caller_argv :: "caller_form \<Rightarrow> string \<Rightarrow> string list" where
  "caller_argv f cfg_path =
     [''mint'', ''--role'', cf_role f]
     @ (if cf_repo f \<noteq> [] then [''--repo'', cf_repo f] else [])
     @ (if \<not> cf_no_config f then [''--config'', cfg_path] else [])
     @ (if cf_json f then [''--json''] else [])"

definition def_lead :: string where "def_lead = ''example-lead''"
definition def_builder :: string where "def_builder = ''example-builder''"
definition def_ops :: string where "def_ops = ''example-ops''"

definition definition_for :: "string \<Rightarrow> string" where
  "definition_for role =
     (if role = ''reviewer'' then def_lead
      else if role \<in> {''merger'', ''security'', ''reader''} then def_ops
      else def_builder)"

definition plain_form :: "string \<Rightarrow> string \<Rightarrow> caller_form" where
  "plain_form i role = \<lparr>cf_id = i, cf_role = role, cf_repo = [], cf_json = False, cf_no_config = False,
     cf_broker = BrokerUnset, cf_refused = False\<rparr>"

definition exec_form :: "string \<Rightarrow> string \<Rightarrow> caller_form" where
  "exec_form i role = (plain_form i role)\<lparr>cf_repo := caller_repo, cf_broker := BrokerOpenBao\<rparr>"

definition caller_forms :: "caller_form list" where
  "caller_forms =
     [plain_form ''token-helper-push'' ''builder'',
      (plain_form ''token-helper-push-structured'' ''builder'')\<lparr>cf_json := True\<rparr>,
      plain_form ''token-helper-review'' ''reviewer'',
      plain_form ''token-helper-merge'' ''merger'',
      plain_form ''token-helper-close-pr'' ''merger'',
      plain_form ''token-helper-post-merge'' ''merger'',
      (plain_form ''token-helper-git-host-api'' ''reader'')\<lparr>cf_no_config := True\<rparr>,
      plain_form ''token-helper-acquire'' ''reader'',
      (plain_form ''token-helper-health-probe'' ''example-probe'')\<lparr>cf_refused := True\<rparr>,
      exec_form ''direct-exec-builder'' ''builder'',
      exec_form ''direct-exec-reviewer'' ''reviewer'',
      exec_form ''direct-exec-merger'' ''merger'',
      exec_form ''direct-exec-security'' ''security'',
      exec_form ''direct-exec-reader'' ''reader'',
      exec_form ''direct-exec-security-pr-reader'' ''security'']"

definition config_name :: "bool \<Rightarrow> string" where
  "config_name assertion = (if assertion then ''assertion'' else ''no-assertion'')"

definition caller_shape_names :: "string list" where
  "caller_shape_names =
     concat (map (\<lambda>f. map (\<lambda>a. ''mint-caller/'' @ cf_id f @ ''/'' @ config_name a) [False, True]) caller_forms)
     @ concat (map (\<lambda>a. map (\<lambda>m. ''mint-caller/daemon-no-identity-os-user-'' @ m @ ''/'' @ config_name a)
         [''default'', ''explicit-false'', ''explicit-true'']) [False, True])"

subsection \<open>What a mint must have done\<close>

record proc_result =
  pr_stdout :: string
  pr_stderr :: string
  pr_code :: int

text \<open>What reached the stub.\<close>

record stub_log =
  sl_exchanges :: "string list"
  sl_logins :: nat
  sl_reads :: nat

datatype check_fault =
    NotRefused | WrongReason | ReachedStore nat nat nat | ExitNotZero int | StdoutNotBare | StdoutNotJson
  | MembersWrong | NoExpiry | MembersExtra | IdentityWrong | StderrNotEmpty | AuditLacks string
  | RequestCount nat | ScopeWrong | NoLogin | NoWarning | AuditedAsAssertion

definition mint_token_text :: string where "mint_token_text = ''ghs_livetest_token''"

definition check_refused :: "proc_result \<Rightarrow> stub_log \<Rightarrow> string \<Rightarrow> check_fault option" where
  "check_refused res log want =
     (if pr_code res = 0 \<or> pr_stdout res \<noteq> [] then Some NotRefused
      else if pr_stderr res = [] \<or> \<not> contains (pr_stderr res) want then Some WrongReason
      else if sl_exchanges log \<noteq> [] \<or> sl_logins log \<noteq> 0 \<or> sl_reads log \<noteq> 0
        then Some (ReachedStore (length (sl_exchanges log)) (sl_logins log) (sl_reads log))
      else None)"

definition members_of :: "json \<Rightarrow> (string \<times> json) list" where
  "members_of v = (case v of JObj ms \<Rightarrow> ms | _ \<Rightarrow> [])"

text \<open>The JSON output, unmarshalled into a map; \<open>null\<close> makes an empty one.\<close>

definition check_minted_json :: "(string \<times> json) list \<Rightarrow> bool \<Rightarrow> string \<Rightarrow> check_fault option" where
  "check_minted_json raw assertion def =
     (if lookup ''token'' raw \<noteq> Some (JStr mint_token_text) \<or> lookup ''app_slug'' raw \<noteq> Some (JStr ''example-app'')
        then Some MembersWrong
      else if str_of (lookup ''expires_at'' raw) = [] then Some NoExpiry
      else (let has = (case lookup ''identity'' raw of Some (JObj ms) \<Rightarrow> True | _ \<Rightarrow> False);
                i = (case lookup ''identity'' raw of Some (JObj ms) \<Rightarrow> ms | _ \<Rightarrow> [])
            in if \<not> assertion \<and> (has \<or> length (remdups (map fst raw)) \<noteq> 3) then Some MembersExtra
               else if assertion \<and> (lookup ''subject'' i \<noteq> Some (JStr (''agent:'' @ def))
                   \<or> lookup ''source'' i \<noteq> Some (JStr ''assertion'') \<or> lookup ''grade'' i \<noteq> Some (JStr ''workload''))
                 then Some IdentityWrong
               else None))"

fun audit_lacks :: "string list \<Rightarrow> string \<Rightarrow> check_fault option" where
  "audit_lacks [] err = None"
| "audit_lacks (w # ws) err = (if contains err w then audit_lacks ws err else Some (AuditLacks w))"

definition check_minted :: "caller_form \<Rightarrow> proc_result \<Rightarrow> bool \<Rightarrow> string \<Rightarrow> check_fault option" where
  "check_minted f res assertion def =
     (if pr_code res \<noteq> 0 then Some (ExitNotZero (pr_code res))
      else case (if \<not> cf_json f then
                   (if pr_stdout res \<noteq> mint_token_text @ [CHR 0x0A] then Some StdoutNotBare else None)
                 else (case json_parse (pr_stdout res) of
                         Some (JObj raw) \<Rightarrow> check_minted_json raw assertion def
                       | Some JNull \<Rightarrow> check_minted_json [] assertion def
                       | _ \<Rightarrow> Some StdoutNotJson)) of
             Some e \<Rightarrow> Some e
           | None \<Rightarrow>
               if \<not> assertion then (if pr_stderr res \<noteq> [] then Some StderrNotEmpty else None)
               else audit_lacks [''mint audit:'', ''permitted=true'', ''grade='' @ CHR 0x22 # ''workload'' @ [CHR 0x22],
                      ''agent:'' @ def] (pr_stderr res))"

definition check_scope :: "caller_form \<Rightarrow> stub_log \<Rightarrow> check_fault option" where
  "check_scope f log =
     (case sl_exchanges log of
        [body] \<Rightarrow>
          (if (cf_repo f \<noteq> []) \<noteq> contains body (quoted ''repositories'' @ '':['' @ quoted ''example-repo'' @ '']'') then Some ScopeWrong
           else if cf_broker f = BrokerOpenBao \<and> sl_logins log = 0 then Some NoLogin
           else None)
      | bodies \<Rightarrow> Some (RequestCount (length bodies)))"

text \<open>\<open>shapeCaller\<close> once the command has run.\<close>

definition caller_verdict :: "caller_form \<Rightarrow> bool \<Rightarrow> proc_result \<Rightarrow> stub_log \<Rightarrow> check_fault option" where
  "caller_verdict f assertion res log =
     (if cf_refused f then check_refused res log []
      else case check_minted f res assertion (definition_for (cf_role f)) of
             Some e \<Rightarrow> Some e
           | None \<Rightarrow> check_scope f log)"

datatype os_user_mode = OsUserDefault | OsUserOff | OsUserOn

definition no_identity_verdict :: "os_user_mode \<Rightarrow> proc_result \<Rightarrow> stub_log \<Rightarrow> check_fault option" where
  "no_identity_verdict mode res log =
     (if mode \<noteq> OsUserOn then check_refused res log ''resolve attested identity''
      else if pr_code res \<noteq> 0 \<or> pr_stdout res \<noteq> mint_token_text @ [CHR 0x0A] then Some (ExitNotZero (pr_code res))
      else if \<not> contains (pr_stderr res) ''warning'' \<or> \<not> contains (pr_stderr res) ''deprecated OS-user provider'' then Some NoWarning
      else if contains (pr_stderr res) ''mint audit:'' then Some AuditedAsAssertion
      else None)"

subsection \<open>The program answers the forms as the harness expects\<close>

lemma mint_flag_kinds:
  "mint_flags ''role'' = Some StringFlag" "mint_flags ''repo'' = Some StringFlag" "mint_flags ''config'' = Some StringFlag"
  "mint_flags ''json'' = Some BoolFlag"
  by (simp_all add: mint_flags_def strings_set_def)

lemma mint_flag_tokens:
  "flag_token ''--role'' = FlagToken ''role'' None" "flag_token ''--repo'' = FlagToken ''repo'' None"
  "flag_token ''--config'' = FlagToken ''config'' None" "flag_token ''--json'' = FlagToken ''json'' None"
  by code_simp+

text \<open>The arguments of every form, whatever its role, repository and configuration path, are read by \<open>mint\<close> as meant.\<close>
theorem caller_argv_understood:
  "\<exists>vals. parse_flags rd mint_flags (tl (caller_argv f cfg_path)) = Inr (vals, [])
    \<and> string_value vals ''role'' [] = cf_role f \<and> string_value vals ''repo'' [] = cf_repo f
    \<and> string_value vals ''config'' ''config.yaml'' = (if cf_no_config f then ''config.yaml'' else cfg_path)
    \<and> bool_value vals ''json'' = cf_json f"
proof -
  have b: "parse_bool ''true'' = Some True" by (simp add: parse_bool_def)
  show ?thesis
    by (cases "cf_repo f = []"; cases "cf_no_config f"; cases "cf_json f")
      (simp_all add: caller_argv_def parse_flags.simps(2) mint_flag_tokens mint_flag_kinds valid_value_def b
        string_value_def bool_value_def last_value_def)
qed

lemma caller_shape_names_distinct: "distinct caller_shape_names"
  by code_simp

lemma text_names:
  "utf8_valid ''token''" "utf8_valid ''expires_at''" "utf8_valid ''app_slug''" "utf8_valid ''identity''" "utf8_valid ''subject''"
  "utf8_valid ''source''" "utf8_valid ''grade''" "utf8_valid ''assertion''" "utf8_valid ''workload''" "utf8_valid mint_token_text"
  "utf8_valid ''example-app''"
  by (rule utf8_ascii; simp add: code_def mint_token_text_def)+

text \<open>What the stub's token prints, bare or as JSON, passes the check, with the members and the identity a deployment
  with an assertion configured must print and without them in one that has none.\<close>
theorem printed_mint_passes:
  assumes "tok_value tok = mint_token_text" and "tok_app_slug tok = ''example-app''"
    and "mw_format_time w (tok_expires tok) \<noteq> []" and "utf8_valid (mw_format_time w (tok_expires tok))"
    and "id_subject i = ''agent:'' @ def" and "utf8_valid (''agent:'' @ def)" and "id_source i = ''assertion''"
    and "id_grade i = ''workload''"
    and "pr_code res = 0" and "pr_stdout res = mint_output w (cf_json f) asserting tok i"
    and "if asserting then audit_lacks [''mint audit:'', ''permitted=true'', ''grade='' @ CHR 0x22 # ''workload'' @ [CHR 0x22],
           ''agent:'' @ def] (pr_stderr res) = None else pr_stderr res = []"
  shows "check_minted f res asserting def = None"
proof (cases "cf_json f")
  case False
  with assms show ?thesis by (simp add: check_minted_def mint_output_def split: if_splits)
next
  case True
  let ?raw = "[(''token'', JStr mint_token_text), (''expires_at'', JStr (mw_format_time w (tok_expires tok))),
      (''app_slug'', JStr ''example-app'')] @ (if asserting then [(''identity'', mint_identity_json i)] else [])"
  have e: "encodable (JObj ?raw)" "fits 0 (JObj ?raw)"
    using assms text_names by (auto simp: mint_identity_json_def max_depth_def)
  have "tokens [CHR 0x0A] = Some []" by (simp add: tokens.simps(2) json_space_def)
  from json_parse_object_then [OF e this] have "json_parse (pr_stdout res) = Some (JObj ?raw)"
    using True assms(1,2) by (simp add: assms(10) mint_output_def del: json_encode.simps)
  moreover have "check_minted_json ?raw asserting def = None"
    using assms by (simp add: check_minted_json_def lookup.simps str_of_def as_str_def mint_identity_json_def Let_def)
  ultimately show ?thesis using True assms(9,11) by (simp add: check_minted_def split: if_splits del: audit_lacks.simps)
qed

text \<open>A form with a repository asks the git host for that repository alone.\<close>
theorem caller_repo_scopes:
  assumes "requested_repos (cf_repo f) = Inr repos" and "cf_repo f = caller_repo"
    and "sl_exchanges log = [json_encode (access_token_request perms repos)]" and "cf_broker f = BrokerOpenBao \<Longrightarrow> 0 < sl_logins log"
  shows "check_scope f log = None"
proof -
  have "requested_repos caller_repo = Inr [''example-repo'']" by code_simp
  with assms(1,2) have r: "repos = [''example-repo'']" by simp
  have q: "enc_string ''repositories'' = quoted ''repositories''" "enc_string ''example-repo'' = quoted ''example-repo''"
    by code_simp+
  have "contains (json_encode (access_token_request perms repos)) (quoted ''repositories'' @ '':['' @ quoted ''example-repo'' @ '']'')"
    unfolding contains_iff by (auto simp: access_token_request_def r q) (metis append_Cons append_Nil append_assoc)+
  moreover have "cf_repo f \<noteq> []" by (simp add: assms(2) caller_repo_def)
  ultimately show ?thesis using assms(3,4) by (simp add: check_scope_def)
qed

subsection \<open>What the hook must answer\<close>

definition read_only_commands :: "string list" where
  "read_only_commands =
     [''date'', ''pwd'', ''ls -la'', ''cat README.md'', ''head -n 5 README.md'', ''wc -l README.md'', ''echo hello'', ''ls | wc -l'',
      ''grep -rn '' @ CHR 0x27 # ''foo$'' @ CHR 0x27 # '' . 2>/dev/null'']"

definition mixed_commands :: "string list" where
  "mixed_commands =
     [''date; printenv CLAGENTIC_IDENTITY_DIR'', ''ls && gatekeeper mint --role builder'',
      ''echo $(gatekeeper mint --role builder)'', ''cat README.md | xargs rm'', ''ls; find . -exec sh -c x {} +'',
      ''echo hi > out.txt'']"

definition hook_args :: "string \<Rightarrow> string \<Rightarrow> string \<Rightarrow> string list \<Rightarrow> string list" where
  "hook_args sock event state rest =
     [''hook'', ''claude-code'', event] @ rest @ [''--socket'', sock, ''--state-dir'', state, ''--mode'', ''enforce'']"

definition bash_payload_json :: "string \<Rightarrow> string \<Rightarrow> json" where
  "bash_payload_json agent_id command =
     JObj ((if agent_id = [] then [] else [(''agent_id'', JStr agent_id), (''agent_type'', JStr def_builder)])
       @ [(''hook_event_name'', JStr ''PreToolUse''), (''session_id'', JStr ''live-s1''),
          (''tool_input'', JObj [(''command'', JStr command)]), (''tool_name'', JStr ''Bash'')])"

datatype hook_fault = NotRun string | NotSilent | HookExit int | NotARewrite | NotOneStatement string | DecisionReturned string

definition silent :: "string + proc_result \<Rightarrow> hook_fault option" where
  "silent run =
     (case run of
        Inl e \<Rightarrow> Some (NotRun e)
      | Inr res \<Rightarrow> if pr_code res \<noteq> 0 \<or> pr_stdout res \<noteq> [] then Some NotSilent else None)"

text \<open>The decision and the command of a rewrite, read into the struct of the harness.\<close>

definition struct_member :: "string \<Rightarrow> json list \<Rightarrow> json list" where
  "struct_member name vs = concat (map (\<lambda>v. case v of JObj ms \<Rightarrow> field_values name ms | _ \<Rightarrow> []) vs)"

definition struct_or_null :: "json list \<Rightarrow> bool" where
  "struct_or_null vs = list_all (\<lambda>v. case v of JObj ms \<Rightarrow> True | JNull \<Rightarrow> True | _ \<Rightarrow> False) vs"

definition strings_or_null :: "json list \<Rightarrow> string option" where
  "strings_or_null vs =
     (if list_all (\<lambda>v. case v of JStr s \<Rightarrow> True | JNull \<Rightarrow> True | _ \<Rightarrow> False) vs
      then Some (fold (\<lambda>v acc. case v of JStr s \<Rightarrow> s | _ \<Rightarrow> acc) vs []) else None)"

definition decode_rewrite :: "string \<Rightarrow> (string \<times> string) option" where
  "decode_rewrite out =
     (case json_parse out of
        None \<Rightarrow> None
      | Some v \<Rightarrow>
          (let specific = struct_member ''hookSpecificOutput'' [v]; updated = struct_member ''updatedInput'' specific
           in if \<not> struct_or_null (v # specific @ updated) then None
              else case (strings_or_null (struct_member ''permissionDecision'' specific),
                         strings_or_null (struct_member ''command'' updated)) of
                     (Some d, Some c) \<Rightarrow> Some (d, c)
                   | _ \<Rightarrow> None))"

fun cut_at :: "string \<Rightarrow> string \<Rightarrow> (string \<times> string) option" where
  "cut_at sep [] = (if sep = [] then Some ([], []) else None)"
| "cut_at sep (c # s) =
     (if has_prefix (c # s) sep then Some ([], drop (length sep) (c # s))
      else map_option (\<lambda>(a, b). (c # a, b)) (cut_at sep s))"

definition delivery_prefix :: string where "delivery_prefix = ''export CLAGENTIC_IDENTITY_DIR=''"

definition split_delivery :: "string \<Rightarrow> (string \<times> string) option" where
  "split_delivery command =
     (if has_prefix command delivery_prefix then cut_at ''; '' (drop (length delivery_prefix) command) else None)"

definition bash_call_verdict :: "string \<Rightarrow> proc_result \<Rightarrow> hook_fault + string" where
  "bash_call_verdict command res =
     (if pr_code res \<noteq> 0 then Inl (HookExit (pr_code res))
      else case decode_rewrite (pr_stdout res) of
             None \<Rightarrow> Inl NotARewrite
           | Some (decision, rewritten) \<Rightarrow>
               (case split_delivery rewritten of
                  None \<Rightarrow> Inl (NotOneStatement rewritten)
                | Some (dir, rest) \<Rightarrow>
                    if rest \<noteq> command then Inl (NotOneStatement rewritten)
                    else if decision \<noteq> [] then Inl (DecisionReturned decision)
                    else Inr dir))"

text \<open>The hook leaves the harness's read-only commands alone and none of its mixed ones.\<close>
theorem harness_commands_verdict:
  "list_all cannot_use_identity read_only_commands \<and> list_all (\<lambda>c. \<not> cannot_use_identity c) mixed_commands"
  by code_simp

lemma deliverable_no_blank: "check_deliverable dir \<Longrightarrow> CHR '';'' \<notin> set dir"
proof
  assume d: "check_deliverable dir" "CHR '';'' \<in> set dir"
  then obtain r where r: "dir = CHR ''/'' # r" "list_all deliverable_char r"
    by (cases dir) (auto simp: check_deliverable_def has_prefix_def split: if_splits)
  with d(2) have "deliverable_char CHR '';''" by (auto simp: list_all_iff)
  then show False by (simp add: deliverable_char_def char_class_defs)
qed

lemma cut_at_free: "c \<notin> set a \<Longrightarrow> cut_at (c # sep) (a @ (c # sep) @ s) = Some (a, s)"
  by (induction a) (auto simp: has_prefix_def)

text \<open>A rewrite splits where the statement ends, whatever command follows it.\<close>
theorem delivery_splits:
  assumes "export_statement dir = Some stmt"
  shows "split_delivery (stmt @ command) = Some (dir, command)"
proof -
  from assms have d: "check_deliverable dir" "stmt = delivery_prefix @ dir @ ''; ''"
    by (auto simp: export_statement_Some export_lead_def env_dir_def delivery_prefix_def)
  from cut_at_free [OF deliverable_no_blank [OF d(1)], of "'' ''" command]
  show ?thesis by (simp add: split_delivery_def d(2))
qed

text \<open>The rewrite that the hook answers to the harness's payload passes its check, and gives the directory delivered.\<close>
theorem hook_rewrite_passes:
  assumes "export_statement dir = Some stmt" and "pr_code res = 0"
    and "json_parse (pr_stdout res) = Some (JObj (merge_rewrite [] [] [(''command'', JStr command)] (stmt @ command)))"
  shows "bash_call_verdict command res = Inr dir"
proof -
  have f: "fold_key ''hookSpecificOutput'' = ''hookspecificoutput''" "fold_key ''updatedInput'' = ''updatedinput''"
    "fold_key ''permissionDecision'' = ''permissiondecision''" "fold_key ''command'' = ''command''"
    "fold_key ''hookEventName'' = ''hookeventname''"
    by code_simp+
  have "decode_rewrite (pr_stdout res) = Some ([], stmt @ command)"
    by (simp add: decode_rewrite_def assms(3) merge_rewrite_def set_member_def lookup.simps struct_member_def field_values_def
        f struct_or_null_def strings_or_null_def Let_def)
  with delivery_splits [OF assms(1)] assms(2) show ?thesis by (simp add: bash_call_verdict_def)
qed

subsection \<open>Issued assertions\<close>

fun insert_word :: "string \<Rightarrow> string list \<Rightarrow> string list" where
  "insert_word x [] = [x]"
| "insert_word x (y # ys) = (if map code x \<le> map code y then x # y # ys else y # insert_word x ys)"

definition same_set :: "string list \<Rightarrow> string list \<Rightarrow> bool" where
  "same_set a b \<longleftrightarrow> foldr insert_word a [] = foldr insert_word b []"

datatype issued_fault = Unverified live_refusal | GradeIs string | RolesAre "string list" | NotUnderRoot | NotDelivered

text \<open>\<open>file\<close> is what reading the delivered file yields.\<close>

definition check_issued ::
    "crypto \<Rightarrow> jwk list \<Rightarrow> int \<Rightarrow> string \<Rightarrow> string option \<Rightarrow> issued \<Rightarrow> string list \<Rightarrow> string \<Rightarrow> issued_fault + live_claims" where
  "check_issued cr keys now spawn file out roles grade =
     (case live_verify cr (iss_token out) keys now of
        Inl e \<Rightarrow> Inl (Unverified e)
      | Inr c \<Rightarrow>
          if lc_grade c \<noteq> grade then Inl (GradeIs (lc_grade c))
          else if \<not> same_set (lc_roles c) roles \<or> \<not> same_set (iss_roles out) roles then Inl (RolesAre (lc_roles c))
          else if \<not> has_prefix (iss_dir out) (spawn @ ''/'') then Inl NotUnderRoot
          else if map_option trim_space file \<noteq> Some (iss_token out) then Inl NotDelivered
          else Inr c)"

lemma mset_insert_word: "mset (insert_word x ys) = add_mset x (mset ys)"
  by (induction ys) auto

lemma sorted_insert_word: "sorted (map (map code) ys) \<Longrightarrow> sorted (map (map code) (insert_word x ys))"
proof (induction ys)
  case (Cons y ys)
  have "set (insert_word x ys) = insert x (set ys)" for ys by (metis mset_insert_word set_mset_add_mset_insert set_mset_mset)
  with Cons show ?case by auto
qed simp

text \<open>\<open>sameSet\<close> compares up to the order, and with the multiplicity.\<close>
theorem same_set_iff: "same_set a b \<longleftrightarrow> mset a = mset b"
proof -
  have m: "mset (foldr insert_word xs []) = mset xs" for xs by (induction xs) (simp_all add: mset_insert_word)
  have s: "sorted (map (map code) (foldr insert_word xs []))" for xs by (induction xs) (simp_all add: sorted_insert_word)
  have inj: "inj (map code)" by (auto simp: inj_def code_eq_iff inj_on_def intro: map_inj_on)
  show ?thesis
  proof
    assume "same_set a b"
    then show "mset a = mset b" using m [of a] m [of b] by (simp add: same_set_def)
  next
    assume "mset a = mset b"
    then have "mset (map (map code) (foldr insert_word a [])) = mset (map (map code) (foldr insert_word b []))" by (simp add: m)
    then have "map (map code) (foldr insert_word a []) = map (map code) (foldr insert_word b [])"
      using s [of a] s [of b] by (metis sorted_sort_id properties_for_sort)
    then show "same_set a b" using inj by (simp add: same_set_def inj_map_eq_map)
  qed
qed

subsection \<open>Shapes with an agent runtime\<close>

text \<open>An attempt ends in an error of the harness, or in a run with what the runtime refused and what the check said of it;
  only a check that says so is tried again.\<close>

datatype attempt = AttemptFailed shape_end | Attempted "string list" "(bool \<times> string) option"

definition unruled_shape :: string where "unruled_shape = ''runtime-claude-code/unruled-command-still-prompts''"

fun attempts_loop :: "string \<Rightarrow> nat \<Rightarrow> attempt list \<Rightarrow> shape_end \<Rightarrow> shape_end" where
  "attempts_loop name 0 as prev = prev"
| "attempts_loop name (Suc n) [] prev = prev"
| "attempts_loop name (Suc n) (AttemptFailed e # as) prev = e"
| "attempts_loop name (Suc n) (Attempted denials judged # as) prev =
     (if name \<noteq> unruled_shape \<and> denials \<noteq> [] then ShapeFails (''a permission denial occurred: '' @ join_with '' | '' denials)
      else case judged of
             None \<Rightarrow> ShapeDone
           | Some (again, e) \<Rightarrow> if again then attempts_loop name n as (ShapeFails e) else ShapeFails e)"

definition runtime_shape :: "string \<Rightarrow> live_options \<Rightarrow> attempt list \<Rightarrow> shape_end" where
  "runtime_shape name opts as = attempts_loop name (nat (lo_attempts opts)) as ShapeDone"

text \<open>The last result record among the lines of the runtime's output, and the refusals in it.\<close>

definition is_result_record :: "string \<Rightarrow> (string \<times> json) list option" where
  "is_result_record line =
     (case json_parse line of
        Some (JObj ms) \<Rightarrow> if lookup ''type'' ms = Some (JStr ''result'') then Some ms else None
      | _ \<Rightarrow> None)"

definition final_record :: "string \<Rightarrow> (string \<times> json) list option" where
  "final_record out =
     fold (\<lambda>line acc. case is_result_record line of Some ms \<Rightarrow> Some ms | None \<Rightarrow> acc) (split_on CHR 0x0A out) None"

definition obj_of :: "json option \<Rightarrow> (string \<times> json) list" where
  "obj_of v = (case v of Some (JObj ms) \<Rightarrow> ms | _ \<Rightarrow> [])"

definition denials_of :: "(string \<times> json) list \<Rightarrow> string list" where
  "denials_of final =
     map (\<lambda>item. let m = obj_of (Some item)
            in str_of (lookup ''tool_name'' m) @ '': '' @ str_of (lookup ''command'' (obj_of (lookup ''tool_input'' m))))
       (case lookup ''permission_denials'' final of Some (JArr items) \<Rightarrow> items | _ \<Rightarrow> [])"

text \<open>\<open>present\<close> is whether a directory is still there, \<open>grade_in\<close> the grade of the assertion that verifies in it.\<close>

fun count_sessions :: "(string \<Rightarrow> bool) \<Rightarrow> (string \<Rightarrow> string option) \<Rightarrow> string list \<Rightarrow> nat option" where
  "count_sessions present grade_in [] = Some 0"
| "count_sessions present grade_in (d # ds) =
     (if \<not> present d then count_sessions present grade_in ds
      else case grade_in d of
             None \<Rightarrow> None
           | Some g \<Rightarrow> map_option (\<lambda>n. if g = ''workload'' then Suc n else n) (count_sessions present grade_in ds))"

definition expect_dirs :: "(string \<Rightarrow> bool) \<Rightarrow> (string \<Rightarrow> string option) \<Rightarrow> string list \<Rightarrow> nat \<Rightarrow> (bool \<times> string) option" where
  "expect_dirs present grade_in dirs want =
     (if length dirs < want then Some (True, ''too few directories'')
      else case count_sessions present grade_in dirs of
             None \<Rightarrow> Some (False, ''a delivered assertion does not verify'')
           | Some 0 \<Rightarrow> Some (False, ''no delivered session assertion is left to verify'')
           | Some n \<Rightarrow> None)"

definition add_allow_rules :: "(string \<times> json) list \<Rightarrow> string list \<Rightarrow> (string \<times> json) list" where
  "add_allow_rules doc rules =
     (let perms = obj_of (lookup ''permissions'' doc);
          allow = (case lookup ''allow'' perms of Some (JArr vs) \<Rightarrow> vs | _ \<Rightarrow> [])
      in set_member doc ''permissions'' (JObj (set_member perms ''allow'' (JArr (allow @ map JStr rules)))))"

text \<open>A runtime shape passes only on an attempt that passed its check with nothing refused, each attempt before it having
  asked for another, and within the attempts allowed.\<close>
theorem runtime_shape_passes:
  assumes "runtime_shape name opts as = ShapeDone" and "0 < lo_attempts opts" and "as \<noteq> []"
    and "AttemptFailed ShapeDone \<notin> set as"
  shows "\<exists>i denials. i < nat (lo_attempts opts) \<and> i < length as \<and> as ! i = Attempted denials None
    \<and> (name \<noteq> unruled_shape \<longrightarrow> denials = []) \<and> (\<forall>j < i. \<exists>ds e. as ! j = Attempted ds (Some (True, e)))"
proof -
  have "\<exists>i denials. i < n \<and> i < length as \<and> as ! i = Attempted denials None
      \<and> (name \<noteq> unruled_shape \<longrightarrow> denials = []) \<and> (\<forall>j < i. \<exists>ds e. as ! j = Attempted ds (Some (True, e)))"
    if "attempts_loop name n as prev = ShapeDone" "prev = ShapeDone \<longrightarrow> 0 < n \<and> as \<noteq> []" "AttemptFailed ShapeDone \<notin> set as" for n as prev
    using that
  proof (induction name n as prev rule: attempts_loop.induct)
    case (4 name n denials judged as prev)
    show ?case
    proof (cases judged)
      case None
      with 4 show ?thesis by (intro exI [of _ 0]) (auto split: if_splits)
    next
      case (Some v)
      then obtain e where v: "judged = Some (True, e)" using 4 by (cases v) (auto split: if_splits)
      have p: "\<not> (name \<noteq> unruled_shape \<and> denials \<noteq> [])" using 4(2) by (auto split: if_splits)
      have "attempts_loop name n as (ShapeFails e) = ShapeDone" using 4(2) p v by simp
      from 4(1) [OF p v refl TrueI this] 4(4) obtain i ds where i: "i < n" "i < length as" "as ! i = Attempted ds None"
        "name \<noteq> unruled_shape \<longrightarrow> ds = []" "\<forall>j < i. \<exists>ds e. as ! j = Attempted ds (Some (True, e))" by auto
      have "\<exists>ds e. (Attempted denials judged # as) ! j = Attempted ds (Some (True, e))" if "j < Suc i" for j
        using that i(5) v by (cases j) auto
      with i show ?thesis by (intro exI [of _ "Suc i"] exI [of _ ds]) auto
    qed
  qed auto
  from this [of "nat (lo_attempts opts)" as ShapeDone] assms show ?thesis by (simp add: runtime_shape_def)
qed

end
