(* ===== verification/LiveEnv.thy ===== *)
theory LiveEnv
  imports LiveTest Flags GoPath Broker
begin

text \<open>
  The environment of the live test harness (\<open>internal/livetest/env_linux.go\<close>), its stub of the git host and the
  secret store (\<open>fixture_linux.go\<close>), and its command line (\<open>cmd/livetest/main.go\<close>). What the processes do, and in
  what state each poll finds the files and the server, is input.
\<close>

subsection \<open>The command line\<close>

definition live_flags :: flag_set where
  "live_flags = (strings_set [''source'', ''binary'', ''temp-dir'', ''runtime-cli'', ''runtime-env''])
     (''no-runtime'' \<mapsto> BoolFlag, ''require-runtime'' \<mapsto> BoolFlag, ''runtime-attempts'' \<mapsto> IntFlag,
      ''runtime-timeout'' \<mapsto> DurationFlag)"

text \<open>The options, or \<open>None\<close> for exit code 2; \<open>--runtime-env\<close> is collected, every other flag is the last one given.\<close>

definition live_main :: "flag_readers \<Rightarrow> string \<Rightarrow> string list \<Rightarrow> live_options option" where
  "live_main rd cli args =
     (case parse_flags rd live_flags args of
        Inl e \<Rightarrow> None
      | Inr (vals, left) \<Rightarrow>
          (let env = map snd (filter (\<lambda>(n, v). n = ''runtime-env'') vals)
           in if \<not> list_all (\<lambda>kv. contains kv ''='') env then None
              else Some \<lparr>lo_source = string_value vals ''source'' ''.'', lo_binary = string_value vals ''binary'' [],
                lo_temp_parent = string_value vals ''temp-dir'' [], lo_runtime_cli = string_value vals ''runtime-cli'' cli,
                lo_runtime_env = env, lo_no_runtime = bool_value vals ''no-runtime'',
                lo_require_runtime = bool_value vals ''require-runtime'',
                lo_attempts = read_value (rd_int rd) vals ''runtime-attempts'' 2,
                lo_timeout = read_value (rd_duration rd) vals ''runtime-timeout'' (240 * 1000000000)\<rparr>))"

subsection \<open>The environment\<close>

definition max_socket_path :: nat where "max_socket_path = 108"

definition caller_env :: "string list \<Rightarrow> string list" where
  "caller_env env = filter (\<lambda>kv. \<not> (has_prefix kv ''CLAGENTIC_IDENTITY_DIR='' \<or> has_prefix kv ''CLAUDECODE='')) env"

definition base_env :: "string \<Rightarrow> string \<Rightarrow> string list" where
  "base_env path dir = [''PATH='' @ path, ''HOME='' @ dir, ''TMPDIR='' @ dir]"

record run_opts =
  ro_stdin :: string
  ro_env :: "string list"
  ro_full :: bool
  ro_dir :: string

definition run_env :: "string list \<Rightarrow> string \<Rightarrow> string \<Rightarrow> run_opts \<Rightarrow> string list" where
  "run_env env path dir o1 = (if ro_full o1 then caller_env env else base_env path dir) @ ro_env o1"

text \<open>How a command ended: by itself with a code, or in an error of starting or waiting for it.\<close>

datatype command_end = Exited int | CommandFailed string

definition run_result :: "bool \<Rightarrow> string \<Rightarrow> command_end \<Rightarrow> string + int" where
  "run_result cancelled ctx_err e =
     (case e of
        Exited n \<Rightarrow> if n = 0 then Inr 0 else if \<not> cancelled then Inr n else Inl ctx_err
      | CommandFailed msg \<Rightarrow> if cancelled then Inl ctx_err else Inl msg)"

text \<open>One poll while the server starts: whether its two files are there, and else which of the channels was ready.\<close>

datatype wake = ServeExited | DeadlinePassed | ContextEnded string | PollAgain

fun wait_ready :: "(bool \<times> bool \<times> wake) list \<Rightarrow> string option option" where
  "wait_ready [] = None"
| "wait_ready ((sock, keys, wk) # polls) =
     (if sock \<and> keys then Some None
      else case wk of
             ServeExited \<Rightarrow> Some (Some ''serve exited before it was ready'')
           | DeadlinePassed \<Rightarrow> Some (Some ''serve was not ready in 20s'')
           | ContextEnded e \<Rightarrow> Some (Some e)
           | PollAgain \<Rightarrow> wait_ready polls)"

text \<open>Taking it down: the signals sent, what is left of the directory, and the errors joined.\<close>

datatype env_signal = SigTerm | SigKill

record closing_world =
  cw_serve :: bool
  cw_ends_on_term :: bool
  cw_ends_on_kill :: bool
  cw_remove :: "string option"
  cw_still_there :: bool

definition close_env :: "string \<Rightarrow> closing_world \<Rightarrow> env_signal list \<times> string list" where
  "close_env dir w =
     (let sigs = (if cw_serve w then SigTerm # (if cw_ends_on_term w then [] else [SigKill]) else []);
          e1 = (if cw_serve w \<and> \<not> cw_ends_on_term w \<and> \<not> cw_ends_on_kill w then [''serve did not exit''] else []);
          e2 = (if dir = [] then []
                else case cw_remove w of
                       Some e \<Rightarrow> [e]
                     | None \<Rightarrow> if cw_still_there w then [''the private directory is still present''] else [])
      in (sigs, e1 @ e2))"

text \<open>\<open>errors.Join\<close>, and the environment whose setup failed: it is taken down before the error is returned.\<close>

definition joined :: "string list \<Rightarrow> string option" where
  "joined es = (if es = [] then None else Some (join_with [CHR 0x0A] es))"

definition new_env :: "(string + string) \<Rightarrow> (string \<Rightarrow> string option) \<Rightarrow> closing_world \<Rightarrow> (string + string) \<times> env_signal list" where
  "new_env made setup w =
     (case made of
        Inl e \<Rightarrow> (Inl (''create the private directory: '' @ e), [])
      | Inr dir \<Rightarrow>
          (if length (path_join [dir, ''s.sock'']) \<ge> max_socket_path \<or> setup dir \<noteq> None then
             (let err = (if length (path_join [dir, ''s.sock'']) \<ge> max_socket_path then ''the socket path is too long'' else the (setup dir))
              in (Inl (the (joined (err # snd (close_env dir w)))), fst (close_env dir w)))
           else (Inr dir, [])))"

subsection \<open>The stub\<close>

record token_stub =
  ts_secrets :: "string \<rightharpoonup> string"
  ts_exchanges :: "string list"
  ts_logins :: nat
  ts_reads :: nat

definition stub_role_id :: string where "stub_role_id = ''example-role-id''"
definition stub_secret_id :: string where "stub_secret_id = ''example-secret-id''"
definition stub_client_token :: string where "stub_client_token = ''example-client-token''"

definition stub_ok :: "json \<Rightarrow> nat \<times> string" where
  "stub_ok v = (200, json_encode v @ [CHR 0x0A])"

definition stub_denied :: "nat \<times> string" where
  "stub_denied = (403, ''denied'' @ [CHR 0x0A])"

definition stub_exchange :: "string \<Rightarrow> token_stub \<Rightarrow> (nat \<times> string) \<times> token_stub" where
  "stub_exchange body s =
     (stub_ok (JObj [(''expires_at'', JStr ''2099-01-01T00:00:00Z''), (''token'', JStr ''ghs_livetest_token'')]),
      s\<lparr>ts_exchanges := ts_exchanges s @ [body]\<rparr>)"

definition stub_login :: "string \<Rightarrow> token_stub \<Rightarrow> (nat \<times> string) \<times> token_stub" where
  "stub_login body s =
     (case decode_first body of
        Some (JObj ms) \<Rightarrow>
          if string_field [] ''role_id'' ms = Some stub_role_id \<and> string_field [] ''secret_id'' ms = Some stub_secret_id
          then (stub_ok (JObj [(''auth'', JObj [(''client_token'', JStr stub_client_token)])]), s\<lparr>ts_logins := ts_logins s + 1\<rparr>)
          else (stub_denied, s)
      | _ \<Rightarrow> (stub_denied, s))"

definition stub_read :: "string \<Rightarrow> string \<Rightarrow> token_stub \<Rightarrow> (nat \<times> string) \<times> token_stub" where
  "stub_read token path s =
     (let s' = s\<lparr>ts_reads := ts_reads s + 1\<rparr>
      in if token \<noteq> stub_client_token then (stub_denied, s')
         else case ts_secrets s (trim_prefix path ''/v1/'') of
                None \<Rightarrow> ((404, ''404 page not found'' @ [CHR 0x0A]), s')
              | Some v \<Rightarrow> (stub_ok (JObj [(''data'', JObj [(''value'', JStr v)])]), s'))"

text \<open>The routes of the stub, as a server of the requests of a modelled client.\<close>

definition header_of :: "string \<Rightarrow> http_request \<Rightarrow> string" where
  "header_of name r = (case map_of (rq_headers r) name of Some v \<Rightarrow> v | None \<Rightarrow> [])"

definition stub_serve :: "string \<Rightarrow> token_stub \<Rightarrow> http_request \<Rightarrow> (nat \<times> string) \<times> token_stub" where
  "stub_serve url s r =
     (let path = drop (length url) (rq_url r)
      in if path = ''/v1/auth/approle/login'' then stub_login (rq_body r) s
         else if has_prefix path ''/app/installations/'' then stub_exchange (rq_body r) s
         else if has_prefix path ''/v1/'' then stub_read (header_of ''X-Vault-Token'' r) path s
         else ((404, ''404 page not found'' @ [CHR 0x0A]), s))"

definition stub_client :: "string \<Rightarrow> token_stub \<Rightarrow> http_client" where
  "stub_client url s r = (case fst (stub_serve url s r) of (status, body) \<Rightarrow> Inr (status, Inr body))"

lemma stub_ok_decoded:
  assumes "encodable (JObj ms)" and "fits 0 (JObj ms)"
  shows "stub_ok (JObj ms) = (200, json_encode (JObj ms) @ [CHR 0x0A])"
    and "decode_first (json_encode (JObj ms) @ [CHR 0x0A]) = Some (JObj ms)"
proof -
  have "tokens [CHR 0x0A] = Some []" by (simp add: tokens.simps(2) json_space_def)
  from json_parse_object_then [OF assms this]
  show "decode_first (json_encode (JObj ms) @ [CHR 0x0A]) = Some (JObj ms)" by (rule decode_first_object)
qed (simp add: stub_ok_def)

lemma stub_names:
  "utf8_valid ''auth''" "utf8_valid ''client_token''" "utf8_valid stub_client_token" "utf8_valid ''data''" "utf8_valid ''value''"
  "utf8_valid ''role_id''" "utf8_valid ''secret_id''" "utf8_valid stub_role_id" "utf8_valid stub_secret_id"
  by (rule utf8_ascii; simp add: code_def stub_client_token_def stub_role_id_def stub_secret_id_def)+

lemma stub_fields:
  "fold_key ''auth'' = ''auth''" "fold_key ''client_token'' = ''client_token''" "fold_key ''data'' = ''data''"
  "fold_key ''value'' = ''value''" "fold_key ''role_id'' = ''role_id''" "fold_key ''secret_id'' = ''secret_id''"
  by code_simp+

text \<open>The stub is a secret store to the program: with the role's credentials in the environment the OpenBao broker gets every
  secret of the stub through it.\<close>
theorem stub_serves_broker:
  assumes "ob_endpoint b = url" and "ob_auth b = ''approle''"
    and "getenv h ''BROKER_ROLE_ID'' = stub_role_id" and "getenv h ''BROKER_SECRET_ID'' = stub_secret_id"
    and "ts_secrets s path = Some v" and "v \<noteq> []" and "utf8_valid v"
    and "trim_left_slashes path = path" and "path \<noteq> ''auth/approle/login''"
  shows "openbao_get (stub_client url s) h b path = Inr v"
proof -
  let ?login = "JObj [(''role_id'', JStr stub_role_id), (''secret_id'', JStr stub_secret_id)]"
  let ?auth = "[(''auth'', JObj [(''client_token'', JStr stub_client_token)])]"
  let ?data = "[(''data'', JObj [(''value'', JStr v)])]"
  have l: "decode_first (json_encode ?login) = Some ?login"
    by (rule decode_first_object, rule json_parse_encode) (simp_all add: stub_names max_depth_def)
  have a: "decode_first (json_encode (JObj ?auth) @ [CHR 0x0A]) = Some (JObj ?auth)"
    and d: "decode_first (json_encode (JObj ?data) @ [CHR 0x0A]) = Some (JObj ?data)"
    by (rule stub_ok_decoded; simp add: stub_names assms(7) max_depth_def)+
  have ne: "stub_role_id \<noteq> []" "stub_secret_id \<noteq> []" "stub_client_token \<noteq> []"
    by (simp_all add: stub_role_id_def stub_secret_id_def stub_client_token_def)
  have "stub_client url s (openbao_login b stub_role_id stub_secret_id) = Inr (200, Inr (json_encode (JObj ?auth) @ [CHR 0x0A]))"
    using l by (simp add: stub_client_def stub_serve_def openbao_login_def assms(1) stub_login_def string_field_def field_values_def
        stub_fields stub_ok_def del: json_encode.simps)
  with a ne have tok: "openbao_client_token (stub_client url s) h b = Inr stub_client_token"
    by (simp add: openbao_client_token_def assms(2-4) nested_string_def struct_string_def string_field_def field_values_def
        stub_fields del: json_encode.simps)
  have p: "''/v1/'' @ path \<noteq> ''/v1/auth/approle/login''" "\<not> has_prefix (''/v1/'' @ path) ''/app/installations/''"
    using assms(9) by (simp_all add: has_prefix_def)
  have "stub_client url s \<lparr>rq_method = ''GET'', rq_url = url @ ''/v1/'' @ path, rq_headers = [(''X-Vault-Token'', stub_client_token)],
      rq_body = []\<rparr> = Inr (200, Inr (json_encode (JObj ?data) @ [CHR 0x0A]))"
    using p assms(5) by (simp add: stub_client_def stub_serve_def stub_read_def header_of_def trim_prefix_def has_prefix_def Let_def
        stub_ok_def del: json_encode.simps)
  with d tok show ?thesis
    by (simp add: openbao_get_def assms(1,8) raw_member_def field_values_def openbao_value_def nested_string_def
        struct_string_def string_field_def stub_fields assms(6) del: json_encode.simps)
qed

text \<open>The environment is handed out only when its socket and its key set are there.\<close>

lemma wait_ready_ready: "wait_ready polls = Some None \<Longrightarrow> \<exists>wk. (True, True, wk) \<in> set polls"
  by (induction polls rule: wait_ready.induct) (auto split: if_splits wake.splits)

lemma close_env_clean:
  "snd (close_env dir w) = [] \<longleftrightarrow>
     (cw_serve w \<longrightarrow> cw_ends_on_term w \<or> cw_ends_on_kill w) \<and> (dir \<noteq> [] \<longrightarrow> cw_remove w = None \<and> \<not> cw_still_there w)"
  by (auto simp: close_env_def Let_def split: option.splits)

end
